(* ===== verification/Prelude.thy ===== *)
theory Prelude
  imports Main "HOL-Library.Char_ord" "HOL-Library.List_Lexorder"
begin

text \<open>
  What every component shares: the errors and results of the Go code, the part of Go's string
  library the sources use, calls on an outside service as world-passing functions that may
  fail, and the generic lemmas on them. A Go string is a byte string; its order
  (\<^verbatim>\<open>sort.Strings\<close>) is the lexicographic order of the bytes, which is the order
  \<open>HOL-Library.List_Lexorder\<close> gives \<^typ>\<open>string\<close>.
\<close>

named_theorems act_simps \<open>unfolding rules of world-passing calls\<close>
named_theorems str_simps \<open>equations of the string functions\<close>

section \<open>Errors and results\<close>

text \<open>
  An error of the program. \<open>ErrResponse\<close> is \<^verbatim>\<open>gophercloud.ErrUnexpectedResponseCode\<close>
  (status code, body, rendered text); \<open>ErrText\<close> is a plain message
  (\<^verbatim>\<open>errors.New\<close>, \<^verbatim>\<open>fmt.Errorf\<close> with no wrapped error);
  \<open>ErrWrap\<close> is \<^verbatim>\<open>fmt.Errorf("...: %w")\<close>; \<open>ErrPanic\<close> is a run-time panic, such as a call on a nil
  interface, which no \<^verbatim>\<open>err != nil\<close> sees; \<open>ErrAsNotFound\<close>, \<open>ErrAsInvalidInput\<close> and
  \<open>ErrInvalidInput\<close> are the kinds of virtual-kubelet's \<^verbatim>\<open>errdefs\<close>; the others are the error values the sources compare against.
\<close>

datatype err =
    ErrText string
  | ErrWrap string err
  | ErrResponse int string string
  | ErrPolicyPending string
  | ErrNotFound
  | ErrKubeNotFound string
  | ErrPanic string
  | ErrAsNotFound err
  | ErrAsInvalidInput err
  | ErrInvalidInput string

type_synonym 'a result = "err + 'a"

fun err_text :: "err \<Rightarrow> string" where
  "err_text (ErrText t) = t"
| "err_text (ErrWrap p e) = p @ '': '' @ err_text e"
| "err_text (ErrResponse _ _ t) = t"
| "err_text (ErrPolicyPending p) =
     ''policy '' @ p @ '' has not been prepared yet; the pod will be retried''"
| "err_text ErrNotFound = ''not found''"
| "err_text (ErrKubeNotFound t) = t"
| "err_text (ErrPanic t) = t"
| "err_text (ErrAsNotFound e) = err_text e"
| "err_text (ErrAsInvalidInput e) = err_text e"
| "err_text (ErrInvalidInput t) = t"

text \<open>\<^verbatim>\<open>errors.As\<close> with a response-code target: the first one in the wrapping chain.\<close>

fun response_of :: "err \<Rightarrow> (int \<times> string) option" where
  "response_of (ErrResponse c b _) = Some (c, b)"
| "response_of (ErrWrap _ e) = response_of e"
| "response_of _ = None"

definition response_code_is :: "err \<Rightarrow> int \<Rightarrow> bool" where
  "response_code_is e c = (case response_of e of None \<Rightarrow> False | Some (d, _) \<Rightarrow> d = c)"

fun bind_r :: "'a result \<Rightarrow> ('a \<Rightarrow> 'b result) \<Rightarrow> 'b result" where
  "bind_r (Inl e) f = Inl e"
| "bind_r (Inr x) f = f x"

text \<open>A loop over a list that stops at the first error: with a state, and with one result for each element.\<close>

fun fold_r :: "('a \<Rightarrow> 'b \<Rightarrow> 'b result) \<Rightarrow> 'a list \<Rightarrow> 'b \<Rightarrow> 'b result" where
  "fold_r f [] b = Inr b"
| "fold_r f (x # xs) b = bind_r (f x b) (fold_r f xs)"

fun map_r :: "('a \<Rightarrow> 'b result) \<Rightarrow> 'a list \<Rightarrow> 'b list result" where
  "map_r f [] = Inr []"
| "map_r f (x # xs) = bind_r (f x) (\<lambda>y. bind_r (map_r f xs) (\<lambda>ys. Inr (y # ys)))"

lemma bind_r_Inr_iff: "bind_r r f = Inr y \<longleftrightarrow> (\<exists>x. r = Inr x \<and> f x = Inr y)"
  by (cases r) auto

lemma fold_r_invariant:
  assumes "fold_r f xs b = Inr b'" and "P b" and "\<And>x b b'. x \<in> set xs \<Longrightarrow> P b \<Longrightarrow> f x b = Inr b' \<Longrightarrow> P b'"
  shows "P b'"
  using assms by (induction xs arbitrary: b) (auto simp: bind_r_Inr_iff)

lemma fold_r_append: "fold_r f (xs @ ys) b = bind_r (fold_r f xs b) (fold_r f ys)"
proof (induction xs arbitrary: b)
  case (Cons x xs)
  then show ?case by (cases "f x b") simp_all
qed simp

lemma map_r_Inr_iff: "map_r f xs = Inr ys \<longleftrightarrow> list_all2 (\<lambda>x y. f x = Inr y) xs ys"
  by (induction xs arbitrary: ys) (auto simp: bind_r_Inr_iff list_all2_Cons1)

lemmas map_r_all2 = map_r_Inr_iff [THEN iffD1]

section \<open>Strings\<close>

definition has_prefix :: "string \<Rightarrow> string \<Rightarrow> bool" where
  "has_prefix s p = (take (length p) s = p)"

definition has_suffix :: "string \<Rightarrow> string \<Rightarrow> bool" where
  "has_suffix s p = has_prefix (rev s) (rev p)"

definition trim_prefix :: "string \<Rightarrow> string \<Rightarrow> string" where
  "trim_prefix s p = (if has_prefix s p then drop (length p) s else s)"

definition trim_suffix :: "string \<Rightarrow> string \<Rightarrow> string" where
  "trim_suffix s p = (if has_suffix s p then take (length s - length p) s else s)"

text \<open>\<^verbatim>\<open>strings.Cut\<close> at a one-character separator; \<open>None\<close> is "not found".\<close>

fun cut_at :: "char \<Rightarrow> string \<Rightarrow> (string \<times> string) option" where
  "cut_at c [] = None"
| "cut_at c (x # xs) =
     (if x = c then Some ([], xs) else map_option (\<lambda>(a, b). (x # a, b)) (cut_at c xs))"

fun contains_str :: "string \<Rightarrow> string \<Rightarrow> bool" where
  "contains_str [] p = (p = [])"
| "contains_str (x # xs) p = (has_prefix (x # xs) p \<or> contains_str xs p)"

definition is_space :: "char \<Rightarrow> bool" where
  "is_space c = (c \<in> {CHR '' '', CHR 0x09, CHR 0x0A, CHR 0x0B, CHR 0x0C, CHR 0x0D})"

definition trim_space :: "string \<Rightarrow> string" where
  "trim_space s = rev (dropWhile is_space (rev (dropWhile is_space s)))"

text \<open>Case mapping of the ASCII letters; the names mapped are protocol names.\<close>

definition lower_char :: "char \<Rightarrow> char" where
  "lower_char c = (if CHR ''A'' \<le> c \<and> c \<le> CHR ''Z'' then char_of (of_char c + (32 :: nat)) else c)"

definition upper_char :: "char \<Rightarrow> char" where
  "upper_char c = (if CHR ''a'' \<le> c \<and> c \<le> CHR ''z'' then char_of (of_char c - (32 :: nat)) else c)"

definition to_lower :: "string \<Rightarrow> string" where
  "to_lower = map lower_char"

definition to_upper :: "string \<Rightarrow> string" where
  "to_upper = map upper_char"

text \<open>Decimal rendering, \<^verbatim>\<open>%d\<close>.\<close>

fun show_nat :: "nat \<Rightarrow> string" where
  "show_nat n =
     (if n < 10 then [char_of (n + 48)] else show_nat (n div 10) @ [char_of (n mod 10 + 48)])"

declare show_nat.simps [simp del]

definition show_int :: "int \<Rightarrow> string" where
  "show_int i = (if i < 0 then ''-'' @ show_nat (nat (- i)) else show_nat (nat i))"

text \<open>\<^verbatim>\<open>strings.Join\<close>.\<close>

fun join_str :: "string \<Rightarrow> string list \<Rightarrow> string" where
  "join_str sep [] = []"
| "join_str sep [x] = x"
| "join_str sep (x # y # ys) = x @ sep @ join_str sep (y # ys)"

text \<open>\<^verbatim>\<open>%q\<close> for the ASCII names it is used on: quotes, with quote and backslash escaped.\<close>

definition quote_str :: "string \<Rightarrow> string" where
  "quote_str s =
     [CHR 0x22] @ concat (map (\<lambda>c. if c = CHR 0x22 \<or> c = CHR 0x5C then [CHR 0x5C, c] else [c]) s)
       @ [CHR 0x22]"

text \<open>The keys of a Go set or map after \<^verbatim>\<open>sort.Strings\<close>: sorted, each once.\<close>

definition sorted_keys :: "string list \<Rightarrow> string list" where
  "sorted_keys xs = sort (remdups xs)"

section \<open>Calls on an outside service\<close>

text \<open>
  A call takes the world (whatever the services behind the clients hold) and returns a result
  and the world after it. Sequencing stops at the first error, as the early returns of the
  sources do; a loop over a slice does the same.
\<close>

type_synonym ('w, 'a) act = "'w \<Rightarrow> 'a result \<times> 'w"

definition ret :: "'a \<Rightarrow> ('w, 'a) act" where
  [act_simps]: "ret x w = (Inr x, w)"

definition fail :: "err \<Rightarrow> ('w, 'a) act" where
  [act_simps]: "fail e w = (Inl e, w)"

definition bind_a :: "('w, 'a) act \<Rightarrow> ('a \<Rightarrow> ('w, 'b) act) \<Rightarrow> ('w, 'b) act" where
  "bind_a m f w = (case m w of (Inl e, w') \<Rightarrow> (Inl e, w') | (Inr x, w') \<Rightarrow> f x w')"

text \<open>An error is wrapped with a message, or swallowed when it says "already so".\<close>

definition wrap_err :: "string \<Rightarrow> ('w, 'a) act \<Rightarrow> ('w, 'a) act" where
  "wrap_err p m w = (case m w of (Inl e, w') \<Rightarrow> (Inl (ErrWrap p e), w') | (Inr x, w') \<Rightarrow> (Inr x, w'))"

definition ignore_if :: "(err \<Rightarrow> bool) \<Rightarrow> ('w, unit) act \<Rightarrow> ('w, unit) act" where
  "ignore_if p m w =
     (case m w of (Inl e, w') \<Rightarrow> ((if p e then Inr () else Inl e), w') | (Inr x, w') \<Rightarrow> (Inr x, w'))"

definition lift_r :: "'a result \<Rightarrow> ('w, 'a) act" where
  [act_simps]: "lift_r r w = (r, w)"

fun for_each :: "('a \<Rightarrow> ('w, unit) act) \<Rightarrow> 'a list \<Rightarrow> ('w, unit) act" where
  "for_each f [] = ret ()"
| "for_each f (x # xs) = bind_a (f x) (\<lambda>_. for_each f xs)"

fun fold_act :: "('b \<Rightarrow> 'a \<Rightarrow> ('w, 'b) act) \<Rightarrow> 'b \<Rightarrow> 'a list \<Rightarrow> ('w, 'b) act" where
  "fold_act f b [] = ret b"
| "fold_act f b (x # xs) = bind_a (f b x) (\<lambda>b'. fold_act f b' xs)"

text \<open>
  A paged listing (\<^verbatim>\<open>EachPage\<close>) is the sequence of its pages, each fetched or
  failed. Collecting appends every page and stops at the first failure; looking for the first
  item stops at the first page that has one, and does not fetch what follows.
\<close>

type_synonym 'a pages = "'a list result list"

fun collect_pages :: "'a pages \<Rightarrow> 'a list result" where
  "collect_pages [] = Inr []"
| "collect_pages (Inl e # ps) = Inl e"
| "collect_pages (Inr xs # ps) = bind_r (collect_pages ps) (\<lambda>ys. Inr (xs @ ys))"

fun first_of_pages :: "'a pages \<Rightarrow> 'a option result" where
  "first_of_pages [] = Inr None"
| "first_of_pages (Inl e # ps) = Inl e"
| "first_of_pages (Inr [] # ps) = first_of_pages ps"
| "first_of_pages (Inr (x # xs) # ps) = Inr (Some x)"

section \<open>Lemmas on results and calls\<close>

lemma bind_a_Inr_iff [act_simps]:
  "bind_a m f w = (Inr y, w') \<longleftrightarrow> (\<exists>x v. m w = (Inr x, v) \<and> f x v = (Inr y, w'))"
  by (auto simp: bind_a_def split: prod.splits sum.splits)

text \<open>A sequence ended either where its first call failed or where its rest did.\<close>

lemma bind_aE:
  assumes "bind_a m f w = (r, w')"
  obtains e where "m w = (Inl e, w')" "r = Inl e" | x v where "m w = (Inr x, v)" "f x v = (r, w')"
  using assms by (cases "m w" rule: prod.exhaust) (auto simp: bind_a_def split: sum.splits)

lemma wrap_err_Inr_iff [act_simps]: "wrap_err p m w = (Inr y, w') \<longleftrightarrow> m w = (Inr y, w')"
  by (auto simp: wrap_err_def split: prod.splits sum.splits)

lemma ignore_if_Inr_iff [act_simps]:
  "ignore_if p m w = (Inr u, w') \<longleftrightarrow>
     m w = (Inr (), w') \<or> (\<exists>e. m w = (Inl e, w') \<and> p e)"
  by (cases u) (auto simp: ignore_if_def split: prod.splits sum.splits if_splits)

lemma snd_wrap_err [simp]: "snd (wrap_err p m w) = snd (m w)"
  by (auto simp: wrap_err_def split: prod.splits sum.splits)

lemma snd_ignore_if [simp]: "snd (ignore_if p m w) = snd (m w)"
  by (auto simp: ignore_if_def split: prod.splits sum.splits)

lemma snd_ret [simp]: "snd (ret x w) = w"
  by (simp add: ret_def)

lemma snd_fail [simp]: "snd (fail e w) = w"
  by (simp add: fail_def)

lemma snd_lift_r [simp]: "snd (lift_r r w) = w"
  by (simp add: lift_r_def)

text \<open>An invariant of the world that every call of a sequence keeps, whatever it answers.\<close>

definition keeps :: "('w \<Rightarrow> bool) \<Rightarrow> ('w, 'a) act \<Rightarrow> bool" where
  "keeps P m \<longleftrightarrow> (\<forall>w. P w \<longrightarrow> P (snd (m w)))"

lemma keepsI [intro]: "(\<And>w. P w \<Longrightarrow> P (snd (m w))) \<Longrightarrow> keeps P m"
  by (simp add: keeps_def)

lemma keepsD: "keeps P m \<Longrightarrow> P w \<Longrightarrow> P (snd (m w))"
  by (simp add: keeps_def)

lemma keeps_bind_a: "keeps P m \<Longrightarrow> (\<And>x. keeps P (f x)) \<Longrightarrow> keeps P (bind_a m f)"
  by (auto simp: keeps_def bind_a_def split: prod.splits sum.splits)

lemma keeps_ret [simp, intro]: "keeps P (ret x)"
  by (simp add: keeps_def)

lemma keeps_fail [simp, intro]: "keeps P (fail e)"
  by (simp add: keeps_def)

lemma keeps_lift_r [simp, intro]: "keeps P (lift_r r)"
  by (simp add: keeps_def)

lemma keeps_wrap_err: "keeps P m \<Longrightarrow> keeps P (wrap_err p m)"
  by (simp add: keeps_def)

lemma keeps_ignore_if: "keeps P m \<Longrightarrow> keeps P (ignore_if p m)"
  by (simp add: keeps_def)

lemma keeps_for_each: "(\<And>x. x \<in> set xs \<Longrightarrow> keeps P (f x)) \<Longrightarrow> keeps P (for_each f xs)"
  by (induction xs) (auto intro: keeps_bind_a)

lemma keeps_fold_act: "(\<And>b x. x \<in> set xs \<Longrightarrow> keeps P (f b x)) \<Longrightarrow> keeps P (fold_act f b xs)"
  by (induction xs arbitrary: b) (auto intro: keeps_bind_a)

lemmas keeps_intros = keeps_bind_a keeps_wrap_err keeps_ignore_if keeps_for_each keeps_fold_act

text \<open>A loop that succeeds has done each of its steps, from a state the earlier ones left.\<close>

lemma for_each_invariant:
  assumes "for_each f xs w = (Inr (), w')" and "P w"
    and "\<And>x v v'. x \<in> set xs \<Longrightarrow> P v \<Longrightarrow> f x v = (Inr (), v') \<Longrightarrow> P v'"
  shows "P w'"
  using assms by (induction xs arbitrary: w) (auto simp: act_simps)

lemma for_each_establishes:
  assumes "for_each f xs w = (Inr (), w')" and "P w"
    and "\<And>x v v'. x \<in> set xs \<Longrightarrow> P v \<Longrightarrow> f x v = (Inr (), v') \<Longrightarrow>
      P v' \<and> Q x v' \<and> (\<forall>y. Q y v \<longrightarrow> Q y v')"
  shows "P w' \<and> (\<forall>x \<in> set xs. Q x w')"
proof -
  have "P w' \<and> (\<forall>x \<in> set xs. Q x w') \<and> (\<forall>y. Q y w \<longrightarrow> Q y w')"
    using assms
  proof (induction xs arbitrary: w)
    case (Cons x xs)
    then obtain v where v: "f x w = (Inr (), v)" "for_each f xs v = (Inr (), w')"
      by (auto simp: act_simps)
    with Cons.prems have x: "P v" "Q x v" "\<forall>y. Q y w \<longrightarrow> Q y v" by (meson list.set_intros(1))+
    from Cons.IH [OF v(2) x(1)] Cons.prems(3) have "P w' \<and> (\<forall>x \<in> set xs. Q x w') \<and> (\<forall>y. Q y v \<longrightarrow> Q y w')"
      by auto
    with x show ?case by simp
  qed (auto simp: act_simps)
  then show ?thesis by blast
qed

lemma find_SomeD: "find P xs = Some x \<Longrightarrow> x \<in> set xs \<and> P x"
  by (induction xs) (auto split: if_splits)

section \<open>Lemmas on strings\<close>

lemma has_prefix_iff: "has_prefix s p \<longleftrightarrow> (\<exists>r. s = p @ r)"
  by (metis append_eq_conv_conj append_take_drop_id has_prefix_def)

lemma has_prefix_append [simp, str_simps]: "has_prefix (p @ r) p"
  by (simp add: has_prefix_def)

lemma trim_prefix_append [simp, str_simps]: "trim_prefix (p @ r) p = r"
  by (simp add: trim_prefix_def)

lemma has_suffix_iff: "has_suffix s p \<longleftrightarrow> (\<exists>r. s = r @ p)"
  unfolding has_suffix_def has_prefix_iff
  by (metis rev_append rev_rev_ident)

lemma has_suffix_append [simp, str_simps]: "has_suffix (r @ p) p"
  by (auto simp: has_suffix_iff)

lemma trim_suffix_append [simp, str_simps]: "trim_suffix (r @ p) p = r"
  by (simp add: trim_suffix_def)

lemma cut_at_append [simp, str_simps]: "c \<notin> set a \<Longrightarrow> cut_at c (a @ c # b) = Some (a, b)"
  by (induction a) auto

lemma cut_at_Some_iff: "cut_at c s = Some (a, b) \<longleftrightarrow> s = a @ c # b \<and> c \<notin> set a"
  by (induction s arbitrary: a b) (auto simp: Cons_eq_append_conv)

lemma cut_at_None_iff: "cut_at c s = None \<longleftrightarrow> c \<notin> set s"
  by (induction s) auto

lemma contains_str_char [simp]: "contains_str s [c] \<longleftrightarrow> c \<in> set s"
  by (induction s) (auto simp: has_prefix_def)

lemma set_sorted_keys [simp]: "set (sorted_keys xs) = set xs"
  by (simp add: sorted_keys_def)

lemma sorted_sorted_keys [simp]: "sorted (sorted_keys xs)"
  by (simp add: sorted_keys_def)

lemma distinct_sorted_keys [simp]: "distinct (sorted_keys xs)"
  by (simp add: sorted_keys_def)

lemma sorted_keys_cong: "set xs = set ys \<Longrightarrow> sorted_keys xs = sorted_keys ys"
  by (rule sorted_distinct_set_unique) auto

section \<open>Decimal rendering is injective\<close>

lemma of_char_digit: "m < 10 \<Longrightarrow> of_char (char_of (m + 48) :: char) = (m + 48 :: nat)"
  by simp

lemma show_nat_digits: "c \<in> set (show_nat n) \<Longrightarrow> 48 \<le> (of_char c :: nat) \<and> (of_char c :: nat) \<le> 57"
proof (induction n rule: show_nat.induct)
  case (1 n)
  show ?case
  proof (cases "n < 10")
    case True
    with "1.prems" show ?thesis by (auto simp: show_nat.simps [of n] of_char_digit)
  next
    case False
    then consider "c \<in> set (show_nat (n div 10))" | "c = char_of (n mod 10 + 48)"
      using "1.prems" by (auto simp: show_nat.simps [of n])
    then show ?thesis
    proof cases
      case 1
      with "1.IH" False show ?thesis by simp
    next
      case 2
      then show ?thesis by (simp add: of_char_digit)
    qed
  qed
qed

lemma digit_char_inj:
  assumes "m < 10" and "n < 10" and "char_of (m + 48) = (char_of (n + 48) :: char)"
  shows "m = (n :: nat)"
proof -
  have "(of_char (char_of (m + 48) :: char) :: nat) = of_char (char_of (n + 48) :: char)"
    using assms(3) by simp
  then show ?thesis
    using assms(1,2) by (simp add: of_char_digit)
qed

lemma show_nat_nonempty [simp]: "show_nat n \<noteq> []" "[] \<noteq> show_nat n"
  by (subst show_nat.simps; simp)+

lemma show_nat_inj: "show_nat m = show_nat n \<Longrightarrow> m = n"
proof (induction m arbitrary: n rule: show_nat.induct)
  case (1 m)
  show ?case
  proof (cases "m < 10")
    case True
    with "1.prems" show ?thesis
      by (auto simp: show_nat.simps [of m] show_nat.simps [of n] dest: digit_char_inj split: if_splits)
  next
    case False
    with "1.prems" have eq: "show_nat (m div 10) = show_nat (n div 10)"
        "char_of (m mod 10 + 48) = (char_of (n mod 10 + 48) :: char)"
      by (auto simp: show_nat.simps [of m] show_nat.simps [of n] split: if_splits)
    from eq(1) False have "m div 10 = n div 10" by (intro "1.IH") simp_all
    moreover from eq(2) have "m mod 10 = n mod 10" by (intro digit_char_inj) simp_all
    ultimately show ?thesis by (metis div_mult_mod_eq)
  qed
qed

lemma show_nat_not_in [simp]: "CHR ''-'' \<notin> set (show_nat n)" "CHR ''|'' \<notin> set (show_nat n)"
  using show_nat_digits [of "CHR ''-''" n] show_nat_digits [of "CHR ''|''" n] by auto

lemma show_int_no_bar [simp]: "CHR ''|'' \<notin> set (show_int i)"
  by (simp add: show_int_def)

lemma show_nat_not_minus [simp]: "show_nat n \<noteq> CHR ''-'' # s" "CHR ''-'' # s \<noteq> show_nat n"
  by (metis list.set_intros(1) show_nat_not_in(1))+

lemma show_int_inj: "show_int i = show_int j \<Longrightarrow> i = j"
  by (auto simp: show_int_def split: if_splits dest!: show_nat_inj)

text \<open>A separator that the first part does not contain splits a rendered key uniquely.\<close>

lemma sep_split:
  assumes "c \<notin> set a" and "(c :: char) \<notin> set b"
  shows "a @ c # x = b @ c # y \<longleftrightarrow> a = b \<and> x = y"
proof
  assume "a @ c # x = b @ c # y"
  then have "cut_at c (a @ c # x) = cut_at c (b @ c # y)" by simp
  with assms show "a = b \<and> x = y" by simp
qed simp

end
