(* ===== verification/Kube.thy ===== *)
theory Kube
  imports Prelude
begin

text \<open>
  The Kubernetes objects the sources read, with the fields they read, and the label-selector
  library they call. The objects are API data; the selector library (\<^verbatim>\<open>labels\<close> and
  \<^verbatim>\<open>metav1\<close> of apimachinery) is outside the repository, so a selector is whatever its
  two methods answer and the conversion is a parameter.
\<close>

section \<open>Time\<close>

text \<open>Nanoseconds since Go's zero time, which \<^verbatim>\<open>IsZero\<close> recognises.\<close>

type_synonym time = int

abbreviation second :: int where "second \<equiv> 1000000000"
abbreviation minute :: int where "minute \<equiv> 60 * second"
abbreviation hour :: int where "hour \<equiv> 60 * minute"

text \<open>\<^verbatim>\<open>Time.Unix\<close>: whole seconds since 1970.\<close>

definition unix_of :: "time \<Rightarrow> int" where
  "unix_of t = t div second - 62135596800"

section \<open>Labels and selectors\<close>

text \<open>A label map is the list of its entries in key order, so equal maps are equal lists.\<close>

type_synonym labels = "(string \<times> string) list"

record label_selector =
  matchLabels :: labels
  matchExpressions :: "(string \<times> string \<times> string list) list"

record selector =
  sel_string :: string
  sel_matches :: "labels \<Rightarrow> bool"

record labels_api =
  as_selector :: "label_selector \<Rightarrow> selector result"
  everything :: selector

text \<open>\<^verbatim>\<open>labels.Everything()\<close> is documented to match every set of labels.\<close>

definition everything_matches :: "labels_api \<Rightarrow> bool" where
  "everything_matches L \<longleftrightarrow> (\<forall>l. sel_matches (everything L) l)"

section \<open>Listers\<close>

text \<open>
  The lister interfaces of client-go: everything that matches a selector, what matches in one
  namespace, one object by namespace and name.
\<close>

record 'o lister =
  l_List :: "selector \<Rightarrow> 'o list result"
  l_In :: "string \<Rightarrow> selector \<Rightarrow> 'o list result"
  l_Get :: "string \<Rightarrow> string \<Rightarrow> 'o result"

record 'o meta =
  m_ns :: "'o \<Rightarrow> string"
  m_name :: "'o \<Rightarrow> string"
  m_labels :: "'o \<Rightarrow> labels"

text \<open>
  What a lister over a set of objects promises: a listing that succeeds answers exactly the
  objects asked for, and a lookup fails only for an object that is not there.
\<close>

locale lister_contract =
  fixes L :: "'o lister" and M :: "'o meta" and objs :: "'o set"
  assumes list_ok: "l_List L sel = Inr xs \<Longrightarrow> set xs = {x \<in> objs. sel_matches sel (m_labels M x)}"
    and in_ok: "l_In L ns sel = Inr xs \<Longrightarrow> set xs = {x \<in> objs. m_ns M x = ns \<and> sel_matches sel (m_labels M x)}"
    and get_ok: "l_Get L ns n = Inr x \<Longrightarrow> x \<in> objs \<and> m_ns M x = ns \<and> m_name M x = n"
    and get_none: "l_Get L ns n = Inl e \<Longrightarrow> x \<in> objs \<Longrightarrow> \<not> (m_ns M x = ns \<and> m_name M x = n)"
begin

lemma in_sub_list: "l_In L ns sel = Inr xs \<Longrightarrow> l_List L sel = Inr ys \<Longrightarrow> set xs = {y \<in> set ys. m_ns M y = ns}"
  by (auto simp: in_ok list_ok)

lemma get_if_listed: "l_In L ns sel = Inr xs \<Longrightarrow> x \<in> set xs \<Longrightarrow> \<exists>y. l_Get L ns (m_name M x) = Inr y"
  by (cases "l_Get L ns (m_name M x)") (auto simp: in_ok dest: get_none)

end

section \<open>NetworkPolicy\<close>

datatype int_or_string = IntVal int | StrVal string

record ip_block =
  ib_cidr :: string
  ib_except :: "string list"

record np_peer =
  np_podSelector :: "label_selector option"
  np_namespaceSelector :: "label_selector option"
  np_ipBlock :: "ip_block option"

record np_port =
  npp_protocol :: "string option"
  npp_port :: "int_or_string option"
  npp_endPort :: "int option"

text \<open>One ingress rule (\<^verbatim>\<open>From\<close>, \<^verbatim>\<open>Ports\<close>) or egress rule (\<^verbatim>\<open>To\<close>, \<^verbatim>\<open>Ports\<close>).\<close>

record np_rule =
  npr_peers :: "np_peer list"
  npr_ports :: "np_port list"

record network_policy =
  np_namespace :: string
  np_name :: string
  np_subject :: label_selector
  np_policyTypes :: "string list"
  np_ingress :: "np_rule list"
  np_egress :: "np_rule list"

section \<open>Pods and namespaces\<close>

record kube_namespace =
  ns_name :: string
  ns_labels :: labels

datatype container_state =
    CSNone
  | CSWaiting string string
  | CSRunning time
  | CSTerminated int string string time time

record container_status =
  cs_name :: string
  cs_image :: string
  cs_state :: container_state
  cs_ready :: bool
  cs_restarts :: int
  cs_id :: string

record pod_condition =
  pc_type :: string
  pc_status :: string
  pc_reason :: string
  pc_time :: time

record pod =
  pod_namespace :: string
  pod_name :: string
  pod_uid :: string
  pod_labels :: labels
  pod_deleting :: bool
  pod_containers :: "(string \<times> string) list"
  pod_phase :: string
  pod_reason :: string
  pod_ip :: string
  pod_ips :: "string list"
  pod_hostIP :: string
  pod_start :: "time option"
  pod_conditions :: "pod_condition list"
  pod_statuses :: "container_status list"

definition policy_meta :: "network_policy meta" where
  "policy_meta = \<lparr>m_ns = np_namespace, m_name = np_name, m_labels = (\<lambda>_. [])\<rparr>"

definition pod_meta :: "pod meta" where
  "pod_meta = \<lparr>m_ns = pod_namespace, m_name = pod_name, m_labels = pod_labels\<rparr>"

definition namespace_meta :: "kube_namespace meta" where
  "namespace_meta = \<lparr>m_ns = (\<lambda>_. []), m_name = ns_name, m_labels = ns_labels\<rparr>"

lemmas meta_simps [simp] = policy_meta_def pod_meta_def namespace_meta_def

section \<open>Events and keys\<close>

text \<open>
  What an informer hands to a handler: an object of the kind the handler expects, the final
  state of a deleted one (\<^verbatim>\<open>cache.DeletedFinalStateUnknown\<close>), or something else, on
  which the handler's type assertion fails.
\<close>

datatype 'o event_obj = Plain 'o | Tombstone "'o event_obj" | Other

text \<open>The handlers look through one tombstone and then assert the type.\<close>

fun asserted :: "'o event_obj \<Rightarrow> 'o option" where
  "asserted (Plain x) = Some x"
| "asserted _ = None"

fun untombed :: "'o event_obj \<Rightarrow> 'o option" where
  "untombed (Tombstone x) = asserted x"
| "untombed x = asserted x"

text \<open>The operations of a client-go work queue.\<close>

datatype queue_op =
    Add string
  | AddAfter string time
  | AddRateLimited string
  | Forget string
  | Done string

text \<open>After a panic nothing more of a worker's turn runs.\<close>

fun is_panic :: "err \<Rightarrow> bool" where
  "is_panic (ErrPanic _) = True"
| "is_panic (ErrWrap _ e) = is_panic e"
| "is_panic _ = False"

text \<open>A label looked up in a map, \<^verbatim>\<open>""\<close> when it is absent.\<close>

definition label_of :: "labels \<Rightarrow> string \<Rightarrow> string" where
  "label_of ls k = (case map_of ls k of None \<Rightarrow> [] | Some v \<Rightarrow> v)"

text \<open>\<^verbatim>\<open>namespace + "/" + name\<close>, the key of every work queue and cache.\<close>

definition obj_key :: "string \<Rightarrow> string \<Rightarrow> string" where
  "obj_key ns n = ns @ ''/'' @ n"

text \<open>
  \<^verbatim>\<open>cache.SplitMetaNamespaceKey\<close>: a key of one part names an object with no namespace,
  one of two parts names both, anything else is an error.
\<close>

definition split_key :: "string \<Rightarrow> (string \<times> string) result" where
  "split_key key =
     (case cut_at (CHR ''/'') key of
        None \<Rightarrow> Inr ([], key)
      | Some (ns, n) \<Rightarrow>
          if CHR ''/'' \<in> set n then Inl (ErrText (''unexpected key format: '' @ quote_str key))
          else Inr (ns, n))"

lemma split_key_obj_key [simp]:
  "CHR ''/'' \<notin> set ns \<Longrightarrow> CHR ''/'' \<notin> set n \<Longrightarrow> split_key (obj_key ns n) = Inr (ns, n)"
  by (simp add: split_key_def obj_key_def)

lemma obj_key_eq_iff:
  assumes "CHR ''/'' \<notin> set ns" and "CHR ''/'' \<notin> set ns'"
  shows "obj_key ns n = obj_key ns' n' \<longleftrightarrow> ns = ns' \<and> n = n'"
proof
  assume "obj_key ns n = obj_key ns' n'"
  then have "cut_at (CHR ''/'') (obj_key ns n) = cut_at (CHR ''/'') (obj_key ns' n')"
    by simp
  then show "ns = ns' \<and> n = n'"
    using assms by (simp add: obj_key_def)
qed simp

end
