(* ===== verification/Netpol_Translate.thy ===== *)
theory Netpol_Translate
  imports Kube
begin

text \<open>
  \<^verbatim>\<open>pkg/netpol/translate.go\<close>: a NetworkPolicy reduced to what a Neutron port can carry.
  The definitions follow the file in its order; the packet semantics after them says what a
  policy asks for and what a translation allows, and the lemmas relate the two.
\<close>

section \<open>Data\<close>

datatype direction = Ingress | Egress

fun dir_string :: "direction \<Rightarrow> string" where
  "dir_string Ingress = ''ingress''"
| "dir_string Egress = ''egress''"

text \<open>\<open>None\<close> is the nil selector; \<open>zero_psel\<close> is Go's zero value of the struct.\<close>

record peer_selector =
  psel_namespace :: string
  psel_namespaces :: "selector option"
  psel_pods :: "selector option"

definition zero_psel :: peer_selector where
  "zero_psel = \<lparr>psel_namespace = [], psel_namespaces = None, psel_pods = None\<rparr>"

text \<open>A peer is an address block or a pod set; \<open>peer_cidr\<close> is empty for a pod set.\<close>

record peer =
  peer_cidr :: string
  peer_key :: string
  peer_selector :: peer_selector

record port =
  port_protocol :: string
  port_min :: int
  port_max :: int

record rule =
  rule_direction :: direction
  rule_peers :: "peer list"
  rule_ports :: "port list"

record refusal =
  ref_field :: string
  ref_reason :: string

record translated =
  tr_isolates :: "direction \<Rightarrow> bool"
  tr_subject :: selector
  tr_rules :: "rule list"
  tr_refused :: "refusal list"

definition cidr_peer :: "string \<Rightarrow> peer" where
  "cidr_peer c = \<lparr>peer_cidr = c, peer_key = [], peer_selector = zero_psel\<rparr>"

definition set_peer :: "string \<Rightarrow> peer_selector \<Rightarrow> peer" where
  "set_peer k s = \<lparr>peer_cidr = [], peer_key = k, peer_selector = s\<rparr>"

section \<open>Selectors of a peer\<close>

definition SelectorKey ::
  "labels_api \<Rightarrow> string \<Rightarrow> label_selector option \<Rightarrow> label_selector option \<Rightarrow> string result" where
  "SelectorKey L policyNamespace nsSel podSel =
     bind_r (case nsSel of
               None \<Rightarrow> Inr (''ns='' @ policyNamespace)
             | Some n \<Rightarrow> (case as_selector L n of
                   Inl e \<Rightarrow> Inl (ErrWrap ''namespace selector'' e)
                 | Inr s \<Rightarrow> Inr (''nsSelector='' @ sel_string s)))
       (\<lambda>scope.
     bind_r (case podSel of
               None \<Rightarrow> Inr ''all''
             | Some p \<Rightarrow> (case as_selector L p of
                   Inl e \<Rightarrow> Inl (ErrWrap ''pod selector'' e)
                 | Inr s \<Rightarrow> Inr (sel_string s)))
       (\<lambda>pods. Inr (scope @ '';pods='' @ pods)))"

definition resolvePeer ::
  "labels_api \<Rightarrow> string \<Rightarrow> label_selector option \<Rightarrow> label_selector option \<Rightarrow> peer_selector result" where
  "resolvePeer L policyNamespace nsSel podSel =
     bind_r (case podSel of None \<Rightarrow> Inr (everything L) | Some p \<Rightarrow> as_selector L p)
       (\<lambda>pods.
     case nsSel of
       None \<Rightarrow> Inr \<lparr>psel_namespace = policyNamespace, psel_namespaces = None, psel_pods = Some pods\<rparr>
     | Some n \<Rightarrow>
         bind_r (as_selector L n)
           (\<lambda>s. Inr \<lparr>psel_namespace = [], psel_namespaces = Some s, psel_pods = Some pods\<rparr>))"

section \<open>Rules\<close>

fun peerField :: "direction \<Rightarrow> string" where
  "peerField Ingress = ''from''"
| "peerField Egress = ''to''"

text \<open>One turn of the peer loop: the peers it appends and the refusals.\<close>

definition translatePeer ::
  "labels_api \<Rightarrow> string \<Rightarrow> string \<Rightarrow> np_peer \<Rightarrow> peer list \<times> refusal list" where
  "translatePeer L ns at p =
     (case np_ipBlock p of
        Some b \<Rightarrow>
          if ib_except b \<noteq> [] then
            ([], [\<lparr>ref_field = at @ ''.ipBlock.except'',
                   ref_reason = ''this platform cannot express an exception inside an allowed range yet, so the whole range stays denied rather than allowing the addresses you excluded''\<rparr>])
          else ([cidr_peer (ib_cidr b)], [])
      | None \<Rightarrow>
          if np_podSelector p \<noteq> None \<or> np_namespaceSelector p \<noteq> None then
            (case SelectorKey L ns (np_namespaceSelector p) (np_podSelector p) of
               Inl e \<Rightarrow> ([], [\<lparr>ref_field = at, ref_reason = err_text e\<rparr>])
             | Inr key \<Rightarrow>
                 (case resolvePeer L ns (np_namespaceSelector p) (np_podSelector p) of
                    Inl e \<Rightarrow> ([], [\<lparr>ref_field = at, ref_reason = err_text e\<rparr>])
                  | Inr sel \<Rightarrow> ([set_peer key sel], [])))
          else ([], [\<lparr>ref_field = at, ref_reason = ''a peer with nothing in it selects nothing''\<rparr>]))"

text \<open>One turn of the port loop.\<close>

definition translatePort :: "string \<Rightarrow> np_port \<Rightarrow> port list \<times> refusal list" where
  "translatePort at p =
     (case npp_port p of
        Some (StrVal n) \<Rightarrow>
          ([], [\<lparr>ref_field = at @ ''.port'',
                 ref_reason = ''named port '' @ quote_str n @ '' is not supported yet; give the number instead''\<rparr>])
      | _ \<Rightarrow>
          (let proto = (case npp_protocol p of None \<Rightarrow> ''TCP'' | Some q \<Rightarrow> q) in
           if proto = ''SCTP'' then
             ([], [\<lparr>ref_field = at @ ''.protocol'',
                    ref_reason = ''SCTP is not supported by this platform''\<rparr>])
           else
             (let n = (case npp_port p of Some (IntVal v) \<Rightarrow> v | _ \<Rightarrow> 0) in
              ([\<lparr>port_protocol = proto, port_min = n,
                 port_max = (case npp_endPort p of None \<Rightarrow> n | Some e \<Rightarrow> e)\<rparr>], []))))"

text \<open>A loop over a slice with its index, as \<^verbatim>\<open>for i, x := range\<close> runs it.\<close>

fun range_loop :: "(nat \<Rightarrow> 'a \<Rightarrow> 'b list \<times> 'c list) \<Rightarrow> nat \<Rightarrow> 'a list \<Rightarrow> 'b list \<times> 'c list" where
  "range_loop f i [] = ([], [])"
| "range_loop f i (x # xs) =
     (let (bs, cs) = f i x; (bs', cs') = range_loop f (Suc i) xs in (bs @ bs', cs @ cs'))"

definition indexed :: "string \<Rightarrow> nat \<Rightarrow> string" where
  "indexed s i = s @ ''['' @ show_nat i @ '']''"

definition translateRule ::
  "labels_api \<Rightarrow> string \<Rightarrow> direction \<Rightarrow> nat \<Rightarrow> np_peer list \<Rightarrow> np_port list
     \<Rightarrow> rule option \<times> refusal list" where
  "translateRule L ns dir index peers ports =
     (let whr = indexed (''spec.'' @ dir_string dir) index;
          (ps, refused1) =
            range_loop (\<lambda>i. translatePeer L ns (indexed (whr @ ''.'' @ peerField dir) i)) 0 peers;
          rpeers = (if peers = [] then [cidr_peer ''0.0.0.0/0'', cidr_peer ''::/0''] else []) @ ps;
          (rports, refused2) = range_loop (\<lambda>i. translatePort (indexed (whr @ ''.ports'') i)) 0 ports;
          refused = refused1 @ refused2
      in if rpeers = [] then (None, refused)
         else if ports \<noteq> [] \<and> rports = [] then (None, refused)
         else (Some \<lparr>rule_direction = dir, rule_peers = rpeers, rule_ports = rports\<rparr>, refused))"

definition policyTypesOf :: "network_policy \<Rightarrow> string list" where
  "policyTypesOf p =
     (if np_policyTypes p = [] then
        ''Ingress'' # (if np_egress p \<noteq> [] then [''Egress''] else [])
      else np_policyTypes p)"

fun isolatesOf :: "string list \<Rightarrow> direction \<Rightarrow> bool" where
  "isolatesOf ts Ingress = (''Ingress'' \<in> set ts)"
| "isolatesOf ts Egress = (''Egress'' \<in> set ts)"

definition option_list :: "'a option \<Rightarrow> 'a list" where
  "option_list x = (case x of None \<Rightarrow> [] | Some a \<Rightarrow> [a])"

definition Translate :: "labels_api \<Rightarrow> network_policy \<Rightarrow> translated result" where
  "Translate L p =
     (case as_selector L (np_subject p) of
        Inl e \<Rightarrow> Inl (ErrWrap (''the pod selector of '' @ obj_key (np_namespace p) (np_name p)) e)
      | Inr subject \<Rightarrow>
          (let step = (\<lambda>dir i r. let (ro, refs) =
                          translateRule L (np_namespace p) dir i (npr_peers r) (npr_ports r)
                        in (option_list ro, refs));
               (rin, fin) = range_loop (step Ingress) 0 (np_ingress p);
               (reg, feg) = range_loop (step Egress) 0 (np_egress p)
           in Inr \<lparr>tr_isolates = isolatesOf (policyTypesOf p), tr_subject = subject,
                   tr_rules = rin @ reg, tr_refused = fin @ feg\<rparr>))"

text \<open>
  Which directions the policies selecting a pod isolate, and by which policies. The result
  map has a key exactly for the directions some policy isolates.
\<close>

definition add_isolation ::
  "(direction \<rightharpoonup> string list) \<Rightarrow> direction \<Rightarrow> string \<Rightarrow> (direction \<rightharpoonup> string list)" where
  "add_isolation by dir n = by(dir \<mapsto> (case by dir of None \<Rightarrow> [] | Some ns \<Rightarrow> ns) @ [n])"

fun IsolationLoop ::
  "labels_api \<Rightarrow> pod \<Rightarrow> network_policy list \<Rightarrow> (direction \<rightharpoonup> string list)
     \<Rightarrow> (direction \<rightharpoonup> string list) result" where
  "IsolationLoop L pd [] by = Inr by"
| "IsolationLoop L pd (p # ps) by =
     (if np_namespace p \<noteq> pod_namespace pd then IsolationLoop L pd ps by
      else case Translate L p of
        Inl e \<Rightarrow> Inl e
      | Inr t \<Rightarrow>
          if \<not> sel_matches (tr_subject t) (pod_labels pd) then IsolationLoop L pd ps by
          else
            (let by1 = (if tr_isolates t Ingress then add_isolation by Ingress (np_name p) else by);
                 by2 = (if tr_isolates t Egress then add_isolation by1 Egress (np_name p) else by1)
             in IsolationLoop L pd ps by2))"

definition IsolationOf ::
  "labels_api \<Rightarrow> pod \<Rightarrow> network_policy list \<Rightarrow> (direction \<rightharpoonup> string list) result" where
  "IsolationOf L pd policies =
     bind_r (IsolationLoop L pd policies Map.empty) (\<lambda>by. Inr (\<lambda>d. map_option sort (by d)))"

definition refusal_string :: "refusal \<Rightarrow> string" where
  "refusal_string r = ref_field r @ '': '' @ ref_reason r"

definition RefusalMessage :: "refusal list \<Rightarrow> string" where
  "RefusalMessage refused = join_str ''; '' (map refusal_string refused)"

section \<open>What a policy asks for, and what a translation allows\<close>

text \<open>
  The packets a policy is about: the direction seen from the pod, the address at the other end,
  the protocol and the destination port. The environment answers what the code leaves to the
  network: whether an address lies in a block, its family, which pods have it (with their
  namespace), and what a named port of the target stands for.
\<close>

record packet =
  pkt_dir :: direction
  pkt_addr :: string
  pkt_proto :: string
  pkt_port :: int

record netenv =
  in_cidr :: "string \<Rightarrow> string \<Rightarrow> bool"
  addr_family :: "string \<Rightarrow> string"
  pods_at :: "string \<Rightarrow> (kube_namespace \<times> labels) list"
  named_port :: "string \<Rightarrow> string \<Rightarrow> int \<Rightarrow> bool"

text \<open>What Kubernetes documents a policy to allow (the specification).\<close>

definition sel_selects :: "labels_api \<Rightarrow> label_selector \<Rightarrow> labels \<Rightarrow> bool" where
  "sel_selects L s l = (case as_selector L s of Inl _ \<Rightarrow> False | Inr t \<Rightarrow> sel_matches t l)"

definition asked_peer :: "labels_api \<Rightarrow> netenv \<Rightarrow> string \<Rightarrow> np_peer \<Rightarrow> string \<Rightarrow> bool" where
  "asked_peer L E ns p a =
     (case np_ipBlock p of
        Some b \<Rightarrow> in_cidr E (ib_cidr b) a \<and> \<not> list_ex (\<lambda>e. in_cidr E e a) (ib_except b)
      | None \<Rightarrow>
          (np_podSelector p \<noteq> None \<or> np_namespaceSelector p \<noteq> None) \<and>
          list_ex (\<lambda>(n, l).
            (case np_namespaceSelector p of
               None \<Rightarrow> ns_name n = ns | Some s \<Rightarrow> sel_selects L s (ns_labels n)) \<and>
            (case np_podSelector p of None \<Rightarrow> True | Some s \<Rightarrow> sel_selects L s l)) (pods_at E a))"

definition proto_of :: "np_port \<Rightarrow> string" where
  "proto_of p = (case npp_protocol p of None \<Rightarrow> ''TCP'' | Some q \<Rightarrow> q)"

definition asked_port :: "netenv \<Rightarrow> packet \<Rightarrow> np_port \<Rightarrow> bool" where
  "asked_port E k p =
     (pkt_proto k = proto_of p \<and>
      (case npp_port p of
         None \<Rightarrow> True
       | Some (IntVal n) \<Rightarrow> n \<le> pkt_port k \<and> pkt_port k \<le> (case npp_endPort p of None \<Rightarrow> n | Some e \<Rightarrow> e)
       | Some (StrVal s) \<Rightarrow> named_port E s (proto_of p) (pkt_port k)))"

definition asked_rule :: "labels_api \<Rightarrow> netenv \<Rightarrow> string \<Rightarrow> packet \<Rightarrow> np_rule \<Rightarrow> bool" where
  "asked_rule L E ns k r =
     ((npr_peers r = [] \<or> list_ex (\<lambda>p. asked_peer L E ns p (pkt_addr k)) (npr_peers r)) \<and>
      (npr_ports r = [] \<or> list_ex (asked_port E k) (npr_ports r)))"

fun np_isolates :: "network_policy \<Rightarrow> direction \<Rightarrow> bool" where
  "np_isolates p Ingress = (np_policyTypes p = [] \<or> ''Ingress'' \<in> set (np_policyTypes p))"
| "np_isolates p Egress =
     (if np_policyTypes p = [] then np_egress p \<noteq> [] else ''Egress'' \<in> set (np_policyTypes p))"

fun np_rules :: "network_policy \<Rightarrow> direction \<Rightarrow> np_rule list" where
  "np_rules p Ingress = np_ingress p"
| "np_rules p Egress = np_egress p"

definition policy_asks :: "labels_api \<Rightarrow> netenv \<Rightarrow> network_policy \<Rightarrow> packet \<Rightarrow> bool" where
  "policy_asks L E p k =
     (np_isolates p (pkt_dir k) \<and>
      list_ex (asked_rule L E (np_namespace p) k) (np_rules p (pkt_dir k)))"

text \<open>What the translated data allows.\<close>

definition psel_selects :: "netenv \<Rightarrow> peer_selector \<Rightarrow> string \<Rightarrow> bool" where
  "psel_selects E s a =
     list_ex (\<lambda>(n, l).
       (if psel_namespace s \<noteq> [] then ns_name n = psel_namespace s
        else case psel_namespaces s of None \<Rightarrow> True | Some t \<Rightarrow> sel_matches t (ns_labels n)) \<and>
       (case psel_pods s of None \<Rightarrow> False | Some t \<Rightarrow> sel_matches t l)) (pods_at E a)"

definition peer_allows :: "netenv \<Rightarrow> string \<Rightarrow> peer \<Rightarrow> bool" where
  "peer_allows E a p =
     (if peer_cidr p \<noteq> [] then in_cidr E (peer_cidr p) a
      else psel_selects E (peer_selector p) a)"

definition range_allows :: "int \<Rightarrow> int \<Rightarrow> int \<Rightarrow> bool" where
  "range_allows lo hi n = (lo = 0 \<and> hi = 0 \<or> lo \<le> n \<and> n \<le> hi)"

definition port_allows :: "packet \<Rightarrow> port \<Rightarrow> bool" where
  "port_allows k p =
     ((port_protocol p = [] \<or> port_protocol p = pkt_proto k) \<and>
      range_allows (port_min p) (port_max p) (pkt_port k))"

definition rule_allows :: "netenv \<Rightarrow> packet \<Rightarrow> rule \<Rightarrow> bool" where
  "rule_allows E k r =
     (rule_direction r = pkt_dir k \<and> list_ex (peer_allows E (pkt_addr k)) (rule_peers r) \<and>
      (rule_ports r = [] \<or> list_ex (port_allows k) (rule_ports r)))"

text \<open>
  What the API server's validation guarantees of a policy it stores: a block names a CIDR, a
  port number lies in 1 to 65535, an \<^verbatim>\<open>endPort\<close> comes with a numeric port and is not
  below it, and the protocol is one of three. The namespace of an object is a DNS label: not
  empty, and with none of the characters the rendered keys use as separators.
\<close>

definition valid_np_port :: "np_port \<Rightarrow> bool" where
  "valid_np_port p =
     (proto_of p \<in> {''TCP'', ''UDP'', ''SCTP''} \<and>
      (case npp_port p of
         Some (IntVal n) \<Rightarrow> 1 \<le> n \<and> n \<le> 65535 \<and> (case npp_endPort p of None \<Rightarrow> True | Some e \<Rightarrow> n \<le> e \<and> e \<le> 65535)
       | _ \<Rightarrow> npp_endPort p = None))"

definition valid_np_peer :: "np_peer \<Rightarrow> bool" where
  "valid_np_peer p =
     (case np_ipBlock p of None \<Rightarrow> True | Some b \<Rightarrow> ib_cidr b \<noteq> [] \<and> CHR ''|'' \<notin> set (ib_cidr b))"

definition valid_np_rule :: "np_rule \<Rightarrow> bool" where
  "valid_np_rule r = (list_all valid_np_peer (npr_peers r) \<and> list_all valid_np_port (npr_ports r))"

definition valid_policy :: "network_policy \<Rightarrow> bool" where
  "valid_policy p =
     (np_namespace p \<noteq> [] \<and> CHR '';'' \<notin> set (np_namespace p) \<and> list_all valid_np_rule (np_ingress p) \<and> list_all valid_np_rule (np_egress p))"

text \<open>Every address lies in one of the two blocks that stand for the whole address space.\<close>

definition cidr_covers_all :: "netenv \<Rightarrow> bool" where
  "cidr_covers_all E \<longleftrightarrow> (\<forall>a. in_cidr E ''0.0.0.0/0'' a \<or> in_cidr E ''::/0'' a)"

text \<open>
  The documented rendering of selectors: label syntax has no semicolon, and two selectors that
  render alike select alike. A policy \<open>avoids_all\<close> when none of its pod selectors renders as
  the word \<open>all\<close>, which the selector key uses for "no pod selector given".
\<close>

definition labels_laws :: "labels_api \<Rightarrow> bool" where
  "labels_laws L \<longleftrightarrow> everything_matches L \<and>
     (\<forall>s t. as_selector L s = Inr t \<longrightarrow> CHR '';'' \<notin> set (sel_string t)) \<and>
     (\<forall>s t s' t' l. as_selector L s = Inr t \<longrightarrow> as_selector L s' = Inr t' \<longrightarrow>
        sel_string t = sel_string t' \<longrightarrow> sel_matches t l = sel_matches t' l)"

definition avoids_all :: "labels_api \<Rightarrow> network_policy \<Rightarrow> bool" where
  "avoids_all L p =
     list_all (\<lambda>r. list_all (\<lambda>q. case np_podSelector q of None \<Rightarrow> True | Some s \<Rightarrow>
         (case as_selector L s of Inl _ \<Rightarrow> True | Inr t \<Rightarrow> sel_string t \<noteq> ''all'')) (npr_peers r))
       (np_ingress p @ np_egress p)"

section \<open>Lemmas\<close>

lemma set_option_list [simp]: "x \<in> set (option_list y) \<longleftrightarrow> y = Some x"
  by (auto simp: option_list_def split: option.splits)

lemma option_list_Nil [simp]: "option_list y = [] \<longleftrightarrow> y = None"
  by (simp add: option_list_def split: option.splits)

lemma range_loop_fst:
  "b \<in> set (fst (range_loop f i xs)) \<longleftrightarrow> (\<exists>j x. j < length xs \<and> x = xs ! j \<and> b \<in> set (fst (f (i + j) x)))"
proof (induction xs arbitrary: i)
  case (Cons y ys)
  have "b \<in> set (fst (range_loop f i (y # ys))) \<longleftrightarrow>
      b \<in> set (fst (f i y)) \<or> b \<in> set (fst (range_loop f (Suc i) ys))"
    by (auto simp: case_prod_beta Let_def)
  then show ?case
    unfolding Cons.IH by (auto simp: less_Suc_eq_0_disj)
qed simp

lemma range_loop_no_snd:
  assumes "snd (range_loop f i xs) = []" and "j < length xs"
  shows "snd (f (i + j) (xs ! j)) = []"
  using assms
proof (induction xs arbitrary: i j)
  case (Cons y ys)
  then show ?case
    by (cases j) (auto simp: case_prod_beta Let_def dest: Cons.IH [of "Suc i"])
qed simp

lemma np_isolates_isolatesOf: "isolatesOf (policyTypesOf p) d = np_isolates p d"
  by (cases d) (auto simp: policyTypesOf_def)

text \<open>A peer the translation keeps allows only, and where nothing was refused exactly, what was asked.\<close>

lemma resolvePeer_selects:
  assumes "resolvePeer L ns nsSel podSel = Inr s" and "ns \<noteq> []" and "everything_matches L"
  shows "psel_selects E s a \<longleftrightarrow>
    list_ex (\<lambda>(n, l).
      (case nsSel of None \<Rightarrow> ns_name n = ns | Some t \<Rightarrow> sel_selects L t (ns_labels n)) \<and>
      (case podSel of None \<Rightarrow> True | Some t \<Rightarrow> sel_selects L t l)) (pods_at E a)"
  unfolding psel_selects_def
  by (intro arg_cong2 [where f = list_ex] ext refl)
    (use assms in \<open>auto simp: resolvePeer_def sel_selects_def bind_r_Inr_iff everything_matches_def
      split: option.splits\<close>)

lemma zero_psel_selects [simp]: "\<not> psel_selects E zero_psel a"
  by (auto simp: psel_selects_def zero_psel_def list_ex_iff)

lemma translatePeer_sound:
  assumes "q \<in> set (fst (translatePeer L ns at p))" and "peer_allows E a q"
    and "ns \<noteq> []" and "everything_matches L"
  shows "asked_peer L E ns p a"
proof (cases "np_ipBlock p")
  case None
  with assms obtain k s where "resolvePeer L ns (np_namespaceSelector p) (np_podSelector p) = Inr s"
      and "q = set_peer k s" and some: "np_podSelector p \<noteq> None \<or> np_namespaceSelector p \<noteq> None"
    by (auto simp: translatePeer_def split: if_splits sum.splits)
  then have "psel_selects E s a"
    using assms(2) by (simp add: peer_allows_def set_peer_def)
  with resolvePeer_selects [OF \<open>resolvePeer L ns _ _ = Inr s\<close> assms(3,4)] some None
  show ?thesis
    by (simp add: asked_peer_def)
next
  case (Some b)
  with assms show ?thesis
    by (auto simp: translatePeer_def asked_peer_def peer_allows_def cidr_peer_def split: if_splits)
qed

lemma translatePeer_complete:
  assumes "snd (translatePeer L ns at p) = []" and "asked_peer L E ns p a"
    and "ns \<noteq> []" and "everything_matches L" and "valid_np_peer p"
  shows "\<exists>q \<in> set (fst (translatePeer L ns at p)). peer_allows E a q"
proof (cases "np_ipBlock p")
  case None
  with assms obtain k s where r: "resolvePeer L ns (np_namespaceSelector p) (np_podSelector p) = Inr s"
      and q: "fst (translatePeer L ns at p) = [set_peer k s]"
    by (auto simp: translatePeer_def split: if_splits sum.splits)
  from None assms(2) resolvePeer_selects [OF r assms(3,4)] have "psel_selects E s a"
    by (simp add: asked_peer_def)
  with q show ?thesis
    by (simp add: peer_allows_def set_peer_def)
next
  case (Some b)
  with assms show ?thesis
    by (auto simp: translatePeer_def asked_peer_def peer_allows_def cidr_peer_def valid_np_peer_def
        split: if_splits)
qed

lemma translatePort_sound:
  assumes "q \<in> set (fst (translatePort at p))" and "port_allows k q" and "valid_np_port p"
  shows "asked_port E k p"
  using assms
  by (auto simp: translatePort_def port_allows_def range_allows_def asked_port_def proto_of_def
      valid_np_port_def Let_def split: option.splits int_or_string.splits if_splits)

lemma translatePort_complete:
  assumes "snd (translatePort at p) = []" and "asked_port E k p" and "valid_np_port p"
  shows "\<exists>q \<in> set (fst (translatePort at p)). port_allows k q"
  using assms
  by (auto simp: translatePort_def port_allows_def range_allows_def asked_port_def proto_of_def
      valid_np_port_def Let_def split: option.splits int_or_string.splits if_splits)

lemma range_loop_member:
  assumes "b \<in> set (fst (range_loop f i xs))"
  obtains j x where "x \<in> set xs" and "b \<in> set (fst (f j x))"
  using assms unfolding range_loop_fst by (metis nth_mem)

lemma range_loop_keeps:
  assumes "x \<in> set xs" and "snd (range_loop f i xs) = []"
    and "\<And>j. snd (f j x) = [] \<Longrightarrow> \<exists>b \<in> set (fst (f j x)). P b"
  shows "\<exists>b \<in> set (fst (range_loop f i xs)). P b"
proof -
  from assms(1) obtain j where j: "j < length xs" "x = xs ! j"
    by (metis in_set_conv_nth)
  with assms(3) range_loop_no_snd [OF assms(2) j(1)] obtain b
    where "b \<in> set (fst (f (i + j) x))" "P b" by blast
  with j show ?thesis
    unfolding Bex_def range_loop_fst by blast
qed

lemma translateRule_sound:
  assumes tr: "fst (translateRule L ns dir i peers ports) = Some r" and "rule_allows E k r"
    and "list_all valid_np_port ports" and "ns \<noteq> []" and "everything_matches L"
  shows "pkt_dir k = dir \<and> asked_rule L E ns k \<lparr>npr_peers = peers, npr_ports = ports\<rparr>"
proof -
  let ?at = "\<lambda>i. indexed (indexed (''spec.'' @ dir_string dir) i @ ''.'' @ peerField dir)"
  let ?at2 = "\<lambda>i. indexed (indexed (''spec.'' @ dir_string dir) i @ ''.ports'')"
  let ?ps = "fst (range_loop (\<lambda>j. translatePeer L ns (?at i j)) 0 peers)"
  let ?qs = "fst (range_loop (\<lambda>j. translatePort (?at2 i j)) 0 ports)"
  from tr have r: "r = \<lparr>rule_direction = dir,
        rule_peers = (if peers = [] then [cidr_peer ''0.0.0.0/0'', cidr_peer ''::/0''] else []) @ ?ps,
        rule_ports = ?qs\<rparr>" and np: "ports = [] \<or> ?qs \<noteq> []"
    by (auto simp: translateRule_def Let_def case_prod_beta split: if_splits)
  have "list_ex (\<lambda>p. asked_peer L E ns p (pkt_addr k)) peers" if "peers \<noteq> []"
  proof -
    from assms(2) that r obtain q where "q \<in> set ?ps" "peer_allows E (pkt_addr k) q"
      by (auto simp: rule_allows_def list_ex_iff)
    then show ?thesis
      by (auto simp: list_ex_iff elim!: range_loop_member
          dest: translatePeer_sound [OF _ _ assms(4,5)])
  qed
  moreover have "list_ex (asked_port E k) ports" if "ports \<noteq> []"
  proof -
    from assms(2) that r np obtain q where "q \<in> set ?qs" "port_allows k q"
      by (auto simp: rule_allows_def list_ex_iff)
    then show ?thesis
      using assms(3)
      by (auto simp: list_ex_iff list_all_iff elim!: range_loop_member dest: translatePort_sound)
  qed
  ultimately show ?thesis
    using assms(2) r by (auto simp: asked_rule_def rule_allows_def)
qed

lemma translateRule_complete:
  assumes "snd (translateRule L ns dir i peers ports) = []" and "pkt_dir k = dir"
    and "asked_rule L E ns k \<lparr>npr_peers = peers, npr_ports = ports\<rparr>"
    and "list_all valid_np_peer peers" and "list_all valid_np_port ports"
    and "ns \<noteq> []" and "everything_matches L" and "cidr_covers_all E"
  shows "\<exists>r. fst (translateRule L ns dir i peers ports) = Some r \<and> rule_allows E k r"
proof -
  let ?at = "\<lambda>i. indexed (indexed (''spec.'' @ dir_string dir) i @ ''.'' @ peerField dir)"
  let ?at2 = "\<lambda>i. indexed (indexed (''spec.'' @ dir_string dir) i @ ''.ports'')"
  let ?ps = "range_loop (\<lambda>j. translatePeer L ns (?at i j)) 0 peers"
  let ?qs = "range_loop (\<lambda>j. translatePort (?at2 i j)) 0 ports"
  let ?peers = "(if peers = [] then [cidr_peer ''0.0.0.0/0'', cidr_peer ''::/0''] else []) @ fst ?ps"
  from assms(1) have none: "snd ?ps = []" "snd ?qs = []"
    by (auto simp: translateRule_def Let_def case_prod_beta split: if_splits)
  have peer: "\<exists>q \<in> set ?peers. peer_allows E (pkt_addr k) q"
  proof (cases "peers = []")
    case True
    with assms(8) show ?thesis
      by (auto simp: cidr_covers_all_def peer_allows_def cidr_peer_def)
  next
    case False
    with assms(3) obtain p where p: "p \<in> set peers" "asked_peer L E ns p (pkt_addr k)"
      by (auto simp: asked_rule_def list_ex_iff)
    with assms(4) have "valid_np_peer p" by (simp add: list_all_iff)
    with p have "\<exists>q \<in> set (fst ?ps). peer_allows E (pkt_addr k) q"
      by (intro range_loop_keeps [OF p(1) none(1)] translatePeer_complete [OF _ p(2) assms(6,7)])
    then show ?thesis by auto
  qed
  have port: "ports = [] \<or> (\<exists>q \<in> set (fst ?qs). port_allows k q)"
  proof (cases "ports = []")
    case False
    with assms(3) obtain p where p: "p \<in> set ports" "asked_port E k p"
      by (auto simp: asked_rule_def list_ex_iff)
    with assms(5) have "valid_np_port p" by (simp add: list_all_iff)
    with p show ?thesis
      by (intro disjI2 range_loop_keeps [OF p(1) none(2)] translatePort_complete [OF _ p(2)])
  qed simp
  from peer port assms(2) show ?thesis
    by (auto simp: translateRule_def Let_def case_prod_beta rule_allows_def list_ex_iff)
qed

lemma Translate_rules:
  assumes "Translate L p = Inr t"
  shows "r \<in> set (tr_rules t) \<longleftrightarrow>
    (\<exists>d j. j < length (np_rules p d) \<and>
      fst (translateRule L (np_namespace p) d j (npr_peers (np_rules p d ! j)) (npr_ports (np_rules p d ! j))) = Some r)"
proof -
  have ex: "(\<exists>d. P d) \<longleftrightarrow> P Ingress \<or> P Egress" for P
    by (metis direction.exhaust)
  from assms show ?thesis
    unfolding ex
    by (auto simp: Translate_def Let_def case_prod_beta range_loop_fst split: sum.splits)
qed

lemma Translate_refused:
  assumes "Translate L p = Inr t" and "tr_refused t = []" and "j < length (np_rules p d)"
  shows "snd (translateRule L (np_namespace p) d j (npr_peers (np_rules p d ! j)) (npr_ports (np_rules p d ! j))) = []"
proof -
  let ?f = "\<lambda>d i r. let (ro, refs) = translateRule L (np_namespace p) d i (npr_peers r) (npr_ports r)
                   in (option_list ro, refs)"
  from assms(1,2) have "snd (range_loop (?f d) 0 (np_rules p d)) = []"
    by (cases d) (auto simp: Translate_def Let_def case_prod_beta split: sum.splits)
  from range_loop_no_snd [OF this assms(3)] show ?thesis
    by (simp add: case_prod_beta Let_def)
qed

lemma Translate_isolates:
  "Translate L p = Inr t \<Longrightarrow> tr_isolates t = np_isolates p"
  by (auto simp: Translate_def Let_def case_prod_beta np_isolates_isolatesOf split: sum.splits)

lemma Translate_subject:
  "Translate L p = Inr t \<Longrightarrow> as_selector L (np_subject p) = Inr (tr_subject t)"
  by (auto simp: Translate_def Let_def case_prod_beta split: sum.splits)

lemma valid_policy_rule:
  "valid_policy p \<Longrightarrow> j < length (np_rules p d) \<Longrightarrow> valid_np_rule (np_rules p d ! j)"
  by (cases d) (auto simp: valid_policy_def list_all_length)

section \<open>Selector keys\<close>

lemma SelectorKey_scope:
  assumes "SelectorKey L ns nsSel podSel = Inr key" and "labels_laws L" and "CHR '';'' \<notin> set ns"
  obtains scope pods where "key = scope @ '';pods='' @ pods" "CHR '';'' \<notin> set scope"
    "scope = (case nsSel of None \<Rightarrow> ''ns='' @ ns
       | Some n \<Rightarrow> ''nsSelector='' @ sel_string (projr (as_selector L n)))"
    "pods = (case podSel of None \<Rightarrow> ''all'' | Some p \<Rightarrow> sel_string (projr (as_selector L p)))"
  using assms
  by (fastforce simp: SelectorKey_def bind_r_Inr_iff labels_laws_def split: option.splits sum.splits)

lemma SelectorKey_agree:
  assumes "SelectorKey L ns n p = Inr key" and "SelectorKey L ns n' p' = Inr key"
    and r: "resolvePeer L ns n p = Inr s" and r': "resolvePeer L ns n' p' = Inr s'"
    and L: "labels_laws L" and ns: "CHR '';'' \<notin> set ns" "ns \<noteq> []"
    and "\<And>q t. p = Some q \<Longrightarrow> as_selector L q = Inr t \<Longrightarrow> sel_string t \<noteq> ''all''"
    and "\<And>q t. p' = Some q \<Longrightarrow> as_selector L q = Inr t \<Longrightarrow> sel_string t \<noteq> ''all''"
  shows "psel_selects E s a = psel_selects E s' a"
proof -
  obtain sc po where 1: "key = sc @ '';pods='' @ po" "CHR '';'' \<notin> set sc"
    "sc = (case n of None \<Rightarrow> ''ns='' @ ns | Some n \<Rightarrow> ''nsSelector='' @ sel_string (projr (as_selector L n)))"
    "po = (case p of None \<Rightarrow> ''all'' | Some p \<Rightarrow> sel_string (projr (as_selector L p)))"
    using SelectorKey_scope [OF assms(1) L ns(1)] .
  obtain sc' po' where 2: "key = sc' @ '';pods='' @ po'" "CHR '';'' \<notin> set sc'"
    "sc' = (case n' of None \<Rightarrow> ''ns='' @ ns | Some n \<Rightarrow> ''nsSelector='' @ sel_string (projr (as_selector L n)))"
    "po' = (case p' of None \<Rightarrow> ''all'' | Some p \<Rightarrow> sel_string (projr (as_selector L p)))"
    using SelectorKey_scope [OF assms(2) L ns(1)] .
  from 1(1,2) 2(1,2) have eq: "sc = sc'" "po = po'"
    using sep_split [of "CHR '';''" sc sc' "''pods='' @ po" "''pods='' @ po'"] by auto
  have every: "sel_matches (everything L) l" for l
    using L by (simp add: labels_laws_def everything_matches_def)
  have same: "sel_string t = sel_string t' \<Longrightarrow> sel_matches t = sel_matches t'"
    if "as_selector L x = Inr t" "as_selector L x' = Inr t'" for x x' t t'
    using L that unfolding labels_laws_def by blast
  have nsame: "(if psel_namespace s \<noteq> [] then ns_name m = psel_namespace s
        else case psel_namespaces s of None \<Rightarrow> True | Some t \<Rightarrow> sel_matches t (ns_labels m)) =
      (if psel_namespace s' \<noteq> [] then ns_name m = psel_namespace s'
        else case psel_namespaces s' of None \<Rightarrow> True | Some t \<Rightarrow> sel_matches t (ns_labels m))" for m
    using r r' eq(1) 1(3) 2(3) ns(2)
    by (auto simp: resolvePeer_def bind_r_Inr_iff split: option.splits dest: same)
  have "sel_matches (the (psel_pods s)) = sel_matches (the (psel_pods s'))"
    using r r' eq(2) 1(4) 2(4) assms(8,9)
    by (auto simp: resolvePeer_def bind_r_Inr_iff split: option.splits dest: same)
  moreover have "psel_pods s \<noteq> None" "psel_pods s' \<noteq> None"
    using r r' by (auto simp: resolvePeer_def bind_r_Inr_iff split: option.splits)
  ultimately show ?thesis
    unfolding psel_selects_def nsame by (auto split: option.splits)
qed

lemma translatePeer_member:
  assumes "q \<in> set (fst (translatePeer L ns at p))" and "peer_cidr q = []" and "valid_np_peer p"
  shows "SelectorKey L ns (np_namespaceSelector p) (np_podSelector p) = Inr (peer_key q)"
    and "resolvePeer L ns (np_namespaceSelector p) (np_podSelector p) = Inr (peer_selector q)"
  using assms
  by (auto simp: translatePeer_def set_peer_def cidr_peer_def valid_np_peer_def
      split: option.splits if_splits sum.splits)

text \<open>A peer of a translated rule comes from a peer of the policy, or stands for every address.\<close>

lemma translateRule_peer:
  assumes "fst (translateRule L ns dir i peers ports) = Some r" and "q \<in> set (rule_peers r)"
  obtains "q = cidr_peer ''0.0.0.0/0'' \<or> q = cidr_peer ''::/0''"
  | at p where "p \<in> set peers" "q \<in> set (fst (translatePeer L ns at p))"
  using assms
  by (auto simp: translateRule_def Let_def case_prod_beta split: if_splits elim!: range_loop_member)

lemma translateRule_port:
  assumes "fst (translateRule L ns dir i peers ports) = Some r" and "q \<in> set (rule_ports r)"
  obtains at p where "p \<in> set ports" "q \<in> set (fst (translatePort at p))"
  using assms
  by (auto simp: translateRule_def Let_def case_prod_beta split: if_splits elim!: range_loop_member)

end
