(* ===== verification/Netpol_Ruleset.thy ===== *)
theory Netpol_Ruleset
  imports Netpol_Translate "HOL-Library.AList"
begin

text \<open>
  \<^verbatim>\<open>pkg/netpol/ruleset.go\<close>: translated rules expanded into the rules Neutron stores, one
  remote and one port range each. The lemmas show that the expansion keeps the meaning of the
  rules, and with the lemmas of \<open>Netpol_Translate\<close> that a policy never comes out wider than
  what was asked for.
\<close>

section \<open>Data\<close>

record sgrule =
  sg_direction :: direction
  sg_ethertype :: string
  sg_protocol :: string
  sg_portmin :: int
  sg_portmax :: int
  sg_cidr :: string
  sg_group :: string

text \<open>The peer sets a rule set refers to, by selector key.\<close>

record ruleset =
  rs_rules :: "sgrule list"
  rs_peers :: "(string \<times> peer_selector) list"

definition sg_key :: "sgrule \<Rightarrow> string" where
  "sg_key r = dir_string (sg_direction r) @ ''|'' @ sg_ethertype r @ ''|'' @ sg_protocol r @ ''|''
     @ show_int (sg_portmin r) @ ''|'' @ show_int (sg_portmax r) @ ''|'' @ sg_cidr r @ ''|'' @ sg_group r"

section \<open>Expansion\<close>

definition familyOfCIDR :: "string \<Rightarrow> string" where
  "familyOfCIDR cidr = (if contains_str cidr '':'' then ''IPv6'' else ''IPv4'')"

definition familiesFor :: "peer \<Rightarrow> string list" where
  "familiesFor p = (if peer_cidr p \<noteq> [] then [familyOfCIDR (peer_cidr p)] else [''IPv4'', ''IPv6''])"

definition protocolOf :: "port \<Rightarrow> string" where
  "protocolOf p = (if port_protocol p = [] then [] else to_lower (port_protocol p))"

definition zero_port :: port where
  "zero_port = \<lparr>port_protocol = [], port_min = 0, port_max = 0\<rparr>"

definition sgrule_for :: "rule \<Rightarrow> peer \<Rightarrow> port \<Rightarrow> string \<Rightarrow> sgrule" where
  "sgrule_for r pe po family =
     \<lparr>sg_direction = rule_direction r, sg_ethertype = family, sg_protocol = protocolOf po,
      sg_portmin = port_min po, sg_portmax = port_max po,
      sg_cidr = peer_cidr pe, sg_group = (if peer_cidr pe \<noteq> [] then [] else peer_key pe)\<rparr>"

text \<open>The variables of the loop: the keys seen, the rules so far, the peer sets so far.\<close>

type_synonym expand_state = "string list \<times> sgrule list \<times> (string \<times> peer_selector) list"

fun expand_turn :: "rule \<times> peer \<times> port \<times> string \<Rightarrow> expand_state \<Rightarrow> expand_state" where
  "expand_turn (r, pe, po, family) (seen, out, peers) =
     (if peer_cidr pe \<noteq> [] \<and> family \<noteq> familyOfCIDR (peer_cidr pe) then (seen, out, peers)
      else
        (let rl = sgrule_for r pe po family;
             peers' = (if peer_cidr pe \<noteq> [] then peers
                       else AList.update (peer_key pe) (peer_selector pe) peers)
         in if sg_key rl \<in> set seen then (seen, out, peers')
            else (sg_key rl # seen, out @ [rl], peers')))"

definition portsOf :: "rule \<Rightarrow> port list" where
  "portsOf r = (if rule_ports r = [] then [zero_port] else rule_ports r)"

definition expand_turns :: "rule list \<Rightarrow> (rule \<times> peer \<times> port \<times> string) list" where
  "expand_turns rules =
     concat (map (\<lambda>r. concat (map (\<lambda>pe. concat (map (\<lambda>po.
       map (\<lambda>family. (r, pe, po, family)) (familiesFor pe)) (portsOf r))) (rule_peers r))) rules)"

definition Expand :: "rule list \<Rightarrow> ruleset" where
  "Expand rules =
     (let (seen, out, peers) = fold expand_turn (expand_turns rules) ([], [], [])
      in \<lparr>rs_rules = sort_key sg_key out, rs_peers = peers\<rparr>)"

definition rs_empty :: "ruleset \<Rightarrow> bool" where
  "rs_empty s = (rs_rules s = [])"

definition PolicyRules :: "translated \<Rightarrow> ruleset" where
  "PolicyRules t = Expand (filter (\<lambda>r. tr_isolates t (rule_direction r)) (tr_rules t))"

text \<open>The names of the objects in Neutron; \<open>sha\<close> is the hexadecimal SHA-256 digest.\<close>

definition GroupNameFor :: "(string \<Rightarrow> string) \<Rightarrow> string \<Rightarrow> string \<Rightarrow> string" where
  "GroupNameFor sha namespace name = ''knp-policy-'' @ take 16 (sha (obj_key namespace name))"

definition AddressGroupName :: "(string \<Rightarrow> string) \<Rightarrow> string \<Rightarrow> string" where
  "AddressGroupName sha selectorKey = ''knp-peers-'' @ take 16 (sha selectorKey)"

section \<open>What a rule set admits\<close>

text \<open>
  A stored rule admits a packet of its direction and address family, of its protocol (every
  protocol when it names none), on its ports (every port when it names none), whose remote
  address lies in its block or is held by a pod of its peer set.
\<close>

definition sg_admits :: "netenv \<Rightarrow> (string \<times> peer_selector) list \<Rightarrow> packet \<Rightarrow> sgrule \<Rightarrow> bool" where
  "sg_admits E peers k r =
     (sg_direction r = pkt_dir k \<and> sg_ethertype r = addr_family E (pkt_addr k) \<and>
      (sg_protocol r = [] \<or> sg_protocol r = to_lower (pkt_proto k)) \<and>
      range_allows (sg_portmin r) (sg_portmax r) (pkt_port k) \<and>
      (if sg_cidr r \<noteq> [] then in_cidr E (sg_cidr r) (pkt_addr k)
       else case map_of peers (sg_group r) of None \<Rightarrow> False | Some s \<Rightarrow> psel_selects E s (pkt_addr k)))"

definition rs_admits :: "netenv \<Rightarrow> ruleset \<Rightarrow> packet \<Rightarrow> bool" where
  "rs_admits E s k = list_ex (sg_admits E (rs_peers s) k) (rs_rules s)"

text \<open>
  What the addresses of the network satisfy: an address has one of the two families, and only a
  block of its own family contains it.
\<close>

definition families_agree :: "netenv \<Rightarrow> bool" where
  "families_agree E \<longleftrightarrow>
     (\<forall>a. addr_family E a \<in> {''IPv4'', ''IPv6''}) \<and>
     (\<forall>c a. in_cidr E c a \<longrightarrow> addr_family E a = familyOfCIDR c)"

text \<open>
  A packet's protocol and a port's protocol are the names Kubernetes uses, upper case, so that
  lower case tells them apart.
\<close>

definition upper_name :: "string \<Rightarrow> bool" where
  "upper_name s = (s \<in> {''TCP'', ''UDP'', ''SCTP'', ''ICMP''})"

section \<open>Rendered keys are injective\<close>

definition bar_free :: "sgrule \<Rightarrow> bool" where
  "bar_free r = (CHR ''|'' \<notin> set (sg_ethertype r) \<and> CHR ''|'' \<notin> set (sg_protocol r) \<and>
     CHR ''|'' \<notin> set (sg_cidr r))"

lemma sg_key_inj:
  assumes "bar_free r" and "bar_free q" and "sg_key r = sg_key q"
  shows "r = q"
proof -
  have "CHR ''|'' \<notin> set (dir_string d)" for d
    by (cases d) auto
  moreover have "dir_string d = dir_string e \<Longrightarrow> d = e" for d e
    by (cases d; cases e) auto
  ultimately show ?thesis
    using assms
    by (auto simp: sg_key_def bar_free_def sep_split dest!: show_int_inj)
qed

section \<open>The loop of the expansion\<close>

text \<open>
  What holds between the variables of the loop after any number of turns: the keys seen are
  those of the rules kept, no rule is kept twice, every rule kept comes from a turn, every turn
  that names a rule left a rule of the same key, and the peer sets are those of the turns.
\<close>

definition turn_rule :: "rule \<times> peer \<times> port \<times> string \<Rightarrow> sgrule" where
  "turn_rule x = (case x of (r, pe, po, family) \<Rightarrow> sgrule_for r pe po family)"

definition turn_peer :: "rule \<times> peer \<times> port \<times> string \<Rightarrow> peer" where
  "turn_peer x = fst (snd x)"

definition turn_live :: "rule \<times> peer \<times> port \<times> string \<Rightarrow> bool" where
  "turn_live x = (case x of (r, pe, po, family) \<Rightarrow> peer_cidr pe \<noteq> [] \<longrightarrow> family = familyOfCIDR (peer_cidr pe))"

definition expand_inv :: "(rule \<times> peer \<times> port \<times> string) list \<Rightarrow> expand_state \<Rightarrow> bool" where
  "expand_inv prev st = (case st of (seen, out, peers) \<Rightarrow>
     set seen = sg_key ` set out \<and> distinct (map sg_key out) \<and>
     set out \<subseteq> turn_rule ` {x \<in> set prev. turn_live x} \<and>
     (\<forall>x \<in> set prev. turn_live x \<longrightarrow> sg_key (turn_rule x) \<in> set seen) \<and>
     dom (map_of peers) = {peer_key (turn_peer x) | x. x \<in> set prev \<and> peer_cidr (turn_peer x) = []} \<and>
     (\<forall>key s. map_of peers key = Some s \<longrightarrow>
        (\<exists>x \<in> set prev. peer_cidr (turn_peer x) = [] \<and> peer_key (turn_peer x) = key \<and>
           peer_selector (turn_peer x) = s)))"

lemma expand_turn_inv:
  assumes "expand_inv prev st"
  shows "expand_inv (prev @ [x]) (expand_turn x st)"
proof -
  obtain r pe po family where x: "x = (r, pe, po, family)"
    by (cases x) auto
  obtain seen out peers where st: "st = (seen, out, peers)"
    by (cases st) auto
  show ?thesis
  proof (cases "peer_cidr pe = []")
    case True
    with assms show ?thesis
      by (auto simp: x st expand_inv_def turn_live_def turn_rule_def turn_peer_def update_conv' Let_def
          intro: rev_image_eqI [where x = "(r, pe, po, family)"])
  next
    case False
    with assms show ?thesis
      by (auto simp: x st expand_inv_def turn_live_def turn_rule_def turn_peer_def Let_def
          intro: rev_image_eqI [where x = "(r, pe, po, familyOfCIDR (peer_cidr pe))"])
  qed
qed

lemma fold_expand_inv:
  "expand_inv prev st \<Longrightarrow> expand_inv (prev @ xs) (fold expand_turn xs st)"
proof (induction xs arbitrary: prev st)
  case (Cons x xs)
  from Cons.IH [OF expand_turn_inv [OF Cons.prems, of x]] show ?case by simp
qed simp

lemma expand_inv_Expand:
  obtains seen out where "expand_inv (expand_turns rules) (seen, out, rs_peers (Expand rules))"
    and "rs_rules (Expand rules) = sort_key sg_key out"
proof -
  obtain seen out peers where f: "fold expand_turn (expand_turns rules) ([], [], []) = (seen, out, peers)"
    by (metis prod_cases3)
  have "expand_inv [] ([], [], [])"
    by (simp add: expand_inv_def)
  from fold_expand_inv [OF this, of "expand_turns rules"] f that show thesis
    by (simp add: Expand_def)
qed

lemma in_expand_turns:
  "(r, pe, po, family) \<in> set (expand_turns rules) \<longleftrightarrow>
     r \<in> set rules \<and> pe \<in> set (rule_peers r) \<and> po \<in> set (portsOf r) \<and> family \<in> set (familiesFor pe)"
  by (auto simp: expand_turns_def)

lemma turn_live_all: "x \<in> set (expand_turns rules) \<Longrightarrow> turn_live x"
  by (cases x) (auto simp: in_expand_turns turn_live_def familiesFor_def)

text \<open>The rules of an expansion are those of its turns, each key once and in key order.\<close>

lemma Expand_rules_subset:
  assumes "q \<in> set (rs_rules (Expand rules))"
  obtains r pe po family where "r \<in> set rules" "pe \<in> set (rule_peers r)" "po \<in> set (portsOf r)"
    "family \<in> set (familiesFor pe)" "q = sgrule_for r pe po family"
proof (rule expand_inv_Expand [of rules])
  fix seen out
  assume "expand_inv (expand_turns rules) (seen, out, rs_peers (Expand rules))"
    and "rs_rules (Expand rules) = sort_key sg_key out"
  with assms have "q \<in> turn_rule ` set (expand_turns rules)"
    by (auto simp: expand_inv_def)
  then show thesis
    using that by (auto simp: in_expand_turns turn_rule_def)
qed

lemma Expand_rules_superset:
  assumes "r \<in> set rules" "pe \<in> set (rule_peers r)" "po \<in> set (portsOf r)" "family \<in> set (familiesFor pe)"
  shows "\<exists>q \<in> set (rs_rules (Expand rules)). sg_key q = sg_key (sgrule_for r pe po family)"
proof (rule expand_inv_Expand [of rules])
  fix seen out
  assume inv: "expand_inv (expand_turns rules) (seen, out, rs_peers (Expand rules))"
    and rs: "rs_rules (Expand rules) = sort_key sg_key out"
  have "(r, pe, po, family) \<in> set (expand_turns rules)"
    using assms by (simp add: in_expand_turns)
  with inv turn_live_all have "sg_key (sgrule_for r pe po family) \<in> sg_key ` set out"
    by (force simp: expand_inv_def turn_rule_def)
  with rs show ?thesis by auto
qed

lemma Expand_distinct_keys: "distinct (map sg_key (rs_rules (Expand rules)))"
  by (rule expand_inv_Expand [of rules]) (simp add: expand_inv_def distinct_map)

lemma Expand_sorted_keys: "sorted (map sg_key (rs_rules (Expand rules)))"
  by (rule expand_inv_Expand [of rules]) simp

lemma Expand_peers:
  assumes "map_of (rs_peers (Expand rules)) key = Some s"
  obtains r pe where "r \<in> set rules" "pe \<in> set (rule_peers r)" "peer_cidr pe = []"
    "peer_key pe = key" "peer_selector pe = s"
proof (rule expand_inv_Expand [of rules])
  fix seen out
  assume "expand_inv (expand_turns rules) (seen, out, rs_peers (Expand rules))"
  with assms obtain x where x: "x \<in> set (expand_turns rules)" "peer_cidr (turn_peer x) = []"
      "peer_key (turn_peer x) = key" "peer_selector (turn_peer x) = s"
    unfolding expand_inv_def by blast
  then show thesis
    by (intro that [of "fst x" "turn_peer x"]) (cases x; simp add: in_expand_turns turn_peer_def)+
qed

lemma Expand_peers_dom:
  assumes "r \<in> set rules" "pe \<in> set (rule_peers r)" "peer_cidr pe = []"
  shows "\<exists>s. map_of (rs_peers (Expand rules)) (peer_key pe) = Some s"
proof (rule expand_inv_Expand [of rules])
  fix seen out
  assume inv: "expand_inv (expand_turns rules) (seen, out, rs_peers (Expand rules))"
  obtain po where "po \<in> set (portsOf r)"
    by (cases "rule_ports r") (auto simp: portsOf_def)
  with assms have "(r, pe, po, ''IPv4'') \<in> set (expand_turns rules)"
    by (simp add: in_expand_turns familiesFor_def)
  with assms have "peer_key pe \<in> {peer_key (turn_peer x) | x. x \<in> set (expand_turns rules) \<and> peer_cidr (turn_peer x) = []}"
    by (force simp: turn_peer_def)
  with inv have "peer_key pe \<in> dom (map_of (rs_peers (Expand rules)))"
    by (simp add: expand_inv_def)
  then show ?thesis by auto
qed

section \<open>The expansion keeps the meaning of the rules\<close>

text \<open>Peers that share a key stand for the same pods.\<close>

definition keys_agree :: "netenv \<Rightarrow> rule list \<Rightarrow> bool" where
  "keys_agree E rules \<longleftrightarrow>
     (\<forall>r \<in> set rules. \<forall>r' \<in> set rules. \<forall>p \<in> set (rule_peers r). \<forall>p' \<in> set (rule_peers r').
        peer_cidr p = [] \<longrightarrow> peer_cidr p' = [] \<longrightarrow> peer_key p = peer_key p' \<longrightarrow>
        (\<forall>a. psel_selects E (peer_selector p) a = psel_selects E (peer_selector p') a))"

definition rule_named :: "rule \<Rightarrow> bool" where
  "rule_named r = (list_all (\<lambda>p. upper_name (port_protocol p)) (rule_ports r) \<and>
     list_all (\<lambda>p. CHR ''|'' \<notin> set (peer_cidr p)) (rule_peers r))"

lemma to_lower_names:
  "to_lower ''TCP'' = ''tcp''" "to_lower ''UDP'' = ''udp''"
  "to_lower ''SCTP'' = ''sctp''" "to_lower ''ICMP'' = ''icmp''"
  by code_simp+

lemma to_lower_name_inj:
  "upper_name s \<Longrightarrow> upper_name t \<Longrightarrow> to_lower s = to_lower t \<longleftrightarrow> s = t"
  by (auto simp: upper_name_def to_lower_names)

lemma to_lower_name_bar: "upper_name s \<Longrightarrow> CHR ''|'' \<notin> set (to_lower s)"
  by (auto simp: upper_name_def to_lower_names)

lemma upper_name_nonempty: "upper_name s \<Longrightarrow> s \<noteq> [] \<and> to_lower s \<noteq> []"
  by (auto simp: upper_name_def to_lower_names)

lemma port_admits_iff:
  assumes "po \<in> set (portsOf r)" and "rule_named r" and "upper_name (pkt_proto k)"
  shows "(protocolOf po = [] \<or> protocolOf po = to_lower (pkt_proto k)) \<and>
      range_allows (port_min po) (port_max po) (pkt_port k) \<longleftrightarrow>
    (rule_ports r = [] \<or> port_allows k po)"
  using assms upper_name_nonempty to_lower_name_inj
  by (auto simp: portsOf_def protocolOf_def zero_port_def port_allows_def range_allows_def
      rule_named_def list_all_iff split: if_splits)

lemma keys_agree_map_of:
  assumes "keys_agree E rules" and "r \<in> set rules" "pe \<in> set (rule_peers r)" "peer_cidr pe = []"
  shows "\<exists>s. map_of (rs_peers (Expand rules)) (peer_key pe) = Some s \<and>
    (\<forall>a. psel_selects E s a = psel_selects E (peer_selector pe) a)"
proof -
  from Expand_peers_dom [OF assms(2-4)] obtain s
    where s: "map_of (rs_peers (Expand rules)) (peer_key pe) = Some s" ..
  from Expand_peers [OF s] obtain r' pe' where "r' \<in> set rules" "pe' \<in> set (rule_peers r')"
      "peer_cidr pe' = []" "peer_key pe' = peer_key pe" "peer_selector pe' = s"
    by metis
  with assms s show ?thesis
    unfolding keys_agree_def by metis
qed

lemma sgrule_for_admits:
  assumes "keys_agree E rules" and "r \<in> set rules" "pe \<in> set (rule_peers r)" "po \<in> set (portsOf r)"
    and "rule_named r" and "upper_name (pkt_proto k)"
  shows "sg_admits E (rs_peers (Expand rules)) k (sgrule_for r pe po family) \<longleftrightarrow>
    rule_direction r = pkt_dir k \<and> family = addr_family E (pkt_addr k) \<and>
    peer_allows E (pkt_addr k) pe \<and> (rule_ports r = [] \<or> port_allows k po)"
proof (cases "peer_cidr pe = []")
  case True
  with keys_agree_map_of [OF assms(1-3)] obtain s
    where s: "map_of (rs_peers (Expand rules)) (peer_key pe) = Some s"
      "psel_selects E s (pkt_addr k) = psel_selects E (peer_selector pe) (pkt_addr k)"
    by blast
  show ?thesis
    unfolding port_admits_iff [OF assms(4-6), symmetric]
    by (simp add: sg_admits_def sgrule_for_def peer_allows_def True s) blast
next
  case False
  then show ?thesis
    unfolding port_admits_iff [OF assms(4-6), symmetric]
    by (simp add: sg_admits_def sgrule_for_def peer_allows_def) blast
qed

lemma Expand_admits_sound:
  assumes "rs_admits E (Expand rules) k" and "keys_agree E rules"
    and "list_all rule_named rules" and "upper_name (pkt_proto k)"
  shows "\<exists>r \<in> set rules. rule_allows E k r"
proof -
  from assms(1) obtain q where q: "q \<in> set (rs_rules (Expand rules))"
      and adm: "sg_admits E (rs_peers (Expand rules)) k q"
    by (auto simp: rs_admits_def list_ex_iff)
  from q obtain r pe po family where r: "r \<in> set rules" "pe \<in> set (rule_peers r)"
      "po \<in> set (portsOf r)" "q = sgrule_for r pe po family"
    by (rule Expand_rules_subset)
  with adm assms sgrule_for_admits [OF assms(2) r(1-3) _ assms(4)] show ?thesis
    by (auto simp: rule_allows_def list_ex_iff list_all_iff portsOf_def split: if_splits)
qed

lemma sgrule_for_bar_free:
  assumes "pe \<in> set (rule_peers r)" "po \<in> set (portsOf r)" "family \<in> set (familiesFor pe)" "rule_named r"
  shows "bar_free (sgrule_for r pe po family)"
  using assms to_lower_name_bar
  by (auto simp: bar_free_def sgrule_for_def rule_named_def list_all_iff portsOf_def protocolOf_def
      zero_port_def familiesFor_def familyOfCIDR_def split: if_splits)

lemma Expand_admits_complete:
  assumes "r \<in> set rules" and "rule_allows E k r" and "keys_agree E rules" and "families_agree E"
    and "list_all rule_named rules" and "upper_name (pkt_proto k)"
  shows "rs_admits E (Expand rules) k"
proof -
  let ?f = "addr_family E (pkt_addr k)"
  from assms(2) obtain pe po where pe: "pe \<in> set (rule_peers r)" "peer_allows E (pkt_addr k) pe"
      and po: "po \<in> set (portsOf r)" "rule_ports r = [] \<or> port_allows k po"
    by (cases "rule_ports r = []") (auto simp: rule_allows_def list_ex_iff portsOf_def)
  have fam: "?f \<in> set (familiesFor pe)"
    using assms(4) pe(2) by (auto simp: families_agree_def familiesFor_def peer_allows_def)
  from assms(1,5) have named: "rule_named r" by (simp add: list_all_iff)
  from Expand_rules_superset [OF assms(1) pe(1) po(1) fam] obtain q
    where q: "q \<in> set (rs_rules (Expand rules))" "sg_key q = sg_key (sgrule_for r pe po ?f)" ..
  have "bar_free q"
    by (rule Expand_rules_subset [OF q(1)])
      (use assms(5) in \<open>auto simp: list_all_iff intro: sgrule_for_bar_free\<close>)
  with q(2) sgrule_for_bar_free [OF pe(1) po(1) fam named] have "q = sgrule_for r pe po ?f"
    by (intro sg_key_inj)
  with q(1) sgrule_for_admits [OF assms(3,1) pe(1) po(1) named assms(6), of ?f] assms(2) pe(2) po(2)
  show ?thesis
    by (auto simp: rs_admits_def list_ex_iff rule_allows_def)
qed

section \<open>A policy and the rules made of it\<close>

lemma Translate_peer_origin:
  assumes "Translate L p = Inr t" and "r \<in> set (tr_rules t)" and "q \<in> set (rule_peers r)"
    and "peer_cidr q = []" and "valid_policy p"
  obtains x nr where "nr \<in> set (np_ingress p @ np_egress p)" "x \<in> set (npr_peers nr)"
    "SelectorKey L (np_namespace p) (np_namespaceSelector x) (np_podSelector x) = Inr (peer_key q)"
    "resolvePeer L (np_namespace p) (np_namespaceSelector x) (np_podSelector x) = Inr (peer_selector q)"
proof -
  from assms(2) obtain d j where j: "j < length (np_rules p d)"
    "fst (translateRule L (np_namespace p) d j (npr_peers (np_rules p d ! j)) (npr_ports (np_rules p d ! j))) = Some r"
    unfolding Translate_rules [OF assms(1)] by blast
  let ?nr = "np_rules p d ! j"
  have nr: "?nr \<in> set (np_ingress p @ np_egress p)"
    using j(1) by (cases d) auto
  from j(2) assms(3) show thesis
  proof (cases rule: translateRule_peer)
    case 1
    with assms(4) show thesis by (auto simp: cidr_peer_def)
  next
    case (2 at x)
    with valid_policy_rule [OF assms(5) j(1)] have "valid_np_peer x"
      by (simp add: valid_np_rule_def list_all_iff)
    with 2 assms(4) translatePeer_member [of q L "np_namespace p" at x] that [OF nr] show thesis
      by blast
  qed
qed

lemma Translate_keys_agree:
  assumes "Translate L p = Inr t" and "valid_policy p" and "labels_laws L" and "avoids_all L p"
    and "set rules \<subseteq> set (tr_rules t)"
  shows "keys_agree E rules"
  unfolding keys_agree_def
proof (intro ballI impI allI)
  fix r r' q q' a
  assume in_rules: "r \<in> set rules" "r' \<in> set rules"
    and q: "q \<in> set (rule_peers r)" "peer_cidr q = []"
    and q': "q' \<in> set (rule_peers r')" "peer_cidr q' = []" and key: "peer_key q = peer_key q'"
  from in_rules assms(5) have tr: "r \<in> set (tr_rules t)" "r' \<in> set (tr_rules t)" by auto
  obtain x nr where
    x: "nr \<in> set (np_ingress p @ np_egress p)" "x \<in> set (npr_peers nr)"
      "SelectorKey L (np_namespace p) (np_namespaceSelector x) (np_podSelector x) = Inr (peer_key q)"
      "resolvePeer L (np_namespace p) (np_namespaceSelector x) (np_podSelector x) = Inr (peer_selector q)"
    by (rule Translate_peer_origin [OF assms(1) tr(1) q assms(2)])
  obtain x' nr' where
    x': "nr' \<in> set (np_ingress p @ np_egress p)" "x' \<in> set (npr_peers nr')"
      "SelectorKey L (np_namespace p) (np_namespaceSelector x') (np_podSelector x') = Inr (peer_key q')"
      "resolvePeer L (np_namespace p) (np_namespaceSelector x') (np_podSelector x') = Inr (peer_selector q')"
    by (rule Translate_peer_origin [OF assms(1) tr(2) q' assms(2)])
  have avoid: "sel_string u \<noteq> ''all''"
    if "nr \<in> set (np_ingress p @ np_egress p)" "x \<in> set (npr_peers nr)"
      "np_podSelector x = Some w" "as_selector L w = Inr u" for nr x w u
    using assms(4) that unfolding avoids_all_def list_all_iff by fastforce
  show "psel_selects E (peer_selector q) a = psel_selects E (peer_selector q') a"
    using SelectorKey_agree [OF x(3) x'(3) [folded key] x(4) x'(4) assms(3)]
      avoid [OF x(1,2)] avoid [OF x'(1,2)] assms(2) unfolding valid_policy_def by blast
qed

lemma translatePort_named:
  "valid_np_port p \<Longrightarrow> q \<in> set (fst (translatePort at p)) \<Longrightarrow> upper_name (port_protocol q)"
  by (auto simp: translatePort_def valid_np_port_def upper_name_def proto_of_def Let_def
      split: option.splits int_or_string.splits if_splits)

lemma translatePeer_named:
  "valid_np_peer p \<Longrightarrow> q \<in> set (fst (translatePeer L ns at p)) \<Longrightarrow> CHR ''|'' \<notin> set (peer_cidr q)"
  by (auto simp: translatePeer_def valid_np_peer_def cidr_peer_def set_peer_def
      split: option.splits if_splits sum.splits)

lemma Translate_rule_named:
  assumes "Translate L p = Inr t" and "valid_policy p" and "r \<in> set (tr_rules t)"
  shows "rule_named r"
proof -
  from assms(3) obtain d j where j: "j < length (np_rules p d)"
    "fst (translateRule L (np_namespace p) d j (npr_peers (np_rules p d ! j)) (npr_ports (np_rules p d ! j))) = Some r"
    unfolding Translate_rules [OF assms(1)] by blast
  from valid_policy_rule [OF assms(2) j(1)]
  have v: "list_all valid_np_peer (npr_peers (np_rules p d ! j))" "list_all valid_np_port (npr_ports (np_rules p d ! j))"
    by (auto simp: valid_np_rule_def)
  have "CHR ''|'' \<notin> set (peer_cidr q)" if "q \<in> set (rule_peers r)" for q
    using j(2) that
    by (cases rule: translateRule_peer) (use v in \<open>auto simp: cidr_peer_def list_all_iff dest: translatePeer_named\<close>)
  moreover have "upper_name (port_protocol q)" if "q \<in> set (rule_ports r)" for q
    using j(2) that
    by (cases rule: translateRule_port) (use v in \<open>auto simp: list_all_iff dest: translatePort_named\<close>)
  ultimately show ?thesis
    by (simp add: rule_named_def list_all_iff)
qed

lemma Translate_rules_asked:
  assumes "Translate L p = Inr t" and "valid_policy p" and "everything_matches L"
    and "r \<in> set (tr_rules t)" and "tr_isolates t (rule_direction r)" and "rule_allows E k r"
  shows "policy_asks L E p k"
proof -
  from assms(4) obtain d j where j: "j < length (np_rules p d)"
    "fst (translateRule L (np_namespace p) d j (npr_peers (np_rules p d ! j)) (npr_ports (np_rules p d ! j))) = Some r"
    unfolding Translate_rules [OF assms(1)] by blast
  let ?nr = "np_rules p d ! j"
  have "list_all valid_np_port (npr_ports ?nr)" "np_namespace p \<noteq> []"
    using valid_policy_rule [OF assms(2) j(1)] assms(2) by (auto simp: valid_np_rule_def valid_policy_def)
  from translateRule_sound [OF j(2) assms(6) this assms(3)]
  have "pkt_dir k = d" "asked_rule L E (np_namespace p) k ?nr"
    by (auto simp: asked_rule_def)
  moreover have "np_isolates p (pkt_dir k)"
    using assms(5,6) Translate_isolates [OF assms(1)] by (simp add: rule_allows_def)
  ultimately show ?thesis
    using j(1) by (auto simp: policy_asks_def list_ex_iff)
qed

lemma Translate_rules_complete:
  assumes "Translate L p = Inr t" and "valid_policy p" and "everything_matches L"
    and "tr_refused t = []" and "policy_asks L E p k" and "cidr_covers_all E"
  shows "\<exists>r \<in> set (tr_rules t). tr_isolates t (rule_direction r) \<and> rule_allows E k r"
proof -
  from assms(5) obtain j where j: "j < length (np_rules p (pkt_dir k))"
      "asked_rule L E (np_namespace p) k (np_rules p (pkt_dir k) ! j)" and iso: "np_isolates p (pkt_dir k)"
    by (auto simp: policy_asks_def list_ex_iff in_set_conv_nth)
  let ?nr = "np_rules p (pkt_dir k) ! j"
  from j(2) have "asked_rule L E (np_namespace p) k \<lparr>npr_peers = npr_peers ?nr, npr_ports = npr_ports ?nr\<rparr>"
    by (simp add: asked_rule_def)
  moreover have "list_all valid_np_peer (npr_peers ?nr)" "list_all valid_np_port (npr_ports ?nr)" "np_namespace p \<noteq> []"
    using valid_policy_rule [OF assms(2) j(1)] assms(2) by (auto simp: valid_np_rule_def valid_policy_def)
  ultimately obtain r where r: "fst (translateRule L (np_namespace p) (pkt_dir k) j (npr_peers ?nr) (npr_ports ?nr)) = Some r"
      "rule_allows E k r"
    using translateRule_complete [OF Translate_refused [OF assms(1,4) j(1)] refl] assms(3,6) by blast
  with j(1) have "r \<in> set (tr_rules t)"
    unfolding Translate_rules [OF assms(1)] by blast
  moreover have "tr_isolates t (rule_direction r)"
    using r(2) iso Translate_isolates [OF assms(1)] by (simp add: rule_allows_def)
  ultimately show ?thesis
    using r(2) by blast
qed

lemma PolicyRules_sound:
  assumes "Translate L p = Inr t" and "valid_policy p" and "labels_laws L" and "avoids_all L p"
    and "upper_name (pkt_proto k)" and "rs_admits E (PolicyRules t) k"
  shows "policy_asks L E p k"
proof -
  let ?rs = "filter (\<lambda>r. tr_isolates t (rule_direction r)) (tr_rules t)"
  have "keys_agree E ?rs"
    by (rule Translate_keys_agree [OF assms(1-4)]) auto
  moreover have "list_all rule_named ?rs"
    using Translate_rule_named [OF assms(1,2)] by (auto simp: list_all_iff)
  ultimately obtain r where "r \<in> set ?rs" "rule_allows E k r"
    using Expand_admits_sound assms(5,6) unfolding PolicyRules_def by blast
  then show ?thesis
    using Translate_rules_asked [OF assms(1,2)] assms(3) by (auto simp: labels_laws_def)
qed

lemma PolicyRules_iff:
  assumes "Translate L p = Inr t" and "valid_policy p" and "labels_laws L" and "avoids_all L p"
    and "upper_name (pkt_proto k)" and "families_agree E" and "cidr_covers_all E"
    and "tr_refused t = []"
  shows "rs_admits E (PolicyRules t) k \<longleftrightarrow> policy_asks L E p k"
proof -
  let ?rs = "filter (\<lambda>r. tr_isolates t (rule_direction r)) (tr_rules t)"
  have agree: "keys_agree E ?rs"
    by (rule Translate_keys_agree [OF assms(1-4)]) auto
  have named: "list_all rule_named ?rs"
    using Translate_rule_named [OF assms(1,2)] by (auto simp: list_all_iff)
  have every: "everything_matches L"
    using assms(3) by (simp add: labels_laws_def)
  have "rs_admits E (PolicyRules t) k \<longleftrightarrow> (\<exists>r \<in> set ?rs. rule_allows E k r)"
    using Expand_admits_sound [OF _ agree named assms(5)]
      Expand_admits_complete [OF _ _ agree assms(6) named assms(5)]
    unfolding PolicyRules_def by blast
  also have "\<dots> \<longleftrightarrow> policy_asks L E p k"
    using Translate_rules_asked [OF assms(1,2) every] Translate_rules_complete [OF assms(1,2) every assms(8) _ assms(7)]
    by simp blast
  finally show ?thesis .
qed

section \<open>A small network to apply the theorems at\<close>

definition sample_as_selector :: "label_selector \<Rightarrow> selector result" where
  "sample_as_selector s =
     (if s = \<lparr>matchLabels = [], matchExpressions = []\<rparr> then
        Inr \<lparr>sel_string = [], sel_matches = (\<lambda>_. True)\<rparr>
      else if s = \<lparr>matchLabels = [(''app'', ''web'')], matchExpressions = []\<rparr> then
        Inr \<lparr>sel_string = ''app=web'', sel_matches = (\<lambda>l. (''app'', ''web'') \<in> set l)\<rparr>
      else if s = \<lparr>matchLabels = [], matchExpressions = [(''all'', ''Exists'', [])]\<rparr> then
        Inr \<lparr>sel_string = ''all'', sel_matches = (\<lambda>l. ''all'' \<in> set (map fst l))\<rparr>
      else Inl (ErrText ''not a selector of the sample''))"

definition sample_labels :: labels_api where
  "sample_labels =
     \<lparr>as_selector = sample_as_selector, everything = \<lparr>sel_string = [], sel_matches = (\<lambda>_. True)\<rparr>\<rparr>"

definition sample_prod :: kube_namespace where
  "sample_prod = \<lparr>ns_name = ''prod'', ns_labels = []\<rparr>"

definition sample_env :: netenv where
  "sample_env =
     \<lparr>in_cidr = (\<lambda>c a. c = ''0.0.0.0/0'' \<and> \<not> contains_str a '':'' \<or> c = ''::/0'' \<and> contains_str a '':''),
      addr_family = familyOfCIDR,
      pods_at = (\<lambda>a. if a = ''10.0.0.5'' then [(sample_prod, [(''app'', ''web'')])]
                    else if a = ''10.0.0.6'' then [(sample_prod, [(''all'', ''yes'')])] else []),
      named_port = (\<lambda>_ _ _. False)\<rparr>"

definition sample_peer :: "label_selector option \<Rightarrow> label_selector option \<Rightarrow> np_peer" where
  "sample_peer n p = \<lparr>np_podSelector = p, np_namespaceSelector = n, np_ipBlock = None\<rparr>"

definition sample_port :: "int \<Rightarrow> np_port" where
  "sample_port n = \<lparr>npp_protocol = None, npp_port = Some (IntVal n), npp_endPort = None\<rparr>"

abbreviation empty_selector :: label_selector where
  "empty_selector \<equiv> \<lparr>matchLabels = [], matchExpressions = []\<rparr>"

abbreviation web_selector :: label_selector where
  "web_selector \<equiv> \<lparr>matchLabels = [(''app'', ''web'')], matchExpressions = []\<rparr>"

abbreviation all_selector :: label_selector where
  "all_selector \<equiv> \<lparr>matchLabels = [], matchExpressions = [(''all'', ''Exists'', [])]\<rparr>"

text \<open>Pods of the namespace may be reached on port 80 by the pods labelled as web.\<close>

definition sample_policy :: network_policy where
  "sample_policy =
     \<lparr>np_namespace = ''prod'', np_name = ''web'', np_subject = empty_selector, np_policyTypes = [''Ingress''],
      np_ingress = [\<lparr>npr_peers = [sample_peer None (Some web_selector)], npr_ports = [sample_port 80]\<rparr>],
      np_egress = []\<rparr>"

definition sample_packet :: "string \<Rightarrow> int \<Rightarrow> packet" where
  "sample_packet a n = \<lparr>pkt_dir = Ingress, pkt_addr = a, pkt_proto = ''TCP'', pkt_port = n\<rparr>"

lemma sample_labels_laws: "labels_laws sample_labels"
  by (auto simp: labels_laws_def everything_matches_def sample_labels_def sample_as_selector_def split: if_splits)

lemma sample_everything: "everything_matches sample_labels"
  by (simp add: everything_matches_def sample_labels_def)

lemma sample_env_families: "families_agree sample_env"
  by (auto simp: families_agree_def sample_env_def familyOfCIDR_def)

lemma sample_env_covers: "cidr_covers_all sample_env"
  by (auto simp: cidr_covers_all_def sample_env_def)

lemma sample_translates: "Translate sample_labels sample_policy = Inr (projr (Translate sample_labels sample_policy))"
proof -
  have "\<not> isl (Translate sample_labels sample_policy)" by code_simp
  then show ?thesis by (metis sum.collapse(2))
qed

section \<open>Properties\<close>



text \<open>
  Where nothing of a policy was refused, its security group rules admit exactly the packets
  the policy allows: the translation and the expansion lose nothing.
\<close>

theorem PolicyRules_exact:
  assumes "Translate L p = Inr t" and "valid_policy p" and "labels_laws L" and "avoids_all L p"
    and "upper_name (pkt_proto k)" and "families_agree E" and "cidr_covers_all E"
    and "tr_refused t = []"
  shows "rs_admits E (PolicyRules t) k \<longleftrightarrow> policy_asks L E p k"
  using PolicyRules_iff [OF assms] .

theorem PolicyRules_exact_witness:
  "(rs_admits sample_env (PolicyRules (projr (Translate sample_labels sample_policy))) (sample_packet ''10.0.0.6'' 80)
     \<longleftrightarrow> policy_asks sample_labels sample_env sample_policy (sample_packet ''10.0.0.6'' 80)) \<and>
   tr_refused (projr (Translate sample_labels sample_policy)) = []"
proof -
  have 1: "valid_policy sample_policy" "avoids_all sample_labels sample_policy"
    "upper_name (pkt_proto (sample_packet ''10.0.0.6'' 80))" by code_simp+
  have 2: "tr_refused (projr (Translate sample_labels sample_policy)) = []" by code_simp
  from PolicyRules_exact [OF sample_translates 1(1) sample_labels_laws 1(2,3) sample_env_families
      sample_env_covers 2] 2
  show ?thesis by blast
qed

text \<open>
  The hypothesis on the word \<open>all\<close> is needed. A pod selector that asks for a label called
  \<open>all\<close> renders as that word, so its key is the key of "no pod selector", and one peer set
  answers for both: here port 80 is asked for by the labelled pods only and port 443 by every
  pod, and the rules made of the policy admit an unlabelled pod on port 80.
\<close>

definition colliding_policy :: network_policy where
  "colliding_policy =
     \<lparr>np_namespace = ''prod'', np_name = ''web'', np_subject = empty_selector, np_policyTypes = [''Ingress''],
      np_ingress =
        [\<lparr>npr_peers = [sample_peer (Some empty_selector) (Some all_selector)], npr_ports = [sample_port 80]\<rparr>,
         \<lparr>npr_peers = [sample_peer (Some empty_selector) None], npr_ports = [sample_port 443]\<rparr>],
      np_egress = []\<rparr>"

theorem all_selector_collides:
  "valid_policy colliding_policy \<and>
   rs_admits sample_env (PolicyRules (projr (Translate sample_labels colliding_policy))) (sample_packet ''10.0.0.5'' 80) \<and>
   \<not> policy_asks sample_labels sample_env colliding_policy (sample_packet ''10.0.0.5'' 80)"
  by code_simp

text \<open>
  The rules of an expansion have pairwise different keys and stand in key order: Neutron,
  which refuses a duplicate rule, is never sent one, and two expansions of the same rules are
  written in the same order.
\<close>

theorem Expand_no_duplicates:
  "distinct (map sg_key (rs_rules (Expand rules))) \<and> distinct (rs_rules (Expand rules)) \<and>
   sorted (map sg_key (rs_rules (Expand rules)))"
  using Expand_distinct_keys Expand_sorted_keys by (auto simp: distinct_map)

end
