(* ===== verification/Netpol_Neutron.thy ===== *)
theory Netpol_Neutron
  imports Netpol_Ruleset
begin

text \<open>
  \<^verbatim>\<open>pkg/netpol/neutron.go\<close> and \<^verbatim>\<open>pkg/netpol/migrate.go\<close>: the writes to Neutron.
  The service is outside the repository: its calls are the fields of a record, over a world type
  the service chooses, and what the code relies on is stated as laws about a view of that world.
  The definitions follow the files; the lemmas say what a write that succeeds has achieved and
  what a sweep leaves alone.
\<close>

section \<open>What the network API holds\<close>

record secgroup_rule =
  sr_id :: string
  sr_direction :: string
  sr_ethertype :: string
  sr_protocol :: string
  sr_portmin :: int
  sr_portmax :: int
  sr_prefix :: string
  sr_group :: string
  sr_addrgroup :: string

record secgroup =
  gr_id :: string
  gr_name :: string
  gr_description :: string
  gr_rules :: "secgroup_rule list"

record addrgroup =
  ag_id :: string
  ag_name :: string
  ag_addresses :: "string list"

record neutron_port =
  np_id :: string
  np_owner :: string
  np_groups :: "string list"

text \<open>\<^verbatim>\<open>rules.CreateOpts\<close>.\<close>

record rule_opts =
  ro_secgroup :: string
  ro_direction :: string
  ro_ethertype :: string
  ro_protocol :: string
  ro_portmin :: int
  ro_portmax :: int
  ro_prefix :: string
  ro_group :: string
  ro_addrgroup :: string

text \<open>The calls. A listing by name is filtered by the service; \<open>None\<close> lists everything.\<close>

record 'w neutron_api =
  groups_List :: "string option \<Rightarrow> 'w \<Rightarrow> secgroup pages \<times> 'w"
  groups_Create :: "string \<Rightarrow> string \<Rightarrow> ('w, string) act"
  groups_Update :: "string \<Rightarrow> string \<Rightarrow> ('w, unit) act"
  groups_Delete :: "string \<Rightarrow> ('w, unit) act"
  rules_List :: "string \<Rightarrow> 'w \<Rightarrow> secgroup_rule pages \<times> 'w"
  rules_Create :: "rule_opts \<Rightarrow> ('w, unit) act"
  rules_Delete :: "string \<Rightarrow> ('w, unit) act"
  ag_List :: "string option \<Rightarrow> 'w \<Rightarrow> addrgroup pages \<times> 'w"
  ag_Post :: "string \<Rightarrow> string \<Rightarrow> ('w, string) act"
  ag_Get :: "string \<Rightarrow> ('w, string list) act"
  ag_Add :: "string \<Rightarrow> string list \<Rightarrow> ('w, unit) act"
  ag_Remove :: "string \<Rightarrow> string list \<Rightarrow> ('w, unit) act"
  ag_Delete :: "string \<Rightarrow> ('w, unit) act"
  ports_List :: "string \<Rightarrow> 'w \<Rightarrow> neutron_port pages \<times> 'w"
  ports_Get :: "string \<Rightarrow> ('w, string list) act"
  ports_Update :: "string \<Rightarrow> string list \<Rightarrow> ('w, unit) act"

definition AllowIngress :: string where "AllowIngress = ''knp-allow-ingress''"
definition AllowEgress :: string where "AllowEgress = ''knp-allow-egress''"
definition DenyAll :: string where "DenyAll = ''knp-deny-all''"
definition managedBy :: string where "managedBy = ''kubezun-networkpolicy''"

section \<open>Errors and comparisons\<close>

definition isConflict :: "err \<Rightarrow> bool" where
  "isConflict e =
     (case response_of e of
        None \<Rightarrow> False
      | Some (c, body) \<Rightarrow>
          c = 409 \<or>
          c = 400 \<and> (contains_str body ''AddressesAlreadyExist'' \<or> contains_str body ''AddressesNotFound''
                    \<or> contains_str body ''already exists''))"

definition isGone :: "err \<Rightarrow> bool" where
  "isGone e = response_code_is e 404"

definition rule_is :: "secgroup_rule \<Rightarrow> rule_opts \<Rightarrow> bool" where
  "rule_is r w =
     (sr_direction r = ro_direction w \<and> sr_ethertype r = ro_ethertype w \<and>
      sr_protocol r = ro_protocol w \<and> sr_portmin r = ro_portmin w \<and> sr_portmax r = ro_portmax w \<and>
      sr_prefix r = ro_prefix w \<and> sr_group r = ro_group w \<and> sr_addrgroup r = ro_addrgroup w)"

definition hasRule :: "secgroup_rule list \<Rightarrow> rule_opts \<Rightarrow> bool" where
  "hasRule have w = list_ex (\<lambda>r. rule_is r w) have"

definition wantsRule :: "rule_opts list \<Rightarrow> secgroup_rule \<Rightarrow> bool" where
  "wantsRule want h = list_ex (\<lambda>w. hasRule [h] w) want"

definition normalizeCIDR :: "string \<Rightarrow> string" where
  "normalizeCIDR a0 =
     (let a = trim_space a0 in
      if a = [] \<or> contains_str a ''/'' then a
      else if contains_str a '':'' then a @ ''/128'' else a @ ''/32'')"

definition diffAddresses :: "string list \<Rightarrow> string list \<Rightarrow> string list \<times> string list" where
  "diffAddresses have want =
     (let h = map normalizeCIDR have; w = map normalizeCIDR want
      in (sorted_keys (filter (\<lambda>a. a \<notin> set h) w), sorted_keys (filter (\<lambda>a. a \<notin> set w) h)))"

section \<open>Groups and rules\<close>

text \<open>A paged listing, collected or searched; the world after it is the one the pages left.\<close>

definition collect_a :: "('w \<Rightarrow> 'a pages \<times> 'w) \<Rightarrow> ('w, 'a list) act" where
  "collect_a l w = (let (ps, w') = l w in (collect_pages ps, w'))"

definition first_a :: "('w \<Rightarrow> 'a pages \<times> 'w) \<Rightarrow> ('w, 'a option) act" where
  "first_a l w = (let (ps, w') = l w in (first_of_pages ps, w'))"

definition findGroup :: "'w neutron_api \<Rightarrow> string \<Rightarrow> ('w, string \<times> string) act" where
  "findGroup N name =
     wrap_err (''looking for security group '' @ name)
       (bind_a (first_a (groups_List N (Some name))) (\<lambda>found.
          ret (case found of None \<Rightarrow> ([], []) | Some g \<Rightarrow> (gr_id g, gr_description g))))"

definition ensureGroup :: "'w neutron_api \<Rightarrow> string \<Rightarrow> string \<Rightarrow> ('w, string) act" where
  "ensureGroup N name description =
     bind_a (findGroup N name) (\<lambda>(found, have).
       if found \<noteq> [] then
         (if have \<noteq> description then
            bind_a (wrap_err (''correcting the description of '' @ name) (groups_Update N found description))
              (\<lambda>_. ret found)
          else ret found)
       else
         wrap_err (''creating security group '' @ name)
           (groups_Create N name (description @ '' ['' @ managedBy @ '']'')))"

definition rulesOf :: "'w neutron_api \<Rightarrow> string \<Rightarrow> ('w, secgroup_rule list) act" where
  "rulesOf N gid = collect_a (rules_List N gid)"

definition baseline_opts :: "string \<Rightarrow> string \<Rightarrow> rule_opts list" where
  "baseline_opts gid direction =
     (let o4 = \<lparr>ro_secgroup = gid, ro_direction = direction, ro_ethertype = ''IPv4'', ro_protocol = [],
                ro_portmin = 0, ro_portmax = 0, ro_prefix = ''0.0.0.0/0'', ro_group = [], ro_addrgroup = []\<rparr>
      in [o4, o4\<lparr>ro_ethertype := ''IPv6'', ro_prefix := ''::/0''\<rparr>])"

text \<open>Write one wanted rule unless it is there; remove one rule. Both treat "already so" as done.\<close>

definition writeRule :: "'w neutron_api \<Rightarrow> string \<Rightarrow> secgroup_rule list \<Rightarrow> rule_opts \<Rightarrow> ('w, unit) act" where
  "writeRule N msg have w =
     (if hasRule have w then ret () else wrap_err msg (ignore_if isConflict (rules_Create N w)))"

definition dropRule :: "'w neutron_api \<Rightarrow> string \<Rightarrow> secgroup_rule \<Rightarrow> ('w, unit) act" where
  "dropRule N msg r = wrap_err msg (ignore_if isGone (rules_Delete N (sr_id r)))"

definition ensureBaselineRules :: "'w neutron_api \<Rightarrow> string \<Rightarrow> string \<Rightarrow> ('w, unit) act" where
  "ensureBaselineRules N gid direction =
     bind_a (rulesOf N gid) (\<lambda>have.
     bind_a (for_each (writeRule N (''opening '' @ direction @ '' on '' @ gid) have) (baseline_opts gid direction)) (\<lambda>_.
     for_each (\<lambda>r. dropRule N (''removing a '' @ sr_direction r @ '' rule from the '' @ direction @ '' group'') r)
       (filter (\<lambda>r. sr_direction r \<noteq> direction) have)))"

definition EnsureDenyAll :: "'w neutron_api \<Rightarrow> ('w, string) act" where
  "EnsureDenyAll N =
     bind_a (ensureGroup N DenyAll ''kubezun: allows nothing; carried so a port's group list is never empty'') (\<lambda>gid.
     bind_a (rulesOf N gid) (\<lambda>have.
     bind_a (for_each (dropRule N ''emptying the deny-all group'') have) (\<lambda>_. ret gid)))"

definition EnsureBaseline :: "'w neutron_api \<Rightarrow> ('w, string \<times> string) act" where
  "EnsureBaseline N =
     bind_a (EnsureDenyAll N) (\<lambda>_.
     bind_a (ensureGroup N AllowIngress ''kubezun: a pod no policy has isolated for ingress'') (\<lambda>ingressID.
     bind_a (ensureGroup N AllowEgress ''kubezun: a pod no policy has isolated for egress'') (\<lambda>egressID.
     bind_a (ensureBaselineRules N ingressID ''ingress'') (\<lambda>_.
     bind_a (ensureBaselineRules N egressID ''egress'') (\<lambda>_.
     ret (ingressID, egressID))))))"

text \<open>The wanted rules of a set, with peer keys turned into address group ids.\<close>

definition opts_for :: "string \<Rightarrow> (string \<times> string) list \<Rightarrow> sgrule \<Rightarrow> rule_opts result" where
  "opts_for gid peers r =
     (let base = \<lparr>ro_secgroup = gid, ro_direction = dir_string (sg_direction r), ro_ethertype = sg_ethertype r,
                  ro_protocol = sg_protocol r, ro_portmin = sg_portmin r, ro_portmax = sg_portmax r,
                  ro_prefix = [], ro_group = [], ro_addrgroup = []\<rparr>
      in if sg_cidr r \<noteq> [] then Inr (base\<lparr>ro_prefix := sg_cidr r\<rparr>)
         else if sg_group r \<noteq> [] then
           (case map_of peers (sg_group r) of
              Some g \<Rightarrow>
                if g = [] then Inl (ErrText (''the peer set '' @ quote_str (sg_group r) @ '' has no address group yet''))
                else Inr (base\<lparr>ro_addrgroup := g\<rparr>)
            | None \<Rightarrow> Inl (ErrText (''the peer set '' @ quote_str (sg_group r) @ '' has no address group yet'')))
         else Inr base)"

fun opts_list :: "string \<Rightarrow> (string \<times> string) list \<Rightarrow> sgrule list \<Rightarrow> rule_opts list result" where
  "opts_list gid peers [] = Inr []"
| "opts_list gid peers (r # rs) =
     bind_r (opts_for gid peers r) (\<lambda>x. bind_r (opts_list gid peers rs) (\<lambda>xs. Inr (x # xs)))"

definition policyDescription :: "string \<Rightarrow> string" where
  "policyDescription ref = ''kubezun: what NetworkPolicy '' @ ref @ '' allows''"

definition EnsureRuleSet ::
  "'w neutron_api \<Rightarrow> string \<Rightarrow> string \<Rightarrow> ruleset \<Rightarrow> (string \<times> string) list \<Rightarrow> ('w, string) act" where
  "EnsureRuleSet N name policyRef rset peers =
     bind_a (ensureGroup N name (policyDescription policyRef)) (\<lambda>gid.
     bind_a (rulesOf N gid) (\<lambda>have.
     bind_a (lift_r (opts_list gid peers (rs_rules rset))) (\<lambda>want.
     bind_a (for_each (writeRule N (''writing a rule into '' @ name) have) want) (\<lambda>_.
     bind_a (for_each (dropRule N (''removing a stale rule from '' @ name))
               (filter (\<lambda>h. \<not> wantsRule want h) have)) (\<lambda>_.
     ret gid)))))"

definition policyOf :: "string \<Rightarrow> string" where
  "policyOf description =
     (let prefix = ''kubezun: what NetworkPolicy ''; suffix = '' allows'' in
      if \<not> has_prefix description prefix \<or> \<not> has_suffix description suffix then []
      else trim_suffix (trim_prefix description prefix) suffix)"

section \<open>Address groups\<close>

text \<open>The direct POST of an empty group; an answer without an id is an error.\<close>

definition postAddressGroup :: "'w neutron_api \<Rightarrow> string \<Rightarrow> ('w, string) act" where
  "postAddressGroup N name =
     bind_a (wrap_err (''creating address group '' @ name) (ag_Post N name managedBy)) (\<lambda>gid.
       if gid = [] then fail (ErrText (''creating address group '' @ name @ '': no id was returned''))
       else ret gid)"

definition EnsureAddressGroup :: "'w neutron_api \<Rightarrow> string \<Rightarrow> ('w, string) act" where
  "EnsureAddressGroup N name =
     bind_a (wrap_err (''looking for address group '' @ name) (first_a (ag_List N (Some name)))) (\<lambda>found.
       let gid = (case found of None \<Rightarrow> [] | Some g \<Rightarrow> ag_id g)
       in if gid \<noteq> [] then ret gid else postAddressGroup N name)"

definition SyncAddresses :: "'w neutron_api \<Rightarrow> string \<Rightarrow> string list \<Rightarrow> ('w, unit) act" where
  "SyncAddresses N gid want =
     bind_a (wrap_err (''reading address group '' @ gid) (ag_Get N gid)) (\<lambda>current.
       let (add, remove) = diffAddresses current want in
       bind_a (if add \<noteq> [] then
                 wrap_err (''adding '' @ show_nat (length add) @ '' addresses to '' @ gid)
                   (ignore_if isConflict (ag_Add N gid add))
               else ret ()) (\<lambda>_.
       if remove \<noteq> [] then
         wrap_err (''removing '' @ show_nat (length remove) @ '' addresses from '' @ gid)
           (ignore_if isConflict (ag_Remove N gid remove))
       else ret ()))"

section \<open>The sweep\<close>

definition policyPrefix :: string where "policyPrefix = ''knp-policy-''"
definition peersPrefix :: string where "peersPrefix = ''knp-peers-''"

text \<open>A policy group that is this process's to judge and whose policy is gone.\<close>

definition doomedGroup :: "(string \<Rightarrow> bool) \<Rightarrow> (string \<Rightarrow> bool) \<Rightarrow> secgroup \<Rightarrow> bool" where
  "doomedGroup live serves g =
     (has_prefix (gr_name g) policyPrefix \<and>
      (let ref = policyOf (gr_description g) in
       ref \<noteq> [] \<and>
       (case cut_at (CHR ''/'') ref of
          None \<Rightarrow> False
        | Some (namespace, _) \<Rightarrow> serves namespace \<and> \<not> live ref)))"

definition doomedIDs :: "(string \<Rightarrow> bool) \<Rightarrow> (string \<Rightarrow> bool) \<Rightarrow> secgroup list \<Rightarrow> string list" where
  "doomedIDs live serves all = map gr_id (filter (doomedGroup live serves) all)"

text \<open>The address groups the surviving policy groups point at.\<close>

definition referencedIDs :: "string list \<Rightarrow> secgroup list \<Rightarrow> string list" where
  "referencedIDs doomed all =
     filter (\<lambda>i. i \<noteq> [])
       (concat (map (\<lambda>g. map sr_addrgroup (gr_rules g))
         (filter (\<lambda>g. has_prefix (gr_name g) policyPrefix \<and> gr_id g \<notin> set doomed) all)))"

text \<open>
  A loop of deletions that counts those that went through, passes over "in use" and "gone", and
  stops at any other error with the count so far.
\<close>

fun removeLoop ::
  "('a \<Rightarrow> ('w, unit) act) \<Rightarrow> ('a \<Rightarrow> string) \<Rightarrow> nat \<Rightarrow> 'a list \<Rightarrow> 'w \<Rightarrow> (nat \<times> err option) \<times> 'w" where
  "removeLoop del msg n [] w = ((n, None), w)"
| "removeLoop del msg n (x # xs) w =
     (case del x w of
        (Inr _, w') \<Rightarrow> removeLoop del msg (Suc n) xs w'
      | (Inl e, w') \<Rightarrow>
          if isConflict e \<or> isGone e then removeLoop del msg n xs w'
          else ((n, Some (ErrWrap (msg x) e)), w'))"

definition removingGroup :: "secgroup \<Rightarrow> string" where
  "removingGroup g = ''removing '' @ gr_name g"

definition removingPeers :: "addrgroup \<Rightarrow> string" where
  "removingPeers a = ''removing peer set '' @ ag_name a"

definition Sweep ::
  "'w neutron_api \<Rightarrow> (string \<Rightarrow> bool) \<Rightarrow> (string \<Rightarrow> bool) \<Rightarrow> 'w \<Rightarrow> (nat \<times> err option) \<times> 'w" where
  "Sweep N live serves w =
     (case collect_a (groups_List N None) w of
        (Inl e, w1) \<Rightarrow> ((0, Some (ErrWrap ''listing security groups'' e)), w1)
      | (Inr all, w1) \<Rightarrow>
          (let doomed = doomedIDs live serves all; referenced = referencedIDs doomed all in
           case removeLoop (\<lambda>g. groups_Delete N (gr_id g)) removingGroup 0
                  (filter (\<lambda>g. gr_id g \<in> set doomed) all) w1 of
             ((n, Some e), w2) \<Rightarrow> ((n, Some e), w2)
           | ((n, None), w2) \<Rightarrow>
               (case collect_a (ag_List N None) w2 of
                  (Inl e, w3) \<Rightarrow> ((n, Some (ErrWrap ''listing address groups'' e)), w3)
                | (Inr ags, w3) \<Rightarrow>
                    removeLoop (\<lambda>a. ag_Delete N (ag_id a)) removingPeers n
                      (filter (\<lambda>a. has_prefix (ag_name a) peersPrefix \<and> ag_id a \<notin> set referenced) ags) w3)))"

section \<open>The conversion of a tenant\<close>

definition DeviceOwnerCapsule :: string where "DeviceOwnerCapsule = ''compute:zun''"

datatype phase = PhaseAttach | PhaseDetach

fun desiredGroups :: "phase \<Rightarrow> string list \<Rightarrow> string list \<Rightarrow> string \<Rightarrow> string list" where
  "desiredGroups PhaseAttach current baseline defaultID = sorted_keys (current @ baseline)"
| "desiredGroups PhaseDetach current baseline defaultID =
     sorted_keys (filter (\<lambda>g. g \<noteq> defaultID) current @ baseline)"

definition defaultGroupID :: "'w neutron_api \<Rightarrow> ('w, string) act" where
  "defaultGroupID N = bind_a (findGroup N ''default'') (\<lambda>(i, _). ret i)"

fun convertLoop ::
  "'w neutron_api \<Rightarrow> phase \<Rightarrow> string list \<Rightarrow> string \<Rightarrow> bool \<Rightarrow> nat \<Rightarrow> nat \<Rightarrow> neutron_port list \<Rightarrow> 'w
     \<Rightarrow> (nat \<times> nat \<times> err option) \<times> 'w" where
  "convertLoop N ph baseline d dryRun changed ntotal [] w = ((changed, ntotal, None), w)"
| "convertLoop N ph baseline d dryRun changed ntotal (p # ps) w =
     (let want = desiredGroups ph (np_groups p) baseline d in
      if sort (np_groups p) = want then convertLoop N ph baseline d dryRun changed (Suc ntotal) ps w
      else if dryRun then convertLoop N ph baseline d dryRun (Suc changed) (Suc ntotal) ps w
      else
        (case ports_Update N (np_id p) want w of
           (Inl e, w') \<Rightarrow> ((Suc changed, Suc ntotal, Some (ErrWrap (''converting port '' @ np_id p) e)), w')
         | (Inr _, w') \<Rightarrow> convertLoop N ph baseline d dryRun (Suc changed) (Suc ntotal) ps w'))"

definition Convert ::
  "'w neutron_api \<Rightarrow> phase \<Rightarrow> string list \<Rightarrow> bool \<Rightarrow> 'w \<Rightarrow> (nat \<times> nat \<times> err option) \<times> 'w" where
  "Convert N ph baseline dryRun w =
     (if baseline = [] then ((0, 0, Some (ErrText ''the baseline groups must be resolved first'')), w)
      else case defaultGroupID N w of
        (Inl e, w1) \<Rightarrow> ((0, 0, Some e), w1)
      | (Inr d, w1) \<Rightarrow>
          if ph = PhaseDetach \<and> d = [] then
            ((0, 0, Some (ErrText ''this project has no default security group, so there is nothing to detach; run the attach phase first'')), w1)
          else case collect_a (ports_List N DeviceOwnerCapsule) w1 of
            (Inl e, w2) \<Rightarrow> ((0, 0, Some (ErrWrap ''listing this tenant's capsule ports'' e)), w2)
          | (Inr ps, w2) \<Rightarrow> convertLoop N ph baseline d dryRun 0 0 ps w2)"

section \<open>What the code relies on of the service\<close>

text \<open>
  \<open>V w gid\<close> is the rules a group holds in world \<open>w\<close>. Rule ids are unique within a
  group; a listing that succeeds answers the rules and changes nothing; a created rule is added
  with the fields it was given; "conflict" means such a rule is there already; a removal that
  succeeds, or answers "gone", leaves every rule but that one.
\<close>

definition rules_laws :: "'w neutron_api \<Rightarrow> ('w \<Rightarrow> string \<Rightarrow> secgroup_rule list) \<Rightarrow> bool" where
  "rules_laws N V \<longleftrightarrow>
     (\<forall>w gid. distinct (map sr_id (V w gid))) \<and>
     (\<forall>w gid have w'. collect_a (rules_List N gid) w = (Inr have, w') \<longrightarrow> have = V w gid \<and> V w' = V w) \<and>
     (\<forall>o' w w'. rules_Create N o' w = (Inr (), w') \<longrightarrow>
        (\<exists>r. rule_is r o' \<and> V w' = (V w)(ro_secgroup o' := V w (ro_secgroup o') @ [r]))) \<and>
     (\<forall>o' w e w'. rules_Create N o' w = (Inl e, w') \<longrightarrow> isConflict e \<longrightarrow>
        V w' = V w \<and> hasRule (V w (ro_secgroup o')) o') \<and>
     (\<forall>i w r w'. rules_Delete N i w = (r, w') \<longrightarrow> (r = Inr () \<or> (\<exists>e. r = Inl e \<and> isGone e)) \<longrightarrow>
        V w' = (\<lambda>g. filter (\<lambda>q. sr_id q \<noteq> i) (V w g)))"

text \<open>
  \<open>A w gid\<close> is the addresses an address group holds. An addition is refused as a conflict
  only when one of the addresses is there, a removal only when one of them is not.
\<close>

definition addr_laws :: "'w neutron_api \<Rightarrow> ('w \<Rightarrow> string \<Rightarrow> string list) \<Rightarrow> bool" where
  "addr_laws N A \<longleftrightarrow>
     (\<forall>w gid xs w'. ag_Get N gid w = (Inr xs, w') \<longrightarrow> xs = A w gid \<and> A w' = A w) \<and>
     (\<forall>w gid xs w'. ag_Add N gid xs w = (Inr (), w') \<longrightarrow>
        normalizeCIDR ` set (A w' gid) = normalizeCIDR ` set (A w gid) \<union> set xs) \<and>
     (\<forall>w gid xs e w'. ag_Add N gid xs w = (Inl e, w') \<longrightarrow> isConflict e \<longrightarrow>
        (\<exists>x \<in> set xs. x \<in> normalizeCIDR ` set (A w gid))) \<and>
     (\<forall>w gid xs w'. ag_Remove N gid xs w = (Inr (), w') \<longrightarrow>
        normalizeCIDR ` set (A w' gid) = normalizeCIDR ` set (A w gid) - set xs) \<and>
     (\<forall>w gid xs e w'. ag_Remove N gid xs w = (Inl e, w') \<longrightarrow> isConflict e \<longrightarrow>
        (\<exists>x \<in> set xs. x \<notin> normalizeCIDR ` set (A w gid)))"

text \<open>
  \<open>G w\<close> and \<open>P w\<close> are the security groups and address groups of the project: ids are
  unique, a listing that succeeds answers them, and a call changes only the object it names.
\<close>

definition sweep_laws ::
  "'w neutron_api \<Rightarrow> ('w \<Rightarrow> secgroup list) \<Rightarrow> ('w \<Rightarrow> addrgroup list) \<Rightarrow> bool" where
  "sweep_laws N G P \<longleftrightarrow>
     (\<forall>w. distinct (map gr_id (G w))) \<and>
     (\<forall>w xs. fst (collect_a (groups_List N None) w) = Inr xs \<longrightarrow> xs = G w) \<and>
     (\<forall>w. G (snd (collect_a (groups_List N None) w)) = G w) \<and>
     (\<forall>w. P (snd (collect_a (groups_List N None) w)) = P w) \<and>
     (\<forall>w xs. fst (collect_a (ag_List N None) w) = Inr xs \<longrightarrow> xs = P w) \<and>
     (\<forall>w. G (snd (collect_a (ag_List N None) w)) = G w) \<and>
     (\<forall>w. P (snd (collect_a (ag_List N None) w)) = P w) \<and>
     (\<forall>i w. {g \<in> set (G w). gr_id g \<noteq> i} \<subseteq> set (G (snd (groups_Delete N i w)))) \<and>
     (\<forall>i w. P (snd (groups_Delete N i w)) = P w) \<and>
     (\<forall>i w. {a \<in> set (P w). ag_id a \<noteq> i} \<subseteq> set (P (snd (ag_Delete N i w)))) \<and>
     (\<forall>i w. G (snd (ag_Delete N i w)) = G w)"

section \<open>A rule set that was written holds exactly the wanted rules\<close>

lemma hasRule_append [simp]: "hasRule (xs @ ys) w \<longleftrightarrow> hasRule xs w \<or> hasRule ys w"
  by (simp add: hasRule_def)

lemma hasRule_iff: "hasRule xs w \<longleftrightarrow> (\<exists>r \<in> set xs. rule_is r w)"
  by (simp add: hasRule_def list_ex_iff)

lemma wantsRule_iff: "wantsRule want h \<longleftrightarrow> (\<exists>w \<in> set want. rule_is h w)"
  by (simp add: wantsRule_def hasRule_def list_ex_iff)

lemma writeRule_effect:
  assumes "rules_laws N V" and "writeRule N msg have o' w = (Inr (), w')" and "ro_secgroup o' = gid"
  obtains "V w' = V w" "hasRule have o' \<or> hasRule (V w gid) o'"
  | r where "rule_is r o'" "V w' = (V w)(gid := V w gid @ [r])"
proof (cases "hasRule have o'")
  case True
  with assms(2) that(1) show thesis by (auto simp: writeRule_def act_simps)
next
  case False
  with assms(2) consider "rules_Create N o' w = (Inr (), w')"
    | e where "rules_Create N o' w = (Inl e, w')" "isConflict e"
    by (auto simp: writeRule_def act_simps)
  then show thesis
    using assms(1,3) that unfolding rules_laws_def by cases blast+
qed

text \<open>What holds while the wanted rules are being written: nothing that was there is lost, what is new is wanted.\<close>

lemma writeRules_effect:
  assumes laws: "rules_laws N V" and loop: "for_each (writeRule N msg (V w gid)) want w = (Inr (), w')"
    and gid: "\<forall>o' \<in> set want. ro_secgroup o' = gid"
  shows "\<exists>new. V w' gid = V w gid @ new \<and> (\<forall>r \<in> set new. wantsRule want r) \<and>
    (\<forall>o' \<in> set want. hasRule (V w' gid) o')"
proof -
  let ?P = "\<lambda>v. \<exists>new. V v gid = V w gid @ new \<and> (\<forall>r \<in> set new. wantsRule want r)"
  have step: "?P v' \<and> hasRule (V v' gid) o' \<and> (\<forall>q. hasRule (V v gid) q \<longrightarrow> hasRule (V v' gid) q)"
    if "o' \<in> set want" "?P v" "writeRule N msg (V w gid) o' v = (Inr (), v')" for o' v v'
  proof -
    from gid that(1) have g: "ro_secgroup o' = gid" by blast
    from that(2) obtain new where new: "V v gid = V w gid @ new" "\<forall>r \<in> set new. wantsRule want r" by blast
    show ?thesis
    proof (cases rule: writeRule_effect [OF laws that(3) g])
      case 1
      with new show ?thesis by auto
    next
      case (2 r)
      with that(1) have "wantsRule want r" by (auto simp: wantsRule_iff)
      with 2 new show ?thesis
        by (intro conjI exI [of _ "new @ [r]"]) (auto simp: hasRule_def)
    qed
  qed
  have "?P w" by (intro exI [of _ "[]"]) simp
  from for_each_establishes [OF loop, of ?P "\<lambda>o' v. hasRule (V v gid) o'", OF this step] show ?thesis
    by blast
qed

lemma dropRules_effect:
  assumes laws: "rules_laws N V" and loop: "for_each (\<lambda>r. dropRule N (msg r) r) rs w = (Inr (), w')"
  shows "V w' = (\<lambda>g. filter (\<lambda>q. sr_id q \<notin> sr_id ` set rs) (V w g))"
  using loop
proof (induction rs arbitrary: w)
  case (Cons r rs)
  then obtain v where v: "dropRule N (msg r) r w = (Inr (), v)"
      "for_each (\<lambda>r. dropRule N (msg r) r) rs v = (Inr (), w')"
    by (auto simp: act_simps)
  have "V v = (\<lambda>g. filter (\<lambda>q. sr_id q \<noteq> sr_id r) (V w g))"
    using laws v(1) unfolding rules_laws_def dropRule_def act_simps by blast
  with Cons.IH [OF v(2)] show ?case by (auto simp: fun_eq_iff intro: filter_cong)
qed (simp add: act_simps)

lemma opts_list_group: "opts_list gid peers rs = Inr want \<Longrightarrow> \<forall>o' \<in> set want. ro_secgroup o' = gid"
  by (induction rs arbitrary: want)
    (auto simp: bind_r_Inr_iff opts_for_def Let_def split: if_splits option.splits)

lemma id_unique: "distinct (map f xs) \<Longrightarrow> x \<in> set xs \<Longrightarrow> y \<in> set xs \<Longrightarrow> f x = f y \<Longrightarrow> x = y"
  by (meson distinct_map inj_onD)

text \<open>
  Writing the wanted rules and then dropping the stale ones leaves every wanted rule and no
  stale one, when no wanted rule is stale.
\<close>

lemma write_then_drop:
  assumes laws: "rules_laws N V" and gid: "\<forall>o' \<in> set want. ro_secgroup o' = gid"
    and wr: "for_each (writeRule N msg (V w gid)) want w = (Inr (), v)"
    and dr: "for_each (\<lambda>r. dropRule N (msg' r) r) (filter stale (V w gid)) v = (Inr (), w')"
    and want: "\<And>r. wantsRule want r \<Longrightarrow> \<not> stale r"
  shows "(\<forall>o' \<in> set want. hasRule (V w' gid) o') \<and> (\<forall>r \<in> set (V w' gid). \<not> stale r)"
proof -
  from writeRules_effect [OF laws wr gid] obtain new where
    new: "V v gid = V w gid @ new" "\<forall>r \<in> set new. wantsRule want r" "\<forall>o' \<in> set want. hasRule (V v gid) o'"
    by blast
  from laws have ids: "distinct (map sr_id (V v gid))" by (simp add: rules_laws_def)
  have "r \<in> set (V w' gid) \<longleftrightarrow> r \<in> set (V v gid) \<and> \<not> stale r" for r
  proof -
    have "sr_id r \<in> sr_id ` set (filter stale (V w gid)) \<longleftrightarrow> stale r" if "r \<in> set (V v gid)"
      using that new(1,2) id_unique [OF ids that] want by auto
    then show ?thesis
      unfolding dropRules_effect [OF laws dr] by auto
  qed
  with new(3) want show ?thesis
    by (fastforce simp: hasRule_iff wantsRule_iff)
qed

lemma rules_laws_list:
  "rules_laws N V \<Longrightarrow> rulesOf N gid a = (Inr hv, v) \<Longrightarrow> hv = V v gid"
  unfolding rules_laws_def rulesOf_def by metis

lemma EnsureRuleSet_effect:
  assumes "EnsureRuleSet N name ref rset peers w = (Inr gid, w')" and laws: "rules_laws N V"
  shows "\<exists>want. opts_list gid peers (rs_rules rset) = Inr want \<and>
    (\<forall>o' \<in> set want. hasRule (V w' gid) o') \<and> (\<forall>r \<in> set (V w' gid). wantsRule want r)"
proof -
  from assms(1) obtain a hv v want u where
    l: "rulesOf N gid a = (Inr hv, v)" and opts: "opts_list gid peers (rs_rules rset) = Inr want"
    and wr: "for_each (writeRule N (''writing a rule into '' @ name) hv) want v = (Inr (), u)"
    and dr: "for_each (dropRule N (''removing a stale rule from '' @ name))
       (filter (\<lambda>h. \<not> wantsRule want h) hv) u = (Inr (), w')"
    by (auto simp: EnsureRuleSet_def act_simps)
  note hv = rules_laws_list [OF laws l]
  show ?thesis
    using write_then_drop [OF laws opts_list_group [OF opts] wr [unfolded hv]
        dr [unfolded hv]] opts by auto
qed

lemma baseline_opts_wanted: "wantsRule (baseline_opts gid d) r \<Longrightarrow> sr_direction r = d"
  by (auto simp: wantsRule_iff baseline_opts_def rule_is_def Let_def)

lemma ensureBaselineRules_effect:
  assumes "ensureBaselineRules N gid d w = (Inr (), w')" and laws: "rules_laws N V"
  shows "(\<forall>o' \<in> set (baseline_opts gid d). hasRule (V w' gid) o') \<and> (\<forall>r \<in> set (V w' gid). sr_direction r = d)"
proof -
  from assms(1) obtain hv v u where l: "rulesOf N gid w = (Inr hv, v)"
    and wr: "for_each (writeRule N (''opening '' @ d @ '' on '' @ gid) hv) (baseline_opts gid d) v = (Inr (), u)"
    and dr: "for_each (\<lambda>r. dropRule N (''removing a '' @ sr_direction r @ '' rule from the '' @ d @ '' group'') r)
       (filter (\<lambda>r. sr_direction r \<noteq> d) hv) u = (Inr (), w')"
    by (auto simp: ensureBaselineRules_def act_simps)
  note hv = rules_laws_list [OF laws l]
  have "\<forall>o' \<in> set (baseline_opts gid d). ro_secgroup o' = gid"
    by (simp add: baseline_opts_def Let_def)
  from write_then_drop [OF laws this wr [unfolded hv] dr [unfolded hv]] show ?thesis
    using baseline_opts_wanted by auto
qed

lemma EnsureDenyAll_effect:
  assumes "EnsureDenyAll N w = (Inr gid, w')" and laws: "rules_laws N V"
  shows "V w' gid = []"
proof -
  from assms(1) obtain a hv v where l: "rulesOf N gid a = (Inr hv, v)"
    and dr: "for_each (dropRule N ''emptying the deny-all group'') hv v = (Inr (), w')"
    by (auto simp: EnsureDenyAll_def act_simps)
  show ?thesis
    using dropRules_effect [OF laws dr] rules_laws_list [OF laws l] by simp
qed

section \<open>Addresses\<close>

lemma set_diffAddresses:
  "set (fst (diffAddresses have want)) = normalizeCIDR ` set want - normalizeCIDR ` set have"
  "set (snd (diffAddresses have want)) = normalizeCIDR ` set have - normalizeCIDR ` set want"
  by (auto simp: diffAddresses_def Let_def)

lemma addr_lawsD:
  assumes "addr_laws N A"
  shows "ag_Get N gid w = (Inr xs, w') \<Longrightarrow> xs = A w gid \<and> A w' = A w"
    and "ag_Add N gid xs w = (Inr (), w') \<Longrightarrow>
      normalizeCIDR ` set (A w' gid) = normalizeCIDR ` set (A w gid) \<union> set xs"
    and "ag_Add N gid xs w = (Inl e, w') \<Longrightarrow> isConflict e \<Longrightarrow> \<exists>x \<in> set xs. x \<in> normalizeCIDR ` set (A w gid)"
    and "ag_Remove N gid xs w = (Inr (), w') \<Longrightarrow>
      normalizeCIDR ` set (A w' gid) = normalizeCIDR ` set (A w gid) - set xs"
    and "ag_Remove N gid xs w = (Inl e, w') \<Longrightarrow> isConflict e \<Longrightarrow> \<exists>x \<in> set xs. x \<notin> normalizeCIDR ` set (A w gid)"
  using assms unfolding addr_laws_def by (simp_all only: simp_thms)

lemma add_phase:
  assumes "addr_laws N A" and "set xs \<inter> normalizeCIDR ` set (A v gid) = {}"
    and "(if xs \<noteq> [] then wrap_err msg (ignore_if isConflict (ag_Add N gid xs)) else ret ()) v = (Inr (), u)"
  shows "normalizeCIDR ` set (A u gid) = normalizeCIDR ` set (A v gid) \<union> set xs"
proof (cases "xs = []")
  case False
  with assms(3) consider "ag_Add N gid xs v = (Inr (), u)"
    | e where "ag_Add N gid xs v = (Inl e, u)" "isConflict e"
    by (auto simp: act_simps)
  then show ?thesis
    using addr_lawsD(2,3) [OF assms(1), of gid xs v] assms(2) by cases blast+
qed (use assms(3) in \<open>simp add: act_simps\<close>)

lemma remove_phase:
  assumes "addr_laws N A" and "set xs \<subseteq> normalizeCIDR ` set (A v gid)"
    and "(if xs \<noteq> [] then wrap_err msg (ignore_if isConflict (ag_Remove N gid xs)) else ret ()) v = (Inr (), u)"
  shows "normalizeCIDR ` set (A u gid) = normalizeCIDR ` set (A v gid) - set xs"
proof (cases "xs = []")
  case False
  with assms(3) consider "ag_Remove N gid xs v = (Inr (), u)"
    | e where "ag_Remove N gid xs v = (Inl e, u)" "isConflict e"
    by (auto simp: act_simps)
  then show ?thesis
    using addr_lawsD(4,5) [OF assms(1), of gid xs v] assms(2) by cases blast+
qed (use assms(3) in \<open>simp add: act_simps\<close>)

lemma SyncAddresses_effect:
  assumes sync: "SyncAddresses N gid want w = (Inr (), w')" and laws: "addr_laws N A"
  shows "normalizeCIDR ` set (A w' gid) = normalizeCIDR ` set want"
proof -
  obtain xs v u where get: "ag_Get N gid w = (Inr xs, v)"
    and add: "(if fst (diffAddresses xs want) \<noteq> [] then
        wrap_err (''adding '' @ show_nat (length (fst (diffAddresses xs want))) @ '' addresses to '' @ gid)
          (ignore_if isConflict (ag_Add N gid (fst (diffAddresses xs want)))) else ret ()) v = (Inr (), u)"
    and rem: "(if snd (diffAddresses xs want) \<noteq> [] then
        wrap_err (''removing '' @ show_nat (length (snd (diffAddresses xs want))) @ '' addresses from '' @ gid)
          (ignore_if isConflict (ag_Remove N gid (snd (diffAddresses xs want)))) else ret ()) u = (Inr (), w')"
    using sync by (auto simp: SyncAddresses_def bind_a_Inr_iff wrap_err_Inr_iff case_prod_beta Let_def)
  from get laws have xs: "xs = A v gid"
    unfolding addr_laws_def by metis
  have "normalizeCIDR ` set (A u gid) = normalizeCIDR ` set xs \<union> normalizeCIDR ` set want"
    using add_phase [OF laws _ add] xs by (auto simp: set_diffAddresses)
  moreover have "normalizeCIDR ` set (A w' gid) = normalizeCIDR ` set (A u gid) - set (snd (diffAddresses xs want))"
    by (rule remove_phase [OF laws _ rem]) (use calculation in \<open>auto simp: set_diffAddresses\<close>)
  ultimately show ?thesis
    by (auto simp: set_diffAddresses)
qed

section \<open>What a sweep leaves alone\<close>

text \<open>
  A group survives a sweep when it is not a policy group, names no policy, belongs to a namespace
  this process does not serve, or belongs to a policy that still exists.
\<close>

definition protectedGroup :: "(string \<Rightarrow> bool) \<Rightarrow> (string \<Rightarrow> bool) \<Rightarrow> secgroup \<Rightarrow> bool" where
  "protectedGroup live serves g =
     (\<not> has_prefix (gr_name g) policyPrefix \<or> policyOf (gr_description g) = [] \<or>
      (case cut_at (CHR ''/'') (policyOf (gr_description g)) of
         None \<Rightarrow> True | Some (namespace, _) \<Rightarrow> \<not> serves namespace) \<or>
      live (policyOf (gr_description g)))"

lemma protected_iff_not_doomed: "protectedGroup live serves g \<longleftrightarrow> \<not> doomedGroup live serves g"
  by (auto simp: protectedGroup_def doomedGroup_def Let_def split: option.splits)

lemma removeLoop_keeps:
  assumes "\<And>x v. x \<in> set xs \<Longrightarrow> P v \<Longrightarrow> P (snd (del x v))" and "P w"
  shows "P (snd (removeLoop del msg n xs w))"
  using assms
proof (induction xs arbitrary: n w)
  case (Cons x xs)
  obtain r v where v: "del x w = (r, v)" by fastforce
  with Cons.prems(1) [of x w] Cons.prems(2) have "P v" by simp
  with Cons show ?case by (auto simp: v split: sum.splits)
qed simp

lemma sweep_lawsD:
  assumes "sweep_laws N G P"
  shows "distinct (map gr_id (G w))"
    and "fst (collect_a (groups_List N None) w) = Inr xs \<Longrightarrow> xs = G w"
    and "G (snd (collect_a (groups_List N None) w)) = G w"
    and "P (snd (collect_a (groups_List N None) w)) = P w"
    and "fst (collect_a (ag_List N None) w) = Inr as \<Longrightarrow> as = P w"
    and "G (snd (collect_a (ag_List N None) w)) = G w"
    and "P (snd (collect_a (ag_List N None) w)) = P w"
    and "{g \<in> set (G w). gr_id g \<noteq> i} \<subseteq> set (G (snd (groups_Delete N i w)))"
    and "P (snd (groups_Delete N i w)) = P w"
    and "{a \<in> set (P w). ag_id a \<noteq> i} \<subseteq> set (P (snd (ag_Delete N i w)))"
    and "G (snd (ag_Delete N i w)) = G w"
  using assms unfolding sweep_laws_def by (simp_all only: simp_thms)

text \<open>The three stages of a sweep; each keeps what the stage's own deletions do not name.\<close>

lemma Sweep_keeps:
  assumes list1: "\<And>v. Q v \<Longrightarrow> Q (snd (collect_a (groups_List N None) v))"
    and list2: "\<And>v. Q v \<Longrightarrow> Q (snd (collect_a (ag_List N None) v))"
    and del1: "\<And>all g v. fst (collect_a (groups_List N None) w) = Inr all \<Longrightarrow> g \<in> set all \<Longrightarrow>
      gr_id g \<in> set (doomedIDs live serves all) \<Longrightarrow> Q v \<Longrightarrow> Q (snd (groups_Delete N (gr_id g) v))"
    and del2: "\<And>all (a :: addrgroup) v. fst (collect_a (groups_List N None) w) = Inr all \<Longrightarrow>
      ag_id a \<notin> set (referencedIDs (doomedIDs live serves all) all) \<Longrightarrow> Q v \<Longrightarrow> Q (snd (ag_Delete N (ag_id a) v))"
    and "Q w"
  shows "Q (snd (Sweep N live serves w))"
proof -
  obtain r w1 where l: "collect_a (groups_List N None) w = (r, w1)" by fastforce
  with list1 [OF \<open>Q w\<close>] have w1: "Q w1" by simp
  show ?thesis
  proof (cases r)
    case (Inr all)
    let ?ids = "doomedIDs live serves all"
    let ?loop1 = "removeLoop (\<lambda>g. groups_Delete N (gr_id g)) removingGroup 0
        (filter (\<lambda>g. gr_id g \<in> set ?ids) all) w1"
    obtain n e w2 where l1: "?loop1 = ((n, e), w2)" by (metis prod.exhaust)
    have "Q (snd ?loop1)"
      by (rule removeLoop_keeps [of _ Q]) (use del1 [of all] l Inr w1 in auto)
    with l1 have w2: "Q w2" by simp
    obtain r' w3 where l2: "collect_a (ag_List N None) w2 = (r', w3)" by fastforce
    with list2 [OF w2] have w3: "Q w3" by simp
    have "Q (snd (removeLoop (\<lambda>a. ag_Delete N (ag_id a)) removingPeers n
        (filter (\<lambda>a. has_prefix (ag_name a) peersPrefix \<and> ag_id a \<notin> set (referencedIDs ?ids all)) ags) w3))" for ags :: "addrgroup list"
      by (rule removeLoop_keeps [of _ Q]) (use del2 [of all] l Inr w3 in auto)
    then show ?thesis
      using w2 w3 by (auto simp: Sweep_def l Inr Let_def l1 l2 split: option.splits sum.splits)
  qed (simp add: Sweep_def l w1)
qed

lemma Sweep_keeps_group:
  assumes laws: "sweep_laws N G P" and g: "g \<in> set (G w)" "\<not> doomedGroup live serves g"
  shows "g \<in> set (G (snd (Sweep N live serves w)))"
proof (rule Sweep_keeps [of "\<lambda>v. g \<in> set (G v)", OF _ _ _ _ g(1)])
  fix all h v
  assume all: "fst (collect_a (groups_List N None) w) = Inr all"
    and "gr_id h \<in> set (doomedIDs live serves all)" and v: "g \<in> set (G v)"
  from sweep_lawsD(2) [OF laws all] g sweep_lawsD(1) [OF laws, of w] this(2) have "gr_id g \<noteq> gr_id h"
    by (auto simp: doomedIDs_def dest: id_unique)
  then show "g \<in> set (G (snd (groups_Delete N (gr_id h) v)))"
    using v sweep_lawsD(8) [OF laws, of v "gr_id h"] by auto
qed (simp_all add: sweep_lawsD [OF laws])

lemma Sweep_keeps_peers:
  assumes laws: "sweep_laws N G P" and a: "a \<in> set (P w)"
    and g: "g \<in> set (G w)" "\<not> doomedGroup live serves g" "has_prefix (gr_name g) policyPrefix"
    and r: "r \<in> set (gr_rules g)" "sr_addrgroup r = ag_id a" "ag_id a \<noteq> []"
  shows "a \<in> set (P (snd (Sweep N live serves w)))"
proof (rule Sweep_keeps [of "\<lambda>v. a \<in> set (P v)", OF _ _ _ _ a])
  fix all b v
  assume all: "fst (collect_a (groups_List N None) w) = Inr all"
    and "ag_id b \<notin> set (referencedIDs (doomedIDs live serves all) all)" and v: "a \<in> set (P v)"
  have "gr_id g \<notin> set (doomedIDs live serves all)"
    using sweep_lawsD(2) [OF laws all] g sweep_lawsD(1) [OF laws, of w] by (auto simp: doomedIDs_def dest: id_unique)
  with sweep_lawsD(2) [OF laws all] g r have "ag_id a \<in> set (referencedIDs (doomedIDs live serves all) all)"
    by (force simp: referencedIDs_def)
  with \<open>ag_id b \<notin> _\<close> have "ag_id a \<noteq> ag_id b" by auto
  then show "a \<in> set (P (snd (ag_Delete N (ag_id b) v)))"
    using v sweep_lawsD(10) [OF laws, of v "ag_id b"] by auto
qed (simp_all add: sweep_lawsD [OF laws])

end
