(* ===== verification/Neutron_Memory.thy ===== *)
theory Neutron_Memory
  imports Netpol_Neutron
begin

text \<open>
  A network service held in memory, to show that the laws of \<open>Netpol_Neutron\<close> can hold
  and to run the code's writes against, and the properties of those writes. The service keeps
  its objects in slots; an object's id is the number of its slot, so ids are unique by
  construction. As the sources record of Neutron, a created group comes with two rules that
  allow all egress. With the switch \<open>loose\<close> on, a rule without a remote prefix counts as the
  same rule as one that names the whole address space, which is how the sources describe
  Neutron's answer to a duplicate.
\<close>

section \<open>The service\<close>

fun slots :: "nat \<Rightarrow> 'a option list \<Rightarrow> (nat \<times> 'a) list" where
  "slots n [] = []"
| "slots n (None # xs) = slots (Suc n) xs"
| "slots n (Some x # xs) = (n, x) # slots (Suc n) xs"

fun kill :: "(nat \<Rightarrow> bool) \<Rightarrow> nat \<Rightarrow> 'a option list \<Rightarrow> 'a option list" where
  "kill p n [] = []"
| "kill p n (x # xs) = (if p n then None else x) # kill p (Suc n) xs"

record mem =
  m_groups :: "(string \<times> string) option list"
  m_rules :: "(string \<times> secgroup_rule) option list"
  m_ags :: "(string \<times> string list) option list"
  m_ports :: "neutron_port list"

definition slot_id :: "string \<Rightarrow> nat \<Rightarrow> string" where
  "slot_id p n = p @ show_nat n"

definition mem_rules :: "mem \<Rightarrow> string \<Rightarrow> secgroup_rule list" where
  "mem_rules w gid =
     map (\<lambda>(n, g, r). r\<lparr>sr_id := slot_id ''r'' n\<rparr>) (filter (\<lambda>(n, g, r). g = gid) (slots 0 (m_rules w)))"

definition mem_groups :: "mem \<Rightarrow> secgroup list" where
  "mem_groups w =
     map (\<lambda>(n, nm, d). \<lparr>gr_id = slot_id ''g'' n, gr_name = nm, gr_description = d,
                        gr_rules = mem_rules w (slot_id ''g'' n)\<rparr>) (slots 0 (m_groups w))"

definition mem_ags :: "mem \<Rightarrow> addrgroup list" where
  "mem_ags w =
     map (\<lambda>(n, nm, as). \<lparr>ag_id = slot_id ''a'' n, ag_name = nm, ag_addresses = as\<rparr>) (slots 0 (m_ags w))"

definition mem_addrs :: "mem \<Rightarrow> string \<Rightarrow> string list" where
  "mem_addrs w gid = concat (map ag_addresses (filter (\<lambda>a. ag_id a = gid) (mem_ags w)))"

definition opts_rule :: "rule_opts \<Rightarrow> secgroup_rule" where
  "opts_rule o' =
     \<lparr>sr_id = [], sr_direction = ro_direction o', sr_ethertype = ro_ethertype o', sr_protocol = ro_protocol o',
      sr_portmin = ro_portmin o', sr_portmax = ro_portmax o', sr_prefix = ro_prefix o', sr_group = ro_group o',
      sr_addrgroup = ro_addrgroup o'\<rparr>"

definition egress_all :: "string \<Rightarrow> secgroup_rule" where
  "egress_all f =
     \<lparr>sr_id = [], sr_direction = ''egress'', sr_ethertype = f, sr_protocol = [], sr_portmin = 0, sr_portmax = 0,
      sr_prefix = [], sr_group = [], sr_addrgroup = []\<rparr>"

definition conflict :: err where "conflict = ErrResponse 409 [] ''conflict''"
definition already :: err where "already = ErrResponse 400 ''AddressesAlreadyExist'' ''bad request''"
definition absent :: err where "absent = ErrResponse 400 ''AddressesNotFound'' ''bad request''"
definition gone :: err where "gone = ErrResponse 404 [] ''gone''"

definition whole :: "string \<Rightarrow> string" where
  "whole p = (if p = ''0.0.0.0/0'' \<or> p = ''::/0'' then [] else p)"

definition same_rule :: "bool \<Rightarrow> rule_opts \<Rightarrow> secgroup_rule \<Rightarrow> bool" where
  "same_rule loose o' r =
     (rule_is r o' \<or> loose \<and> rule_is (r\<lparr>sr_prefix := whole (sr_prefix r)\<rparr>) (o'\<lparr>ro_prefix := whole (ro_prefix o')\<rparr>))"

definition mem_create_group :: "string \<Rightarrow> string \<Rightarrow> (mem, string) act" where
  "mem_create_group nm d w =
     (let i = slot_id ''g'' (length (m_groups w)) in
      (Inr i, w\<lparr>m_groups := m_groups w @ [Some (nm, d)],
               m_rules := m_rules w @ [Some (i, egress_all ''IPv4''), Some (i, egress_all ''IPv6'')]\<rparr>))"

definition mem_create_rule :: "bool \<Rightarrow> rule_opts \<Rightarrow> (mem, unit) act" where
  "mem_create_rule loose o' w =
     (if list_ex (same_rule loose o') (mem_rules w (ro_secgroup o')) then (Inl conflict, w)
      else (Inr (), w\<lparr>m_rules := m_rules w @ [Some (ro_secgroup o', opts_rule o')]\<rparr>))"

definition mem_delete_rule :: "string \<Rightarrow> (mem, unit) act" where
  "mem_delete_rule i w =
     (if list_ex (\<lambda>(n, _). slot_id ''r'' n = i) (slots 0 (m_rules w))
      then (Inr (), w\<lparr>m_rules := kill (\<lambda>n. slot_id ''r'' n = i) 0 (m_rules w)\<rparr>) else (Inl gone, w))"

fun set_slot :: "(nat \<Rightarrow> bool) \<Rightarrow> ('a \<Rightarrow> 'a) \<Rightarrow> nat \<Rightarrow> 'a option list \<Rightarrow> 'a option list" where
  "set_slot p f n [] = []"
| "set_slot p f n (x # xs) = (if p n then map_option f x else x) # set_slot p f (Suc n) xs"

definition mem_set_addrs :: "string \<Rightarrow> (string list \<Rightarrow> string list) \<Rightarrow> mem \<Rightarrow> mem" where
  "mem_set_addrs gid f w =
     w\<lparr>m_ags := set_slot (\<lambda>n. slot_id ''a'' n = gid) (\<lambda>(nm, as). (nm, f as)) 0 (m_ags w)\<rparr>"

definition mem_add :: "string \<Rightarrow> string list \<Rightarrow> (mem, unit) act" where
  "mem_add gid xs w =
     (if \<not> list_ex (\<lambda>a. ag_id a = gid) (mem_ags w) then (Inl gone, w)
      else if list_ex (\<lambda>x. x \<in> set (map normalizeCIDR (mem_addrs w gid))) xs then (Inl already, w)
      else if list_ex (\<lambda>x. normalizeCIDR x \<noteq> x) xs then (Inl (ErrText ''not an address''), w)
      else (Inr (), mem_set_addrs gid (\<lambda>as. as @ xs) w))"

definition mem_remove :: "string \<Rightarrow> string list \<Rightarrow> (mem, unit) act" where
  "mem_remove gid xs w =
     (if \<not> list_ex (\<lambda>a. ag_id a = gid) (mem_ags w) then (Inl gone, w)
      else if list_ex (\<lambda>x. x \<notin> set (map normalizeCIDR (mem_addrs w gid))) xs then (Inl absent, w)
      else (Inr (), mem_set_addrs gid (filter (\<lambda>a. normalizeCIDR a \<notin> set xs)) w))"

definition mem_api :: "bool \<Rightarrow> mem neutron_api" where
  "mem_api loose =
     \<lparr>groups_List = (\<lambda>f w. ([Inr (filter (\<lambda>g. case f of None \<Rightarrow> True | Some nm \<Rightarrow> gr_name g = nm) (mem_groups w))], w)),
      groups_Create = mem_create_group,
      groups_Update = (\<lambda>i d w. (Inr (), w\<lparr>m_groups := set_slot (\<lambda>n. slot_id ''g'' n = i) (\<lambda>(nm, _). (nm, d)) 0 (m_groups w)\<rparr>)),
      groups_Delete = (\<lambda>i w. (Inr (), w\<lparr>m_groups := kill (\<lambda>n. slot_id ''g'' n = i) 0 (m_groups w)\<rparr>)),
      rules_List = (\<lambda>i w. ([Inr (mem_rules w i)], w)),
      rules_Create = mem_create_rule loose,
      rules_Delete = mem_delete_rule,
      ag_List = (\<lambda>f w. ([Inr (filter (\<lambda>g. case f of None \<Rightarrow> True | Some nm \<Rightarrow> ag_name g = nm) (mem_ags w))], w)),
      ag_Post = (\<lambda>nm d w. (Inr (slot_id ''a'' (length (m_ags w))), w\<lparr>m_ags := m_ags w @ [Some (nm, [])]\<rparr>)),
      ag_Get = (\<lambda>i w. if list_ex (\<lambda>a. ag_id a = i) (mem_ags w) then (Inr (mem_addrs w i), w) else (Inl gone, w)),
      ag_Add = mem_add,
      ag_Remove = mem_remove,
      ag_Delete = (\<lambda>i w. (Inr (), w\<lparr>m_ags := kill (\<lambda>n. slot_id ''a'' n = i) 0 (m_ags w)\<rparr>)),
      ports_List = (\<lambda>own w. ([Inr (filter (\<lambda>p. np_owner p = own) (m_ports w))], w)),
      ports_Get = (\<lambda>i w. case find (\<lambda>p. np_id p = i) (m_ports w) of None \<Rightarrow> (Inl gone, w) | Some p \<Rightarrow> (Inr (np_groups p), w)),
      ports_Update = (\<lambda>i gs w. if list_ex (\<lambda>p. np_id p = i) (m_ports w)
         then (Inr (), w\<lparr>m_ports := map (\<lambda>p. if np_id p = i then p\<lparr>np_groups := gs\<rparr> else p) (m_ports w)\<rparr>)
         else (Inl gone, w))\<rparr>"

definition mem_empty :: mem where
  "mem_empty = \<lparr>m_groups = [], m_rules = [], m_ags = [], m_ports = []\<rparr>"

section \<open>It satisfies the laws\<close>

lemma slot_id_inj [simp]: "slot_id p m = slot_id p n \<longleftrightarrow> m = n"
  by (auto simp: slot_id_def dest: show_nat_inj)

lemma slots_append: "slots n (xs @ ys) = slots n xs @ slots (n + length xs) ys"
  by (induction n xs rule: slots.induct) auto

lemma slots_kill: "slots n (kill p n xs) = filter (\<lambda>x. \<not> p (fst x)) (slots n xs)"
  by (induction n xs rule: slots.induct) auto

lemma slots_ge: "x \<in> set (slots n xs) \<Longrightarrow> n \<le> fst x"
  by (induction n xs rule: slots.induct) force+

lemma distinct_slots: "distinct (map fst (slots n xs))"
  by (induction n xs rule: slots.induct) (auto dest: slots_ge)

lemma slots_set_slot: "slots n (set_slot p f n xs) = map (\<lambda>(m, x). (m, if p m then f x else x)) (slots n xs)"
  by (induction n xs rule: slots.induct) auto

lemma mem_rules_ids: "distinct (map sr_id (mem_rules w gid))"
proof -
  have "map sr_id (mem_rules w gid) = map (slot_id ''r'') (map fst (filter (\<lambda>(n, g, r). g = gid) (slots 0 (m_rules w))))"
    by (auto simp: mem_rules_def)
  moreover have "distinct (map fst (filter (\<lambda>(n, g, r). g = gid) (slots 0 (m_rules w))))"
    using distinct_slots by (rule distinct_map_filter)
  ultimately show ?thesis
    by (simp add: distinct_map inj_on_def)
qed

lemma mem_api_simps:
  "rules_List (mem_api loose) i w = ([Inr (mem_rules w i)], w)"
  "rules_Create (mem_api loose) = mem_create_rule loose"
  "rules_Delete (mem_api loose) = mem_delete_rule"
  "ag_Add (mem_api loose) = mem_add"
  "ag_Remove (mem_api loose) = mem_remove"
  "ag_Get (mem_api loose) i w = (if list_ex (\<lambda>a. ag_id a = i) (mem_ags w) then (Inr (mem_addrs w i), w) else (Inl gone, w))"
  by (simp_all add: mem_api_def)

lemma conflict_simps [simp]:
  "isConflict conflict" "\<not> isGone conflict" "isConflict already" "isConflict absent" "isGone gone" "\<not> isConflict gone"
  "\<not> isConflict (ErrText t)"
  by code_simp+

lemma rule_is_opts_rule: "rule_is (opts_rule o'\<lparr>sr_id := i\<rparr>) o'"
  by (simp add: rule_is_def opts_rule_def)

lemma mem_rules_kill:
  "mem_rules (w\<lparr>m_rules := kill (\<lambda>n. slot_id ''r'' n = i) 0 (m_rules w)\<rparr>) g
     = filter (\<lambda>q. sr_id q \<noteq> i) (mem_rules w g)"
  by (simp add: mem_rules_def slots_kill filter_map o_def case_prod_beta conj_commute)

lemma mem_rules_laws: "rules_laws (mem_api False) mem_rules"
  unfolding rules_laws_def
proof (intro conjI allI impI)
  fix o' w w'
  assume "rules_Create (mem_api False) o' w = (Inr (), w')"
  then have "w' = w\<lparr>m_rules := m_rules w @ [Some (ro_secgroup o', opts_rule o')]\<rparr>"
    by (auto simp: mem_api_simps mem_create_rule_def split: if_splits)
  then show "\<exists>r. rule_is r o' \<and> mem_rules w' = (mem_rules w)(ro_secgroup o' := mem_rules w (ro_secgroup o') @ [r])"
    by (intro exI [of _ "opts_rule o'\<lparr>sr_id := slot_id ''r'' (length (m_rules w))\<rparr>"] conjI rule_is_opts_rule)
      (auto simp: mem_rules_def slots_append fun_eq_iff)
next
  fix i w r w'
  assume del: "rules_Delete (mem_api False) i w = (r, w')"
  have none: "filter (\<lambda>q. sr_id q \<noteq> i) (mem_rules w g) = mem_rules w g"
    if "\<not> list_ex (\<lambda>(n, _). slot_id ''r'' n = i) (slots 0 (m_rules w))" for g
    using that by (auto simp: mem_rules_def list_ex_iff filter_id_conv)
  show "mem_rules w' = (\<lambda>g. filter (\<lambda>q. sr_id q \<noteq> i) (mem_rules w g))"
    using del none
    by (auto simp: mem_api_simps mem_delete_rule_def mem_rules_kill fun_eq_iff split: if_splits)
qed (auto simp: mem_rules_ids mem_api_simps collect_a_def mem_create_rule_def same_rule_def hasRule_def
    list_ex_iff split: if_splits)

lemma mem_addrs_set:
  assumes "list_ex (\<lambda>a. ag_id a = gid) (mem_ags w)"
  shows "\<exists>as. mem_addrs w gid = as \<and> mem_addrs (mem_set_addrs gid f w) gid = f as"
proof -
  let ?s = "slots 0 (m_ags w)"
  have d: "distinct (map fst ?s)" by (rule distinct_slots)
  from assms obtain n nm as where n: "(n, nm, as) \<in> set ?s" "gid = slot_id ''a'' n"
    by (auto simp: mem_ags_def list_ex_iff)
  then obtain xs ys where xs: "?s = xs @ (n, nm, as) # ys"
    by (meson split_list)
  with d have "n \<notin> fst ` set xs" "n \<notin> fst ` set ys"
    by auto
  then have "filter (\<lambda>x. fst x = n) xs = []" "filter (\<lambda>x. fst x = n) ys = []"
    by (auto simp: filter_empty_conv)
  then show ?thesis
    by (auto simp: mem_addrs_def mem_ags_def mem_set_addrs_def slots_set_slot xs n(2) filter_map o_def case_prod_beta
        filter_empty_conv)
qed

lemma mem_addr_laws: "addr_laws (mem_api loose) mem_addrs"
  unfolding addr_laws_def
proof (intro conjI allI impI)
  fix w gid xs w'
  assume "ag_Add (mem_api loose) gid xs w = (Inr (), w')"
  then have a: "list_ex (\<lambda>a. ag_id a = gid) (mem_ags w)" "\<forall>x \<in> set xs. normalizeCIDR x = x"
      "w' = mem_set_addrs gid (\<lambda>as. as @ xs) w"
    by (auto simp: mem_api_simps mem_add_def list_ex_iff split: if_splits)
  with mem_addrs_set [OF a(1), of "\<lambda>as. as @ xs"]
  show "normalizeCIDR ` set (mem_addrs w' gid) = normalizeCIDR ` set (mem_addrs w gid) \<union> set xs"
    by (auto simp: image_Un)
next
  fix w gid xs w'
  assume "ag_Remove (mem_api loose) gid xs w = (Inr (), w')"
  then have a: "list_ex (\<lambda>a. ag_id a = gid) (mem_ags w)" "w' = mem_set_addrs gid (filter (\<lambda>a. normalizeCIDR a \<notin> set xs)) w"
    by (auto simp: mem_api_simps mem_remove_def split: if_splits)
  with mem_addrs_set [OF a(1), of "filter (\<lambda>a. normalizeCIDR a \<notin> set xs)"]
  show "normalizeCIDR ` set (mem_addrs w' gid) = normalizeCIDR ` set (mem_addrs w gid) - set xs"
    by auto
qed (auto simp: mem_api_simps mem_add_def mem_remove_def list_ex_iff split: if_splits)

lemma mem_groups_ids: "distinct (map gr_id (mem_groups w))"
  using distinct_slots [of 0 "m_groups w"]
  by (auto simp: mem_groups_def distinct_map inj_on_def o_def case_prod_beta)

lemma mem_kill_groups:
  "mem_groups (w\<lparr>m_groups := kill (\<lambda>n. slot_id ''g'' n = i) 0 (m_groups w)\<rparr>) = filter (\<lambda>g. gr_id g \<noteq> i) (mem_groups w)"
  by (simp add: mem_groups_def mem_rules_def slots_kill filter_map o_def case_prod_beta)

lemma mem_kill_ags:
  "mem_ags (w\<lparr>m_ags := kill (\<lambda>n. slot_id ''a'' n = i) 0 (m_ags w)\<rparr>) = filter (\<lambda>a. ag_id a \<noteq> i) (mem_ags w)"
  by (simp add: mem_ags_def slots_kill filter_map o_def case_prod_beta)

lemma mem_sweep_laws: "sweep_laws (mem_api loose) mem_groups mem_ags"
  unfolding sweep_laws_def
proof (intro conjI allI impI)
  show "mem_ags (snd (groups_Delete (mem_api loose) i w)) = mem_ags w" for i w
    by (simp add: mem_api_def mem_ags_def)
  show "mem_groups (snd (ag_Delete (mem_api loose) i w)) = mem_groups w" for i w
    by (simp add: mem_api_def mem_groups_def mem_rules_def)
qed (simp_all add: mem_groups_ids mem_api_def collect_a_def mem_kill_groups mem_kill_ags)

section \<open>Properties\<close>

text \<open>
  When a policy's rule set has been written, its security group holds exactly the wanted
  rules: each of them is there, and nothing else is, neither the egress rules Neutron adds to a
  group nor what the policy no longer allows. The service reports a conflict only for a rule
  the group has.
\<close>

theorem EnsureRuleSet_exact:
  assumes "rules_laws N V" and "EnsureRuleSet N name ref rset peers w = (Inr gid, w')"
  shows "\<exists>want. opts_list gid peers (rs_rules rset) = Inr want \<and>
    (\<forall>o' \<in> set want. hasRule (V w' gid) o') \<and> (\<forall>r \<in> set (V w' gid). wantsRule want r)"
  using EnsureRuleSet_effect [OF assms(2,1)] .

definition sample_ruleset :: ruleset where
  "sample_ruleset = Expand [\<lparr>rule_direction = Egress, rule_peers = [cidr_peer ''10.0.0.0/8''],
     rule_ports = [\<lparr>port_protocol = ''TCP'', port_min = 443, port_max = 443\<rparr>]\<rparr>]"

definition sample_write :: "string result \<times> mem" where
  "sample_write = EnsureRuleSet (mem_api False) ''knp-policy-0'' ''prod/web'' sample_ruleset [] mem_empty"

theorem EnsureRuleSet_exact_witness:
  "\<exists>want. opts_list ''g0'' [] (rs_rules sample_ruleset) = Inr want \<and>
     list_all (hasRule (mem_rules (snd sample_write) ''g0'')) want \<and>
     list_all (wantsRule want) (mem_rules (snd sample_write) ''g0'')"
proof -
  have "fst sample_write = Inr ''g0''" by code_simp
  then have "EnsureRuleSet (mem_api False) ''knp-policy-0'' ''prod/web'' sample_ruleset [] mem_empty
      = (Inr ''g0'', snd sample_write)"
    unfolding sample_write_def by (metis prod.collapse)
  from EnsureRuleSet_exact [OF mem_rules_laws this] show ?thesis by (simp add: list_all_iff)
qed

text \<open>
  That condition on conflicts matters. Where the service counts a rule without a remote prefix as
  the rule that names the whole address space, the rule the code wants is refused as a
  duplicate of the one Neutron put in the new group, and that one is then removed as stale:
  the write succeeds and the group allows nothing.
\<close>

definition open_egress :: ruleset where
  "open_egress = Expand [\<lparr>rule_direction = Egress, rule_peers = [cidr_peer ''0.0.0.0/0'', cidr_peer ''::/0''], rule_ports = []\<rparr>]"

theorem open_egress_lost:
  "rs_rules open_egress \<noteq> [] \<and>
   fst (EnsureRuleSet (mem_api True) ''knp-policy-0'' ''prod/web'' open_egress [] mem_empty) = Inr ''g0'' \<and>
   mem_rules (snd (EnsureRuleSet (mem_api True) ''knp-policy-0'' ''prod/web'' open_egress [] mem_empty)) ''g0'' = []"
  by code_simp

text \<open>
  The groups that carry the baseline are what their names say: after \<open>EnsureDenyAll\<close>
  the anchor group has no rule, and after \<open>ensureBaselineRules\<close> a group opens its own
  direction for both address families and has no rule of the other direction.
\<close>

theorem baseline_groups_exact:
  assumes "rules_laws N V"
  shows "(EnsureDenyAll N w = (Inr gid, w') \<longrightarrow> V w' gid = []) \<and>
    (ensureBaselineRules N gid' d u = (Inr (), u') \<longrightarrow>
      (\<forall>o' \<in> set (baseline_opts gid' d). hasRule (V u' gid') o') \<and> (\<forall>r \<in> set (V u' gid'). sr_direction r = d))"
  using EnsureDenyAll_effect [OF _ assms] ensureBaselineRules_effect [OF _ assms] by blast

definition sample_deny :: "string result \<times> mem" where
  "sample_deny = EnsureDenyAll (mem_api False) mem_empty"

definition sample_open :: "unit result \<times> mem" where
  "sample_open = ensureBaselineRules (mem_api False) ''g0'' ''ingress'' (snd (mem_create_group AllowIngress [] mem_empty))"

theorem baseline_groups_exact_witness:
  "mem_rules (snd sample_deny) ''g0'' = [] \<and>
   list_all (hasRule (mem_rules (snd sample_open) ''g0'')) (baseline_opts ''g0'' ''ingress'') \<and>
   list_all (\<lambda>r. sr_direction r = ''ingress'') (mem_rules (snd sample_open) ''g0'')"
proof -
  have "fst sample_deny = Inr ''g0''" "fst sample_open = Inr ()" by code_simp+
  then have "EnsureDenyAll (mem_api False) mem_empty = (Inr ''g0'', snd sample_deny)"
    "ensureBaselineRules (mem_api False) ''g0'' ''ingress'' (snd (mem_create_group AllowIngress [] mem_empty))
       = (Inr (), snd sample_open)"
    unfolding sample_deny_def sample_open_def by (metis prod.collapse)+
  with baseline_groups_exact [OF mem_rules_laws] show ?thesis unfolding list_all_iff by blast
qed

text \<open>
  After \<open>SyncAddresses\<close> an address group holds exactly the wanted addresses, in the form
  Neutron stores them: the two calls it makes carry only the difference, so neither is refused
  for an address that is already as it should be.
\<close>

theorem SyncAddresses_exact:
  assumes "addr_laws N A" and "SyncAddresses N gid want w = (Inr (), w')"
  shows "normalizeCIDR ` set (A w' gid) = normalizeCIDR ` set want"
  using SyncAddresses_effect [OF assms(2,1)] .

definition sample_sync :: "unit result \<times> mem" where
  "sample_sync = SyncAddresses (mem_api False) ''a0'' [''10.0.0.5'', ''fd00::7'']
     (mem_empty\<lparr>m_ags := [Some (''knp-peers-0'', [''10.0.0.9/32'', ''10.0.0.5/32''])]\<rparr>)"

theorem SyncAddresses_exact_witness:
  "normalizeCIDR ` set (mem_addrs (snd sample_sync) ''a0'') = normalizeCIDR ` set [''10.0.0.5'', ''fd00::7'']"
proof -
  have "fst sample_sync = Inr ()" by code_simp
  then have "SyncAddresses (mem_api False) ''a0'' [''10.0.0.5'', ''fd00::7'']
      (mem_empty\<lparr>m_ags := [Some (''knp-peers-0'', [''10.0.0.9/32'', ''10.0.0.5/32''])]\<rparr>) = (Inr (), snd sample_sync)"
    unfolding sample_sync_def by (metis prod.collapse)
  from SyncAddresses_exact [OF mem_addr_laws this] show ?thesis .
qed


definition sweep_world :: mem where
  "sweep_world =
     \<lparr>m_groups = [Some (''knp-policy-0'', policyDescription ''prod/web''), Some (''knp-policy-1'', policyDescription ''prod/old'')],
      m_rules = [Some (''g0'', (egress_all ''IPv4'')\<lparr>sr_addrgroup := ''a0''\<rparr>), Some (''g1'', (egress_all ''IPv4'')\<lparr>sr_addrgroup := ''a1''\<rparr>)],
      m_ags = [Some (''knp-peers-0'', []), Some (''knp-peers-1'', [])], m_ports = []\<rparr>"

abbreviation sample_live :: "string \<Rightarrow> bool" where "sample_live r \<equiv> r = ''prod/web''"
abbreviation sample_serves :: "string \<Rightarrow> bool" where "sample_serves n \<equiv> n = ''prod''"


text \<open>
  The description a policy's group carries names the policy: reading it back gives the
  reference it was written from, so the sweep can tell whose group it is.
\<close>

theorem policyOf_policyDescription: "policyOf (policyDescription ref) = ref"
proof -
  have "policyDescription ref = (''kubezun: what NetworkPolicy '' @ ref) @ '' allows''"
    by (simp add: policyDescription_def)
  then have "has_suffix (policyDescription ref) '' allows''"
    by (metis has_suffix_append)
  moreover have "has_prefix (policyDescription ref) ''kubezun: what NetworkPolicy ''"
    unfolding policyDescription_def by (rule has_prefix_append)
  moreover have "trim_prefix (policyDescription ref) ''kubezun: what NetworkPolicy '' = ref @ '' allows''"
    unfolding policyDescription_def by (rule trim_prefix_append)
  ultimately show ?thesis
    unfolding policyOf_def Let_def by (simp del: append_Cons append.simps)
qed

text \<open>
  The description a group is created with is another one, with a mark of the owner behind it,
  and from that one no policy can be read: until the group is written a second time the sweep
  does not recognise it, so a policy deleted before that leaves its group behind.
\<close>

theorem created_group_unidentified:
  "policyOf (policyDescription ref @ '' ['' @ managedBy @ '']'') = []"
proof -
  have "\<not> has_suffix (policyDescription ref @ '' ['' @ managedBy @ '']'') '' allows''"
    by (simp add: has_suffix_def has_prefix_def managedBy_def)
  then show ?thesis by (simp add: policyOf_def)
qed

end
