(* ===== verification/Vk_Namespaces.thy ===== *)
theory Vk_Namespaces
  imports Kube "HOL-Library.DAList"
begin

text \<open>
  \<^verbatim>\<open>pkg/vknode/namespaces.go\<close>: the set of namespaces this process serves, each with its
  tenant, kept by the events of a watch. It is the authorization boundary of every other
  component, so its contract is the locale \<open>served_set\<close> and the clients are proved over that.
  The Go map is an association list with distinct keys, in the order an iteration happens to
  visit it.
\<close>

section \<open>State and events\<close>

record namespaces =
  n_tenantLabel :: string
  n_current :: "(string, string) alist"

definition NewNamespaces :: "string \<Rightarrow> namespaces" where
  "NewNamespaces tenantLabel = \<lparr>n_tenantLabel = tenantLabel, n_current = DAList.empty\<rparr>"

text \<open>An event's effect on the set, and the change reported to every observer, if any.\<close>

type_synonym change = "string list \<times> string list"

definition ns_add :: "kube_namespace event_obj \<Rightarrow> namespaces \<Rightarrow> namespaces \<times> change option" where
  "ns_add obj n =
     (case asserted obj of
        None \<Rightarrow> (n, None)
      | Some ns \<Rightarrow>
          (let tenant = (if n_tenantLabel n \<noteq> [] then label_of (ns_labels ns) (n_tenantLabel n) else []) in
           if DAList.lookup (n_current n) (ns_name ns) = Some tenant then (n, None)
           else (n\<lparr>n_current := DAList.update (ns_name ns) tenant (n_current n)\<rparr>, Some ([ns_name ns], []))))"

definition ns_remove :: "kube_namespace event_obj \<Rightarrow> namespaces \<Rightarrow> namespaces \<times> change option" where
  "ns_remove obj n =
     (case untombed obj of
        None \<Rightarrow> (n, None)
      | Some ns \<Rightarrow>
          if DAList.lookup (n_current n) (ns_name ns) = None then (n, None)
          else (n\<lparr>n_current := DAList.delete (ns_name ns) (n_current n)\<rparr>, Some ([], [ns_name ns])))"

section \<open>Reads\<close>

definition Serves :: "namespaces \<Rightarrow> string \<Rightarrow> bool" where
  "Serves n namespace = (DAList.lookup (n_current n) namespace \<noteq> None)"

definition TenantOf :: "namespaces \<Rightarrow> string \<Rightarrow> string option" where
  "TenantOf n namespace = DAList.lookup (n_current n) namespace"

text \<open>The distinct values in the order they are first met.\<close>

fun firsts :: "string list \<Rightarrow> string list \<Rightarrow> string list" where
  "firsts seen [] = []"
| "firsts seen (t # ts) = (if t = [] \<or> t \<in> set seen then firsts seen ts else t # firsts (t # seen) ts)"

definition Tenants :: "namespaces \<Rightarrow> string list" where
  "Tenants n = firsts [] (map snd (DAList.impl_of (n_current n)))"

definition NamespacesOfTenant :: "namespaces \<Rightarrow> string \<Rightarrow> string list" where
  "NamespacesOfTenant n tenant =
     map fst (filter (\<lambda>(ns, t). t = tenant \<and> tenant \<noteq> []) (DAList.impl_of (n_current n)))"

definition ns_List :: "namespaces \<Rightarrow> string list" where
  "ns_List n = map fst (DAList.impl_of (n_current n))"

text \<open>What a new observer is told at once.\<close>

definition OnChange :: "namespaces \<Rightarrow> change option" where
  "OnChange n = (if ns_List n \<noteq> [] then Some (ns_List n, []) else None)"

section \<open>The contract\<close>

text \<open>
  What the components rely on: the served namespaces are the ones with an answer from
  \<open>tenantOf\<close>, and the two walks list exactly the named tenants and their namespaces, each once.
\<close>

locale served_set =
  fixes serves :: "string \<Rightarrow> bool"
    and tenantOf :: "string \<Rightarrow> string option"
    and tenants :: "string list"
    and namespacesOf :: "string \<Rightarrow> string list"
  assumes serves_iff: "serves ns \<longleftrightarrow> tenantOf ns \<noteq> None"
    and set_tenants: "set tenants = {t. t \<noteq> [] \<and> (\<exists>ns. tenantOf ns = Some t)}"
    and distinct_tenants: "distinct tenants"
    and set_namespacesOf: "set (namespacesOf t) = {ns. t \<noteq> [] \<and> tenantOf ns = Some t}"
    and distinct_namespacesOf: "distinct (namespacesOf t)"
begin

text \<open>The check a tenant's reconciler is given: the namespaces of that tenant only.\<close>

definition scoped_to :: "string \<Rightarrow> string \<Rightarrow> bool" where
  "scoped_to t ns = (case tenantOf ns of None \<Rightarrow> False | Some got \<Rightarrow> got = t)"

lemma scoped_to_iff: "scoped_to t ns \<longleftrightarrow> tenantOf ns = Some t"
  by (simp add: scoped_to_def split: option.splits)

lemma scoped_serves: "scoped_to t ns \<Longrightarrow> serves ns"
  by (simp add: scoped_to_iff serves_iff)

lemma scoped_disjoint: "scoped_to t ns \<Longrightarrow> scoped_to t' ns \<Longrightarrow> t = t'"
  by (simp add: scoped_to_iff)

lemma scoped_namespacesOf: "t \<noteq> [] \<Longrightarrow> set (namespacesOf t) = {ns. scoped_to t ns}"
  by (simp add: set_namespacesOf scoped_to_iff)

text \<open>The walk over tenants reaches every namespace that names one, and only served ones.\<close>

lemma walk_covers: "tenantOf ns = Some t \<Longrightarrow> t \<noteq> [] \<Longrightarrow> t \<in> set tenants \<and> ns \<in> set (namespacesOf t)"
  by (auto simp: set_tenants set_namespacesOf)

lemma walk_nonempty: "t \<in> set tenants \<Longrightarrow> namespacesOf t \<noteq> []"
proof -
  assume "t \<in> set tenants"
  then have "{ns. t \<noteq> [] \<and> tenantOf ns = Some t} \<noteq> {}" by (simp add: set_tenants)
  then show ?thesis unfolding set_namespacesOf [symmetric] by simp
qed

lemma walk_served: "ns \<in> set (namespacesOf t) \<Longrightarrow> serves ns"
  by (simp add: set_namespacesOf serves_iff)

lemma walk_namespace: "t \<in> set tenants \<Longrightarrow> tenantOf (namespacesOf t ! 0) = Some t"
proof -
  assume "t \<in> set tenants"
  then have "namespacesOf t ! 0 \<in> set (namespacesOf t)"
    by (intro nth_mem) (simp add: walk_nonempty)
  then show ?thesis by (simp only: set_namespacesOf mem_Collect_eq)
qed

end

section \<open>The watched set keeps it\<close>

lemma set_firsts: "set (firsts seen ts) = {t \<in> set ts. t \<noteq> [] \<and> t \<notin> set seen}"
  by (induction seen ts rule: firsts.induct) auto

lemma distinct_firsts: "distinct (firsts seen ts)"
  by (induction seen ts rule: firsts.induct) (auto simp: set_firsts)

lemma alist_distinct: "distinct (map fst (DAList.impl_of m))"
  using DAList.impl_of [of m] by simp

lemma alist_mem: "(k, v) \<in> set (DAList.impl_of m) \<longleftrightarrow> DAList.lookup m k = Some v"
  by (simp add: alist_distinct lookup.rep_eq)

lemma alist_values: "snd ` set (DAList.impl_of m) = {v. \<exists>k. DAList.lookup m k = Some v}"
  by (auto simp: image_iff Bex_def alist_mem)

lemma alist_keys: "fst ` {x \<in> set (DAList.impl_of m). P x} = {k. \<exists>v. DAList.lookup m k = Some v \<and> P (k, v)}"
  by (auto simp: image_iff Bex_def alist_mem)

interpretation nsw: served_set "Serves n" "TenantOf n" "Tenants n" "NamespacesOfTenant n" for n
proof
  show "set (Tenants n) = {t. t \<noteq> [] \<and> (\<exists>ns. TenantOf n ns = Some t)}"
    by (auto simp: Tenants_def set_firsts alist_values TenantOf_def)
  show "set (NamespacesOfTenant n t) = {ns. t \<noteq> [] \<and> TenantOf n ns = Some t}" for t
    by (auto simp: NamespacesOfTenant_def alist_keys TenantOf_def)
  show "distinct (NamespacesOfTenant n t)" for t
    unfolding NamespacesOfTenant_def using alist_distinct by (rule distinct_map_filter)
qed (simp_all add: Serves_def TenantOf_def Tenants_def distinct_firsts)

lemma set_ns_List: "set (ns_List n) = {ns. Serves n ns}"
  using alist_keys [of "n_current n" "\<lambda>_. True"] by (auto simp: ns_List_def Serves_def)

lemma distinct_ns_List: "distinct (ns_List n)"
  by (simp add: ns_List_def alist_distinct)

lemma TenantOf_add:
  assumes "asserted obj = Some ns"
  shows "TenantOf (fst (ns_add obj n)) = (TenantOf n)
    (ns_name ns \<mapsto> (if n_tenantLabel n \<noteq> [] then label_of (ns_labels ns) (n_tenantLabel n) else []))"
  using assms by (auto simp: ns_add_def TenantOf_def fun_eq_iff Let_def)

lemma TenantOf_remove:
  assumes "untombed obj = Some ns"
  shows "TenantOf (fst (ns_remove obj n)) = (TenantOf n)(ns_name ns := None)"
  using assms by (auto simp: ns_remove_def TenantOf_def fun_eq_iff)

lemma ns_ignored [simp]:
  "asserted obj = None \<Longrightarrow> ns_add obj n = (n, None)" "untombed obj = None \<Longrightarrow> ns_remove obj n = (n, None)"
  by (simp_all add: ns_add_def ns_remove_def)

text \<open>A report names the change of the set: what is new is served, what went is not.\<close>

lemma ns_add_change:
  "snd (ns_add obj n) = Some (added, removed) \<Longrightarrow>
     removed = [] \<and> {x. Serves (fst (ns_add obj n)) x} = {x. Serves n x} \<union> set added"
  by (auto simp: ns_add_def Serves_def Let_def lookup_update split: option.splits if_splits)

lemma ns_remove_change:
  "snd (ns_remove obj n) = Some (added, removed) \<Longrightarrow>
     added = [] \<and> {x. Serves (fst (ns_remove obj n)) x} = {x. Serves n x} - set removed"
  by (auto simp: ns_remove_def Serves_def split: option.splits if_splits)

lemma ns_add_quiet: "snd (ns_add obj n) = None \<Longrightarrow> fst (ns_add obj n) = n"
  by (auto simp: ns_add_def Let_def split: option.splits if_splits)

lemma ns_remove_quiet: "snd (ns_remove obj n) = None \<Longrightarrow> fst (ns_remove obj n) = n"
  by (auto simp: ns_remove_def split: option.splits if_splits)

end
