(* ===== verification/Vk_Scoped.thy ===== *)
theory Vk_Scoped
  imports Vk_Namespaces
begin

text \<open>
  \<^verbatim>\<open>pkg/vknode/scoped.go\<close>: one informer factory per served namespace, started and stopped as
  namespaces come and go, and listers that read across them. The informers and the listers over
  one informer's store are client-go's: the informer of a namespace and kind is made by the
  parameter \<open>mk\<close>, and the reads are fields of \<open>client_lister\<close>. The lemmas show that the
  set of factories follows the served set, that every subscription reaches every factory once, and
  that the listers keep the contract of \<open>lister_contract\<close> over the tracked namespaces.
\<close>

section \<open>State\<close>

datatype kind = Services | EndpointSlices | Pods | NetworkPolicies | Ingresses | Claims

definition kind_name :: "kind \<Rightarrow> string" where
  "kind_name k = (case k of Services \<Rightarrow> ''services'' | EndpointSlices \<Rightarrow> ''endpointslices'' | Pods \<Rightarrow> ''pods''
     | NetworkPolicies \<Rightarrow> ''networkpolicies'' | Ingresses \<Rightarrow> ''ingresses'' | Claims \<Rightarrow> ''persistentvolumeclaims'')"

definition scopedKinds :: "kind list" where
  "scopedKinds = [Services, EndpointSlices, Pods, NetworkPolicies, Ingresses, Claims]"

text \<open>
  A factory: whether it was started, its informers, and the handlers registered on them, in
  the order of registration.
\<close>

record ('i, 'h) scopedFactory =
  f_started :: bool
  f_informers :: "kind \<Rightarrow> 'i"
  f_registered :: "(kind \<times> 'h) list"

record ('i, 'h) scopedFactories =
  s_ctx :: bool
  s_synced :: bool
  s_factories :: "(string, ('i, 'h) scopedFactory) alist"
  s_handlers :: "(string \<times> 'h) list"

definition NewScopedFactories :: "('i, 'h) scopedFactories" where
  "NewScopedFactories = \<lparr>s_ctx = False, s_synced = False, s_factories = DAList.empty, s_handlers = []\<rparr>"

definition informerOf :: "string \<Rightarrow> kind option" where
  "informerOf name = find (\<lambda>k. kind_name k = name) scopedKinds"

section \<open>Operations\<close>

text \<open>A loop over a map that updates its values in place.\<close>

lift_definition each_value :: "('v \<Rightarrow> 'v) \<Rightarrow> ('k, 'v) alist \<Rightarrow> ('k, 'v) alist"
  is "\<lambda>g xs. map (\<lambda>(k, v). (k, g v)) xs"
  by (simp add: o_def case_prod_beta)

definition startLocked :: "('i, 'h) scopedFactory \<Rightarrow> ('i, 'h) scopedFactory" where
  "startLocked f = f\<lparr>f_started := True\<rparr>"

definition startOnce :: "('i, 'h) scopedFactory \<Rightarrow> ('i, 'h) scopedFactory" where
  "startOnce f = (if \<not> f_started f then startLocked f else f)"

definition sc_Start :: "('i, 'h) scopedFactories \<Rightarrow> ('i, 'h) scopedFactories" where
  "sc_Start s = s\<lparr>s_ctx := True, s_factories := each_value startOnce (s_factories s)\<rparr>"

text \<open>A handler of an unknown kind is refused, and the refusal ignored by both callers.\<close>

definition registerLocked :: "string \<times> 'h \<Rightarrow> ('i, 'h) scopedFactory \<Rightarrow> ('i, 'h) scopedFactory" where
  "registerLocked h f =
     (case informerOf (fst h) of None \<Rightarrow> f | Some k \<Rightarrow> f\<lparr>f_registered := f_registered f @ [(k, snd h)]\<rparr>)"

definition trackRemove :: "string \<Rightarrow> ('i, 'h) scopedFactories \<Rightarrow> ('i, 'h) scopedFactories" where
  "trackRemove ns s = s\<lparr>s_factories := DAList.delete ns (s_factories s)\<rparr>"

definition newFactory :: "(string \<Rightarrow> kind \<Rightarrow> 'i) \<Rightarrow> string \<Rightarrow> ('i, 'h) scopedFactories \<Rightarrow> ('i, 'h) scopedFactory" where
  "newFactory mk ns s =
     (let f = fold registerLocked (s_handlers s) \<lparr>f_started = False, f_informers = mk ns, f_registered = []\<rparr>
      in if s_ctx s then startLocked f else f)"

definition trackAdd :: "(string \<Rightarrow> kind \<Rightarrow> 'i) \<Rightarrow> string \<Rightarrow> ('i, 'h) scopedFactories \<Rightarrow> ('i, 'h) scopedFactories" where
  "trackAdd mk ns s =
     (if DAList.lookup (s_factories s) ns \<noteq> None then s
      else s\<lparr>s_factories := DAList.update ns (newFactory mk ns s) (s_factories s)\<rparr>)"

definition Track :: "(string \<Rightarrow> kind \<Rightarrow> 'i) \<Rightarrow> change \<Rightarrow> ('i, 'h) scopedFactories \<Rightarrow> ('i, 'h) scopedFactories" where
  "Track mk c s = (case c of (added, removed) \<Rightarrow> fold (trackAdd mk) added (fold trackRemove removed s))"

definition subscribe :: "string \<Rightarrow> 'h \<Rightarrow> ('i, 'h) scopedFactories \<Rightarrow> ('i, 'h) scopedFactories" where
  "subscribe kind h s =
     s\<lparr>s_handlers := s_handlers s @ [(kind, h)],
       s_factories := each_value (\<lambda>f. registerLocked (kind, h) f) (s_factories s)\<rparr>"

definition HasSynced :: "('i \<Rightarrow> bool) \<Rightarrow> ('i, 'h) scopedFactories \<Rightarrow> bool \<times> ('i, 'h) scopedFactories" where
  "HasSynced syn s =
     (if s_synced s then (True, s)
      else if list_all (\<lambda>(ns, f). f_started f \<longrightarrow> list_all (\<lambda>k. syn (f_informers f k)) scopedKinds)
                (DAList.impl_of (s_factories s))
      then (True, s\<lparr>s_synced := True\<rparr>) else (False, s))"

definition snapshot :: "('i, 'h) scopedFactories \<Rightarrow> (string \<times> ('i, 'h) scopedFactory) list" where
  "snapshot s = DAList.impl_of (s_factories s)"

section \<open>Listers\<close>

text \<open>client-go's lister over the store of one informer.\<close>

record ('i, 'o) client_lister =
  cl_List :: "'i \<Rightarrow> selector \<Rightarrow> 'o list result"
  cl_In :: "'i \<Rightarrow> string \<Rightarrow> selector \<Rightarrow> 'o list result"
  cl_Get :: "'i \<Rightarrow> string \<Rightarrow> string \<Rightarrow> 'o result"

definition apierrNotFound :: "string \<Rightarrow> string \<Rightarrow> string \<Rightarrow> err" where
  "apierrNotFound resource namespace name =
     ErrKubeNotFound (resource @ ''s '' @ quote_str (obj_key namespace name) @ '' not found'')"

fun fanOut :: "('f \<Rightarrow> 'o list result) \<Rightarrow> 'f list \<Rightarrow> 'o list result" where
  "fanOut get [] = Inr []"
| "fanOut get (f # fs) = bind_r (get f) (\<lambda>part. bind_r (fanOut get fs) (\<lambda>out. Inr (part @ out)))"

definition scopedLister ::
  "('i, 'o) client_lister \<Rightarrow> kind \<Rightarrow> string \<Rightarrow> ('i, 'h) scopedFactories \<Rightarrow> 'o lister" where
  "scopedLister C k resource s =
     \<lparr>l_List = (\<lambda>sel. fanOut (\<lambda>(ns, f). cl_List C (f_informers f k) sel) (snapshot s)),
      l_In = (\<lambda>ns sel. case map_of (snapshot s) ns of
                Some f \<Rightarrow> cl_In C (f_informers f k) ns sel | None \<Rightarrow> Inr []),
      l_Get = (\<lambda>ns name. case map_of (snapshot s) ns of
                Some f \<Rightarrow> cl_Get C (f_informers f k) ns name
              | None \<Rightarrow> Inl (apierrNotFound resource ns name))\<rparr>"

definition PodLister :: "('i, pod) client_lister \<Rightarrow> ('i, 'h) scopedFactories \<Rightarrow> pod lister" where
  "PodLister C s = scopedLister C Pods ''pod'' s"

definition NetworkPolicyLister :: "('i, network_policy) client_lister \<Rightarrow> ('i, 'h) scopedFactories \<Rightarrow> network_policy lister" where
  "NetworkPolicyLister C s = scopedLister C NetworkPolicies ''networkpolicy'' s"

definition ServiceLister :: "('i, 'o) client_lister \<Rightarrow> ('i, 'h) scopedFactories \<Rightarrow> 'o lister" where
  "ServiceLister C s = scopedLister C Services ''service'' s"

definition EndpointSliceLister :: "('i, 'o) client_lister \<Rightarrow> ('i, 'h) scopedFactories \<Rightarrow> 'o lister" where
  "EndpointSliceLister C s = scopedLister C EndpointSlices ''endpointslice'' s"

definition IngressLister :: "('i, 'o) client_lister \<Rightarrow> ('i, 'h) scopedFactories \<Rightarrow> 'o lister" where
  "IngressLister C s = scopedLister C Ingresses ''ingress'' s"

definition ClaimLister :: "('i, 'o) client_lister \<Rightarrow> ('i, 'h) scopedFactories \<Rightarrow> 'o lister" where
  "ClaimLister C s = scopedLister C Claims ''persistentvolumeclaim'' s"

section \<open>Histories\<close>

text \<open>Any sequence of the operations, from a new set of factories.\<close>

datatype 'h op = OpStart | OpTrack change | OpSubscribe string 'h

fun apply_op :: "(string \<Rightarrow> kind \<Rightarrow> 'i) \<Rightarrow> 'h op \<Rightarrow> ('i, 'h) scopedFactories \<Rightarrow> ('i, 'h) scopedFactories" where
  "apply_op mk OpStart s = sc_Start s"
| "apply_op mk (OpTrack c) s = Track mk c s"
| "apply_op mk (OpSubscribe k h) s = subscribe k h s"

definition history :: "(string \<Rightarrow> kind \<Rightarrow> 'i) \<Rightarrow> 'h op list \<Rightarrow> ('i, 'h) scopedFactories" where
  "history mk ops = fold (apply_op mk) ops NewScopedFactories"

text \<open>
  What every operation keeps: a factory's informers are those of its namespace, it has been
  started once serving began, and the handlers registered on it are the subscriptions of a
  known kind, each once and in order.
\<close>

definition known_handlers :: "(string \<times> 'h) list \<Rightarrow> (kind \<times> 'h) list" where
  "known_handlers hs = concat (map (\<lambda>(n, h). case informerOf n of None \<Rightarrow> [] | Some k \<Rightarrow> [(k, h)]) hs)"

definition scoped_inv :: "(string \<Rightarrow> kind \<Rightarrow> 'i) \<Rightarrow> ('i, 'h) scopedFactories \<Rightarrow> bool" where
  "scoped_inv mk s \<longleftrightarrow>
     (\<forall>ns f. DAList.lookup (s_factories s) ns = Some f \<longrightarrow>
        f_informers f = mk ns \<and> (s_ctx s \<longrightarrow> f_started f) \<and> f_registered f = known_handlers (s_handlers s))"

definition tracked :: "('i, 'h) scopedFactories \<Rightarrow> string set" where
  "tracked s = {ns. DAList.lookup (s_factories s) ns \<noteq> None}"

section \<open>Lemmas\<close>

lemma known_handlers_append: "known_handlers (hs @ [h]) =
    known_handlers hs @ (case informerOf (fst h) of None \<Rightarrow> [] | Some k \<Rightarrow> [(k, snd h)])"
  by (cases h) (simp add: known_handlers_def split: option.splits)

lemma registerLocked_fields [simp]:
  "f_informers (registerLocked h f) = f_informers f" "f_started (registerLocked h f) = f_started f"
  "f_registered (registerLocked h f) = f_registered f @ known_handlers [h]"
  by (cases h; simp add: registerLocked_def known_handlers_def split: option.splits)+

lemma fold_registerLocked [simp]:
  "f_informers (fold registerLocked hs f) = f_informers f" "f_started (fold registerLocked hs f) = f_started f"
  "f_registered (fold registerLocked hs f) = f_registered f @ known_handlers hs"
  by (induction hs arbitrary: f) (simp_all add: known_handlers_def)

lemma lookup_each_value [simp]: "DAList.lookup (each_value g m) k = map_option g (DAList.lookup m k)"
  by (simp add: lookup.rep_eq each_value.rep_eq map_of_map)

lemma newFactory_fields [simp]:
  "f_informers (newFactory mk ns s) = mk ns" "f_registered (newFactory mk ns s) = known_handlers (s_handlers s)"
  "f_started (newFactory mk ns s) = s_ctx s"
  by (simp_all add: newFactory_def startLocked_def Let_def)

lemma scoped_inv_New: "scoped_inv mk NewScopedFactories"
  by (simp add: scoped_inv_def NewScopedFactories_def)

lemma startOnce_fields [simp]:
  "f_informers (startOnce f) = f_informers f" "f_registered (startOnce f) = f_registered f" "f_started (startOnce f)"
  by (simp_all add: startOnce_def startLocked_def)

lemma scoped_inv_Start: "scoped_inv mk s \<Longrightarrow> scoped_inv mk (sc_Start s)"
  by (auto simp: scoped_inv_def sc_Start_def)

lemma scoped_inv_subscribe: "scoped_inv mk s \<Longrightarrow> scoped_inv mk (subscribe k h s)"
  by (auto simp: scoped_inv_def subscribe_def known_handlers_append known_handlers_def split: option.splits)

lemma scoped_inv_trackRemove: "scoped_inv mk s \<Longrightarrow> scoped_inv mk (trackRemove ns s)"
  by (auto simp: scoped_inv_def trackRemove_def split: if_splits)

lemma scoped_inv_trackAdd: "scoped_inv mk s \<Longrightarrow> scoped_inv mk (trackAdd mk ns s)"
  by (auto simp: scoped_inv_def trackAdd_def lookup_update split: if_splits)

lemma fold_invariant: "P s \<Longrightarrow> (\<And>x s. P s \<Longrightarrow> P (f x s)) \<Longrightarrow> P (fold f xs s)"
  by (induction xs arbitrary: s) auto

lemma scoped_inv_Track: "scoped_inv mk s \<Longrightarrow> scoped_inv mk (Track mk c s)"
  unfolding Track_def
  by (auto split: prod.splits intro!: fold_invariant [of "scoped_inv mk"] scoped_inv_trackAdd scoped_inv_trackRemove)

lemma scoped_inv_apply: "scoped_inv mk s \<Longrightarrow> scoped_inv mk (apply_op mk x s)"
  by (cases x) (auto intro: scoped_inv_Start scoped_inv_Track scoped_inv_subscribe)

lemma scoped_inv_history: "scoped_inv mk (history mk ops)"
  unfolding history_def by (rule fold_invariant) (auto intro: scoped_inv_New scoped_inv_apply)

lemma tracked_simps [simp]:
  "tracked (NewScopedFactories :: ('i, 'h) scopedFactories) = {}" "tracked (sc_Start s) = tracked s"
  "tracked (subscribe k h s) = tracked s" "tracked (trackRemove ns s) = tracked s - {ns}"
  "tracked (trackAdd mk ns s) = insert ns (tracked s)"
  by (auto simp: tracked_def NewScopedFactories_def sc_Start_def subscribe_def trackRemove_def trackAdd_def
      lookup_update split: if_splits)

lemma tracked_Track: "tracked (Track mk (added, removed) s) = tracked s - set removed \<union> set added"
proof -
  have "tracked (fold trackRemove removed s) = tracked s - set removed" for s :: "('a, 'b) scopedFactories"
    by (induction removed arbitrary: s) auto
  moreover have "tracked (fold (trackAdd mk) added s) = tracked s \<union> set added" for s :: "('a, 'b) scopedFactories"
    by (induction added arbitrary: s) auto
  ultimately show ?thesis by (simp add: Track_def)
qed

lemma Track_keeps [simp]: "s_synced (Track mk c s) = s_synced s"
proof -
  have "s_synced (fold trackRemove xs s) = s_synced s" for xs and s :: "('a, 'b) scopedFactories"
    by (induction xs arbitrary: s) (auto simp: trackRemove_def)
  moreover have "s_synced (fold (trackAdd mk) xs s) = s_synced s" for xs and s :: "('a, 'b) scopedFactories"
    by (induction xs arbitrary: s) (auto simp: trackAdd_def)
  ultimately show ?thesis by (simp add: Track_def split: prod.splits)
qed

section \<open>The listers keep the contract\<close>

text \<open>
  What client-go documents of a lister over an informer's store \<open>st i\<close>, and of an informer
  restricted to a namespace: it holds objects of that namespace only.
\<close>

definition client_laws :: "('i, 'o) client_lister \<Rightarrow> 'o meta \<Rightarrow> ('i \<Rightarrow> 'o set) \<Rightarrow> bool" where
  "client_laws C M st \<longleftrightarrow>
     (\<forall>i sel xs. cl_List C i sel = Inr xs \<longrightarrow> set xs = {x \<in> st i. sel_matches sel (m_labels M x)}) \<and>
     (\<forall>i ns sel xs. cl_In C i ns sel = Inr xs \<longrightarrow> set xs = {x \<in> st i. m_ns M x = ns \<and> sel_matches sel (m_labels M x)}) \<and>
     (\<forall>i ns n x. cl_Get C i ns n = Inr x \<longrightarrow> x \<in> st i \<and> m_ns M x = ns \<and> m_name M x = n) \<and>
     (\<forall>i ns n e x. cl_Get C i ns n = Inl e \<longrightarrow> x \<in> st i \<longrightarrow> \<not> (m_ns M x = ns \<and> m_name M x = n))"

definition own_namespace :: "(string \<Rightarrow> kind \<Rightarrow> 'i) \<Rightarrow> kind \<Rightarrow> 'o meta \<Rightarrow> ('i \<Rightarrow> 'o set) \<Rightarrow> bool" where
  "own_namespace mk k M st \<longleftrightarrow> (\<forall>ns x. x \<in> st (mk ns k) \<longrightarrow> m_ns M x = ns)"

lemma client_lawsD:
  assumes "client_laws C M st"
  shows "cl_List C i sel = Inr xs \<Longrightarrow> set xs = {x \<in> st i. sel_matches sel (m_labels M x)}"
    and "cl_In C i ns sel = Inr xs \<Longrightarrow> set xs = {x \<in> st i. m_ns M x = ns \<and> sel_matches sel (m_labels M x)}"
    and "cl_Get C i ns n = Inr x \<Longrightarrow> x \<in> st i \<and> m_ns M x = ns \<and> m_name M x = n"
    and "cl_Get C i ns n = Inl e \<Longrightarrow> x \<in> st i \<Longrightarrow> \<not> (m_ns M x = ns \<and> m_name M x = n)"
  using assms unfolding client_laws_def by blast+

lemma fanOut_set:
  "fanOut get fs = Inr xs \<Longrightarrow> set xs = (\<Union>f \<in> set fs. {x. \<exists>part. get f = Inr part \<and> x \<in> set part})"
  by (induction fs arbitrary: xs) (auto simp: bind_r_Inr_iff)

lemma fanOut_parts: "fanOut get fs = Inr xs \<Longrightarrow> f \<in> set fs \<Longrightarrow> \<exists>part. get f = Inr part"
  by (induction fs arbitrary: xs) (auto simp: bind_r_Inr_iff)

text \<open>The objects a read can see: those in the stores of the tracked namespaces.\<close>

definition visible :: "(string \<Rightarrow> kind \<Rightarrow> 'i) \<Rightarrow> kind \<Rightarrow> ('i \<Rightarrow> 'o set) \<Rightarrow> ('i, 'h) scopedFactories \<Rightarrow> 'o set" where
  "visible mk k st s = (\<Union>ns \<in> tracked s. st (mk ns k))"

locale scoped_reads =
  fixes C :: "('i, 'o) client_lister" and mk :: "string \<Rightarrow> kind \<Rightarrow> 'i" and k :: kind
    and s :: "('i, 'h) scopedFactories" and M :: "'o meta" and st :: "'i \<Rightarrow> 'o set"
  assumes laws: "client_laws C M st" and own: "own_namespace mk k M st" and inv: "scoped_inv mk s"
begin

lemma snapshot_iff: "(ns, f) \<in> set (snapshot s) \<longleftrightarrow> DAList.lookup (s_factories s) ns = Some f"
  by (simp add: snapshot_def alist_mem)

lemma map_of_snapshot [simp]: "map_of (snapshot s) = DAList.lookup (s_factories s)"
  by (simp add: snapshot_def lookup.rep_eq)

lemma informers: "DAList.lookup (s_factories s) ns = Some f \<Longrightarrow> f_informers f = mk ns"
  using inv by (simp add: scoped_inv_def)

lemma visible_iff:
  "x \<in> visible mk k st s \<longleftrightarrow> (\<exists>f. DAList.lookup (s_factories s) (m_ns M x) = Some f \<and> x \<in> st (mk (m_ns M x) k))"
  using own by (auto simp: visible_def tracked_def own_namespace_def)

lemma list_visible:
  assumes "l_List (scopedLister C k res s) sel = Inr xs"
  shows "set xs = {x \<in> visible mk k st s. sel_matches sel (m_labels M x)}"
proof -
  let ?get = "\<lambda>(ns, f). cl_List C (f_informers f k) sel"
  from assms have fan: "fanOut ?get (snapshot s) = Inr xs" by (simp add: scopedLister_def)
  have part: "set part = {x \<in> st (mk (fst p) k). sel_matches sel (m_labels M x)}"
    if "p \<in> set (snapshot s)" "?get p = Inr part" for p part
  proof -
    obtain ns f where p: "p = (ns, f)" by fastforce
    with that client_lawsD(1) [OF laws] show ?thesis by (simp add: snapshot_iff informers)
  qed
  have "set xs = (\<Union>p \<in> set (snapshot s). {x \<in> st (mk (fst p) k). sel_matches sel (m_labels M x)})"
    unfolding fanOut_set [OF fan] using part fanOut_parts [OF fan] by (intro SUP_cong refl) blast
  also have "\<dots> = {x \<in> (\<Union>ns \<in> fst ` set (snapshot s). st (mk ns k)). sel_matches sel (m_labels M x)}"
    by auto
  also have "fst ` set (snapshot s) = tracked s"
    using alist_keys [of "s_factories s" "\<lambda>_. True"] by (auto simp: snapshot_def tracked_def)
  finally show ?thesis by (simp only: visible_def)
qed

end

sublocale scoped_reads \<subseteq> scoped: lister_contract "scopedLister C k res s" M "visible mk k st s" for res
proof
  fix ns sel xs
  assume "l_In (scopedLister C k res s) ns sel = Inr xs"
  then show "set xs = {x \<in> visible mk k st s. m_ns M x = ns \<and> sel_matches sel (m_labels M x)}"
    using client_lawsD(2) [OF laws]
    by (auto simp: scopedLister_def visible_iff informers split: option.splits)
next
  fix ns n x
  assume "l_Get (scopedLister C k res s) ns n = Inr x"
  then show "x \<in> visible mk k st s \<and> m_ns M x = ns \<and> m_name M x = n"
    using client_lawsD(3) [OF laws]
    by (auto simp: scopedLister_def visible_iff informers split: option.splits)
next
  fix ns n e x
  assume "l_Get (scopedLister C k res s) ns n = Inl e" "x \<in> visible mk k st s"
  then show "\<not> (m_ns M x = ns \<and> m_name M x = n)"
    using client_lawsD(4) [OF laws, of "mk ns k" ns n e x]
    by (auto simp: scopedLister_def visible_iff informers split: option.splits)
qed (rule list_visible)

text \<open>
  Informers whose store is the list of a cluster's objects in one namespace, with the listers
  client-go documents; over them the set of factories keeps the contract after every history.
\<close>

definition stored_lister :: "'o meta \<Rightarrow> ('o list, 'o) client_lister" where
  "stored_lister M =
     \<lparr>cl_List = (\<lambda>i sel. Inr (filter (\<lambda>x. sel_matches sel (m_labels M x)) i)),
      cl_In = (\<lambda>i ns sel. Inr (filter (\<lambda>x. m_ns M x = ns \<and> sel_matches sel (m_labels M x)) i)),
      cl_Get = (\<lambda>i ns n. case find (\<lambda>x. m_ns M x = ns \<and> m_name M x = n) i of
                  None \<Rightarrow> Inl (ErrKubeNotFound n) | Some x \<Rightarrow> Inr x)\<rparr>"

definition stored :: "'o meta \<Rightarrow> 'o list \<Rightarrow> string \<Rightarrow> kind \<Rightarrow> 'o list" where
  "stored M cluster ns k = filter (\<lambda>x. m_ns M x = ns) cluster"

lemma stored_laws: "client_laws (stored_lister M) M set"
  by (auto simp: client_laws_def stored_lister_def find_None_iff find_Some_iff in_set_conv_nth split: option.splits)

lemma stored_own: "own_namespace (stored M cluster) k M set"
  by (simp add: own_namespace_def stored_def)

interpretation scoped_history: scoped_reads "stored_lister M" "stored M cluster" k
  "history (stored M cluster) ops" M set for M cluster k ops
  by unfold_locales (rule stored_laws stored_own scoped_inv_history)+

section \<open>The factories follow the served set\<close>

text \<open>
  The process: the watched set of namespaces with the factories as its observer. An event is
  applied to the set and its report, if any, to the factories, in the order the watch delivers them.
\<close>

inductive process :: "(string \<Rightarrow> kind \<Rightarrow> 'i) \<Rightarrow> namespaces \<Rightarrow> ('i, 'h) scopedFactories \<Rightarrow> bool"
  for mk :: "string \<Rightarrow> kind \<Rightarrow> 'i" where
  observed: "process mk n (case OnChange n of None \<Rightarrow> NewScopedFactories | Some c \<Rightarrow> Track mk c NewScopedFactories)"
| added: "process mk n s \<Longrightarrow> ns_add obj n = (n', c) \<Longrightarrow>
    process mk n' (case c of None \<Rightarrow> s | Some c \<Rightarrow> Track mk c s)"
| removed: "process mk n s \<Longrightarrow> ns_remove obj n = (n', c) \<Longrightarrow>
    process mk n' (case c of None \<Rightarrow> s | Some c \<Rightarrow> Track mk c s)"
| started: "process mk n s \<Longrightarrow> process mk n (sc_Start s)"
| subscribed: "process mk n s \<Longrightarrow> process mk n (subscribe kd h s)"

lemma process_tracked: "process mk n s \<Longrightarrow> tracked s = {ns. Serves n ns}"
proof (induction rule: process.induct)
  case (observed n)
  have "ns_List n = [] \<Longrightarrow> {ns. Serves n ns} = {}"
    using set_ns_List [of n] by simp
  then show ?case
    by (auto simp: OnChange_def tracked_Track set_ns_List)
next
  case (added n s obj n' c)
  then show ?case
    using ns_add_change [of obj n] ns_add_quiet [of obj n]
    by (cases c) (auto simp: tracked_Track)
next
  case (removed n s obj n' c)
  then show ?case
    using ns_remove_change [of obj n] ns_remove_quiet [of obj n]
    by (cases c) (auto simp: tracked_Track)
qed simp_all

lemma process_inv: "process mk n s \<Longrightarrow> scoped_inv mk s"
  by (induction rule: process.induct)
    (auto split: option.splits intro: scoped_inv_New scoped_inv_Track scoped_inv_Start scoped_inv_subscribe)

section \<open>Properties\<close>

text \<open>
  C34. In every state the process reaches, factories exist for exactly the namespaces it serves;
  each reads its own namespace, runs once serving has begun, and carries every subscription of a
  known kind exactly once, whether it was made before or after the namespace appeared.
\<close>

theorem factories_follow_served:
  assumes "process mk n s"
  shows "tracked s = {ns. Serves n ns} \<and>
    (\<forall>ns f. DAList.lookup (s_factories s) ns = Some f \<longrightarrow>
       f_informers f = mk ns \<and> (s_ctx s \<longrightarrow> f_started f) \<and> f_registered f = known_handlers (s_handlers s))"
  using process_tracked [OF assms] process_inv [OF assms] unfolding scoped_inv_def by blast

definition sample_ns :: "kube_namespace event_obj" where
  "sample_ns = Plain \<lparr>ns_name = ''prod'', ns_labels = [(''tenant'', ''t1'')]\<rparr>"

definition sample_mk :: "string \<Rightarrow> kind \<Rightarrow> string" where
  "sample_mk ns k = obj_key ns (kind_name k)"

definition sample_scoped :: "(string, nat) scopedFactories" where
  "sample_scoped = Track sample_mk ([''prod''], []) (subscribe ''pods'' 7 (sc_Start NewScopedFactories))"

theorem factories_follow_served_witness:
  "tracked sample_scoped = {ns. Serves (fst (ns_add sample_ns (NewNamespaces ''tenant''))) ns} \<and>
   Serves (fst (ns_add sample_ns (NewNamespaces ''tenant''))) ''prod'' \<and>
   map_option f_registered (DAList.lookup (s_factories sample_scoped) ''prod'') = Some [(Pods, 7)]"
proof -
  let ?n = "NewNamespaces ''tenant''" and ?s = "NewScopedFactories :: (string, nat) scopedFactories"
  have "OnChange ?n = None" by code_simp
  with observed [of sample_mk ?n] have "process sample_mk ?n ?s" by simp
  from subscribed [OF started [OF this]]
  have "process sample_mk ?n (subscribe ''pods'' 7 (sc_Start ?s))" .
  moreover have add: "snd (ns_add sample_ns ?n) = Some ([''prod''], [])" by code_simp
  ultimately have "process sample_mk (fst (ns_add sample_ns ?n)) sample_scoped"
    using added [of sample_mk ?n "subscribe ''pods'' 7 (sc_Start ?s)" sample_ns "fst (ns_add sample_ns ?n)" "Some ([''prod''], [])"]
    unfolding sample_scoped_def by (metis (no_types, lifting) option.simps(5) prod.collapse)
  from factories_follow_served [OF this]
  have "tracked sample_scoped = {ns. Serves (fst (ns_add sample_ns ?n)) ns}" by (rule conjunct1)
  moreover have "Serves (fst (ns_add sample_ns ?n)) ''prod''"
    "map_option f_registered (DAList.lookup (s_factories sample_scoped) ''prod'') = Some [(Pods, 7)]"
    by code_simp+
  ultimately show ?thesis by blast
qed

text \<open>
  The readiness of the caches is latched: once \<open>HasSynced\<close> has answered yes it answers
  yes after any later change of the served namespaces, whatever their informers say.
\<close>

theorem HasSynced_latched:
  assumes "HasSynced syn s = (True, s')"
  shows "fst (HasSynced syn' (Track mk c s')) = True"
proof -
  from assms have "s_synced s'"
    by (auto simp: HasSynced_def split: if_splits)
  then show ?thesis by (simp add: HasSynced_def)
qed

theorem HasSynced_latched_witness:
  "fst (HasSynced (\<lambda>_. False) (Track sample_mk ([''late''], []) (snd (HasSynced (\<lambda>_. True) sample_scoped)))) = True"
proof -
  have "HasSynced (\<lambda>_. True) sample_scoped = (True, snd (HasSynced (\<lambda>_. True) sample_scoped))"
    by (simp add: HasSynced_def list_all_iff)
  from HasSynced_latched [OF this] show ?thesis .
qed

end
