(* ===== verification/Netpol_Reconciler.thy ===== *)
theory Netpol_Reconciler
  imports Neutron_Memory Vk_Scoped
begin

text \<open>
  \<^verbatim>\<open>pkg/netpol/reconciler.go\<close> and the reconciler's half of
  \<^verbatim>\<open>pkg/netpol/controller.go\<close>: which security groups a pod's port carries, and what
  the address groups of a policy hold. The informer caches are read through listers, which are
  fields of the reconciler; what it remembers between calls (the ids of the constant groups and
  of each policy's group) is a record of its own, threaded through the calls beside the world.
\<close>

section \<open>State\<close>

text \<open>A nil lister or function is \<open>None\<close>.\<close>

record 'w reconciler =
  r_neutron :: "'w neutron_api"
  r_labels :: labels_api
  r_sha :: "string \<Rightarrow> string"
  r_pods :: "pod lister"
  r_policies :: "network_policy lister option"
  r_namespaces :: "kube_namespace lister option"
  r_serves :: "string \<Rightarrow> bool"
  r_portOf :: "(pod \<Rightarrow> string) option"

record rec_state =
  b_ingress :: string
  b_egress :: string
  b_denyAll :: string
  ruleGroups :: "string \<rightharpoonup> string"

definition rec_init :: rec_state where
  "rec_init = \<lparr>b_ingress = [], b_egress = [], b_denyAll = [], ruleGroups = Map.empty\<rparr>"

definition rememberRuleGroup :: "string \<Rightarrow> string \<Rightarrow> rec_state \<Rightarrow> rec_state" where
  "rememberRuleGroup policyKey groupID s = s\<lparr>ruleGroups := (ruleGroups s)(policyKey \<mapsto> groupID)\<rparr>"

definition ForgetPolicy :: "string \<Rightarrow> rec_state \<Rightarrow> rec_state" where
  "ForgetPolicy policyKey s = s\<lparr>ruleGroups := (ruleGroups s)(policyKey := None)\<rparr>"

definition ruleGroupOf :: "rec_state \<Rightarrow> string \<Rightarrow> string option" where
  "ruleGroupOf s policyKey = ruleGroups s policyKey"

text \<open>A call on the service, beside a state that it does not touch; a change of that state.\<close>

definition on_world :: "('w, 'a) act \<Rightarrow> ('w \<times> 's, 'a) act" where
  "on_world m ws = (case ws of (w, s) \<Rightarrow> (case m w of (r, w') \<Rightarrow> (r, (w', s))))"

definition modify :: "('s \<Rightarrow> 's) \<Rightarrow> ('w \<times> 's, unit) act" where
  "modify f ws = (case ws of (w, s) \<Rightarrow> (Inr (), (w, f s)))"

definition EnsureBaselineIDs :: "'w reconciler \<Rightarrow> ('w \<times> rec_state, unit) act" where
  "EnsureBaselineIDs R =
     bind_a (on_world (EnsureBaseline (r_neutron R))) (\<lambda>(ingress, egress).
     bind_a (on_world (EnsureDenyAll (r_neutron R))) (\<lambda>denyAll.
     modify (\<lambda>s. s\<lparr>b_ingress := ingress, b_egress := egress, b_denyAll := denyAll\<rparr>)))"

section \<open>The groups of a port\<close>

definition policiesFor :: "'w reconciler \<Rightarrow> string \<Rightarrow> network_policy list result" where
  "policiesFor R namespace =
     (case r_policies R of None \<Rightarrow> Inr [] | Some l \<Rightarrow> l_In l namespace (everything (r_labels R)))"

fun policyGroupsFor :: "labels_api \<Rightarrow> rec_state \<Rightarrow> pod \<Rightarrow> network_policy list \<Rightarrow> string list result" where
  "policyGroupsFor L s pd [] = Inr []"
| "policyGroupsFor L s pd (p # ps) =
     (case Translate L p of
        Inl e \<Rightarrow> Inl e
      | Inr t \<Rightarrow>
          if \<not> sel_matches (tr_subject t) (pod_labels pd) then policyGroupsFor L s pd ps
          else if rs_empty (PolicyRules t) then policyGroupsFor L s pd ps
          else case ruleGroupOf s (obj_key (np_namespace p) (np_name p)) of
            None \<Rightarrow> Inl (ErrPolicyPending (obj_key (np_namespace p) (np_name p)))
          | Some gid \<Rightarrow>
              bind_r (policyGroupsFor L s pd ps) (\<lambda>out. Inr ((if gid \<noteq> [] then [gid] else []) @ out)))"

definition GroupsFor :: "'w reconciler \<Rightarrow> rec_state \<Rightarrow> pod \<Rightarrow> string list result" where
  "GroupsFor R s pd =
     (if b_ingress s = [] \<or> b_egress s = [] \<or> b_denyAll s = [] then
        Inl (ErrText ''the baseline security groups have not been resolved yet'')
      else
        bind_r (policiesFor R (pod_namespace pd)) (\<lambda>policies.
        bind_r (IsolationOf (r_labels R) pd policies) (\<lambda>isolated.
          if isolated Ingress = None \<and> isolated Egress = None then
            Inr [b_denyAll s, b_ingress s, b_egress s]
          else
            (let groups = [b_denyAll s]
                 @ (if isolated Ingress = None \<or> isolated Ingress = Some [] then [b_ingress s] else [])
                 @ (if isolated Egress = None \<or> isolated Egress = Some [] then [b_egress s] else [])
             in bind_r (policyGroupsFor (r_labels R) s pd policies) (\<lambda>allowed.
                  Inr (sort (groups @ allowed)))))))"

section \<open>The addresses of a peer set\<close>

definition namespacesMatching :: "'w reconciler \<Rightarrow> peer_selector \<Rightarrow> string list result" where
  "namespacesMatching R sel =
     (if psel_namespace sel \<noteq> [] then
        (if \<not> r_serves R (psel_namespace sel) then Inr [] else Inr [psel_namespace sel])
      else case r_namespaces R of
        None \<Rightarrow> Inr []
      | Some lst \<Rightarrow>
          bind_r (l_List lst (case psel_namespaces sel of None \<Rightarrow> everything (r_labels R) | Some m \<Rightarrow> m)) (\<lambda>ns.
            Inr (sort (filter (r_serves R) (map ns_name ns)))))"

fun addressLoop :: "'w reconciler \<Rightarrow> selector option \<Rightarrow> string list \<Rightarrow> string list result" where
  "addressLoop R sel [] = Inr []"
| "addressLoop R sel (ns # nss) =
     (case sel of
        None \<Rightarrow> Inl (ErrPanic ''nil selector'')
      | Some m \<Rightarrow>
          bind_r (l_In (r_pods R) ns m) (\<lambda>pods.
          bind_r (addressLoop R sel nss) (\<lambda>out.
            Inr (filter (\<lambda>a. a \<noteq> []) (map pod_ip pods) @ out))))"

definition AddressesFor :: "'w reconciler \<Rightarrow> peer_selector \<Rightarrow> string list result" where
  "AddressesFor R sel =
     bind_r (namespacesMatching R sel) (\<lambda>namespaces.
     bind_r (addressLoop R (psel_pods sel) namespaces) (\<lambda>out. Inr (sort out)))"

section \<open>The policy worker\<close>

text \<open>
  The text \<^verbatim>\<open>ReportRefusals\<close> logs, if any; logging has no other effect.
\<close>

definition ReportRefusals :: "refusal list \<Rightarrow> string option" where
  "ReportRefusals refused =
     (if refused = [] then None
      else Some (''parts of this NetworkPolicy are not enforced: '' @ RefusalMessage refused))"

definition syncPeer :: "'w reconciler \<Rightarrow> ruleset \<Rightarrow> (string \<times> string) list \<Rightarrow> string \<Rightarrow> ('w, (string \<times> string) list) act" where
  "syncPeer R rset peers key =
     bind_a (EnsureAddressGroup (r_neutron R) (AddressGroupName (r_sha R) key)) (\<lambda>gid.
     bind_a (lift_r (AddressesFor R (case map_of (rs_peers rset) key of None \<Rightarrow> zero_psel | Some sel \<Rightarrow> sel))) (\<lambda>addresses.
     bind_a (SyncAddresses (r_neutron R) gid addresses) (\<lambda>_.
     ret (AList.update key gid peers))))"

definition SyncPolicyPeers :: "'w reconciler \<Rightarrow> network_policy \<Rightarrow> ('w \<times> rec_state, unit) act" where
  "SyncPolicyPeers R p =
     bind_a (lift_r (Translate (r_labels R) p)) (\<lambda>t.
     let rset = PolicyRules t; key = obj_key (np_namespace p) (np_name p) in
     bind_a (on_world (fold_act (syncPeer R rset) [] (sorted_keys (map fst (rs_peers rset))))) (\<lambda>peers.
     if rs_empty rset then modify (rememberRuleGroup key [])
     else
       bind_a (on_world (EnsureRuleSet (r_neutron R) (GroupNameFor (r_sha R) (np_namespace p) (np_name p)) key rset peers)) (\<lambda>gid.
       modify (rememberRuleGroup key gid))))"

section \<open>The pod worker\<close>

text \<open>A slice of strings compared item by item.\<close>

fun equalStrings :: "string list \<Rightarrow> string list \<Rightarrow> bool" where
  "equalStrings [] [] = True"
| "equalStrings (a # as) (b # bs) = (a = b \<and> equalStrings as bs)"
| "equalStrings _ _ = False"

definition alignPort :: "'w reconciler \<Rightarrow> string \<Rightarrow> string list \<Rightarrow> ('w, unit) act" where
  "alignPort R portID want =
     bind_a (wrap_err (''reading port '' @ portID) (ports_Get (r_neutron R) portID)) (\<lambda>current.
       if equalStrings (sort current) want then ret ()
       else wrap_err (''updating the groups on port '' @ portID) (ports_Update (r_neutron R) portID want))"

definition ReconcilePod :: "'w reconciler \<Rightarrow> rec_state \<Rightarrow> string \<Rightarrow> ('w, unit) act" where
  "ReconcilePod R s key =
     (case split_key key of
        Inl e \<Rightarrow> fail e
      | Inr (namespace, name) \<Rightarrow>
          if \<not> r_serves R namespace then ret ()
          else case l_Get (r_pods R) namespace name of
            Inl _ \<Rightarrow> ret ()
          | Inr pd \<Rightarrow>
              if pod_deleting pd then ret ()
              else
                (let portID = (case r_portOf R of None \<Rightarrow> [] | Some f \<Rightarrow> f pd) in
                 if portID = [] then ret ()
                 else bind_a (lift_r (GroupsFor R s pd)) (\<lambda>want. alignPort R portID want)))"

section \<open>Which policies count, and what a port admits\<close>

text \<open>
  A policy selects the pods of its namespace whose labels its subject matches. What Kubernetes
  documents of a pod's traffic: a direction no selecting policy isolates is open, any other one
  admits what some selecting policy allows.
\<close>

definition np_selects :: "labels_api \<Rightarrow> network_policy \<Rightarrow> pod \<Rightarrow> bool" where
  "np_selects L p pd = (np_namespace p = pod_namespace pd \<and> sel_selects L (np_subject p) (pod_labels pd))"

definition isolated_by :: "labels_api \<Rightarrow> network_policy list \<Rightarrow> pod \<Rightarrow> direction \<Rightarrow> bool" where
  "isolated_by L ps pd d = list_ex (\<lambda>p. np_selects L p pd \<and> np_isolates p d) ps"

definition kube_allows :: "labels_api \<Rightarrow> netenv \<Rightarrow> network_policy list \<Rightarrow> pod \<Rightarrow> packet \<Rightarrow> bool" where
  "kube_allows L E ps pd k =
     (\<not> isolated_by L ps pd (pkt_dir k) \<or> list_ex (\<lambda>p. np_selects L p pd \<and> policy_asks L E p k) ps)"

text \<open>
  A port admits what one of its groups admits; \<open>content g\<close> is what group \<open>g\<close> admits. The
  groups hold what they should: the constant groups as \<open>EnsureBaseline\<close> leaves them, and a
  remembered group the rules of its policy, as the policy worker writes them; a policy with no
  rules is remembered as the empty id.
\<close>

definition port_admits :: "(string \<Rightarrow> packet \<Rightarrow> bool) \<Rightarrow> string list \<Rightarrow> packet \<Rightarrow> bool" where
  "port_admits content groups k = list_ex (\<lambda>g. content g k) groups"

definition groups_hold ::
  "labels_api \<Rightarrow> netenv \<Rightarrow> rec_state \<Rightarrow> network_policy list \<Rightarrow> (string \<Rightarrow> packet \<Rightarrow> bool) \<Rightarrow> bool" where
  "groups_hold L E s ps content \<longleftrightarrow>
     (\<forall>k. \<not> content (b_denyAll s) k \<and> content (b_ingress s) k = (pkt_dir k = Ingress) \<and>
        content (b_egress s) k = (pkt_dir k = Egress)) \<and>
     (\<forall>p t gid. p \<in> set ps \<longrightarrow> Translate L p = Inr t \<longrightarrow> ruleGroups s (obj_key (np_namespace p) (np_name p)) = Some gid \<longrightarrow>
        (if gid = [] then rs_empty (PolicyRules t) else \<forall>k. content gid k = rs_admits E (PolicyRules t) k))"

section \<open>Lemmas on the groups of a port\<close>

lemma np_selects_iff:
  assumes "Translate L p = Inr t" and "np_namespace p = pod_namespace pd"
  shows "np_selects L p pd \<longleftrightarrow> sel_matches (tr_subject t) (pod_labels pd)"
  using assms Translate_subject [OF assms(1)] by (simp add: np_selects_def sel_selects_def)

lemma add_isolation_dom [simp]: "add_isolation by d n e = None \<longleftrightarrow> by e = None \<and> d \<noteq> e"
  by (simp add: add_isolation_def)

lemma add_isolation_nonempty: "by e \<noteq> Some [] \<Longrightarrow> add_isolation by d n e \<noteq> Some []"
  by (simp add: add_isolation_def)

lemma IsolationLoop_dom:
  assumes "IsolationLoop L pd ps by = Inr out" and "\<forall>d. by d \<noteq> Some []"
  shows "(\<forall>d. out d \<noteq> Some []) \<and> (out d = None \<longleftrightarrow> by d = None \<and> \<not> isolated_by L ps pd d)"
  using assms
proof (induction ps arbitrary: "by")
  case (Cons p ps)
  show ?case
  proof (cases "np_namespace p = pod_namespace pd")
    case False
    with Cons show ?thesis by (simp add: isolated_by_def np_selects_def)
  next
    case True
    with Cons.prems(1) obtain t where t: "Translate L p = Inr t"
      by (auto split: sum.splits)
    let ?by1 = "if tr_isolates t Ingress then add_isolation by Ingress (np_name p) else by"
    let ?by2 = "if tr_isolates t Egress then add_isolation ?by1 Egress (np_name p) else ?by1"
    show ?thesis
    proof (cases "sel_matches (tr_subject t) (pod_labels pd)")
      case False
      with Cons True t np_selects_iff [OF t True] show ?thesis by (simp add: isolated_by_def)
    next
      case sel: True
      with Cons.prems(1) True t have "IsolationLoop L pd ps ?by2 = Inr out" by (simp add: Let_def)
      moreover have "\<forall>d. ?by2 d \<noteq> Some []"
        using Cons.prems(2) by (auto simp: add_isolation_nonempty)
      ultimately have IH: "(\<forall>d. out d \<noteq> Some []) \<and> (out d = None \<longleftrightarrow> ?by2 d = None \<and> \<not> isolated_by L ps pd d)"
        by (rule Cons.IH)
      moreover have "?by2 d = None \<longleftrightarrow> by d = None \<and> \<not> np_isolates p d"
        using Translate_isolates [OF t] by (cases d) auto
      ultimately show ?thesis
        using sel np_selects_iff [OF t True] by (auto simp: isolated_by_def)
    qed
  qed
qed (simp add: isolated_by_def)

lemma IsolationOf_dom:
  assumes "IsolationOf L pd ps = Inr dirs"
  shows "dirs d \<noteq> Some []" and "dirs d = None \<longleftrightarrow> \<not> isolated_by L ps pd d"
proof -
  from assms obtain out where out: "IsolationLoop L pd ps Map.empty = Inr out" and dirs: "dirs = (\<lambda>d. map_option sort (out d))"
    by (auto simp: IsolationOf_def bind_r_Inr_iff)
  from IsolationLoop_dom [OF out, of d] show "dirs d = None \<longleftrightarrow> \<not> isolated_by L ps pd d"
    by (simp add: dirs)
  from IsolationLoop_dom [OF out, of d] show "dirs d \<noteq> Some []"
    by (cases "out d") (auto simp: dirs dest: arg_cong [where f = length])
qed

lemma policyGroupsFor_set:
  assumes "policyGroupsFor L s pd ps = Inr out" and "\<forall>p \<in> set ps. np_namespace p = pod_namespace pd"
  shows "set out = {gid. gid \<noteq> [] \<and> (\<exists>p \<in> set ps. \<exists>t. Translate L p = Inr t \<and> np_selects L p pd \<and>
      \<not> rs_empty (PolicyRules t) \<and> ruleGroups s (obj_key (np_namespace p) (np_name p)) = Some gid)}"
    and "p \<in> set ps \<Longrightarrow> \<exists>t. Translate L p = Inr t \<and> (np_selects L p pd \<longrightarrow> \<not> rs_empty (PolicyRules t) \<longrightarrow>
      ruleGroups s (obj_key (np_namespace p) (np_name p)) \<noteq> None)"
  using assms
proof (induction ps arbitrary: out)
  case (Cons q ps)
  case 1
  then obtain t where t: "Translate L q = Inr t" by (auto split: sum.splits)
  from 1 t np_selects_iff [OF t] show ?case
    using Cons.IH(1)
    by (auto simp: bind_r_Inr_iff ruleGroupOf_def split: if_splits option.splits) blast
next
  case (Cons q ps)
  case 2
  then obtain t where t: "Translate L q = Inr t" by (auto split: sum.splits)
  from 2 t np_selects_iff [OF t] show ?case
    using Cons.IH(2)
    by (auto simp: bind_r_Inr_iff ruleGroupOf_def split: if_splits option.splits)
qed simp_all

lemma GroupsFor_cases:
  assumes "GroupsFor R s pd = Inr gs"
  obtains ps dirs where "policiesFor R (pod_namespace pd) = Inr ps" "IsolationOf (r_labels R) pd ps = Inr dirs"
    "dirs Ingress = None" "dirs Egress = None" "gs = [b_denyAll s, b_ingress s, b_egress s]"
  | ps dirs allowed where "policiesFor R (pod_namespace pd) = Inr ps" "IsolationOf (r_labels R) pd ps = Inr dirs"
    "dirs Ingress \<noteq> None \<or> dirs Egress \<noteq> None" "policyGroupsFor (r_labels R) s pd ps = Inr allowed"
    "gs = sort ([b_denyAll s] @ (if dirs Ingress = None then [b_ingress s] else [])
       @ (if dirs Egress = None then [b_egress s] else []) @ allowed)"
proof -
  from assms obtain ps dirs where ps: "policiesFor R (pod_namespace pd) = Inr ps"
      and dirs: "IsolationOf (r_labels R) pd ps = Inr dirs"
    by (auto simp: GroupsFor_def bind_r_Inr_iff split: if_splits)
  show thesis
  proof (cases "dirs Ingress = None \<and> dirs Egress = None")
    case True
    with assms ps dirs that(1) show thesis by (auto simp: GroupsFor_def split: if_splits)
  next
    case False
    with assms ps dirs IsolationOf_dom(1) [OF dirs] obtain allowed
      where "policyGroupsFor (r_labels R) s pd ps = Inr allowed"
        "gs = sort ([b_denyAll s] @ (if dirs Ingress = None then [b_ingress s] else [])
       @ (if dirs Egress = None then [b_egress s] else []) @ allowed)"
      by (auto simp: GroupsFor_def bind_r_Inr_iff Let_def split: if_splits)
    with ps dirs False that(2) show thesis by blast
  qed
qed

lemma GroupsFor_set:
  assumes "GroupsFor R s pd = Inr gs" and "policiesFor R (pod_namespace pd) = Inr ps"
    and "\<forall>p \<in> set ps. np_namespace p = pod_namespace pd"
  shows "set gs = {b_denyAll s} \<union> (if isolated_by (r_labels R) ps pd Ingress then {} else {b_ingress s})
      \<union> (if isolated_by (r_labels R) ps pd Egress then {} else {b_egress s})
      \<union> {gid. gid \<noteq> [] \<and> (\<exists>d. isolated_by (r_labels R) ps pd d) \<and>
          (\<exists>p \<in> set ps. \<exists>t. Translate (r_labels R) p = Inr t \<and> np_selects (r_labels R) p pd \<and>
            \<not> rs_empty (PolicyRules t) \<and> ruleGroups s (obj_key (np_namespace p) (np_name p)) = Some gid)}"
  using assms(1)
proof (cases rule: GroupsFor_cases)
  case (1 ps' dirs)
  with assms(2) IsolationOf_dom(2) have iso: "\<not> isolated_by (r_labels R) ps pd d" for d
    by (cases d) auto
  with 1 show ?thesis by auto
next
  case (2 ps' dirs allowed)
  with assms(2) have ps: "ps' = ps" by simp
  have ex: "\<exists>d. isolated_by (r_labels R) ps pd d"
    using 2(3) IsolationOf_dom(2) [OF 2(2)] unfolding ps by metis
  have "set gs = {b_denyAll s} \<union> (if isolated_by (r_labels R) ps pd Ingress then {} else {b_ingress s})
      \<union> (if isolated_by (r_labels R) ps pd Egress then {} else {b_egress s}) \<union> set allowed"
    using IsolationOf_dom(2) [OF 2(2), of Ingress] IsolationOf_dom(2) [OF 2(2), of Egress]
    unfolding 2(5) ps set_sort by auto
  moreover have "set allowed = {gid. gid \<noteq> [] \<and> (\<exists>p \<in> set ps. \<exists>t. Translate (r_labels R) p = Inr t \<and>
      np_selects (r_labels R) p pd \<and> \<not> rs_empty (PolicyRules t) \<and>
      ruleGroups s (obj_key (np_namespace p) (np_name p)) = Some gid)}"
    using policyGroupsFor_set(1) [OF 2(4)] assms(3) unfolding ps by blast
  ultimately show ?thesis using ex by simp
qed

lemma PolicyRules_empty_admits: "rs_empty (PolicyRules t) \<Longrightarrow> \<not> rs_admits E (PolicyRules t) k"
  by (simp add: rs_empty_def rs_admits_def)

lemma PolicyRules_direction:
  assumes "rs_admits E (PolicyRules t) k" shows "tr_isolates t (pkt_dir k)"
proof -
  from assms obtain q where q: "q \<in> set (rs_rules (PolicyRules t))" "sg_direction q = pkt_dir k"
    by (auto simp: rs_admits_def list_ex_iff sg_admits_def)
  from q(1) obtain r pe po family where "r \<in> set (filter (\<lambda>r. tr_isolates t (rule_direction r)) (tr_rules t))"
      "q = sgrule_for r pe po family"
    unfolding PolicyRules_def by (rule Expand_rules_subset)
  with q(2) show ?thesis by (auto simp: sgrule_for_def)
qed

text \<open>What a port with the computed groups admits: an open direction, or the rules of a selecting policy.\<close>

lemma GroupsFor_admits:
  assumes "GroupsFor R s pd = Inr gs" and "policiesFor R (pod_namespace pd) = Inr ps"
    and "\<forall>p \<in> set ps. np_namespace p = pod_namespace pd" and "groups_hold (r_labels R) E s ps content"
  shows "port_admits content gs k \<longleftrightarrow> \<not> isolated_by (r_labels R) ps pd (pkt_dir k) \<or>
    (\<exists>p \<in> set ps. \<exists>t. Translate (r_labels R) p = Inr t \<and> np_selects (r_labels R) p pd \<and> rs_admits E (PolicyRules t) k)"
    (is "_ \<longleftrightarrow> ?open \<or> ?rules")
proof -
  let ?L = "r_labels R"
  let ?key = "\<lambda>p. obj_key (np_namespace p) (np_name p)"
  have hold: "\<not> content (b_denyAll s) k" "content (b_ingress s) k = (pkt_dir k = Ingress)"
      "content (b_egress s) k = (pkt_dir k = Egress)"
    using assms(4) by (simp_all add: groups_hold_def)
  have pol: "if gid = [] then rs_empty (PolicyRules t) else content gid k = rs_admits E (PolicyRules t) k"
    if "p \<in> set ps" "Translate ?L p = Inr t" "ruleGroups s (?key p) = Some gid" for p t gid
    using assms(4) that unfolding groups_hold_def by (smt (verit))
  have iso: "isolated_by ?L ps pd (pkt_dir k)"
    if "p \<in> set ps" "Translate ?L p = Inr t" "np_selects ?L p pd" "rs_admits E (PolicyRules t) k" for p t
    using that PolicyRules_direction Translate_isolates by (fastforce simp: isolated_by_def list_ex_iff)
  show ?thesis
  proof
    assume "port_admits content gs k"
    then obtain g where g: "g \<in> set gs" "content g k" by (auto simp: port_admits_def list_ex_iff)
    from g(1) consider "g = b_denyAll s" | "g = b_ingress s" "\<not> isolated_by ?L ps pd Ingress"
      | "g = b_egress s" "\<not> isolated_by ?L ps pd Egress"
      | p t where "g \<noteq> []" "p \<in> set ps" "Translate ?L p = Inr t" "np_selects ?L p pd" "ruleGroups s (?key p) = Some g"
      unfolding GroupsFor_set [OF assms(1-3)] by (auto split: if_splits)
    then show "?open \<or> ?rules"
    proof cases
      case (4 p t)
      with pol [OF 4(2,3,5)] g(2) show ?thesis by auto
    qed (use g(2) hold in simp_all)
  next
    assume "?open \<or> ?rules"
    then show "port_admits content gs k"
    proof
      assume ?open
      then show ?thesis
        using hold unfolding port_admits_def list_ex_iff GroupsFor_set [OF assms(1-3)] by (cases "pkt_dir k") auto
    next
      assume ?rules
      then obtain p t where p: "p \<in> set ps" "Translate ?L p = Inr t" "np_selects ?L p pd" "rs_admits E (PolicyRules t) k"
        by blast
      then have ne: "\<not> rs_empty (PolicyRules t)" using PolicyRules_empty_admits by blast
      obtain allowed where "policyGroupsFor ?L s pd ps = Inr allowed"
        using assms(1)
      proof (cases rule: GroupsFor_cases)
        case (1 ps' dirs)
        with assms(2) iso [OF p] IsolationOf_dom(2) [OF 1(2), of "pkt_dir k"] have False
          by (cases "pkt_dir k") auto
        then show thesis ..
      qed (use assms(2) that in auto)
      from policyGroupsFor_set(2) [OF this assms(3) p(1)] p ne obtain gid where gid: "ruleGroups s (?key p) = Some gid"
        by auto
      with pol [OF p(1,2)] ne p(4) have "gid \<noteq> []" "content gid k" by (auto split: if_splits)
      with iso [OF p] p gid ne show ?thesis
        unfolding port_admits_def list_ex_iff GroupsFor_set [OF assms(1-3)] by blast
    qed
  qed
qed

section \<open>Lemmas on peer sets and ports\<close>

lemma namespacesMatching_served: "namespacesMatching R sel = Inr nss \<Longrightarrow> list_all (r_serves R) nss"
  by (auto simp: namespacesMatching_def bind_r_Inr_iff list_all_iff split: if_splits option.splits)

lemma addressLoop_set:
  assumes "addressLoop R sel nss = Inr out"
  shows "set out = {a. a \<noteq> [] \<and> (\<exists>ns \<in> set nss. \<exists>m pods. sel = Some m \<and> l_In (r_pods R) ns m = Inr pods \<and> a \<in> pod_ip ` set pods)}"
  using assms by (induction nss arbitrary: out) (force simp: bind_r_Inr_iff split: option.splits)+

lemma addressLoop_reads:
  "addressLoop R sel nss = Inr out \<Longrightarrow> ns \<in> set nss \<Longrightarrow> \<exists>m pods. sel = Some m \<and> l_In (r_pods R) ns m = Inr pods"
  by (induction nss arbitrary: out) (auto simp: bind_r_Inr_iff split: option.splits)

lemma equalStrings_iff [simp]: "equalStrings as bs \<longleftrightarrow> as = bs"
  by (induction as bs rule: equalStrings.induct) auto

text \<open>
  What the code relies on of the service's ports: \<open>P w i\<close> is the groups of port \<open>i\<close>; a read
  changes nothing, an update replaces the whole list of the port it names.
\<close>

definition port_laws :: "'w neutron_api \<Rightarrow> ('w \<Rightarrow> string \<Rightarrow> string list) \<Rightarrow> bool" where
  "port_laws N P \<longleftrightarrow>
     (\<forall>i w r w'. ports_Get N i w = (r, w') \<longrightarrow> P w' = P w \<and> (\<forall>gs. r = Inr gs \<longrightarrow> gs = P w i)) \<and>
     (\<forall>i gs w w'. ports_Update N i gs w = (Inr (), w') \<longrightarrow> P w' = (P w)(i := gs)) \<and>
     (\<forall>i gs w e w'. ports_Update N i gs w = (Inl e, w') \<longrightarrow> (\<forall>j. j \<noteq> i \<longrightarrow> P w' j = P w j))"

lemma port_lawsD:
  assumes "port_laws N P"
  shows "ports_Get N i w = (r, w') \<Longrightarrow> P w' = P w"
    and "ports_Get N i w = (Inr gs, w') \<Longrightarrow> gs = P w i"
    and "ports_Update N i gs w = (Inr u, w') \<Longrightarrow> P w' = (P w)(i := gs)"
    and "ports_Update N i gs w = (Inl e, w') \<Longrightarrow> j \<noteq> i \<Longrightarrow> P w' j = P w j"
  using assms unfolding port_laws_def by auto

lemma alignPort_effect:
  assumes "port_laws (r_neutron R) P" and "alignPort R i want w = (Inr (), w')"
  shows "P w' = (P w)(i := P w' i) \<and> (P w' i = want \<or> sort (P w' i) = want)"
proof -
  from assms(2) obtain current v where get: "ports_Get (r_neutron R) i w = (Inr current, v)"
      and rest: "sort current = want \<and> w' = v \<or> ports_Update (r_neutron R) i want v = (Inr (), w')"
    by (auto simp: alignPort_def act_simps split: if_splits)
  note g = port_lawsD(1,2) [OF assms(1) get]
  from rest show ?thesis
  proof
    assume "sort current = want \<and> w' = v"
    with g show ?thesis by simp
  next
    assume "ports_Update (r_neutron R) i want v = (Inr (), w')"
    from port_lawsD(3) [OF assms(1) this] g show ?thesis by simp
  qed
qed

lemma alignPort_frame:
  assumes "port_laws (r_neutron R) P" and "alignPort R i want w = (r, w')" and "j \<noteq> i"
  shows "P w' j = P w j"
  using assms(2,3) port_lawsD [OF assms(1)]
  by (auto simp: alignPort_def bind_a_def wrap_err_def ret_def split: prod.splits sum.splits if_splits)

text \<open>A pod the worker acts on: of a served namespace, in the cache, not being deleted, with a port.\<close>

definition live_pod :: "'w reconciler \<Rightarrow> string \<Rightarrow> pod \<Rightarrow> string \<Rightarrow> bool" where
  "live_pod R key pd portID \<longleftrightarrow>
     (\<exists>ns n. split_key key = Inr (ns, n) \<and> r_serves R ns \<and> l_Get (r_pods R) ns n = Inr pd) \<and>
     \<not> pod_deleting pd \<and> (\<exists>f. r_portOf R = Some f \<and> f pd = portID) \<and> portID \<noteq> []"

lemma ReconcilePod_live:
  "live_pod R key pd i \<Longrightarrow> ReconcilePod R s key w =
     (case GroupsFor R s pd of Inl e \<Rightarrow> (Inl e, w) | Inr want \<Rightarrow> alignPort R i want w)"
  by (auto simp: live_pod_def ReconcilePod_def bind_a_def lift_r_def Let_def split: sum.splits)

lemma on_world_Inr_iff [act_simps]: "on_world m (w, s) = (r, (w', s')) \<longleftrightarrow> m w = (r, w') \<and> s' = s"
  by (auto simp: on_world_def split: prod.splits)

lemma modify_iff [act_simps]: "modify f (w, s) = (r, (w', s')) \<longleftrightarrow> r = Inr () \<and> w' = w \<and> s' = f s"
  by (auto simp: modify_def)

lemma on_world_state: "on_world m (w, s) = (r, (w', s')) \<Longrightarrow> s' = s"
  by (simp add: on_world_Inr_iff)

lemma bind_a_Inl_iff [act_simps]:
  "bind_a m f w = (Inl e, w') \<longleftrightarrow> m w = (Inl e, w') \<or> (\<exists>x v. m w = (Inr x, v) \<and> f x v = (Inl e, w'))"
  by (auto simp: bind_a_def split: prod.splits sum.splits)

lemma SyncPolicyPeers_fails:
  assumes "SyncPolicyPeers R p (w, s) = (Inl e, (w', s'))" shows "s' = s"
  using assms
  by (auto simp: SyncPolicyPeers_def Let_def act_simps split: if_splits)

lemma SyncPolicyPeers_succeeds:
  assumes "SyncPolicyPeers R p (w, s) = (Inr u, (w', s'))"
  obtains t peers where "Translate (r_labels R) p = Inr t" "rs_empty (PolicyRules t)"
    "fold_act (syncPeer R (PolicyRules t)) [] (sorted_keys (map fst (rs_peers (PolicyRules t)))) w = (Inr peers, w')"
    "s' = rememberRuleGroup (obj_key (np_namespace p) (np_name p)) [] s"
  | t peers v gid where "Translate (r_labels R) p = Inr t" "\<not> rs_empty (PolicyRules t)"
    "fold_act (syncPeer R (PolicyRules t)) [] (sorted_keys (map fst (rs_peers (PolicyRules t)))) w = (Inr peers, v)"
    "EnsureRuleSet (r_neutron R) (GroupNameFor (r_sha R) (np_namespace p) (np_name p))
       (obj_key (np_namespace p) (np_name p)) (PolicyRules t) peers v = (Inr gid, w')"
    "s' = rememberRuleGroup (obj_key (np_namespace p) (np_name p)) gid s"
proof -
  let ?key = "obj_key (np_namespace p) (np_name p)"
  from assms obtain t peers v where t: "Translate (r_labels R) p = Inr t"
    and loop: "fold_act (syncPeer R (PolicyRules t)) [] (sorted_keys (map fst (rs_peers (PolicyRules t)))) w = (Inr peers, v)"
    and rest: "(if rs_empty (PolicyRules t) then modify (rememberRuleGroup ?key []) else
      bind_a (on_world (EnsureRuleSet (r_neutron R) (GroupNameFor (r_sha R) (np_namespace p) (np_name p)) ?key (PolicyRules t) peers))
        (\<lambda>gid. modify (rememberRuleGroup ?key gid))) (v, s) = (Inr u, (w', s'))"
    unfolding SyncPolicyPeers_def Let_def
    by (auto simp only: bind_a_Inr_iff lift_r_def on_world_Inr_iff split_paired_Ex prod.inject)
  show thesis
  proof (cases "rs_empty (PolicyRules t)")
    case True
    with rest loop that(1) [OF t True] show thesis by (simp add: act_simps)
  next
    case False
    with rest obtain gid where "EnsureRuleSet (r_neutron R) (GroupNameFor (r_sha R) (np_namespace p) (np_name p)) ?key
        (PolicyRules t) peers v = (Inr gid, w')" "s' = rememberRuleGroup ?key gid s"
      by (auto simp: act_simps)
    with that(2) [OF t False loop] show thesis .
  qed
qed

text \<open>The namespaces a peer selector names: its own one, or those whose labels match.\<close>

definition psel_names :: "labels_api \<Rightarrow> kube_namespace set \<Rightarrow> peer_selector \<Rightarrow> string \<Rightarrow> bool" where
  "psel_names L nss sel ns \<longleftrightarrow>
     (if psel_namespace sel \<noteq> [] then ns = psel_namespace sel
      else \<exists>n \<in> nss. ns_name n = ns \<and>
        sel_matches (case psel_namespaces sel of None \<Rightarrow> everything L | Some m \<Rightarrow> m) (ns_labels n))"

definition namespace_cache :: "'w reconciler \<Rightarrow> kube_namespace set \<Rightarrow> bool" where
  "namespace_cache R nss \<longleftrightarrow>
     (case r_namespaces R of None \<Rightarrow> nss = {} | Some nl \<Rightarrow> lister_contract nl namespace_meta nss)"

lemma namespacesMatching_set:
  assumes "namespacesMatching R sel = Inr out" and "namespace_cache R nss"
  shows "set out = {ns. r_serves R ns \<and> psel_names (r_labels R) nss sel ns}"
proof (cases "psel_namespace sel = [] \<and> r_namespaces R \<noteq> None")
  case True
  then obtain nl where nl: "r_namespaces R = Some nl" "psel_namespace sel = []" by blast
  with assms(1) obtain xs where xs:
      "l_List nl (case psel_namespaces sel of None \<Rightarrow> everything (r_labels R) | Some m \<Rightarrow> m) = Inr xs"
      "out = sort (filter (r_serves R) (map ns_name xs))"
    by (auto simp: namespacesMatching_def bind_r_Inr_iff)
  from nl assms(2) have "lister_contract nl namespace_meta nss" by (simp add: namespace_cache_def)
  from lister_contract.list_ok [OF this xs(1)] show ?thesis
    by (auto simp: xs(2) psel_names_def nl(2))
next
  case False
  with assms show ?thesis
    by (auto simp: namespacesMatching_def psel_names_def namespace_cache_def split: if_splits)
qed

section \<open>A small cluster to apply the theorems at\<close>

definition sample_pod :: pod where
  "sample_pod =
     \<lparr>pod_namespace = ''prod'', pod_name = ''web-1'', pod_uid = ''u1'', pod_labels = [(''app'', ''web'')],
      pod_deleting = False, pod_containers = [], pod_phase = ''Running'', pod_reason = [], pod_ip = ''10.0.0.5'',
      pod_ips = [''10.0.0.5''], pod_hostIP = [], pod_start = None, pod_conditions = [], pod_statuses = []\<rparr>"

definition sample_pods :: "pod list" where
  "sample_pods = [sample_pod, sample_pod\<lparr>pod_name := ''web-2'', pod_ip := []\<rparr>,
     sample_pod\<lparr>pod_name := ''other'', pod_namespace := ''staging'', pod_ip := ''10.0.0.7''\<rparr>]"

definition cache_of :: "'o meta \<Rightarrow> 'o list \<Rightarrow> ('o list, unit) scopedFactories" where
  "cache_of M xs = history (stored M xs) [OpTrack ([''prod'', ''staging''], []), OpStart]"

definition sample_rec :: "mem reconciler" where
  "sample_rec =
     \<lparr>r_neutron = mem_api False, r_labels = sample_labels, r_sha = (\<lambda>x. x),
      r_pods = PodLister (stored_lister pod_meta) (cache_of pod_meta sample_pods),
      r_policies = Some (NetworkPolicyLister (stored_lister policy_meta) (cache_of policy_meta [sample_policy])),
      r_namespaces = None, r_serves = (\<lambda>ns. ns = ''prod''), r_portOf = Some (\<lambda>pd. ''port-'' @ pod_name pd)\<rparr>"

definition sample_state :: rec_state where
  "sample_state = \<lparr>b_ingress = ''i'', b_egress = ''e'', b_denyAll = ''d'',
     ruleGroups = Map.empty(''prod/web'' \<mapsto> ''g9'')\<rparr>"

definition sample_content :: "string \<Rightarrow> packet \<Rightarrow> bool" where
  "sample_content g k =
     (if g = ''i'' then pkt_dir k = Ingress else if g = ''e'' then pkt_dir k = Egress
      else if g = ''g9'' then rs_admits sample_env (PolicyRules (projr (Translate sample_labels sample_policy))) k
      else False)"

lemma cache_contract:
  "lister_contract (scopedLister (stored_lister M) k res (cache_of M xs)) M (visible (stored M xs) k set (cache_of M xs))"
  unfolding cache_of_def by (rule scoped_history.scoped.lister_contract_axioms)

lemma sample_policies_contract:
  "lister_contract (NetworkPolicyLister (stored_lister policy_meta) (cache_of policy_meta [sample_policy])) policy_meta
     (visible (stored policy_meta [sample_policy]) NetworkPolicies set (cache_of policy_meta [sample_policy]))"
  unfolding NetworkPolicyLister_def by (rule cache_contract)

lemma sample_pods_contract:
  "lister_contract (r_pods sample_rec) pod_meta
     (visible (stored pod_meta sample_pods) Pods set (cache_of pod_meta sample_pods))"
  unfolding sample_rec_def PodLister_def reconciler.simps by (rule cache_contract)

lemma sample_groups: "GroupsFor sample_rec sample_state sample_pod = Inr [''d'', ''e'', ''g9'']"
  by code_simp

lemma sample_policiesFor: "policiesFor sample_rec (pod_namespace sample_pod) = Inr [sample_policy]"
  by code_simp

lemma sample_hold: "groups_hold sample_labels sample_env sample_state [sample_policy] sample_content"
proof -
  have "obj_key (np_namespace sample_policy) (np_name sample_policy) = ''prod/web''" by code_simp
  then show ?thesis
    by (auto simp: groups_hold_def sample_state_def sample_content_def)
qed

section \<open>Properties\<close>

lemma policiesFor_namespace:
  assumes "r_policies R = Some l" and "lister_contract l policy_meta pols" and "policiesFor R ns = Inr ps"
  shows "\<forall>p \<in> set ps. np_namespace p = ns"
  using assms lister_contract.in_ok [OF assms(2)] by (auto simp: policiesFor_def)





text \<open>
  A peer set's addresses are, in order, exactly the addresses of the pods its selectors
  match in the namespaces this process serves: no pod of another namespace, and no empty entry
  for a pod without an address.
\<close>

theorem AddressesFor_exact:
  assumes "AddressesFor R sel = Inr out" and "lister_contract (r_pods R) pod_meta pods" and "namespace_cache R nss"
  shows "sorted out \<and> set out = {pod_ip p | p. p \<in> pods \<and> pod_ip p \<noteq> [] \<and> r_serves R (pod_namespace p) \<and>
    psel_names (r_labels R) nss sel (pod_namespace p) \<and> (\<exists>m. psel_pods sel = Some m \<and> sel_matches m (pod_labels p))}"
proof -
  from assms(1) obtain names xs where names: "namespacesMatching R sel = Inr names"
      and xs: "addressLoop R (psel_pods sel) names = Inr xs" and out: "out = sort xs"
    by (auto simp: AddressesFor_def bind_r_Inr_iff)
  note inok = lister_contract.in_ok [OF assms(2), unfolded meta_simps meta.simps]
  have "set out = {a. a \<noteq> [] \<and> (\<exists>ns \<in> set names. \<exists>m ps. psel_pods sel = Some m \<and> l_In (r_pods R) ns m = Inr ps \<and> a \<in> pod_ip ` set ps)}"
    unfolding out set_sort by (rule addressLoop_set [OF xs])
  also have "\<dots> = {pod_ip p | p. p \<in> pods \<and> pod_ip p \<noteq> [] \<and> pod_namespace p \<in> set names \<and>
      (\<exists>m. psel_pods sel = Some m \<and> sel_matches m (pod_labels p))}"
    (is "?A = ?B")
  proof (intro set_eqI iffI)
    fix a assume "a \<in> ?A"
    then obtain ns m ps p where "ns \<in> set names" "psel_pods sel = Some m" "l_In (r_pods R) ns m = Inr ps"
        "p \<in> set ps" "a = pod_ip p" "a \<noteq> []" by blast
    with inok show "a \<in> ?B" by auto
  next
    fix a assume "a \<in> ?B"
    then obtain p m where p: "p \<in> pods" "a = pod_ip p" "a \<noteq> []" "pod_namespace p \<in> set names"
        "psel_pods sel = Some m" "sel_matches m (pod_labels p)" by auto
    with addressLoop_reads [OF xs p(4)] obtain ps where ps: "l_In (r_pods R) (pod_namespace p) m = Inr ps" by auto
    with p inok [OF ps] have "p \<in> set ps" by simp
    with p ps show "a \<in> ?A" by auto
  qed
  finally show ?thesis
    by (simp add: out namespacesMatching_set [OF names assms(3)] conj_assoc)
qed

definition sample_psel :: peer_selector where
  "sample_psel = \<lparr>psel_namespace = ''prod'', psel_namespaces = None, psel_pods = Some (everything sample_labels)\<rparr>"

theorem AddressesFor_exact_witness:
  "AddressesFor sample_rec sample_psel = Inr [''10.0.0.5''] \<and> sorted [''10.0.0.5'']"
proof -
  have 1: "AddressesFor sample_rec sample_psel = Inr [''10.0.0.5'']" by code_simp
  have "namespace_cache sample_rec {}" by (simp add: namespace_cache_def sample_rec_def)
  from AddressesFor_exact [OF 1 sample_pods_contract this] 1 show ?thesis by simp
qed

text \<open>
  Reconciling a pod touches no port but that pod's own, and only when the pod is in a served
  namespace, in the cache, not being deleted and placed; whatever fails on the way.
\<close>

theorem ReconcilePod_confined:
  assumes "port_laws (r_neutron R) P" and "P (snd (ReconcilePod R s key w)) j \<noteq> P w j"
  shows "\<exists>pd. live_pod R key pd j \<and> (\<exists>gs. GroupsFor R s pd = Inr gs)"
proof -
  have "\<exists>pd i. live_pod R key pd i"
  proof (rule ccontr)
    assume "\<nexists>pd i. live_pod R key pd i"
    then have "snd (ReconcilePod R s key w) = w"
      by (auto simp: ReconcilePod_def live_pod_def Let_def split: sum.splits option.splits)
    with assms(2) show False by simp
  qed
  then obtain pd i where live: "live_pod R key pd i" by blast
  with assms(2) obtain gs where gs: "GroupsFor R s pd = Inr gs" "P (snd (alignPort R i gs w)) j \<noteq> P w j"
    by (auto simp: ReconcilePod_live split: sum.splits)
  then have "j = i"
    using alignPort_frame [OF assms(1), of i gs w "fst (alignPort R i gs w)" "snd (alignPort R i gs w)" j] by auto
  with live gs show ?thesis by blast
qed

definition sample_ports :: mem where
  "sample_ports = mem_empty\<lparr>m_ports := [\<lparr>np_id = ''port-web-1'', np_owner = [], np_groups = [''default'']\<rparr>]\<rparr>"

definition port_groups :: "mem \<Rightarrow> string \<Rightarrow> string list" where
  "port_groups w i = (case find (\<lambda>p. np_id p = i) (m_ports w) of None \<Rightarrow> [] | Some p \<Rightarrow> np_groups p)"

definition sample_aligned :: "unit result \<times> mem" where
  "sample_aligned = ReconcilePod sample_rec sample_state ''prod/web-1'' sample_ports"

lemma find_map_port:
  "find (\<lambda>p. np_id p = j) (map (\<lambda>p. if np_id p = i then p\<lparr>np_groups := gs\<rparr> else p) xs) =
     map_option (\<lambda>p. if j = i then p\<lparr>np_groups := gs\<rparr> else p) (find (\<lambda>p. np_id p = j) xs)"
  by (induction xs) auto

lemma mem_port_laws: "port_laws (mem_api loose) port_groups"
  by (auto simp: port_laws_def mem_api_def port_groups_def find_map_port fun_eq_iff list_ex_iff find_None_iff
      split: if_splits option.splits dest!: find_SomeD)

lemma sample_live: "live_pod sample_rec ''prod/web-1'' sample_pod ''port-web-1''"
proof -
  have "split_key ''prod/web-1'' = Inr (''prod'', ''web-1'')" "l_Get (r_pods sample_rec) ''prod'' ''web-1'' = Inr sample_pod"
    "r_serves sample_rec ''prod''" "\<not> pod_deleting sample_pod"
    by code_simp+
  moreover have "r_portOf sample_rec = Some (\<lambda>pd. ''port-'' @ pod_name pd)" "''port-'' @ pod_name sample_pod = ''port-web-1''"
    by (simp_all add: sample_rec_def sample_pod_def)
  ultimately show ?thesis
    unfolding live_pod_def by (intro conjI exI [of _ "''prod''"] exI [of _ "''web-1''"] exI [of _ "\<lambda>pd. ''port-'' @ pod_name pd"]) simp_all
qed

theorem ReconcilePod_confined_witness:
  "(\<exists>pd. live_pod sample_rec ''prod/web-1'' pd ''port-web-1'' \<and> (\<exists>gs. GroupsFor sample_rec sample_state pd = Inr gs)) \<and>
   port_groups (snd (ReconcilePod sample_rec sample_state ''prod/web-1'' sample_ports)) ''port-web-1''
     \<noteq> port_groups sample_ports ''port-web-1''"
proof -
  have 1: "port_groups (snd (ReconcilePod sample_rec sample_state ''prod/web-1'' sample_ports)) ''port-web-1''
     \<noteq> port_groups sample_ports ''port-web-1''"
    by code_simp
  have "r_neutron sample_rec = mem_api False" by (simp add: sample_rec_def)
  then have laws: "port_laws (r_neutron sample_rec) port_groups" by (simp add: mem_port_laws)
  from ReconcilePod_confined [of sample_rec port_groups, OF laws 1] 1 show ?thesis by (rule conjI)
qed



text \<open>
  The list of a pod that no policy isolates is not sorted, while the list read from the port is
  sorted before the two are compared: unless the ids of the three constant groups happen to be in
  order, the port of every such pod is written again each time it is looked at.
\<close>

theorem unselected_pod_rewritten:
  assumes "live_pod R key pd i" and "GroupsFor R s pd = Inr gs" and "\<not> sorted gs"
    and "ports_Get (r_neutron R) i w = (Inr current, v)"
  shows "ReconcilePod R s key w =
    wrap_err (''updating the groups on port '' @ i) (ports_Update (r_neutron R) i gs) v"
proof -
  from assms(3) have "sort current \<noteq> gs" by (metis sorted_sort)
  with assms show ?thesis
    by (simp add: ReconcilePod_live alignPort_def bind_a_def wrap_err_def)
qed

text \<open>
  The policy worker remembers a policy's group only after its rules were written: when
  anything fails nothing is remembered, and when all went through the remembered group holds
  exactly the rules of the policy as it was read (a policy with no rules is remembered without a
  group). The pod worker therefore never attaches a group that was not completed.
\<close>

theorem SyncPolicyPeers_records:
  assumes "SyncPolicyPeers R p (w, s) = (r, (w', s'))" and "rules_laws (r_neutron R) V"
  shows "case r of Inl e \<Rightarrow> s' = s
    | Inr _ \<Rightarrow> \<exists>t gid. Translate (r_labels R) p = Inr t \<and>
        s' = rememberRuleGroup (obj_key (np_namespace p) (np_name p)) gid s \<and>
        (if rs_empty (PolicyRules t) then gid = []
         else \<exists>peers want. opts_list gid peers (rs_rules (PolicyRules t)) = Inr want \<and>
           list_all (hasRule (V w' gid)) want \<and> list_all (wantsRule want) (V w' gid))"
proof (cases r)
  case (Inl e)
  with assms(1) SyncPolicyPeers_fails show ?thesis by auto
next
  case (Inr u)
  from assms(1) [unfolded Inr] show ?thesis
  proof (cases rule: SyncPolicyPeers_succeeds)
    case (2 t peers v gid)
    from EnsureRuleSet_effect [OF 2(4) assms(2)] 2 show ?thesis
      unfolding Inr list_all_iff by auto
  qed (simp add: Inr)
qed

definition sample_sync_policy :: "unit result \<times> (mem \<times> rec_state)" where
  "sample_sync_policy = SyncPolicyPeers sample_rec sample_policy (mem_empty, rec_init)"

theorem SyncPolicyPeers_records_witness:
  "ruleGroups (snd (snd sample_sync_policy)) ''prod/web'' = Some ''g0'' \<and>
   length (mem_rules (fst (snd sample_sync_policy)) ''g0'') = 2 \<and>
   mem_addrs (fst (snd sample_sync_policy)) ''a0'' = [''10.0.0.5/32''] \<and>
   (\<exists>t gid. Translate sample_labels sample_policy = Inr t \<and>
      snd (snd sample_sync_policy) = rememberRuleGroup (obj_key (np_namespace sample_policy) (np_name sample_policy)) gid rec_init)"
proof -
  have 1: "fst sample_sync_policy = Inr ()" "ruleGroups (snd (snd sample_sync_policy)) ''prod/web'' = Some ''g0''"
    "length (mem_rules (fst (snd sample_sync_policy)) ''g0'') = 2"
    "mem_addrs (fst (snd sample_sync_policy)) ''a0'' = [''10.0.0.5/32'']"
    by code_simp+
  have eq: "SyncPolicyPeers sample_rec sample_policy (mem_empty, rec_init)
      = (Inr (), (fst (snd sample_sync_policy), snd (snd sample_sync_policy)))"
    using 1(1) unfolding sample_sync_policy_def by (metis prod.collapse)
  have "rules_laws (r_neutron sample_rec) mem_rules" "r_labels sample_rec = sample_labels"
    by (simp_all add: sample_rec_def mem_rules_laws)
  from SyncPolicyPeers_records [OF eq this(1)] this(2) 1(2-4) show ?thesis by auto
qed

end
