(* ===== verification/Netpol_Controller.thy ===== *)
theory Netpol_Controller
  imports Netpol_Reconciler
begin

text \<open>
  \<^verbatim>\<open>pkg/netpol/controller.go\<close>: the events, the two work queues and the timers around the
  reconcilers. The queues are client-go's; a handler or a turn of a worker is the list of the
  operations it performs on them. In a process that serves several tenants each has a reconciler
  of its own: the controller names them by an index, \<open>c_main\<close> is the one it was built with, and
  the state holds one \<open>rec_state\<close> each.
\<close>

section \<open>State\<close>

datatype queue = PodQ | PolicyQ

type_synonym command = "queue \<times> queue_op"

text \<open>\<open>None\<close> for the two multi-tenant fields is the nil function; \<open>c_each\<close> lists the reconcilers a walk visits.\<close>

record ('w, 'r) controller =
  c_recs :: "'r \<Rightarrow> 'w reconciler"
  c_main :: 'r
  c_for :: "(string \<Rightarrow> 'r result) option"
  c_each :: "'r list option"

type_synonym ('w, 'r) cstate = "'w \<times> ('r \<Rightarrow> rec_state)"

abbreviation main_rec :: "('w, 'r) controller \<Rightarrow> 'w reconciler" where
  "main_rec C \<equiv> c_recs C (c_main C)"

definition on_rec :: "'r \<Rightarrow> ('w \<times> rec_state, 'a) act \<Rightarrow> (('w, 'r) cstate, 'a) act" where
  "on_rec i m st =
     (case st of (w, ss) \<Rightarrow> (case m (w, ss i) of (r, (w', s')) \<Rightarrow> (r, (w', ss(i := s')))))"

definition reconcilerOf :: "('w, 'r) controller \<Rightarrow> string \<Rightarrow> 'r result" where
  "reconcilerOf C namespace = (case c_for C of None \<Rightarrow> Inr (c_main C) | Some f \<Rightarrow> f namespace)"

definition reconcilerForKey :: "('w, 'r) controller \<Rightarrow> string \<Rightarrow> 'r result" where
  "reconcilerForKey C key = bind_r (split_key key) (\<lambda>(namespace, _). reconcilerOf C namespace)"

definition eachReconciler :: "('w, 'r) controller \<Rightarrow> ('r \<Rightarrow> (('w, 'r) cstate, unit) act) \<Rightarrow> (('w, 'r) cstate, unit) act" where
  "eachReconciler C fn = (case c_each C of None \<Rightarrow> fn (c_main C) | Some is \<Rightarrow> for_each fn is)"

text \<open>Every policy in the cache; a nil lister panics here.\<close>

definition allPolicies :: "'w reconciler \<Rightarrow> network_policy list result" where
  "allPolicies R = (case r_policies R of None \<Rightarrow> Inl (ErrPanic ''nil policy lister'') | Some l \<Rightarrow> l_List l (everything (r_labels R)))"

section \<open>Events\<close>

definition PeerCoalesce :: time where "PeerCoalesce = second"
definition SweepInterval :: time where "SweepInterval = 30 * minute"
definition PeerResyncInterval :: time where "PeerResyncInterval = 10 * minute"

definition enqueuePolicyKey :: "string \<Rightarrow> command" where
  "enqueuePolicyKey key = (PolicyQ, AddAfter key PeerCoalesce)"

definition enqueuePod :: "('w, 'r) controller \<Rightarrow> pod event_obj \<Rightarrow> command list" where
  "enqueuePod C obj =
     (case untombed obj of
        None \<Rightarrow> []
      | Some pd \<Rightarrow> if r_serves (main_rec C) (pod_namespace pd)
                  then [(PodQ, Add (obj_key (pod_namespace pd) (pod_name pd)))] else [])"

text \<open>The keys of the served policies in a list, each queued to wait its turn.\<close>

definition queueServed :: "'w reconciler \<Rightarrow> network_policy list \<Rightarrow> command list" where
  "queueServed R ps =
     map (\<lambda>p. enqueuePolicyKey (obj_key (np_namespace p) (np_name p))) (filter (\<lambda>p. r_serves R (np_namespace p)) ps)"

definition enqueuePoliciesNear :: "('w, 'r) controller \<Rightarrow> pod event_obj \<Rightarrow> command list result" where
  "enqueuePoliciesNear C obj =
     (case untombed obj of
        None \<Rightarrow> Inr []
      | Some pd \<Rightarrow>
          if \<not> r_serves (main_rec C) (pod_namespace pd) then Inr []
          else case allPolicies (main_rec C) of
            Inl e \<Rightarrow> if is_panic e then Inl e else Inr []
          | Inr ps \<Rightarrow> Inr (queueServed (main_rec C) ps))"

definition enqueuePolicy :: "('w, 'r) controller \<Rightarrow> network_policy event_obj \<Rightarrow> command list" where
  "enqueuePolicy C obj =
     (case untombed obj of
        None \<Rightarrow> []
      | Some p \<Rightarrow> if r_serves (main_rec C) (np_namespace p)
                 then [enqueuePolicyKey (obj_key (np_namespace p) (np_name p))] else [])"

definition enqueueNamespaceOf :: "('w, 'r) controller \<Rightarrow> network_policy event_obj \<Rightarrow> command list" where
  "enqueueNamespaceOf C obj =
     (case untombed obj of
        None \<Rightarrow> []
      | Some p \<Rightarrow>
          if \<not> r_serves (main_rec C) (np_namespace p) then []
          else case l_In (r_pods (main_rec C)) (np_namespace p) (everything (r_labels (main_rec C))) of
            Inl _ \<Rightarrow> []
          | Inr pods \<Rightarrow> map (\<lambda>pd. (PodQ, Add (obj_key (pod_namespace pd) (pod_name pd)))) pods)"

text \<open>Labels decide which policies select a pod, its address is what a peer set is made of.\<close>

definition samePolicyInputs :: "pod \<Rightarrow> pod \<Rightarrow> bool" where
  "samePolicyInputs a b = (pod_labels a = pod_labels b \<and> pod_ip a = pod_ip b)"

datatype 'o event = Added "'o event_obj" | Updated "'o event_obj" "'o event_obj" | Deleted "'o event_obj"

fun podHandler :: "('w, 'r) controller \<Rightarrow> pod event \<Rightarrow> command list result" where
  "podHandler C (Added obj) = bind_r (enqueuePoliciesNear C obj) (\<lambda>cs. Inr (enqueuePod C obj @ cs))"
| "podHandler C (Updated old cur) =
     (case (asserted old, asserted cur) of
        (Some a, Some b) \<Rightarrow>
          if samePolicyInputs a b then Inr []
          else bind_r (enqueuePoliciesNear C cur) (\<lambda>cs. Inr (enqueuePod C cur @ cs))
      | _ \<Rightarrow> bind_r (enqueuePoliciesNear C cur) (\<lambda>cs. Inr (enqueuePod C cur @ cs)))"
| "podHandler C (Deleted obj) = enqueuePoliciesNear C obj"

fun policyHandler :: "('w, 'r) controller \<Rightarrow> network_policy event \<Rightarrow> command list" where
  "policyHandler C (Added obj) = enqueueNamespaceOf C obj @ enqueuePolicy C obj"
| "policyHandler C (Updated _ cur) = enqueueNamespaceOf C cur @ enqueuePolicy C cur"
| "policyHandler C (Deleted obj) = enqueueNamespaceOf C obj"

section \<open>Workers and timers\<close>

definition forget :: "'r \<Rightarrow> string \<Rightarrow> (('w, 'r) cstate, unit) act" where
  "forget i key = on_rec i (modify (ForgetPolicy key))"

definition syncPolicy :: "('w, 'r) controller \<Rightarrow> string \<Rightarrow> (('w, 'r) cstate, unit) act" where
  "syncPolicy C key =
     (case split_key key of
        Inl e \<Rightarrow> fail e
      | Inr (namespace, name) \<Rightarrow>
          if \<not> r_serves (main_rec C) namespace then ret ()
          else case r_policies (main_rec C) of
            None \<Rightarrow> fail (ErrPanic ''nil policy lister'')
          | Some l \<Rightarrow>
              (case l_Get l namespace name of
                 Inl _ \<Rightarrow> forget (c_main C) key
               | Inr p \<Rightarrow>
                   (case reconcilerOf C namespace of
                      Inl e \<Rightarrow> fail e
                    | Inr i \<Rightarrow> on_rec i (SyncPolicyPeers (c_recs C i) p))))"

text \<open>
  One turn of each worker on the key it was given: the queue operations it ends with, and the
  state. After a panic nothing more runs.
\<close>

definition workPolicies_turn :: "('w, 'r) controller \<Rightarrow> string \<Rightarrow> ('w, 'r) cstate \<Rightarrow> command list \<times> ('w, 'r) cstate" where
  "workPolicies_turn C key st =
     (case syncPolicy C key st of
        (Inl e, st') \<Rightarrow> (if is_panic e then [] else [(PolicyQ, AddRateLimited key), (PolicyQ, Done key)], st')
      | (Inr _, st') \<Rightarrow> ([(PolicyQ, Forget key), (PolicyQ, Done key)], st'))"

text \<open>\<^verbatim>\<open>errors.As\<close> with an \<^verbatim>\<open>ErrPolicyPending\<close> target.\<close>

fun pending_of :: "err \<Rightarrow> string option" where
  "pending_of (ErrPolicyPending p) = Some p"
| "pending_of (ErrWrap _ e) = pending_of e"
| "pending_of _ = None"

definition reconcilePodOf :: "('w, 'r) controller \<Rightarrow> 'r \<Rightarrow> string \<Rightarrow> (('w, 'r) cstate, unit) act" where
  "reconcilePodOf C i key st = (case st of (w, ss) \<Rightarrow>
     (case ReconcilePod (c_recs C i) (ss i) key w of (r, w') \<Rightarrow> (r, (w', ss))))"

definition work_turn :: "('w, 'r) controller \<Rightarrow> string \<Rightarrow> ('w, 'r) cstate \<Rightarrow> command list \<times> ('w, 'r) cstate" where
  "work_turn C key st =
     (case reconcilerForKey C key of
        Inl _ \<Rightarrow> ([(PodQ, AddRateLimited key), (PodQ, Done key)], st)
      | Inr i \<Rightarrow>
          (case reconcilePodOf C i key st of
             (Inl e, st') \<Rightarrow>
               (if is_panic e then []
                else (case pending_of e of None \<Rightarrow> [] | Some p \<Rightarrow> [(PolicyQ, Add p)])
                  @ [(PodQ, AddRateLimited key), (PodQ, Done key)], st')
           | (Inr _, st') \<Rightarrow> ([(PodQ, Forget key), (PodQ, Done key)], st')))"

definition resyncPolicies :: "('w, 'r) controller \<Rightarrow> command list result" where
  "resyncPolicies C =
     (case allPolicies (main_rec C) of
        Inl e \<Rightarrow> if is_panic e then Inl e else Inr []
      | Inr ps \<Rightarrow> Inr (queueServed (main_rec C) ps))"

text \<open>A sweep's outcome is only logged, so the walk goes on to the next tenant whatever it was.\<close>

definition sweepOf :: "('w, 'r) controller \<Rightarrow> string list \<Rightarrow> 'r \<Rightarrow> (('w, 'r) cstate, unit) act" where
  "sweepOf C live i st =
     (case st of (w, ss) \<Rightarrow>
        (case Sweep (r_neutron (c_recs C i)) (\<lambda>ref. ref \<in> set live) (r_serves (c_recs C i)) w of
           (_, w') \<Rightarrow> (Inr (), (w', ss))))"

definition sweep :: "('w, 'r) controller \<Rightarrow> (('w, 'r) cstate, unit) act" where
  "sweep C st =
     (case allPolicies (main_rec C) of
        Inl e \<Rightarrow> if is_panic e then (Inl e, st) else (Inr (), st)
      | Inr ps \<Rightarrow>
          (case eachReconciler C (sweepOf C (map (\<lambda>p. obj_key (np_namespace p) (np_name p)) ps)) st of
             (_, st') \<Rightarrow> (Inr (), st')))"

text \<open>What \<^verbatim>\<open>Run\<close> does before it starts the workers; \<open>synced\<close> is the outcome of the cache wait.\<close>

definition Run_prepare :: "('w, 'r) controller \<Rightarrow> bool \<Rightarrow> (('w, 'r) cstate, unit) act" where
  "Run_prepare C synced =
     (if \<not> synced then fail (ErrText ''the caches this needs never synced'')
      else wrap_err ''preparing the baseline security groups''
        (eachReconciler C (\<lambda>i. on_rec i (EnsureBaselineIDs (c_recs C i)))))"

definition newController :: "('r \<Rightarrow> 'w reconciler) \<Rightarrow> 'r option \<Rightarrow> ('w, 'r) controller result" where
  "newController recs r =
     (case r of None \<Rightarrow> Inl (ErrText ''a reconciler is required'')
      | Some i \<Rightarrow> Inr \<lparr>c_recs = recs, c_main = i, c_for = None, c_each = None\<rparr>)"

section \<open>Lemmas\<close>

lemma policyGroupsFor_pending:
  assumes "policyGroupsFor L s pd ps = Inl e" and "\<forall>p \<in> set ps. \<exists>t. Translate L p = Inr t"
  shows "\<exists>p \<in> set ps. e = ErrPolicyPending (obj_key (np_namespace p) (np_name p)) \<and>
    ruleGroups s (obj_key (np_namespace p) (np_name p)) = None"
  using assms
proof (induction ps)
  case (Cons p ps)
  then obtain t where t: "Translate L p = Inr t" by auto
  show ?case
  proof (cases "ruleGroupOf s (obj_key (np_namespace p) (np_name p))")
    case None
    with Cons t show ?thesis by (auto simp: ruleGroupOf_def split: if_splits)
  next
    case (Some gid)
    with Cons.prems(1) t have "policyGroupsFor L s pd ps = Inl e"
      by (cases "policyGroupsFor L s pd ps") (auto split: if_splits)
    with Cons show ?thesis by auto
  qed
qed simp

lemma IsolationLoop_total:
  "\<forall>p \<in> set ps. \<exists>t. Translate L p = Inr t \<Longrightarrow> \<exists>dirs. IsolationLoop L pd ps by = Inr dirs"
  by (induction L pd ps "by" rule: IsolationLoop.induct) (auto simp: Let_def)

lemma GroupsFor_pending:
  assumes "GroupsFor R s pd = Inl e" and "policiesFor R (pod_namespace pd) = Inr ps"
    and "\<forall>p \<in> set ps. \<exists>t. Translate (r_labels R) p = Inr t"
    and "b_ingress s \<noteq> []" "b_egress s \<noteq> []" "b_denyAll s \<noteq> []"
  shows "\<exists>p \<in> set ps. e = ErrPolicyPending (obj_key (np_namespace p) (np_name p)) \<and>
    ruleGroups s (obj_key (np_namespace p) (np_name p)) = None"
proof -
  obtain dirs where dirs: "IsolationOf (r_labels R) pd ps = Inr dirs"
    using IsolationLoop_total [OF assms(3), of pd Map.empty] by (auto simp: IsolationOf_def bind_r_Inr_iff)
  with assms have "policyGroupsFor (r_labels R) s pd ps = Inl e"
    by (cases "policyGroupsFor (r_labels R) s pd ps") (auto simp: GroupsFor_def Let_def split: if_splits)
  with policyGroupsFor_pending assms(3) show ?thesis by blast
qed

lemma pending_no_panic: "pending_of e = Some p \<Longrightarrow> \<not> is_panic e"
  by (induction e rule: is_panic.induct) auto

section \<open>Properties\<close>

text \<open>
  The pod worker waits for the policy worker: when a live pod's groups cannot be computed
  because a policy of its namespace has not been prepared, the turn changes nothing at all,
  queues that policy at once, puts the pod back and releases its key; no group is created and
  no port is written on the pod path.
\<close>

theorem pending_pod_waits:
  assumes "reconcilerForKey C key = Inr i" and "live_pod (c_recs C i) key pd portID"
    and "GroupsFor (c_recs C i) (ss i) pd = Inl e"
    and "policiesFor (c_recs C i) (pod_namespace pd) = Inr ps"
    and "list_all (\<lambda>p. \<not> isl (Translate (r_labels (c_recs C i)) p)) ps"
    and "b_ingress (ss i) \<noteq> []" "b_egress (ss i) \<noteq> []" "b_denyAll (ss i) \<noteq> []"
  shows "\<exists>p \<in> set ps. let pkey = obj_key (np_namespace p) (np_name p) in
    ruleGroups (ss i) pkey = None \<and>
    work_turn C key (w, ss) = ([(PolicyQ, Add pkey), (PodQ, AddRateLimited key), (PodQ, Done key)], (w, ss))"
proof -
  have "\<forall>p \<in> set ps. \<exists>t. Translate (r_labels (c_recs C i)) p = Inr t"
    using assms(5) by (auto simp: list_all_iff isl_def) (metis sum.exhaust_sel)
  from GroupsFor_pending [OF assms(3,4) this assms(6-8)] obtain p where p: "p \<in> set ps"
      "e = ErrPolicyPending (obj_key (np_namespace p) (np_name p))" "ruleGroups (ss i) (obj_key (np_namespace p) (np_name p)) = None"
    by blast
  with assms(1-3) show ?thesis
    by (intro bexI [of _ p]) (simp_all add: work_turn_def reconcilePodOf_def ReconcilePod_live)
qed

definition sample_controller :: "(mem, unit) controller" where
  "sample_controller = \<lparr>c_recs = (\<lambda>_. sample_rec), c_main = (), c_for = None, c_each = None\<rparr>"

definition sample_cold :: "unit \<Rightarrow> rec_state" where
  "sample_cold _ = sample_state\<lparr>ruleGroups := Map.empty\<rparr>"

theorem pending_pod_waits_witness:
  "work_turn sample_controller ''prod/web-1'' (sample_ports, sample_cold) =
     ([(PolicyQ, Add ''prod/web''), (PodQ, AddRateLimited ''prod/web-1''), (PodQ, Done ''prod/web-1'')],
      (sample_ports, sample_cold))"
proof -
  have R: "c_recs sample_controller () = sample_rec" by (simp add: sample_controller_def)
  have 1: "reconcilerForKey sample_controller ''prod/web-1'' = Inr ()" by code_simp
  have 2: "GroupsFor (c_recs sample_controller ()) (sample_cold ()) sample_pod = Inl (ErrPolicyPending ''prod/web'')"
    "b_ingress (sample_cold ()) \<noteq> []" "b_egress (sample_cold ()) \<noteq> []" "b_denyAll (sample_cold ()) \<noteq> []"
    "list_all (\<lambda>p. \<not> isl (Translate (r_labels (c_recs sample_controller ())) p)) [sample_policy]"
    "obj_key (np_namespace sample_policy) (np_name sample_policy) = ''prod/web''"
    by code_simp+
  have 3: "policiesFor (c_recs sample_controller ()) (pod_namespace sample_pod) = Inr [sample_policy]"
    unfolding R by (rule sample_policiesFor)
  have 4: "live_pod (c_recs sample_controller ()) ''prod/web-1'' sample_pod ''port-web-1''"
    unfolding R by (rule sample_live)
  from pending_pod_waits [of sample_controller _ _ _ _ sample_cold, OF 1 4 2(1) 3 2(5) 2(2-4), of sample_ports] 2(6)
  show ?thesis by (simp add: Let_def)
qed

text \<open>
  Any change to a pod of a served namespace reaches every policy that could have it as a
  peer: the handler of a new or deleted pod, and of a pod whose labels or address changed, queues
  exactly the policies of the served namespaces, the pod's own namespace or another.
\<close>

theorem pod_events_reach_policies:
  assumes "r_policies (main_rec C) = Some l" and "lister_contract l policy_meta pols"
    and "everything_matches (r_labels (main_rec C))" and "allPolicies (main_rec C) = Inr ps"
    and "r_serves (main_rec C) (pod_namespace pd)"
    and "ev = Added (Plain pd) \<or> ev = Deleted (Plain pd) \<or> ev = Deleted (Tombstone (Plain pd)) \<or>
      (\<exists>old. ev = Updated (Plain old) (Plain pd) \<and> (pod_labels old \<noteq> pod_labels pd \<or> pod_ip old \<noteq> pod_ip pd))"
  shows "\<exists>cs. podHandler C ev = Inr cs \<and>
    {key. (PolicyQ, AddAfter key PeerCoalesce) \<in> set cs} =
      {obj_key (np_namespace p) (np_name p) | p. p \<in> pols \<and> r_serves (main_rec C) (np_namespace p)}"
proof -
  let ?R = "main_rec C"
  have ps: "set ps = pols"
    using assms(1-4) lister_contract.list_ok [OF assms(2)] by (auto simp: allPolicies_def everything_matches_def)
  have near: "enqueuePoliciesNear C obj = Inr (queueServed ?R ps)" if "untombed obj = Some pd" for obj
    using that assms(4,5) by (simp add: enqueuePoliciesNear_def)
  have served: "{key. (PolicyQ, AddAfter key PeerCoalesce) \<in> set (queueServed ?R ps)} =
      {obj_key (np_namespace p) (np_name p) | p. p \<in> pols \<and> r_serves ?R (np_namespace p)}"
    unfolding ps [symmetric] by (auto simp: queueServed_def enqueuePolicyKey_def)
  have pods: "{key. (PolicyQ, AddAfter key d) \<in> set (enqueuePod C obj @ cs)} = {key. (PolicyQ, AddAfter key d) \<in> set cs}"
    for obj cs d
    by (auto simp: enqueuePod_def split: option.splits)
  from assms(6) near have "podHandler C ev = Inr (queueServed ?R ps) \<or> (\<exists>obj. podHandler C ev = Inr (enqueuePod C obj @ queueServed ?R ps))"
    by (auto simp: samePolicyInputs_def)
  then show ?thesis
  proof (elim disjE exE)
    assume "podHandler C ev = Inr (queueServed ?R ps)"
    with served show ?thesis by (intro exI [of _ "queueServed ?R ps"] conjI)
  next
    fix obj
    assume "podHandler C ev = Inr (enqueuePod C obj @ queueServed ?R ps)"
    then show ?thesis
      by (intro exI [of _ "enqueuePod C obj @ queueServed ?R ps"] conjI) (simp_all only: pods served)
  qed
qed

theorem pod_events_reach_policies_witness:
  "\<exists>cs. podHandler sample_controller (Deleted (Tombstone (Plain sample_pod))) = Inr cs \<and>
     (PolicyQ, AddAfter ''prod/web'' PeerCoalesce) \<in> set cs"
proof -
  have R: "main_rec sample_controller = sample_rec" by (simp add: sample_controller_def)
  have 0: "r_policies sample_rec = Some (NetworkPolicyLister (stored_lister policy_meta) (cache_of policy_meta [sample_policy]))"
    "everything_matches (r_labels sample_rec)" by (simp_all add: sample_rec_def sample_everything)
  have 1: "allPolicies sample_rec = Inr [sample_policy]" "r_serves sample_rec (pod_namespace sample_pod)"
    "r_serves sample_rec (np_namespace sample_policy)"
    "obj_key (np_namespace sample_policy) (np_name sample_policy) = ''prod/web''" by code_simp+
  have 2: "sample_policy \<in> visible (stored policy_meta [sample_policy]) NetworkPolicies set (cache_of policy_meta [sample_policy])"
    using lister_contract.list_ok [OF sample_policies_contract, of "everything sample_labels" "[sample_policy]"] 1(1) 0(1)
      sample_everything
    by (auto simp: allPolicies_def sample_rec_def everything_matches_def)
  from pod_events_reach_policies [of sample_controller, unfolded R, OF 0(1) sample_policies_contract 0(2) 1(1,2),
      of "Deleted (Tombstone (Plain sample_pod))", OF disjI2, OF disjI2, OF disjI1, OF refl]
  obtain cs where cs: "podHandler sample_controller (Deleted (Tombstone (Plain sample_pod))) = Inr cs"
    "{key. (PolicyQ, AddAfter key PeerCoalesce) \<in> set cs} = {obj_key (np_namespace p) (np_name p) | p.
       p \<in> visible (stored policy_meta [sample_policy]) NetworkPolicies set (cache_of policy_meta [sample_policy]) \<and>
       r_serves sample_rec (np_namespace p)}" by blast
  from 1(3,4) 2 have "''prod/web'' \<in> {key. (PolicyQ, AddAfter key PeerCoalesce) \<in> set cs}"
    unfolding cs(2) by (intro CollectI exI [of _ sample_policy]) (simp only: simp_thms)
  with cs(1) show ?thesis by blast
qed



text \<open>
  A deleted policy is not forgotten. The handler of its deletion queues pods only, so the branch
  of \<open>syncPolicy\<close> that drops its entry is not run for it; and where that branch does run in a
  process with several tenants it drops the entry from the reconciler the controller was built
  with, while the entry that pods are given is the tenant's.
\<close>

theorem deletion_queues_no_policy: "(PolicyQ, x) \<notin> set (policyHandler C (Deleted obj))"
  by (auto simp: enqueueNamespaceOf_def split: option.splits sum.splits)

theorem forget_misses_tenant:
  assumes "split_key key = Inr (ns, n)" and "r_policies (main_rec C) = Some l" and "l_Get l ns n = Inl e"
    and "i \<noteq> c_main C"
  shows "snd (snd (syncPolicy C key (w, ss))) i = ss i"
  using assms by (auto simp: syncPolicy_def forget_def on_rec_def modify_def)

end
