(* ===== verification/Go_Parse.thy ===== *)
theory Go_Parse
  imports Prelude
begin

text \<open>
  The parsers of Go's standard library that the sources call: \<^verbatim>\<open>strconv.ParseInt\<close> and
  \<^verbatim>\<open>Atoi\<close>, \<^verbatim>\<open>strings.Split\<close> and \<^verbatim>\<open>strings.LastIndex\<close> at one character, and
  \<^verbatim>\<open>net.ParseCIDR\<close> as the recogniser of what it accepts.
\<close>

section \<open>Numbers\<close>

text \<open>\<^verbatim>\<open>strconv.ParseInt(s, 10, w)\<close>: an optional sign and digits, within \<open>w\<close> bits.\<close>

definition is_digit :: "char \<Rightarrow> bool" where
  "is_digit c = (CHR ''0'' \<le> c \<and> c \<le> CHR ''9'')"

definition digits_val :: "string \<Rightarrow> int" where
  "digits_val s = foldl (\<lambda>n c. 10 * n + (int (of_char c) - 48)) 0 s"

fun parse_int :: "nat \<Rightarrow> string \<Rightarrow> int option" where
  "parse_int w [] = None"
| "parse_int w (c # cs) =
     (let (neg, ds) = (if c = CHR ''-'' then (True, cs) else if c = CHR ''+'' then (False, cs) else (False, c # cs)) in
      if ds = [] \<or> \<not> list_all is_digit ds then None
      else (let v = (if neg then - digits_val ds else digits_val ds) in
            if - (2 ^ (w - 1)) \<le> v \<and> v < 2 ^ (w - 1) then Some v else None))"

text \<open>\<^verbatim>\<open>strconv.Atoi\<close> on a 64-bit platform.\<close>

definition atoi :: "string \<Rightarrow> int option" where
  "atoi s = parse_int 64 s"

section \<open>Splitting\<close>

text \<open>\<^verbatim>\<open>strings.Split\<close> at one character: always at least one part.\<close>

fun split_at :: "char \<Rightarrow> string \<Rightarrow> string list" where
  "split_at c [] = [[]]"
| "split_at c (x # xs) =
     (if x = c then [] # split_at c xs
      else (case split_at c xs of [] \<Rightarrow> [[x]] | p # ps \<Rightarrow> (x # p) # ps))"

text \<open>What follows the last occurrence of a character, everything when there is none: \<^verbatim>\<open>s[strings.LastIndex(s, c)+1:]\<close>.\<close>

definition after_last :: "char \<Rightarrow> string \<Rightarrow> string" where
  "after_last c s = rev (takeWhile (\<lambda>x. x \<noteq> c) (rev s))"

section \<open>Network prefixes\<close>

text \<open>\<^verbatim>\<open>netip.ParseAddr\<close>: an IPv4 field is one to three digits without a leading zero, at most 255.\<close>

definition v4_field :: "string \<Rightarrow> bool" where
  "v4_field f \<longleftrightarrow> f \<noteq> [] \<and> length f \<le> 3 \<and> list_all is_digit f \<and> digits_val f \<le> 255 \<and> (length f > 1 \<longrightarrow> hd f \<noteq> CHR ''0'')"

definition v4_addr :: "string \<Rightarrow> bool" where
  "v4_addr s \<longleftrightarrow> (let fs = split_at (CHR ''.'') s in length fs = 4 \<and> list_all v4_field fs)"

definition is_hex :: "char \<Rightarrow> bool" where
  "is_hex c \<longleftrightarrow> is_digit c \<or> CHR ''a'' \<le> c \<and> c \<le> CHR ''f'' \<or> CHR ''A'' \<le> c \<and> c \<le> CHR ''F''"

text \<open>
  The fields of an IPv6 address still to come (\<open>k\<close> of eight) and whether \<^verbatim>\<open>::\<close> was seen. An IPv4
  tail takes the place of two fields; \<^verbatim>\<open>::\<close> stands for at least one.
\<close>

fun v6_fields :: "nat \<Rightarrow> bool \<Rightarrow> string \<Rightarrow> bool" where
  "v6_fields 0 ell s = False"
| "v6_fields (Suc k) ell s =
     (let h = takeWhile is_hex s in
      if h = [] \<or> length h > 4 then False
      else (case dropWhile is_hex s of
              [] \<Rightarrow> (if k = 0 then \<not> ell else ell)
            | c # r \<Rightarrow>
                if c = CHR ''.'' then
                  (if k = 0 \<or> (\<not> ell \<and> k \<noteq> 1) then False else v4_addr s \<and> (if k = 1 then \<not> ell else ell))
                else if c \<noteq> CHR '':'' then False
                else (case r of
                        [] \<Rightarrow> False
                      | d # r' \<Rightarrow>
                          if d = CHR '':'' then (if ell then False else if r' = [] then k \<noteq> 0 else v6_fields k True r')
                          else v6_fields k ell r)))"

definition v6_addr :: "string \<Rightarrow> bool" where
  "v6_addr s \<longleftrightarrow> (if has_prefix s ''::'' then drop 2 s = [] \<or> v6_fields 8 True (drop 2 s) else v6_fields 8 False s)"

text \<open>The first of \<^verbatim>\<open>.\<close> and \<^verbatim>\<open>:\<close> decides the family; an address with a zone is no prefix.\<close>

definition addr_bits :: "string \<Rightarrow> int option" where
  "addr_bits s =
     (case find (\<lambda>c. c \<in> {CHR ''.'', CHR '':'', CHR ''%''}) s of
        None \<Rightarrow> None
      | Some c \<Rightarrow>
          if c = CHR ''.'' then (if v4_addr s then Some 32 else None)
          else if c = CHR '':'' then (if v6_addr s then Some 128 else None) else None)"

definition parse_cidr :: "string \<Rightarrow> bool" where
  "parse_cidr s \<longleftrightarrow>
     (case cut_at (CHR ''/'') s of
        None \<Rightarrow> False
      | Some (a, m) \<Rightarrow>
          (case addr_bits a of
             None \<Rightarrow> False
           | Some bits \<Rightarrow> m \<noteq> [] \<and> list_all is_digit m \<and> digits_val m \<le> bits))"

section \<open>Lemmas\<close>

lemma digits_val_append: "digits_val (s @ [c]) = 10 * digits_val s + (int (of_char c) - 48)"
  by (simp add: digits_val_def)

lemma is_digit_char: "m < 10 \<Longrightarrow> is_digit (char_of (m + 48 :: nat))"
  using of_char_digit [of m] by (simp add: is_digit_def less_eq_char_def)

lemma show_nat_is_digits: "list_all is_digit (show_nat n)"
proof (induction n rule: show_nat.induct)
  case (1 n)
  then show ?case
    by (subst show_nat.simps) (simp add: is_digit_char)
qed

lemma digits_val_show_nat: "digits_val (show_nat n) = int n"
proof (induction n rule: show_nat.induct)
  case (1 n)
  show ?case
  proof (cases "n < 10")
    case True
    then show ?thesis
      using of_char_digit [of n] by (subst show_nat.simps) (simp add: digits_val_def)
  next
    case False
    have "(of_char (char_of (n mod 10 + 48) :: char) :: nat) = n mod 10 + 48"
      by (rule of_char_digit) simp
    with 1 False show ?thesis
      by (subst show_nat.simps) (simp add: digits_val_append zmod_int zdiv_int)
  qed
qed

lemma parse_int_digits:
  assumes "list_all is_digit ds" and "ds \<noteq> []" and "digits_val ds < 2 ^ (w - 1)" and "0 \<le> digits_val ds"
  shows "parse_int w ds = Some (digits_val ds)"
proof (cases ds)
  case (Cons c cs)
  with assms(1) have "is_digit c" by simp
  then have "c \<noteq> CHR ''-''" "c \<noteq> CHR ''+''" by (auto simp: is_digit_def less_eq_char_def)
  with assms Cons show ?thesis by (simp add: Let_def)
qed (use assms in simp)

lemma parse_int_show_int:
  assumes "- (2 ^ (w - 1)) \<le> n" and "n < 2 ^ (w - 1)"
  shows "parse_int w (show_int n) = Some n"
proof (cases "n < 0")
  case True
  with assms show ?thesis
    using show_nat_is_digits [of "nat (- n)"] digits_val_show_nat [of "nat (- n)"]
    by (simp add: show_int_def Let_def)
next
  case False
  with assms show ?thesis
    using parse_int_digits [OF show_nat_is_digits, of "nat n"] digits_val_show_nat [of "nat n"]
    by (simp add: show_int_def)
qed


text \<open>Every character between the separators is in some part, and joining the parts again gives the string.\<close>

lemma split_at_nonempty [simp]: "split_at c s \<noteq> []"
  by (induction s) (auto split: list.split)

lemma join_split_at: "join_str [c] (split_at c s) = s"
proof (induction s)
  case (Cons x xs)
  obtain p ps where "split_at c xs = p # ps" by (meson split_at_nonempty neq_Nil_conv)
  with Cons show ?case by (cases ps) auto
qed simp

lemma split_at_free: "p \<in> set (split_at c s) \<Longrightarrow> c \<notin> set p"
  by (induction s arbitrary: p) (auto split: if_splits list.splits)

lemma atoi_show_int: "- (2 ^ 63) \<le> n \<Longrightarrow> n < 2 ^ 63 \<Longrightarrow> atoi (show_int n) = Some n"
  using parse_int_show_int [of 64 n] by (simp add: atoi_def)

end
