(* ===== verification/Zun_Capsule.thy ===== *)
theory Zun_Capsule
  imports Kube Go_Parse
begin

text \<open>
  \<^verbatim>\<open>pkg/zun/capsule.go\<close> and \<^verbatim>\<open>pkg/zun/status.go\<close>: the capsule as Zun reports it, the
  calls on it, and its translation into the status of a pod. The HTTP exchange is the service's;
  a capsule is the decoded answer. The \<^verbatim>\<open>addresses\<close> map is the list of its entries in
  the order an iteration visits them.
\<close>

section \<open>Capsules\<close>

text \<open>The part of a decoded JSON value the health check column is read through.\<close>

datatype json = JNull | JBool bool | JNum int | JStr string | JList "json list" | JObj "(string \<times> json) list"

fun jfield :: "string \<Rightarrow> json \<Rightarrow> json option" where
  "jfield k (JObj fs) = map_of fs k"
| "jfield k _ = None"

fun jobject :: "json option \<Rightarrow> json option" where
  "jobject (Some (JObj fs)) = Some (JObj fs)"
| "jobject _ = None"

fun jbool :: "json option \<Rightarrow> bool option" where
  "jbool (Some (JBool b)) = Some b"
| "jbool _ = None"

fun jnum :: "json option \<Rightarrow> int option" where
  "jnum (Some (JNum n)) = Some n"
| "jnum _ = None"

text \<open>A conversion to a 32-bit integer keeps the low bits.\<close>

definition to_int32 :: "int \<Rightarrow> int" where
  "to_int32 n = (n + 2147483648) mod 4294967296 - 2147483648"

record address =
  a_addr :: string
  a_port :: string
  a_version :: int
  a_subnet :: string

record zun_container =
  zc_uuid :: string
  zc_name :: string
  zc_status :: string
  zc_reason :: string
  zc_detail :: string
  zc_started :: time
  zc_updated :: time
  zc_health :: json

record capsule =
  cap_uuid :: string
  cap_status :: string
  cap_reason :: string
  cap_host :: string
  cap_created :: time
  cap_addresses :: "(string \<times> address list) list"
  cap_containers :: "zun_container list"
  cap_name_field :: string
  cap_labels_field :: labels
  cap_meta_name :: string
  cap_meta_labels :: labels

definition cap_Name :: "capsule \<Rightarrow> string" where
  "cap_Name c = (if cap_name_field c \<noteq> [] then cap_name_field c else cap_meta_name c)"

definition cap_Labels :: "capsule \<Rightarrow> labels" where
  "cap_Labels c = (if cap_labels_field c \<noteq> [] then cap_labels_field c else cap_meta_labels c)"

definition probe_state :: "zun_container \<Rightarrow> json option" where
  "probe_state c = jobject (jfield ''k8s_probe_state'' (zc_health c))"

definition Ready :: "zun_container \<Rightarrow> bool" where
  "Ready c =
     (case probe_state c of None \<Rightarrow> True
      | Some st \<Rightarrow> (case jbool (jfield ''ready'' st) of None \<Rightarrow> True | Some b \<Rightarrow> b))"

definition HasReadinessProbe :: "zun_container \<Rightarrow> bool" where
  "HasReadinessProbe c =
     (case jobject (jfield ''k8s_probes'' (zc_health c)) of None \<Rightarrow> False
      | Some ps \<Rightarrow> jfield ''readinessProbe'' ps \<noteq> None)"

definition Restarts :: "zun_container \<Rightarrow> int" where
  "Restarts c =
     (case probe_state c of None \<Rightarrow> 0
      | Some st \<Rightarrow> (case jnum (jfield ''restarts'' st) of None \<Rightarrow> 0 | Some n \<Rightarrow> to_int32 n))"

definition ProbeAnswered :: "zun_container \<Rightarrow> bool" where
  "ProbeAnswered c = (case probe_state c of None \<Rightarrow> False | Some st \<Rightarrow> jfield ''ready'' st \<noteq> None)"

section \<open>Labels and keys\<close>

definition LabelManagedBy :: string where "LabelManagedBy = ''knaas.io/managed-by''"
definition LabelNamespace :: string where "LabelNamespace = ''knaas.io/pod-namespace''"
definition LabelPodName :: string where "LabelPodName = ''knaas.io/pod-name''"
definition LabelPodUID :: string where "LabelPodUID = ''knaas.io/pod-uid''"
definition LabelNodeName :: string where "LabelNodeName = ''knaas.io/node-name''"
definition ManagedByValue :: string where "ManagedByValue = ''kubezun''"

definition PodKeyFromLabels :: "labels \<Rightarrow> (string \<times> string) option" where
  "PodKeyFromLabels ls =
     (if label_of ls LabelManagedBy \<noteq> ManagedByValue then None
      else
        (let namespace = label_of ls LabelNamespace; name = label_of ls LabelPodName in
         if namespace \<noteq> [] \<and> name \<noteq> [] then Some (namespace, name) else None))"

definition PodKey :: "string \<Rightarrow> string \<Rightarrow> string" where
  "PodKey namespace name = namespace @ ''/'' @ name"

definition SplitPodKey :: "string \<Rightarrow> (string \<times> string) result" where
  "SplitPodKey key =
     (case cut_at (CHR ''/'') key of
        None \<Rightarrow> Inl (ErrText (''malformed pod key '' @ quote_str key))
      | Some (ns, n) \<Rightarrow> Inr (ns, n))"

definition PodUID :: "capsule \<Rightarrow> string" where
  "PodUID c = label_of (cap_Labels c) LabelPodUID"

definition NodeName :: "capsule \<Rightarrow> string" where
  "NodeName c = label_of (cap_Labels c) LabelNodeName"

section \<open>Calls\<close>

text \<open>
  The capsule calls of one tenant's session. \<open>z_List\<close> is the whole decoded listing,
  \<open>z_Get\<close> one capsule, \<open>z_Delete\<close> a forced removal; errors are the transport's.
\<close>

record 'w zun_api =
  z_Create :: "string \<Rightarrow> ('w, capsule) act"
  z_Get :: "string \<Rightarrow> ('w, capsule) act"
  z_Delete :: "string \<Rightarrow> ('w, unit) act"
  z_List :: "('w, capsule list) act"

definition translate_err :: "err \<Rightarrow> err" where
  "translate_err e =
     (case response_of e of
        None \<Rightarrow> e
      | Some (c, _) \<Rightarrow>
          if c = 404 then ErrAsNotFound e else if c = 409 \<or> c = 400 then ErrAsInvalidInput e else e)"

definition with_err :: "(err \<Rightarrow> err) \<Rightarrow> ('w, 'a) act \<Rightarrow> ('w, 'a) act" where
  "with_err f m w = (case m w of (Inl e, w') \<Rightarrow> (Inl (f e), w') | (Inr x, w') \<Rightarrow> (Inr x, w'))"

lemma with_err_iff:
  "with_err f m w = (r, w') \<longleftrightarrow> (\<exists>q. m w = (q, w') \<and> r = (case q of Inl e \<Rightarrow> Inl (f e) | Inr x \<Rightarrow> Inr x))"
  by (auto simp: with_err_def split: prod.splits sum.splits)

lemma keeps_with_err: "keeps P m \<Longrightarrow> keeps P (with_err f m)"
  by (auto simp: keeps_def with_err_def case_prod_beta split: sum.split)

definition CapsuleDelete :: "'w zun_api \<Rightarrow> string \<Rightarrow> ('w, unit) act" where
  "CapsuleDelete Z i = with_err translate_err (z_Delete Z i)"

definition CapsuleGet :: "'w zun_api \<Rightarrow> string \<Rightarrow> ('w, capsule) act" where
  "CapsuleGet Z i = with_err translate_err (z_Get Z i)"

definition CapsuleCreate :: "'w zun_api \<Rightarrow> string \<Rightarrow> ('w, capsule) act" where
  "CapsuleCreate Z tpl = with_err translate_err (z_Create Z tpl)"

text \<open>The capsules of a listing by pod, in the order of the listing; those of nobody's pod are left out.\<close>

definition pod_of :: "capsule \<Rightarrow> string option" where
  "pod_of c = map_option (\<lambda>(ns, n). PodKey ns n) (PodKeyFromLabels (cap_Labels c))"

definition groupCapsules :: "capsule list \<Rightarrow> (string \<times> capsule list) list" where
  "groupCapsules cs =
     map (\<lambda>key. (key, filter (\<lambda>c. pod_of c = Some key) cs)) (remdups (List.map_filter pod_of cs))"

definition ListManagedAll :: "'w zun_api \<Rightarrow> ('w, (string \<times> capsule list) list) act" where
  "ListManagedAll Z = bind_a (with_err translate_err (z_List Z)) (\<lambda>cs. ret (groupCapsules cs))"

text \<open>The newest of a pod's capsules; the first of those created at the same moment.\<close>

definition newestOf :: "capsule list \<Rightarrow> capsule" where
  "newestOf cs = foldl (\<lambda>newest c. if cap_created c > cap_created newest then c else newest) (hd cs) (tl cs)"

definition ListManaged :: "'w zun_api \<Rightarrow> ('w, (string \<times> capsule) list) act" where
  "ListManaged Z =
     bind_a (ListManagedAll Z) (\<lambda>all. ret (map (\<lambda>(key, cs). (key, newestOf cs)) all))"

section \<open>Status\<close>

definition tenantReason :: "string \<Rightarrow> string" where
  "tenantReason status =
     (if status = ''Stopped'' then ''Completed''
      else if status = ''Unknown'' then ''ContainerStatusUnknown'' else status)"

definition PodPhase :: "string \<Rightarrow> string" where
  "PodPhase status =
     (if status = ''Running'' then ''Running''
      else if status = ''Stopped'' then ''Succeeded''
      else if status \<in> {''Error'', ''Dead''} then ''Failed''
      else if status \<in> {''Creating'', ''Created'', ''Restarting'', ''Rebuilding'', ''Paused'', ''Deleting'', ''Deleted''}
      then ''Pending'' else ''Unknown'')"

definition exitCode :: "zun_container \<Rightarrow> int" where
  "exitCode c =
     (case (if has_prefix (zc_detail c) ''exit:'' then parse_int 32 (trim_prefix (zc_detail c) ''exit:'') else None) of
        Some code \<Rightarrow> code
      | None \<Rightarrow> if zc_status c = ''Error'' \<or> zc_status c = ''Dead'' then 1 else 0)"

definition PhaseOf :: "capsule \<Rightarrow> string" where
  "PhaseOf cap =
     (let phase = PodPhase (cap_status cap) in
      if phase \<noteq> ''Succeeded'' then phase
      else if list_ex (\<lambda>c. exitCode c \<noteq> 0) (cap_containers cap) then ''Failed'' else phase)"

definition cond :: "string \<Rightarrow> string \<Rightarrow> string \<Rightarrow> time \<Rightarrow> pod_condition" where
  "cond ty st re t = \<lparr>pc_type = ty, pc_status = st, pc_reason = re, pc_time = t\<rparr>"

definition PodConditions :: "string \<Rightarrow> bool \<Rightarrow> time \<Rightarrow> pod_condition list" where
  "PodConditions status ready t =
     (let scheduled = cond ''PodScheduled'' ''True'' [] t in
      if status = ''Running'' then
        [if ready then cond ''Ready'' ''True'' [] t else cond ''Ready'' ''False'' ''NetworkNotReady'' t,
         cond ''Initialized'' ''True'' [] t, scheduled]
      else if status \<in> {''Creating'', ''Created'', ''Rebuilding'', ''Restarting''} then
        [cond ''Ready'' ''False'' ''ContainersNotReady'' t,
         cond ''Initialized'' ''False'' ''ContainersNotInitialized'' t, scheduled]
      else [cond ''Ready'' ''False'' ''ContainersNotReady'' t, scheduled])"

definition failureMessage :: "zun_container \<Rightarrow> string" where
  "failureMessage c = (if zc_reason c \<noteq> [] then zc_reason c else zc_detail c)"

definition ContainerState :: "zun_container \<Rightarrow> container_state" where
  "ContainerState c =
     (if zc_status c = ''Running'' then CSRunning (zc_started c)
      else if zc_status c = ''Stopped'' then
        (let code = exitCode c in
         CSTerminated code (if code \<noteq> 0 then ''Error'' else ''Completed'') (zc_detail c) (zc_started c) (zc_updated c))
      else if zc_status c \<in> {''Error'', ''Dead''} then
        CSTerminated (exitCode c) (tenantReason (zc_status c)) (failureMessage c) (zc_started c) (zc_updated c)
      else CSWaiting (tenantReason (zc_status c)) (zc_reason c))"

definition ContainerReady :: "zun_container \<Rightarrow> bool" where
  "ContainerReady c =
     (if zc_status c \<noteq> ''Running'' then False
      else if HasReadinessProbe c \<and> \<not> ProbeAnswered c then False else Ready c)"

definition CapsuleReady :: "capsule \<Rightarrow> bool" where
  "CapsuleReady cap = (cap_containers cap \<noteq> [] \<and> list_all ContainerReady (cap_containers cap))"

definition capsuleReasonOr :: "capsule \<Rightarrow> string \<Rightarrow> string" where
  "capsuleReasonOr cap fallback = (if cap_reason cap \<noteq> [] then cap_reason cap else fallback)"

definition capsuleFailure :: "capsule \<Rightarrow> (string \<times> string) option" where
  "capsuleFailure cap =
     (if cap_status cap \<in> {''Error'', ''Dead''} \<or> cap_status cap = ''Stopped'' \<and> cap_host cap = [] then
        (if cap_host cap = [] then
           Some (''UnexpectedAdmissionError'', capsuleReasonOr cap
             ''no machine behind this node could satisfy the pod's placement requirements'')
         else Some (''RunContainerError'', capsuleReasonOr cap ''the pod's containers could not be run''))
      else None)"

text \<open>One container's status: by position, since Zun invents the names.\<close>

definition containerStatus :: "capsule \<Rightarrow> nat \<Rightarrow> string \<times> string \<Rightarrow> container_status" where
  "containerStatus cap i spec =
     (let base = \<lparr>cs_name = fst spec, cs_image = snd spec, cs_state = CSWaiting ''ContainerCreating'' [],
                  cs_ready = False, cs_restarts = 0, cs_id = []\<rparr>;
          st = (if i < length (cap_containers cap) then
                  (let c = cap_containers cap ! i in
                   base\<lparr>cs_state := ContainerState c, cs_ready := ContainerReady c, cs_restarts := Restarts c,
                        cs_id := ''zun://'' @ zc_uuid c\<rparr>)
                else base)
      in case cs_state st of
           CSWaiting _ _ \<Rightarrow>
             (case capsuleFailure cap of None \<Rightarrow> st
              | Some (reason, msg) \<Rightarrow> st\<lparr>cs_state := CSWaiting reason msg\<rparr>)
         | _ \<Rightarrow> st)"

definition ContainerStatuses :: "pod \<Rightarrow> capsule \<Rightarrow> container_status list" where
  "ContainerStatuses pd cap =
     map (\<lambda>(i, spec). containerStatus cap i spec) (enumerate 0 (pod_containers pd))"

fun firstSome :: "('a \<Rightarrow> string) \<Rightarrow> 'a list \<Rightarrow> string" where
  "firstSome f [] = []"
| "firstSome f (x # xs) = (if f x \<noteq> [] then f x else firstSome f xs)"

definition addressList :: "capsule \<Rightarrow> address list" where
  "addressList cap = concat (map snd (cap_addresses cap))"

definition PodIP :: "capsule \<Rightarrow> string" where
  "PodIP cap = firstSome (\<lambda>a. if a_version a = 4 then a_addr a else []) (addressList cap)"

definition PodSubnetID :: "capsule \<Rightarrow> string" where
  "PodSubnetID cap = firstSome (\<lambda>a. if a_version a = 4 \<and> a_addr a \<noteq> [] then a_subnet a else []) (addressList cap)"

definition PortIDs :: "capsule \<Rightarrow> string list" where
  "PortIDs cap = filter (\<lambda>i. i \<noteq> []) (map a_port (addressList cap))"

section \<open>Lemmas\<close>

lemma exitCode_recorded:
  assumes "zc_detail c = ''exit:'' @ show_int n" and "- 2147483648 \<le> n" and "n \<le> 2147483647"
  shows "exitCode c = n"
  using parse_int_show_int [of 32 n] assms(2,3) by (simp add: exitCode_def assms(1) del: append_Cons append_Nil)

lemma PhaseOf_Succeeded:
  "PhaseOf cap = ''Succeeded'' \<longleftrightarrow> cap_status cap = ''Stopped'' \<and> list_all (\<lambda>c. exitCode c = 0) (cap_containers cap)"
  by (auto simp: PhaseOf_def PodPhase_def Let_def list_all_iff list_ex_iff split: if_splits)

lemma newestOf_fold:
  "let m = foldl (\<lambda>newest c. if cap_created c > cap_created newest then c else newest) x cs in
     m \<in> set (x # cs) \<and> (\<forall>c \<in> set (x # cs). cap_created c \<le> cap_created m)"
proof (induction cs arbitrary: x)
  case (Cons c cs)
  from Cons [of "if cap_created c > cap_created x then c else x"] show ?case
    by (auto simp: Let_def split: if_splits)
qed (simp add: Let_def)

lemma newestOf_max:
  assumes "cs \<noteq> []"
  shows "newestOf cs \<in> set cs" and "c \<in> set cs \<Longrightarrow> cap_created c \<le> cap_created (newestOf cs)"
  using newestOf_fold [of "hd cs" "tl cs"] assms by (auto simp: newestOf_def Let_def)

lemma groupCapsules_iff:
  "(key, gs) \<in> set (groupCapsules cs) \<longleftrightarrow>
     (\<exists>c \<in> set cs. pod_of c = Some key) \<and> gs = filter (\<lambda>c. pod_of c = Some key) cs"
proof -
  have "set (List.map_filter pod_of cs) = {k. \<exists>c \<in> set cs. pod_of c = Some k}"
    by (force simp: List.map_filter_def)
  then show ?thesis by (auto simp: groupCapsules_def)
qed

lemma groupCapsules_keys: "fst ` set (groupCapsules cs) = {key. \<exists>c \<in> set cs. pod_of c = Some key}"
  unfolding image_iff Bex_def split_paired_Ex groupCapsules_iff by (auto simp: set_eq_iff image_iff groupCapsules_iff Bex_def)

lemma groupCapsules_nonempty: "(key, gs) \<in> set (groupCapsules cs) \<Longrightarrow> gs \<noteq> []"
  by (auto simp: groupCapsules_iff filter_empty_conv)

lemma distinct_groupCapsules: "distinct (map fst (groupCapsules cs))"
  by (simp add: groupCapsules_def o_def)

lemma ListManaged_result:
  assumes "ListManaged Z w = (Inr out, w')"
  obtains cs where "z_List Z w = (Inr cs, w')" "out = map (\<lambda>(key, gs). (key, newestOf gs)) (groupCapsules cs)"
  using assms by (auto simp: ListManaged_def ListManagedAll_def act_simps with_err_def split: prod.splits sum.splits)

section \<open>Properties\<close>

text \<open>
  A failed command is never reported as success: a pod's phase is \<open>Succeeded\<close> only for a
  stopped capsule, and never when some container recorded a nonzero exit code in its status
  detail, whatever 32-bit code it was.
\<close>

theorem failed_exit_not_succeeded:
  assumes "c \<in> set (cap_containers cap)" and "zc_detail c = ''exit:'' @ show_int n" and "n \<noteq> 0"
    and "- 2147483648 \<le> n" and "n \<le> 2147483647"
  shows "PhaseOf cap \<noteq> ''Succeeded'' \<and> exitCode c = n \<and>
    (zc_status c = ''Stopped'' \<longrightarrow> ContainerState c = CSTerminated n ''Error'' (zc_detail c) (zc_started c) (zc_updated c))"
  using exitCode_recorded [OF assms(2,4,5)] assms(1,3)
  by (auto simp: PhaseOf_Succeeded list_all_iff ContainerState_def)

definition sample_container :: zun_container where
  "sample_container = \<lparr>zc_uuid = ''c1'', zc_name = ''capsule-x'', zc_status = ''Stopped'', zc_reason = [],
     zc_detail = ''exit:137'', zc_started = 5, zc_updated = 9, zc_health = JNull\<rparr>"

definition sample_capsule :: capsule where
  "sample_capsule = \<lparr>cap_uuid = ''u-1'', cap_status = ''Stopped'', cap_reason = [], cap_host = ''h1'', cap_created = 100,
     cap_addresses = [(''net'', [\<lparr>a_addr = ''10.0.0.5'', a_port = ''p1'', a_version = 4, a_subnet = ''s1''\<rparr>])],
     cap_containers = [sample_container], cap_name_field = ''kubezun-u1'',
     cap_labels_field = [(''knaas.io/managed-by'', ''kubezun''), (''knaas.io/pod-namespace'', ''prod''),
       (''knaas.io/pod-name'', ''web-1''), (''knaas.io/pod-uid'', ''u1''), (''knaas.io/node-name'', ''n1'')],
     cap_meta_name = [], cap_meta_labels = []\<rparr>"

theorem failed_exit_not_succeeded_witness:
  "PhaseOf sample_capsule \<noteq> ''Succeeded'' \<and> exitCode sample_container = 137"
proof -
  have 1: "sample_container \<in> set (cap_containers sample_capsule)" by (simp add: sample_capsule_def)
  have "show_int 137 = ''137''" by code_simp
  then have 2: "zc_detail sample_container = ''exit:'' @ show_int 137" by (simp add: sample_container_def)
  from failed_exit_not_succeeded [OF 1 2] show ?thesis by simp
qed

text \<open>
  The listing a status is read from has, for every pod some managed capsule carries, exactly
  one entry, and it is a capsule of that pod created no earlier than any other of its capsules;
  a capsule without the labels of this provider is in no entry.
\<close>

theorem ListManaged_newest:
  assumes "ListManaged Z w = (Inr out, w')" and "z_List Z w = (Inr cs, v)"
  shows "distinct (map fst out) \<and> fst ` set out = {key. \<exists>c \<in> set cs. pod_of c = Some key} \<and>
    (\<forall>(key, c) \<in> set out. c \<in> set cs \<and> pod_of c = Some key \<and>
       (\<forall>c' \<in> set cs. pod_of c' = Some key \<longrightarrow> cap_created c' \<le> cap_created c))"
proof -
  obtain cs' where cs': "z_List Z w = (Inr cs', w')" and o': "out = map (\<lambda>(key, gs). (key, newestOf gs)) (groupCapsules cs')"
    by (rule ListManaged_result [OF assms(1)])
  with assms(2) have out: "out = map (\<lambda>(key, gs). (key, newestOf gs)) (groupCapsules cs)" by simp
  have keys: "map fst out = map fst (groupCapsules cs)" by (simp add: out case_prod_beta)
  have entry: "c \<in> set cs \<and> pod_of c = Some key \<and> (\<forall>c' \<in> set cs. pod_of c' = Some key \<longrightarrow> cap_created c' \<le> cap_created c)"
    if "(key, c) \<in> set out" for key c
  proof -
    from that obtain gs where gs: "(key, gs) \<in> set (groupCapsules cs)" "c = newestOf gs" by (auto simp: out)
    from newestOf_max [OF groupCapsules_nonempty [OF gs(1)]] gs show ?thesis by (auto simp: groupCapsules_iff)
  qed
  have "fst ` set out = fst ` set (groupCapsules cs)" using keys by (metis list.set_map)
  also have "\<dots> = {key. \<exists>c \<in> set cs. pod_of c = Some key}"
    by (rule groupCapsules_keys)
  finally show ?thesis
    using entry keys distinct_groupCapsules by auto
qed

definition sample_zun :: "(capsule list) zun_api" where
  "sample_zun = \<lparr>z_Create = (\<lambda>_ w. (Inl (ErrText ''not in the sample''), w)),
     z_Get = (\<lambda>i w. case find (\<lambda>c. cap_uuid c = i) w of None \<Rightarrow> (Inl (ErrResponse 404 [] []), w) | Some c \<Rightarrow> (Inr c, w)),
     z_Delete = (\<lambda>i w. if list_ex (\<lambda>c. cap_uuid c = i) w then (Inr (), filter (\<lambda>c. cap_uuid c \<noteq> i) w)
                      else (Inl (ErrResponse 404 [] []), w)),
     z_List = (\<lambda>w. (Inr w, w))\<rparr>"

definition sample_capsules :: "capsule list" where
  "sample_capsules = [sample_capsule, sample_capsule\<lparr>cap_uuid := ''u-2'', cap_created := 200\<rparr>,
     sample_capsule\<lparr>cap_uuid := ''u-3'', cap_labels_field := [(''app'', ''x'')]\<rparr>]"

theorem ListManaged_newest_witness:
  "fst (ListManaged sample_zun sample_capsules) = Inr [(''prod/web-1'', sample_capsules ! 1)] \<and>
   distinct (map fst [(''prod/web-1'', sample_capsules ! 1)])"
proof -
  have 1: "fst (ListManaged sample_zun sample_capsules) = Inr [(''prod/web-1'', sample_capsules ! 1)]" by code_simp
  then have eq: "ListManaged sample_zun sample_capsules =
      (Inr [(''prod/web-1'', sample_capsules ! 1)], snd (ListManaged sample_zun sample_capsules))" by (metis prod.collapse)
  have "z_List sample_zun sample_capsules = (Inr sample_capsules, sample_capsules)" by (simp add: sample_zun_def)
  from ListManaged_newest [OF eq this] 1 show ?thesis by blast
qed

text \<open>
  A capsule that never reached a host and reads \<open>Stopped\<close> has containers that are reported as
  refused at admission, while its phase, which asks only for exit codes, is \<open>Succeeded\<close>; and a
  container in \<open>Error\<close> whose detail records the code 0 reports the code of success.
\<close>

definition unplaced :: capsule where
  "unplaced = sample_capsule\<lparr>cap_host := [],
     cap_containers := [sample_container\<lparr>zc_status := ''Creating'', zc_detail := []\<rparr>]\<rparr>"

theorem unplaced_reports_success:
  "PhaseOf unplaced = ''Succeeded'' \<and>
   map_option fst (capsuleFailure unplaced) = Some ''UnexpectedAdmissionError''"
  by code_simp

theorem errored_reports_zero:
  "exitCode (sample_container\<lparr>zc_status := ''Error'', zc_detail := ''exit:0''\<rparr>) = 0"
  by code_simp

end
