(* ===== verification/Tenant_Resolver.thy ===== *)
theory Tenant_Resolver
  imports Vk_Namespaces
begin

text \<open>
  \<^verbatim>\<open>pkg/tenant/resolver.go\<close>: which OpenStack session a namespace's work belongs in. The
  chain is namespace, tenant, credential secret, session; the project and region a session turned
  out to be are compared with what the secret records. The secret store and the authentication are
  outside: the fields of \<open>secrets_api\<close> and the parameter \<open>connect\<close>.
\<close>

section \<open>State\<close>

record session =
  ses_project :: string
  ses_region :: string

record credentials =
  cr_authURL :: string
  cr_appCredID :: string
  cr_appCredName :: string
  cr_appCredSecret :: string
  cr_username :: string
  cr_userDomain :: string
  cr_region :: string

record secret =
  sec_name :: string
  sec_data :: "(string \<times> string) list"
  sec_annotations :: "(string \<times> string) list"

record binding =
  bd_session :: session
  bd_networkID :: string
  bd_vipSubnetID :: string
  bd_vipNetworkID :: string

text \<open>A patch names the annotations it sets.\<close>

record 'w secrets_api =
  sec_Get :: "string \<Rightarrow> ('w, secret) act"
  sec_Patch :: "string \<Rightarrow> (string \<times> string) list \<Rightarrow> ('w, unit) act"

record 'w resolver =
  rv_secrets :: "'w secrets_api"
  rv_tenantOf :: "string \<Rightarrow> string option"
  rv_secretName :: "(string \<Rightarrow> string) option"
  rv_connect :: "credentials \<Rightarrow> ('w, session) act"

record res_state =
  built :: "string \<rightharpoonup> binding"
  refused :: "string list"

definition res_init :: res_state where
  "res_init = \<lparr>built = Map.empty, refused = []\<rparr>"

definition ProjectAnnotation :: string where "ProjectAnnotation = ''knaas.io/project-id''"
definition RegionAnnotation :: string where "RegionAnnotation = ''knaas.io/region''"
definition NetworkIDAnnotation :: string where "NetworkIDAnnotation = ''knaas.io/network-id''"
definition VIPSubnetIDAnnotation :: string where "VIPSubnetIDAnnotation = ''knaas.io/vip-subnet-id''"
definition VIPNetworkIDAnnotation :: string where "VIPNetworkIDAnnotation = ''knaas.io/vip-network-id''"

section \<open>Connecting a tenant\<close>

definition secretName :: "'w resolver \<Rightarrow> string \<Rightarrow> string" where
  "secretName R tenant = (case rv_secretName R of None \<Rightarrow> tenant | Some f \<Rightarrow> f tenant)"

definition credentialsFrom :: "secret \<Rightarrow> credentials" where
  "credentialsFrom s =
     (let get = label_of (sec_data s) in
      \<lparr>cr_authURL = get ''OS_AUTH_URL'', cr_appCredID = get ''OS_APPLICATION_CREDENTIAL_ID'',
       cr_appCredName = get ''OS_APPLICATION_CREDENTIAL_NAME'', cr_appCredSecret = get ''OS_APPLICATION_CREDENTIAL_SECRET'',
       cr_username = get ''OS_USERNAME'', cr_userDomain = get ''OS_USER_DOMAIN_NAME'', cr_region = get ''OS_REGION_NAME''\<rparr>)"

text \<open>What a credential turned out to be; \<open>flip\<close> is the order in which the map is visited.\<close>

definition wantOf :: "bool \<Rightarrow> session \<Rightarrow> (string \<times> string) list" where
  "wantOf flip s =
     (let want = [(ProjectAnnotation, ses_project s), (RegionAnnotation, ses_region s)] in if flip then rev want else want)"

definition mismatch :: "string \<Rightarrow> string \<Rightarrow> string \<Rightarrow> string \<Rightarrow> err" where
  "mismatch tenant key recorded found =
     ErrText (''tenant '' @ tenant @ '' is bound to '' @ key @ ''='' @ recorded @ '' but its credential authenticates as ''
       @ found @ ''; refusing to act. Changing the binding is a migration, not an edit: drain the tenant under the old credential first, or its existing capsules become invisible and unreclaimable'')"

text \<open>The loop of the check: the keys with nothing recorded, or the refusal.\<close>

fun checkLoop :: "string \<Rightarrow> secret \<Rightarrow> (string \<times> string) list \<Rightarrow> string list result" where
  "checkLoop tenant s [] = Inr []"
| "checkLoop tenant s ((key, found) # want) =
     (let recorded = label_of (sec_annotations s) key in
      if recorded = [] then bind_r (checkLoop tenant s want) (\<lambda>missing. Inr (key # missing))
      else if found = [] then checkLoop tenant s want
      else if recorded \<noteq> found then Inl (mismatch tenant key recorded found)
      else checkLoop tenant s want)"

definition recordAnnotations :: "(string \<times> string) list \<Rightarrow> string list \<Rightarrow> (string \<times> string) list" where
  "recordAnnotations want missing =
     map (\<lambda>key. (key, label_of want key)) (filter (\<lambda>key. label_of want key \<noteq> []) missing)"

text \<open>A failed write is only a warning.\<close>

definition record_binding :: "'w resolver \<Rightarrow> secret \<Rightarrow> (string \<times> string) list \<Rightarrow> string list \<Rightarrow> ('w, unit) act" where
  "record_binding R s want missing =
     (let annotations = recordAnnotations want missing in
      if annotations = [] then ret ()
      else ignore_if (\<lambda>_. True) (sec_Patch (rv_secrets R) (sec_name s) annotations))"

definition reportRefusal :: "string \<Rightarrow> res_state \<Rightarrow> res_state" where
  "reportRefusal tenant st = (if tenant \<in> set (refused st) then st else st\<lparr>refused := tenant # refused st\<rparr>)"

definition checkBinding :: "'w resolver \<Rightarrow> bool \<Rightarrow> string \<Rightarrow> secret \<Rightarrow> session \<Rightarrow> ('w \<times> res_state, unit) act" where
  "checkBinding R flip tenant s ses ws =
     (case ws of (w, st) \<Rightarrow>
        (case checkLoop tenant s (wantOf flip ses) of
           Inl e \<Rightarrow> (Inl e, (w, reportRefusal tenant st))
         | Inr missing \<Rightarrow>
             if missing = [] then (Inr (), (w, st))
             else case record_binding R s (wantOf flip ses) missing w of (r, w') \<Rightarrow> (r, (w', st))))"

text \<open>\<^verbatim>\<open>apierrors.IsNotFound\<close>.\<close>

fun is_kube_not_found :: "err \<Rightarrow> bool" where
  "is_kube_not_found (ErrKubeNotFound _) = True"
| "is_kube_not_found (ErrWrap _ e) = is_kube_not_found e"
| "is_kube_not_found _ = False"

definition lift_w :: "('w, 'a) act \<Rightarrow> ('w \<times> 's, 'a) act" where
  "lift_w m ws = (case ws of (w, s) \<Rightarrow> (case m w of (r, w') \<Rightarrow> (r, (w', s))))"

definition getSecret :: "'w resolver \<Rightarrow> string \<Rightarrow> ('w, secret) act" where
  "getSecret R tenant w =
     (case sec_Get (rv_secrets R) (secretName R tenant) w of
        (Inl e, w') \<Rightarrow>
          (Inl (if is_kube_not_found e
                then ErrText (''tenant '' @ tenant @ '' has no credential: secret '' @ quote_str (secretName R tenant) @ '' does not exist'')
                else ErrWrap (''reading the credential of tenant '' @ tenant) e), w')
      | (Inr s, w') \<Rightarrow> (Inr s, w'))"

definition bindingOf :: "secret \<Rightarrow> session \<Rightarrow> binding" where
  "bindingOf s ses =
     \<lparr>bd_session = ses, bd_networkID = label_of (sec_annotations s) NetworkIDAnnotation,
      bd_vipSubnetID = label_of (sec_annotations s) VIPSubnetIDAnnotation,
      bd_vipNetworkID = label_of (sec_annotations s) VIPNetworkIDAnnotation\<rparr>"

definition connect :: "'w resolver \<Rightarrow> bool \<Rightarrow> string \<Rightarrow> ('w \<times> res_state, binding) act" where
  "connect R flip tenant =
     bind_a (lift_w (getSecret R tenant)) (\<lambda>s.
     bind_a (lift_w (wrap_err (''authenticating tenant '' @ tenant) (rv_connect R (credentialsFrom s)))) (\<lambda>ses.
     bind_a (checkBinding R flip tenant s ses) (\<lambda>_.
     ret (bindingOf s ses))))"

text \<open>The entry a caller ends with: the first one stored for a tenant is the one everybody gets.\<close>

definition storeBinding :: "string \<Rightarrow> binding \<Rightarrow> ('w \<times> res_state, binding) act" where
  "storeBinding tenant b ws =
     (case ws of (w, st) \<Rightarrow>
        (case built st tenant of
           Some b' \<Rightarrow> (Inr b', (w, st))
         | None \<Rightarrow> (Inr b, (w, st\<lparr>built := (built st)(tenant \<mapsto> b)\<rparr>))))"

definition notServed :: "string \<Rightarrow> err" where
  "notServed namespace = ErrText (''namespace '' @ quote_str namespace @ '' is not served by this process'')"

definition noTenant :: "string \<Rightarrow> err" where
  "noTenant namespace =
     ErrText (''namespace '' @ quote_str namespace @ '' names no tenant, so no credential can be chosen for it'')"

definition BindingFor :: "'w resolver \<Rightarrow> bool \<Rightarrow> string \<Rightarrow> ('w \<times> res_state, binding) act" where
  "BindingFor R flip namespace ws =
     (case rv_tenantOf R namespace of
        None \<Rightarrow> fail (notServed namespace) ws
      | Some tenant \<Rightarrow>
          if tenant = [] then fail (noTenant namespace) ws
          else case built (snd ws) tenant of
            Some b \<Rightarrow> ret b ws
          | None \<Rightarrow> bind_a (connect R flip tenant) (storeBinding tenant) ws)"

definition SessionFor :: "'w resolver \<Rightarrow> bool \<Rightarrow> string \<Rightarrow> ('w \<times> res_state, session) act" where
  "SessionFor R flip namespace = bind_a (BindingFor R flip namespace) (\<lambda>b. ret (bd_session b))"

section \<open>What the code relies on\<close>

text \<open>
  \<open>A w name\<close> is the annotations of a secret. A read that succeeds answers the secret of that
  name as it is and changes nothing; a merge patch that succeeds sets the keys it names and leaves
  the others, one that fails changes nothing; authenticating does not touch secrets.
\<close>

definition secret_laws :: "'w resolver \<Rightarrow> ('w \<Rightarrow> string \<Rightarrow> string \<Rightarrow> string) \<Rightarrow> bool" where
  "secret_laws R A \<longleftrightarrow>
     (\<forall>n w r w'. sec_Get (rv_secrets R) n w = (r, w') \<longrightarrow> A w' = A w \<and>
        (\<forall>s. r = Inr s \<longrightarrow> sec_name s = n \<and> label_of (sec_annotations s) = A w n)) \<and>
     (\<forall>n as w r w'. sec_Patch (rv_secrets R) n as w = (r, w') \<longrightarrow>
        A w' = A w \<or> (r = Inr () \<and> A w' = (A w)(n := \<lambda>k. case map_of as k of None \<Rightarrow> A w n k | Some v \<Rightarrow> v))) \<and>
     (\<forall>c w r w'. rv_connect R c w = (r, w') \<longrightarrow> A w' = A w)"

lemma secret_lawsD:
  assumes "secret_laws R A"
  shows "sec_Get (rv_secrets R) n w = (r, w') \<Longrightarrow> A w' = A w"
    and "sec_Get (rv_secrets R) n w = (Inr s, w') \<Longrightarrow> sec_name s = n \<and> label_of (sec_annotations s) = A w n"
    and "sec_Patch (rv_secrets R) n as w = (r', w') \<Longrightarrow>
      A w' = A w \<or> A w' = (A w)(n := \<lambda>k. case map_of as k of None \<Rightarrow> A w n k | Some v \<Rightarrow> v)"
    and "rv_connect R c w = (r'', w') \<Longrightarrow> A w' = A w"
  using assms unfolding secret_laws_def by blast+

section \<open>Lemmas\<close>

lemma checkLoop_missing:
  "checkLoop tenant s want = Inr missing \<Longrightarrow> key \<in> set missing \<Longrightarrow>
     label_of (sec_annotations s) key = [] \<and> key \<in> fst ` set want"
proof (induction want arbitrary: missing)
  case (Cons x want)
  obtain k f where x: "x = (k, f)" by fastforce
  from Cons show ?case by (auto simp: x Let_def bind_r_Inr_iff split: if_splits)
qed simp

lemma checkLoop_agrees:
  "checkLoop tenant s want = Inr missing \<Longrightarrow> (key, found) \<in> set want \<Longrightarrow>
     label_of (sec_annotations s) key \<noteq> [] \<Longrightarrow> found \<noteq> [] \<Longrightarrow> label_of (sec_annotations s) key = found"
  by (induction tenant s want arbitrary: missing rule: checkLoop.induct)
    (auto simp: Let_def bind_r_Inr_iff split: if_splits)

lemma record_binding_keeps:
  assumes "secret_laws R A" and "checkLoop tenant s want = Inr missing" and "label_of (sec_annotations s) = A w (sec_name s)"
    and "record_binding R s want missing w = (r, w')" and "A w n k \<noteq> []"
  shows "A w' n k = A w n k"
proof -
  let ?as = "recordAnnotations want missing"
  have "k \<notin> fst ` set ?as" if "n = sec_name s"
    using checkLoop_missing [OF assms(2)] assms(3,5) that by (auto simp: recordAnnotations_def)
  then have "n = sec_name s \<Longrightarrow> map_of ?as k = None" by (simp add: map_of_eq_None_iff)
  moreover from assms(4) have "A w' = A w \<or> A w' = (A w)(sec_name s := \<lambda>k. case map_of ?as k of None \<Rightarrow> A w (sec_name s) k | Some v \<Rightarrow> v)"
    using secret_lawsD(3) [OF assms(1)]
    by (auto simp: record_binding_def Let_def ret_def ignore_if_def split: if_splits prod.splits sum.splits)
  ultimately show ?thesis by auto
qed

lemma lift_w_iff [act_simps]: "lift_w m (w, s) = (r, (w', s')) \<longleftrightarrow> m w = (r, w') \<and> s' = s"
  by (auto simp: lift_w_def split: prod.splits)

lemma getSecret_result:
  assumes "getSecret R tenant w = (r, w')"
  obtains e e' where "sec_Get (rv_secrets R) (secretName R tenant) w = (Inl e, w')" "r = Inl e'"
  | s where "sec_Get (rv_secrets R) (secretName R tenant) w = (Inr s, w')" "r = Inr s"
  using assms by (auto simp: getSecret_def split: prod.splits sum.splits)

text \<open>A value that is recorded stays as it is whatever the connection does.\<close>

lemma checkBinding_keeps:
  assumes "secret_laws R A" and "label_of (sec_annotations s) = A (fst ws) (sec_name s)"
    and "checkBinding R flip tenant s ses ws = (r, ws')" and "A (fst ws) n k \<noteq> []"
  shows "A (fst ws') n k = A (fst ws) n k"
  using assms record_binding_keeps [OF assms(1) _ assms(2)]
  by (cases ws) (auto simp: checkBinding_def split: sum.splits if_splits prod.splits)

lemma connect_keeps:
  assumes laws: "secret_laws R A" and con: "connect R flip tenant ws = (r, ws')" and kept: "A (fst ws) n k \<noteq> []"
  shows "A (fst ws') n k = A (fst ws) n k"
proof -
  obtain w st where ws: "ws = (w, st)" by fastforce
  obtain r1 w1 where g: "getSecret R tenant w = (r1, w1)" by fastforce
  have A1: "A w1 = A w"
    by (rule getSecret_result [OF g]) (auto dest: secret_lawsD(1) [OF laws])
  show ?thesis
  proof (cases r1)
    case (Inl e)
    with con g A1 show ?thesis by (auto simp: connect_def ws bind_a_def lift_w_def)
  next
    case (Inr s)
    with g have s: "sec_Get (rv_secrets R) (secretName R tenant) w = (Inr s, w1)"
      by (elim getSecret_result) auto
    have sA: "label_of (sec_annotations s) = A w (sec_name s)"
      using secret_lawsD(2) [OF laws s] by simp
    obtain r2 w2 where c: "rv_connect R (credentialsFrom s) w1 = (r2, w2)" by fastforce
    have A2: "A w2 = A w" using secret_lawsD(4) [OF laws c] A1 by simp
    show ?thesis
    proof (cases r2)
      case Inl
      with con g c Inr A2 show ?thesis by (auto simp: connect_def ws bind_a_def lift_w_def wrap_err_def)
    next
      case ses: (Inr ses)
      obtain r3 ws3 where cb: "checkBinding R flip tenant s ses (w2, st) = (r3, ws3)" by (meson surj_pair)
      from con g c Inr ses cb have "ws' = ws3"
        by (auto simp: connect_def ws bind_a_def lift_w_def wrap_err_def ret_def split: sum.splits)
      with checkBinding_keeps [OF laws _ cb] sA A2 kept show ?thesis by (simp add: ws)
    qed
  qed
qed

lemma storeBinding_world [simp]: "fst (snd (storeBinding t b ws)) = fst ws"
  by (cases ws) (simp add: storeBinding_def split: option.splits)

lemma connect_session:
  assumes "connect R flip tenant (w, st) = (Inr b, ws')"
  obtains s w1 w2 missing where "sec_Get (rv_secrets R) (secretName R tenant) w = (Inr s, w1)"
    "rv_connect R (credentialsFrom s) w1 = (Inr (bd_session b), w2)"
    "checkLoop tenant s (wantOf flip (bd_session b)) = Inr missing" "b = bindingOf s (bd_session b)" "snd ws' = st"
proof -
  from assms obtain s ses w1 w2 where g: "getSecret R tenant w = (Inr s, w1)"
      and c: "rv_connect R (credentialsFrom s) w1 = (Inr ses, w2)"
      and cb: "checkBinding R flip tenant s ses (w2, st) = (Inr (), ws')" and b: "b = bindingOf s ses"
    by (cases ws') (auto simp: connect_def bind_a_Inr_iff lift_w_iff wrap_err_Inr_iff ret_def)
  from cb obtain missing where m: "checkLoop tenant s (wantOf flip ses) = Inr missing" "snd ws' = st"
    by (auto simp: checkBinding_def split: sum.splits if_splits prod.splits)
  from g have "sec_Get (rv_secrets R) (secretName R tenant) w = (Inr s, w1)" by (elim getSecret_result) auto
  with c m b that [of s w1 w2 missing] show thesis by (simp add: bindingOf_def)
qed

lemma BindingFor_evidence:
  assumes "BindingFor R flip namespace (w, st) = (Inr b, ws')"
  shows "\<exists>t. rv_tenantOf R namespace = Some t \<and> t \<noteq> [] \<and> built (snd ws') t = Some b \<and>
    (built st t = Some b \<or>
     (\<exists>s w1. sec_Get (rv_secrets R) (secretName R t) w = (Inr s, w1) \<and>
        (let p = label_of (sec_annotations s) ProjectAnnotation; r = label_of (sec_annotations s) RegionAnnotation in
         (p = [] \<or> ses_project (bd_session b) = [] \<or> p = ses_project (bd_session b)) \<and>
         (r = [] \<or> ses_region (bd_session b) = [] \<or> r = ses_region (bd_session b)))))"
proof -
  from assms obtain t where t: "rv_tenantOf R namespace = Some t" "t \<noteq> []"
    by (auto simp: BindingFor_def fail_def split: option.splits if_splits)
  show ?thesis
  proof (cases "built st t")
    case (Some b')
    with assms t show ?thesis by (auto simp: BindingFor_def ret_def)
  next
    case None
    with assms t obtain b0 ws1 where c: "connect R flip t (w, st) = (Inr b0, ws1)" and sb: "storeBinding t b0 ws1 = (Inr b, ws')"
      by (auto simp: BindingFor_def bind_a_Inr_iff)
    obtain s w1 w2 missing where s: "sec_Get (rv_secrets R) (secretName R t) w = (Inr s, w1)"
      and m: "checkLoop t s (wantOf flip (bd_session b0)) = Inr missing" and st: "snd ws1 = st"
      by (rule connect_session [OF c]) blast
    have b: "b = b0" "built (snd ws') t = Some b"
      using sb st None by (cases ws1; auto simp: storeBinding_def split: option.splits)+
    have "(ProjectAnnotation, ses_project (bd_session b)) \<in> set (wantOf flip (bd_session b0))"
      "(RegionAnnotation, ses_region (bd_session b)) \<in> set (wantOf flip (bd_session b0))"
      by (simp_all add: wantOf_def b Let_def)
    with checkLoop_agrees [OF m] show ?thesis
      unfolding Let_def using t b(2) s by blast
  qed
qed

section \<open>Properties\<close>

text \<open>
  A tenant's recorded binding is never overwritten: whatever a call for a namespace does and
  however it ends, every annotation that had a value has that value afterwards, in every secret.
\<close>

theorem binding_never_overwritten:
  assumes "secret_laws R A" and "A (fst ws) n k \<noteq> []"
  shows "A (fst (snd (BindingFor R flip namespace ws))) n k = A (fst ws) n k"
proof -
  have "A (fst (snd (bind_a (connect R flip t) (storeBinding t) ws))) n k = A (fst ws) n k" for t
  proof -
    obtain r ws' where c: "connect R flip t ws = (r, ws')" by (meson surj_pair)
    from connect_keeps [OF assms(1) c assms(2)] c show ?thesis
      by (cases r) (auto simp: bind_a_def)
  qed
  then show ?thesis
    by (auto simp: BindingFor_def split: option.splits)
qed


definition sample_secret :: secret where
  "sample_secret = \<lparr>sec_name = ''t1'', sec_data = [(''OS_USERNAME'', ''u'')],
     sec_annotations = [(''knaas.io/project-id'', ''p1'')]\<rparr>"

text \<open>A secret store with one secret, and an authentication that always answers the same project.\<close>

definition sample_resolver :: "string \<Rightarrow> (string \<times> string) list resolver" where
  "sample_resolver project =
     \<lparr>rv_secrets = \<lparr>sec_Get = (\<lambda>n w. if n = ''t1'' then (Inr (sample_secret\<lparr>sec_annotations := w\<rparr>), w)
                                   else (Inl (ErrKubeNotFound n), w)),
                   sec_Patch = (\<lambda>n as w. if n = ''t1'' then (Inr (), as @ w) else (Inl (ErrText ''gone''), w))\<rparr>,
      rv_tenantOf = (\<lambda>ns. if ns = ''prod'' then Some ''t1'' else if ns = ''bare'' then Some [] else None),
      rv_secretName = None, rv_connect = (\<lambda>_ w. (Inr \<lparr>ses_project = project, ses_region = ''r1''\<rparr>, w))\<rparr>"

definition sample_annotations :: "(string \<times> string) list \<Rightarrow> string \<Rightarrow> string \<Rightarrow> string" where
  "sample_annotations w n k = (if n = ''t1'' then label_of w k else [])"

lemma sample_secret_laws: "secret_laws (sample_resolver p) sample_annotations"
  by (auto simp: secret_laws_def sample_resolver_def sample_annotations_def sample_secret_def label_of_def fun_eq_iff
      map_add_def split: if_splits option.splits)

definition sample_bind :: "string \<Rightarrow> binding result \<times> (string \<times> string) list \<times> res_state" where
  "sample_bind project = BindingFor (sample_resolver project) False ''prod'' ([(''knaas.io/project-id'', ''p1'')], res_init)"

theorem binding_never_overwritten_witness:
  "sample_annotations (fst (snd (sample_bind ''p2''))) ''t1'' ''knaas.io/project-id'' = ''p1'' \<and> isl (fst (sample_bind ''p2''))"
proof -
  have 1: "sample_annotations [(''knaas.io/project-id'', ''p1'')] ''t1'' ''knaas.io/project-id'' = ''p1''"
    "isl (fst (sample_bind ''p2''))" by code_simp+
  then have "sample_annotations (fst ([(''knaas.io/project-id'', ''p1'')], res_init)) ''t1'' ''knaas.io/project-id'' \<noteq> []" by simp
  from binding_never_overwritten [OF sample_secret_laws this, of "''p2''" False "''prod''"] 1 show ?thesis
    by (simp add: sample_bind_def)
qed


text \<open>Connections of a tenant complete in some order, each with the session it obtained.\<close>

fun storeAll :: "(string \<times> binding) list \<Rightarrow> 'w \<times> res_state \<Rightarrow> binding list \<times> ('w \<times> res_state)" where
  "storeAll [] ws = ([], ws)"
| "storeAll ((t, b) # xs) ws =
     (case storeBinding t b ws of (r, ws') \<Rightarrow> (case storeAll xs ws' of (bs, ws'') \<Rightarrow> (projr r # bs, ws'')))"

text \<open>
  Callers that connect the same tenant at the same time end with one session: however their
  connections complete and in whatever order they store them, each of them is given the one that
  was stored first, and a tenant's entry, once there, is never replaced.
\<close>

theorem first_session_wins:
  "let (bs, ws') = storeAll xs (w, st) in
     list_all2 (\<lambda>(t, _) b. built (snd ws') t = Some b) xs bs \<and>
     built (snd ws') = (\<lambda>t. case built st t of Some b \<Rightarrow> Some b | None \<Rightarrow> map_of xs t)"
proof (induction xs arbitrary: st)
  case Nil
  then show ?case by (auto simp: fun_eq_iff split: option.splits)
next
  case (Cons x xs)
  obtain t b where x: "x = (t, b)" by fastforce
  show ?case
  proof (cases "built st t")
    case None
    obtain bs ws' where bs: "storeAll xs (w, st\<lparr>built := (built st)(t \<mapsto> b)\<rparr>) = (bs, ws')" by (meson surj_pair)
    from Cons [of "st\<lparr>built := (built st)(t \<mapsto> b)\<rparr>"]
    have IH: "list_all2 (\<lambda>(t, _) b. built (snd ws') t = Some b) xs bs \<and>
      built (snd ws') = (\<lambda>u. case built (st\<lparr>built := (built st)(t \<mapsto> b)\<rparr>) u of Some b \<Rightarrow> Some b | None \<Rightarrow> map_of xs u)"
      unfolding bs Let_def prod.case .
    note eq = conjunct2 [OF IH]
    have at: "built (snd ws') t = Some b" by (simp add: eq)
    have "built (snd ws') = (\<lambda>u. case built st u of Some b \<Rightarrow> Some b | None \<Rightarrow> map_of (x # xs) u)"
      by (auto simp: eq x None fun_eq_iff split: option.splits)
    with bs None conjunct1 [OF IH] at show ?thesis
      by (simp add: x storeBinding_def)
  next
    case (Some b')
    obtain bs ws' where bs: "storeAll xs (w, st) = (bs, ws')" by (meson surj_pair)
    from Cons [of st] have IH: "list_all2 (\<lambda>(t, _) b. built (snd ws') t = Some b) xs bs \<and>
      built (snd ws') = (\<lambda>u. case built st u of Some b \<Rightarrow> Some b | None \<Rightarrow> map_of xs u)"
      unfolding bs Let_def prod.case .
    note eq = conjunct2 [OF IH]
    have at: "built (snd ws') t = Some b'" by (simp add: eq Some)
    have "built (snd ws') = (\<lambda>u. case built st u of Some b \<Rightarrow> Some b | None \<Rightarrow> map_of (x # xs) u)"
      by (auto simp: eq x Some fun_eq_iff split: option.splits)
    with bs Some conjunct1 [OF IH] at show ?thesis
      by (simp add: x storeBinding_def)
  qed
qed

end

