(* ===== verification/Capsule_Source.thy ===== *)
theory Capsule_Source
  imports Zun_Capsule Tenant_Resolver
begin

text \<open>
  \<^verbatim>\<open>pkg/provider/capsules.go\<close> and \<^verbatim>\<open>pkg/zun/resolved.go\<close>: where the provider gets the
  capsule API a namespace's work belongs in. The Go interface \<^verbatim>\<open>Capsules\<close> is the locale
  \<open>capsule_source\<close>; its two implementations, one API for everything and one per tenant resolved
  through its credential, are interpretations of it.
\<close>

section \<open>The interface\<close>

text \<open>
  \<open>For\<close> resolves a namespace, \<open>Each\<close> calls its argument with each tenant and its API, and
  \<open>tenantOf\<close> names a namespace's tenant. \<open>quiet Q\<close> says that the bookkeeping of the source
  itself does not affect \<open>Q\<close>: then only the calls handed in can, and they are called with
  APIs that \<open>For\<close> hands out. An error of \<open>Each\<close> is
  one of those calls', and a namespace that resolves is a served one.
\<close>

locale capsule_source =
  fixes For :: "string \<Rightarrow> ('v, 'api) act"
    and Each :: "(string \<Rightarrow> 'api \<Rightarrow> ('v, unit) act) \<Rightarrow> ('v, unit) act"
    and tenantOf :: "string \<Rightarrow> string option"
    and quiet :: "('v \<Rightarrow> bool) \<Rightarrow> bool"
  assumes for_quiet: "quiet Q \<Longrightarrow> keeps Q (For ns)"
    and each_handed: "quiet Q \<Longrightarrow> (\<And>ns v api v'. Q v \<Longrightarrow> For ns v = (Inr api, v') \<Longrightarrow> handed api) \<Longrightarrow>
      (\<And>t api. handed api \<Longrightarrow> keeps Q (fn t api)) \<Longrightarrow> keeps Q (Each fn)"
    and each_fails: "Each fn v = (Inl e, v') \<Longrightarrow> \<exists>t api u. fn t api u = (Inl e, v')"
    and for_served: "For ns v = (Inr api, v') \<Longrightarrow> tenantOf ns \<noteq> None"
begin

lemma each_keeps: "quiet Q \<Longrightarrow> (\<And>t api. keeps Q (fn t api)) \<Longrightarrow> keeps Q (Each fn)"
  by (rule each_handed [of Q "\<lambda>_. True"]) auto

lemma each_total: "(\<And>t api u. \<exists>u'. fn t api u = (Inr (), u')) \<Longrightarrow> \<exists>v'. Each fn v = (Inr (), v')"
proof -
  assume total: "\<And>t api u. \<exists>u'. fn t api u = (Inr (), u')"
  obtain r v' where r: "Each fn v = (r, v')" by (meson surj_pair)
  show ?thesis
  proof (cases r)
    case (Inl e)
    with r each_fails obtain t api u where "fn t api u = (Inl e, v')" by blast
    with total [of t api u] show ?thesis by auto
  qed (use r in auto)
qed

lemma unserved_refused: "tenantOf ns = None \<Longrightarrow> \<exists>e v'. For ns v = (Inl e, v')"
  by (metis for_served old.sum.exhaust surj_pair)

end

section \<open>One API for everything\<close>

definition StaticFor :: "'api \<Rightarrow> string \<Rightarrow> ('v, 'api) act" where
  "StaticFor api ns = ret api"

definition StaticEach :: "'api \<Rightarrow> (string \<Rightarrow> 'api \<Rightarrow> ('v, unit) act) \<Rightarrow> ('v, unit) act" where
  "StaticEach api fn = fn [] api"

definition StaticTenantOf :: "string \<Rightarrow> string option" where
  "StaticTenantOf ns = Some []"

interpretation static: capsule_source "StaticFor api" "StaticEach api" StaticTenantOf "\<lambda>_. True" for api
proof
  show "keeps Q (StaticEach api fn)"
    if "\<And>ns v a v'. Q v \<Longrightarrow> StaticFor api ns v = (Inr a, v') \<Longrightarrow> handed a" and "\<And>t a. handed a \<Longrightarrow> keeps Q (fn t a)"
    for Q handed fn
    unfolding StaticEach_def by (rule keepsI, rule keepsD [OF that(2) [OF that(1)]]) (auto simp: StaticFor_def ret_def)
qed (auto simp: StaticFor_def StaticEach_def StaticTenantOf_def ret_def)

section \<open>One API per tenant\<close>

text \<open>The world, the resolver's cache and the APIs built so far, by project.\<close>

type_synonym ('w, 'api) rworld = "'w \<times> res_state \<times> (string \<rightharpoonup> 'api)"

definition with_resolver :: "('w \<times> res_state, 'a) act \<Rightarrow> (('w, 'api) rworld, 'a) act" where
  "with_resolver m v = (case v of (w, st, apis) \<Rightarrow> (case m (w, st) of (r, (w', st')) \<Rightarrow> (r, (w', st', apis))))"

definition apiFor :: "(session \<Rightarrow> 'api result) \<Rightarrow> session \<Rightarrow> (('w, 'api) rworld, 'api) act" where
  "apiFor mk ses v =
     (case v of (w, st, apis) \<Rightarrow>
        (case apis (ses_project ses) of
           Some api \<Rightarrow> (Inr api, v)
         | None \<Rightarrow> (case mk ses of Inl e \<Rightarrow> (Inl e, v) | Inr api \<Rightarrow> (Inr api, (w, st, apis(ses_project ses \<mapsto> api))))))"

definition ResolvedFor ::
  "'w resolver \<Rightarrow> bool \<Rightarrow> (session \<Rightarrow> 'api result) \<Rightarrow> string \<Rightarrow> (('w, 'api) rworld, 'api) act" where
  "ResolvedFor R flip mk namespace = bind_a (with_resolver (SessionFor R flip namespace)) (apiFor mk)"

text \<open>
  A tenant that does not resolve is skipped; an error of the call ends the walk. The calls also
  see the variables of the function that walks, which the source does not touch.
\<close>

fun ResolvedEach ::
  "'w resolver \<Rightarrow> bool \<Rightarrow> (session \<Rightarrow> 'api result) \<Rightarrow> (string \<Rightarrow> string option) \<Rightarrow> string list
     \<Rightarrow> (string \<Rightarrow> 'api \<Rightarrow> (('w, 'api) rworld \<times> 'l, unit) act) \<Rightarrow> (('w, 'api) rworld \<times> 'l, unit) act" where
  "ResolvedEach R flip mk nsOf [] fn v = (Inr (), v)"
| "ResolvedEach R flip mk nsOf (t # ts) fn v =
     (case nsOf t of
        None \<Rightarrow> ResolvedEach R flip mk nsOf ts fn v
      | Some ns \<Rightarrow>
          (case lift_w (ResolvedFor R flip mk ns) v of
             (Inl _, v') \<Rightarrow> ResolvedEach R flip mk nsOf ts fn v'
           | (Inr api, v') \<Rightarrow>
               (case fn t api v' of
                  (Inl e, v'') \<Rightarrow> (Inl e, v'')
                | (Inr _, v'') \<Rightarrow> ResolvedEach R flip mk nsOf ts fn v'')))"

section \<open>Lemmas\<close>

lemma BindingFor_served: "BindingFor R flip ns ws = (Inr b, ws') \<Longrightarrow> \<exists>t. rv_tenantOf R ns = Some t \<and> t \<noteq> []"
  by (auto simp: BindingFor_def fail_def split: option.splits if_splits)

lemma with_resolver_iff [act_simps]:
  "with_resolver m (w, st, apis) = (r, (w', st', apis')) \<longleftrightarrow> m (w, st) = (r, (w', st')) \<and> apis' = apis"
  by (auto simp: with_resolver_def split: prod.splits)

lemma ResolvedFor_result:
  assumes "ResolvedFor R flip mk ns (w, st, apis) = (Inr api, v')"
  obtains b w1 st1 where "BindingFor R flip ns (w, st) = (Inr b, (w1, st1))"
    "apiFor mk (bd_session b) (w1, st1, apis) = (Inr api, v')"
  using assms by (auto simp: ResolvedFor_def SessionFor_def bind_a_Inr_iff with_resolver_iff ret_def split_paired_Ex)

lemma ResolvedFor_served: "ResolvedFor R flip mk ns v = (Inr api, v') \<Longrightarrow> rv_tenantOf R ns \<noteq> None"
proof -
  assume "ResolvedFor R flip mk ns v = (Inr api, v')"
  moreover obtain w st apis where "v = (w, st, apis)" by (metis prod_cases3)
  ultimately show ?thesis by (auto elim!: ResolvedFor_result dest: BindingFor_served)
qed

lemma ResolvedEach_keeps:
  assumes "\<And>ns. keeps Q (lift_w (ResolvedFor R flip mk ns))"
    and "\<And>ns v api v'. Q v \<Longrightarrow> lift_w (ResolvedFor R flip mk ns) v = (Inr api, v') \<Longrightarrow> handed api"
    and "\<And>t api. handed api \<Longrightarrow> keeps Q (fn t api)" and "Q v"
  shows "Q (snd (ResolvedEach R flip mk nsOf ts fn v))"
  using assms(4)
proof (induction ts arbitrary: v)
  case (Cons t ts)
  show ?case
  proof (cases "nsOf t")
    case None
    with Cons show ?thesis by simp
  next
    case (Some ns)
    obtain r v1 where r: "lift_w (ResolvedFor R flip mk ns) v = (r, v1)" by (meson surj_pair)
    with keepsD [OF assms(1), of v ns] Cons.prems have v1: "Q v1" by simp
    show ?thesis
    proof (cases r)
      case (Inr api)
      obtain r2 v2 where r2: "fn t api v1 = (r2, v2)" by (meson surj_pair)
      with keepsD [OF assms(3) [OF assms(2)], of v ns api v1 v1 t] v1 Cons.prems r Inr have "Q v2" by simp
      with Some r Inr r2 Cons.IH show ?thesis by (auto split: sum.splits)
    qed (use Some r v1 Cons.IH in auto)
  qed
qed simp

lemma ResolvedEach_fails:
  "ResolvedEach R flip mk nsOf ts fn v = (Inl e, v') \<Longrightarrow> \<exists>t api u. fn t api u = (Inl e, v')"
proof (induction ts arbitrary: v)
  case (Cons t ts)
  show ?case
  proof (cases "nsOf t")
    case (Some ns)
    obtain r v1 where r: "lift_w (ResolvedFor R flip mk ns) v = (r, v1)" by (meson surj_pair)
    show ?thesis
    proof (cases r)
      case (Inr api)
      obtain r2 v2 where r2: "fn t api v1 = (r2, v2)" by (meson surj_pair)
      show ?thesis
      proof (cases r2)
        case (Inl e')
        with Cons.prems Some r Inr r2 have "fn t api v1 = (Inl e, v')" by simp
        then show ?thesis by blast
      qed (use Cons Some r Inr r2 in simp)
    qed (use Cons Some r in auto)
  qed (use Cons in simp)
qed simp

interpretation resolved: capsule_source "\<lambda>ns. lift_w (ResolvedFor R flip mk ns)" "ResolvedEach R flip mk nsOf ts" "rv_tenantOf R"
  "\<lambda>Q. \<forall>ns. keeps Q (lift_w (ResolvedFor R flip mk ns))" for R flip mk nsOf ts
proof
  show "keeps Q (ResolvedEach R flip mk nsOf ts fn)"
    if "\<forall>ns. keeps Q (lift_w (ResolvedFor R flip mk ns))"
      and "\<And>ns v api v'. Q v \<Longrightarrow> lift_w (ResolvedFor R flip mk ns) v = (Inr api, v') \<Longrightarrow> handed api"
      and "\<And>t api. handed api \<Longrightarrow> keeps Q (fn t api)" for Q handed fn
    by (rule keepsI, rule ResolvedEach_keeps [where handed = handed]) (use that in blast)+
  show "rv_tenantOf R ns \<noteq> None" if "lift_w (ResolvedFor R flip mk ns) v = (Inr api, v')" for ns v api v'
    using that by (cases v; cases v') (auto simp: lift_w_iff dest: ResolvedFor_served)
qed (blast, erule ResolvedEach_fails)

section \<open>Properties\<close>

text \<open>Every API in the cache was built from a session of the project it is filed under.\<close>

definition apis_ok :: "(session \<Rightarrow> 'api result) \<Rightarrow> (string \<rightharpoonup> 'api) \<Rightarrow> bool" where
  "apis_ok mk apis \<longleftrightarrow> (\<forall>p api. apis p = Some api \<longrightarrow> (\<exists>ses. ses_project ses = p \<and> mk ses = Inr api))"

lemma apiFor_ok:
  assumes "apiFor mk ses (w, st, apis) = (r, (w', st', apis'))" and "apis_ok mk apis"
  shows "apis_ok mk apis' \<and> (\<forall>api. r = Inr api \<longrightarrow> (\<exists>ses'. ses_project ses' = ses_project ses \<and> mk ses' = Inr api))"
  using assms unfolding apiFor_def apis_ok_def by (auto split: option.splits sum.splits if_splits)

lemma ResolvedFor_apis_ok:
  assumes "ResolvedFor R flip mk ns (w, st, apis) = (r, (w', st', apis'))" and "apis_ok mk apis"
  shows "apis_ok mk apis' \<and> (\<forall>api. r = Inr api \<longrightarrow> (\<exists>ses. mk ses = Inr api))"
proof -
  obtain q w1 st1 where s: "SessionFor R flip ns (w, st) = (q, (w1, st1))" by (metis prod_cases3)
  show ?thesis
  proof (cases q)
    case (Inl e)
    with s assms show ?thesis by (auto simp: ResolvedFor_def bind_a_def with_resolver_def)
  next
    case (Inr ses)
    with s assms(1) have "apiFor mk ses (w1, st1, apis) = (r, (w', st', apis'))"
      by (auto simp: ResolvedFor_def bind_a_def with_resolver_def)
    from apiFor_ok [OF this assms(2)] show ?thesis by blast
  qed
qed


definition sample_for :: "session result \<times> ((string \<times> string) list, session) rworld" where
  "sample_for = ResolvedFor (sample_resolver ''p1'') False Inr ''prod'' ([], res_init, Map.empty)"


text \<open>
  The APIs are filed under the project alone. A session that could not say which project it is in
  reports the empty project, and the binding check lets it pass, so two tenants whose sessions
  cannot say share the API that was built first: the second tenant's work goes to the first one's.
\<close>

definition two_tenants :: "unit resolver" where
  "two_tenants =
     \<lparr>rv_secrets = \<lparr>sec_Get = (\<lambda>n w. (Inr \<lparr>sec_name = n, sec_data = [(''OS_REGION_NAME'', n)], sec_annotations = []\<rparr>, w)),
                   sec_Patch = (\<lambda>n as w. (Inr (), w))\<rparr>,
      rv_tenantOf = (\<lambda>ns. Some ns), rv_secretName = None,
      rv_connect = (\<lambda>c w. (Inr \<lparr>ses_project = [], ses_region = cr_region c\<rparr>, w))\<rparr>"

theorem unknown_project_shares_api:
  "(let (r1, v1) = ResolvedFor two_tenants False Inr ''a'' ((), res_init, Map.empty);
        (r2, v2) = ResolvedFor two_tenants False Inr ''b'' v1
    in map_option bd_session (built (fst (snd v2)) ''b'') = Some \<lparr>ses_project = [], ses_region = ''b''\<rparr> \<and>
       r2 = Inr \<lparr>ses_project = [], ses_region = ''a''\<rparr>)"
  by code_simp

end
