(* ===== verification/Provider_State.thy ===== *)
theory Provider_State
  imports Capsule_Source Netpol_Reconciler "HOL-Library.DAList"
begin

text \<open>
  \<^verbatim>\<open>pkg/provider/provider.go\<close>: the pods a node runs, as its provider tracks them. The state is
  the map of tracked pods, the map of deleted ones kept only to report their end, and the
  notifications handed to the node controller. Creating a pod reads its files, claims and network
  and builds a template before it calls Zun; those steps, which read and do not change what is
  modelled here, are the fields of a record, called in the order the code has them.
\<close>

section \<open>State\<close>

record provider =
  pv_pods :: "(string, pod) alist"
  pv_deleted :: "string \<rightharpoonup> string"
  pv_unowned :: "string list"
  pv_notified :: "pod list"

definition New :: provider where
  "New = \<lparr>pv_pods = DAList.empty, pv_deleted = Map.empty, pv_unowned = [], pv_notified = []\<rparr>"

text \<open>
  The source of capsule APIs with the calls made on them, all on the source's own world:
  \<open>static_source\<close> and \<open>resolved_source\<close> below are the two the program has.
\<close>

record ('s, 'api) source =
  so_For :: "string \<Rightarrow> ('s, 'api) act"
  so_TenantOf :: "string \<Rightarrow> string option"
  so_list :: "'api \<Rightarrow> ('s, (string \<times> capsule) list) act"
  so_listAll :: "'api \<Rightarrow> ('s, (string \<times> capsule list) list) act"
  so_create :: "'api \<Rightarrow> string \<Rightarrow> ('s, capsule) act"
  so_delete :: "'api \<Rightarrow> string \<Rightarrow> ('s, unit) act"

definition static_source :: "'w zun_api \<Rightarrow> ('w, 'w zun_api) source" where
  "static_source Z =
     \<lparr>so_For = StaticFor Z, so_TenantOf = StaticTenantOf, so_list = ListManaged, so_listAll = ListManagedAll,
      so_create = CapsuleCreate, so_delete = CapsuleDelete\<rparr>"

definition resolved_source ::
  "'w resolver \<Rightarrow> bool \<Rightarrow> (session \<Rightarrow> 'w zun_api result) \<Rightarrow> (('w, 'w zun_api) rworld, 'w zun_api) source" where
  "resolved_source R flip mk =
     \<lparr>so_For = ResolvedFor R flip mk, so_TenantOf = rv_tenantOf R, so_list = (\<lambda>Z. lift_w (ListManaged Z)),
      so_listAll = (\<lambda>Z. lift_w (ListManagedAll Z)), so_create = (\<lambda>Z tpl. lift_w (CapsuleCreate Z tpl)),
      so_delete = (\<lambda>Z i. lift_w (CapsuleDelete Z i))\<rparr>"

record 's config =
  cf_serves :: "string \<Rightarrow> bool"
  cf_nodeName :: string
  cf_networkID :: string
  cf_networkIDFor :: "(string \<Rightarrow> ('s, string) act) option"

record ('s, 'f, 'd, 'c) preparation =
  pr_files :: "pod \<Rightarrow> ('s, 'f) act"
  pr_dns :: "pod \<Rightarrow> 's \<Rightarrow> 'd \<times> 's"
  pr_claims :: "pod \<Rightarrow> ('s, 'c) act"
  pr_groups :: "pod \<Rightarrow> string list option result"
  pr_template :: "pod \<Rightarrow> string list option \<Rightarrow> string \<Rightarrow> 'f \<Rightarrow> 'd \<Rightarrow> 'c \<Rightarrow> string result"

section \<open>Operations\<close>

definition not_served :: "'s config \<Rightarrow> string \<Rightarrow> err" where
  "not_served cfg namespace =
     ErrAsNotFound (ErrText (''namespace '' @ quote_str namespace @ '' is not served by node '' @ cf_nodeName cfg))"

definition authorize :: "'s config \<Rightarrow> string \<Rightarrow> unit result" where
  "authorize cfg namespace = (if cf_serves cfg namespace then Inr () else Inl (not_served cfg namespace))"

definition not_running :: "string \<Rightarrow> string \<Rightarrow> err" where
  "not_running namespace name =
     ErrAsNotFound (ErrText (''pod '' @ namespace @ ''/'' @ name @ '' is not running on this node''))"

text \<open>\<^verbatim>\<open>errdefs.IsNotFound\<close> looks through wrapped errors.\<close>

fun isNotFound :: "err \<Rightarrow> bool" where
  "isNotFound (ErrAsNotFound _) = True"
| "isNotFound (ErrWrap _ e) = isNotFound e"
| "isNotFound _ = False"

definition CapsuleName :: "pod \<Rightarrow> string" where
  "CapsuleName pod = ''kubezun-'' @ pod_uid pod"

definition key_of :: "pod \<Rightarrow> string" where
  "key_of pod = PodKey (pod_namespace pod) (pod_name pod)"

text \<open>A deferred \<^verbatim>\<open>recoverAs\<close> turns a panic below it into an error.\<close>

fun recovered :: "string \<Rightarrow> err \<Rightarrow> err" where
  "recovered op (ErrPanic t) = ErrText (op @ '' panicked: '' @ t)"
| "recovered op e = e"

definition recoverAs :: "string \<Rightarrow> ('s, 'a) act \<Rightarrow> ('s, 'a) act" where
  "recoverAs op m = with_err (recovered op) m"

definition securityGroupsFor :: "('w reconciler \<times> rec_state) option \<Rightarrow> pod \<Rightarrow> string list option result" where
  "securityGroupsFor policies pod =
     (case policies of
        None \<Rightarrow> Inr None
      | Some (R, s) \<Rightarrow>
          (case GroupsFor R s pod of
             Inl e \<Rightarrow> Inl (ErrWrap (''deciding the security groups for '' @ pod_namespace pod @ ''/'' @ pod_name pod) e)
           | Inr groups \<Rightarrow> Inr (Some groups)))"

definition adoptPod :: "time \<Rightarrow> pod \<Rightarrow> provider \<Rightarrow> provider" where
  "adoptPod now pod p =
     (let adopted = (if pod_phase pod = []
                     then pod\<lparr>pod_phase := ''Pending'', pod_reason := ''Creating'', pod_conditions := PodConditions ''Creating'' False now\<rparr>
                     else pod)
      in p\<lparr>pv_pods := DAList.update (key_of pod) adopted (pv_pods p), pv_deleted := (pv_deleted p)(key_of pod := None)\<rparr>)"

definition fresh_status :: "container_state \<Rightarrow> string \<times> string \<Rightarrow> container_status" where
  "fresh_status st c = \<lparr>cs_name = fst c, cs_image = snd c, cs_state = st, cs_ready = False, cs_restarts = 0, cs_id = []\<rparr>"

definition tracked_pod :: "time \<Rightarrow> string \<Rightarrow> string \<Rightarrow> pod \<Rightarrow> pod" where
  "tracked_pod now phase reason pod =
     pod\<lparr>pod_phase := phase, pod_reason := reason, pod_start := Some now,
         pod_conditions := PodConditions reason False now,
         pod_statuses := map (fresh_status (CSWaiting ''ContainerCreating'' [])) (pod_containers pod)\<rparr>"

definition trackPod :: "time \<Rightarrow> string \<Rightarrow> string \<Rightarrow> pod \<Rightarrow> provider \<Rightarrow> provider" where
  "trackPod now phase reason pod p =
     p\<lparr>pv_pods := DAList.update (key_of pod) (tracked_pod now phase reason pod) (pv_pods p),
       pv_deleted := (pv_deleted p)(key_of pod := None),
       pv_notified := pv_notified p @ [tracked_pod now phase reason pod]\<rparr>"

text \<open>The listing that looks for the pod's capsule; one that fails is taken as "none found".\<close>

definition existing_capsule :: "('s, 'api) source \<Rightarrow> 'api \<Rightarrow> pod \<Rightarrow> 's \<Rightarrow> bool \<times> 's" where
  "existing_capsule S api pod s =
     (case so_list S api s of
        (Inl _, s') \<Rightarrow> (False, s')
      | (Inr existing, s') \<Rightarrow>
          ((case map_of existing (key_of pod) of None \<Rightarrow> False | Some c \<Rightarrow> PodUID c = pod_uid pod), s'))"

definition networkFor :: "'s config \<Rightarrow> pod \<Rightarrow> ('s, string) act" where
  "networkFor cfg pod =
     (case cf_networkIDFor cfg of
        None \<Rightarrow> ret (cf_networkID cfg)
      | Some f \<Rightarrow> bind_a (f (pod_namespace pod)) (\<lambda>resolved. ret (if resolved \<noteq> [] then resolved else cf_networkID cfg)))"

definition buildFor :: "'s config \<Rightarrow> ('s, 'f, 'd, 'c) preparation \<Rightarrow> pod \<Rightarrow> ('s, string) act" where
  "buildFor cfg pr pod =
     bind_a (pr_files pr pod) (\<lambda>files.
     bind_a (\<lambda>s. case pr_dns pr pod s of (d, s') \<Rightarrow> (Inr d, s')) (\<lambda>dns.
     bind_a (pr_claims pr pod) (\<lambda>claims.
     bind_a (networkFor cfg pod) (\<lambda>networkID.
     bind_a (lift_r (pr_groups pr pod)) (\<lambda>groups.
     lift_r (pr_template pr pod groups networkID files dns claims))))))"

definition CreatePod ::
  "'s config \<Rightarrow> ('s, 'api) source \<Rightarrow> ('s, 'f, 'd, 'c) preparation \<Rightarrow> time \<Rightarrow> pod \<Rightarrow> ('s \<times> provider, unit) act" where
  "CreatePod cfg S pr now pod =
     recoverAs ''CreatePod''
       (bind_a (lift_r (authorize cfg (pod_namespace pod))) (\<lambda>_.
        bind_a (lift_w (so_For S (pod_namespace pod))) (\<lambda>api.
        bind_a (lift_w (\<lambda>s. case existing_capsule S api pod s of (b, s') \<Rightarrow> (Inr b, s'))) (\<lambda>exists_already.
        if exists_already then modify (adoptPod now pod)
        else
          bind_a (lift_w (buildFor cfg pr pod)) (\<lambda>tpl.
          bind_a (lift_w (so_create S api tpl)) (\<lambda>_.
          modify (trackPod now ''Pending'' ''Creating'' pod)))))))"

definition UpdatePod ::
  "'s config \<Rightarrow> ('s, 'api) source \<Rightarrow> ('s, 'f, 'd, 'c) preparation \<Rightarrow> time \<Rightarrow> pod \<Rightarrow> ('s \<times> provider, unit) act" where
  "UpdatePod cfg S pr now pod sp =
     (case authorize cfg (pod_namespace pod) of
        Inl e \<Rightarrow> (Inl e, sp)
      | Inr _ \<Rightarrow>
          if (case DAList.lookup (pv_pods (snd sp)) (key_of pod) of None \<Rightarrow> False | Some old \<Rightarrow> pod_uid old = pod_uid pod)
          then (Inr (), sp)
          else if pod_deleting pod then (Inr (), sp)
          else CreatePod cfg S pr now pod sp)"

definition terminated_pod :: "time \<Rightarrow> pod \<Rightarrow> pod" where
  "terminated_pod now pod =
     (let statuses = (if pod_statuses pod = [] then map (fresh_status CSNone) (pod_containers pod) else pod_statuses pod)
      in pod\<lparr>pod_phase := ''Succeeded'', pod_reason := ''Completed'', pod_conditions := PodConditions ''Deleted'' False now,
             pod_statuses := map (\<lambda>c. c\<lparr>cs_ready := False, cs_state := CSTerminated 0 ''Deleted'' [] 0 now\<rparr>) statuses\<rparr>)"

definition markDeleted :: "time \<Rightarrow> pod \<Rightarrow> provider \<Rightarrow> provider" where
  "markDeleted now pod p =
     (let old = (case DAList.lookup (pv_pods p) (key_of pod) of None \<Rightarrow> pod | Some t \<Rightarrow> t);
          terminated = terminated_pod now old
      in p\<lparr>pv_pods := DAList.update (key_of pod) terminated (pv_pods p),
           pv_deleted := (pv_deleted p)(key_of pod \<mapsto> pod_uid terminated),
           pv_notified := pv_notified p @ [terminated]\<rparr>)"

definition DeletePod :: "'s config \<Rightarrow> ('s, 'api) source \<Rightarrow> time \<Rightarrow> pod \<Rightarrow> ('s \<times> provider, unit) act" where
  "DeletePod cfg S now pod =
     recoverAs ''DeletePod''
       (bind_a (lift_r (authorize cfg (pod_namespace pod))) (\<lambda>_.
        bind_a (lift_w (so_For S (pod_namespace pod))) (\<lambda>api.
        bind_a (lift_w (ignore_if isNotFound (so_delete S api (CapsuleName pod)))) (\<lambda>_.
        modify (markDeleted now pod)))))"

definition GetPod :: "'s config \<Rightarrow> provider \<Rightarrow> string \<Rightarrow> string \<Rightarrow> pod result" where
  "GetPod cfg p namespace name =
     bind_r (authorize cfg namespace) (\<lambda>_.
       (case DAList.lookup (pv_pods p) (PodKey namespace name) of
          None \<Rightarrow> Inl (not_running namespace name)
        | Some pod \<Rightarrow>
            if pv_deleted p (PodKey namespace name) = Some (pod_uid pod) then Inl (not_running namespace name)
            else Inr pod))"

definition GetPods :: "provider \<Rightarrow> pod list" where
  "GetPods p = map snd (DAList.impl_of (pv_pods p))"

section \<open>Lemmas\<close>

text \<open>A pod is kept under its own key, and a deleted mark is always the mark of the pod kept there.\<close>

definition provider_ok :: "provider \<Rightarrow> bool" where
  "provider_ok p \<longleftrightarrow>
     (\<forall>k pd. DAList.lookup (pv_pods p) k = Some pd \<longrightarrow> key_of pd = k) \<and>
     (\<forall>k u. pv_deleted p k = Some u \<longrightarrow> (\<exists>pd. DAList.lookup (pv_pods p) k = Some pd \<and> pod_uid pd = u))"

lemma provider_ok_New [simp]: "provider_ok New"
  by (simp add: provider_ok_def New_def)

lemma identity_simps [simp]:
  "key_of (tracked_pod now phase reason pod) = key_of pod" "pod_uid (tracked_pod now phase reason pod) = pod_uid pod"
  "key_of (terminated_pod now pod) = key_of pod" "pod_uid (terminated_pod now pod) = pod_uid pod"
  by (simp_all add: key_of_def tracked_pod_def terminated_pod_def Let_def)

lemma adoptPod_ok: "provider_ok p \<Longrightarrow> provider_ok (adoptPod now pod p)"
  by (auto simp: provider_ok_def adoptPod_def Let_def lookup_update key_of_def)

lemma trackPod_ok: "provider_ok p \<Longrightarrow> provider_ok (trackPod now phase reason pod p)"
  by (auto simp: provider_ok_def trackPod_def lookup_update)

lemma markDeleted_ok: "provider_ok p \<Longrightarrow> provider_ok (markDeleted now pod p)"
  by (auto simp: provider_ok_def markDeleted_def Let_def lookup_update split: option.splits)

lemma lift_wE:
  assumes "lift_w m (s, p) = (r, sp')"
  obtains s' where "m s = (r, s')" "sp' = (s', p)"
  using assms by (cases "m s") (auto simp: lift_w_def)

lemma recoverAsE:
  assumes "recoverAs op m w = (r, w')"
  obtains e where "m w = (Inl e, w')" "r = Inl (recovered op e)" | x where "m w = (Inr x, w')" "r = Inr x"
  using assms by (cases "m w" rule: prod.exhaust) (auto simp: recoverAs_def with_err_def split: sum.splits)

lemma modify_state_iff [simp]: "modify f (s, p) = (r, sp') \<longleftrightarrow> r = Inr () \<and> sp' = (s, f p)"
  by (auto simp: modify_def)

lemma lift_r_iff [simp]: "lift_r q w = (r, w') \<longleftrightarrow> q = r \<and> w' = w"
  by (auto simp: lift_r_def)

lemma authorize_iff [simp]:
  "authorize cfg ns = Inr u \<longleftrightarrow> cf_serves cfg ns" "authorize cfg ns = Inl e \<longleftrightarrow> \<not> cf_serves cfg ns \<and> e = not_served cfg ns"
  by (auto simp: authorize_def)

lemmas call_elims = bind_aE lift_wE recoverAsE

text \<open>What a creation can end in: an error with the provider as it was, an adopted pod, a tracked one.\<close>

lemma CreatePod_cases:
  assumes "CreatePod cfg S pr now pod (s, p) = (r, (s', p'))"
  obtains e where "r = Inl e" "p' = p"
  | "r = Inr ()" "p' = adoptPod now pod p" "cf_serves cfg (pod_namespace pod)"
  | "r = Inr ()" "p' = trackPod now ''Pending'' ''Creating'' pod p" "cf_serves cfg (pod_namespace pod)"
  using assms unfolding CreatePod_def by (auto elim!: call_elims split: if_splits)

lemma DeletePod_cases:
  assumes "DeletePod cfg S now pod (s, p) = (r, (s', p'))"
  obtains e where "r = Inl e" "p' = p"
  | "r = Inr ()" "p' = markDeleted now pod p" "cf_serves cfg (pod_namespace pod)"
  using assms unfolding DeletePod_def by (auto elim!: call_elims)

lemma UpdatePod_cases:
  assumes "UpdatePod cfg S pr now pod (s, p) = (r, (s', p'))"
  obtains "p' = p" | "CreatePod cfg S pr now pod (s, p) = (r, (s', p'))"
  using assms by (auto simp: UpdatePod_def split: sum.splits if_splits)

lemma lookup_update_fun: "DAList.lookup (DAList.update k v al) = (DAList.lookup al)(k \<mapsto> v)"
  by (simp add: fun_eq_iff lookup_update)

section \<open>Properties\<close>


text \<open>
  A retried creation makes no second capsule: when the tenant's listing shows a capsule of
  this pod's UID, the call ends right after that listing, the pod is adopted with the status it
  has, and nobody is notified; so a restart of the process does not report its pods unready.
\<close>

theorem CreatePod_adopts:
  assumes "cf_serves cfg (pod_namespace pod)" and "so_For S (pod_namespace pod) s = (Inr api, s1)"
    and "so_list S api s1 = (Inr existing, s2)" and "map_of existing (key_of pod) = Some c" and "PodUID c = pod_uid pod"
    and "pod_phase pod \<noteq> []"
  shows "\<exists>p'. CreatePod cfg S pr now pod (s, p) = (Inr (), (s2, p')) \<and>
    DAList.lookup (pv_pods p') (key_of pod) = Some pod \<and> pv_notified p' = pv_notified p"
proof -
  have "CreatePod cfg S pr now pod (s, p) = (Inr (), (s2, adoptPod now pod p))"
    using assms(1-5)
    by (simp add: CreatePod_def recoverAs_def with_err_def bind_a_def lift_w_def lift_r_def authorize_def existing_capsule_def modify_def)
  then show ?thesis
    using assms(6) by (simp add: adoptPod_def Let_def lookup_update)
qed

text \<open>
  A deleted pod is reported as ended and is not answered for: after a deletion the node
  controller has been handed a \<open>Succeeded\<close> pod with no container ready, a lookup says there is no
  such pod, and a pod of another UID that takes the name is created rather than taken for it.
\<close>

theorem DeletePod_hides:
  assumes "DeletePod cfg S now pod (s, p) = (Inr (), (s', p'))"
  shows "GetPod cfg p' (pod_namespace pod) (pod_name pod) = Inl (not_running (pod_namespace pod) (pod_name pod)) \<and>
    (\<exists>t. pv_notified p' = pv_notified p @ [t] \<and> DAList.lookup (pv_pods p') (key_of pod) = Some t \<and>
       pod_phase t = ''Succeeded'' \<and> list_all (\<lambda>c. \<not> cs_ready c) (pod_statuses t) \<and>
       (\<forall>new. key_of new = key_of pod \<longrightarrow> pod_namespace new = pod_namespace pod \<longrightarrow> pod_uid new \<noteq> pod_uid t \<longrightarrow> \<not> pod_deleting new \<longrightarrow>
          UpdatePod cfg S pr now' new (s', p') = CreatePod cfg S pr now' new (s', p')))"
  using assms
proof (cases rule: DeletePod_cases)
  case 2
  then show ?thesis
    by (auto simp: GetPod_def authorize_def markDeleted_def Let_def lookup_update terminated_pod_def UpdatePod_def list_all_iff
        simp flip: key_of_def)
qed simp

definition sample_config :: "(capsule list) config" where
  "sample_config = \<lparr>cf_serves = (\<lambda>ns. ns = ''prod''), cf_nodeName = ''n1'', cf_networkID = ''net'', cf_networkIDFor = None\<rparr>"

definition sample_source :: "(capsule list, capsule list zun_api) source" where
  "sample_source = static_source sample_zun"

definition sample_prep :: "(capsule list, unit, unit, unit) preparation" where
  "sample_prep = \<lparr>pr_files = (\<lambda>_. ret ()), pr_dns = (\<lambda>_ s. ((), s)), pr_claims = (\<lambda>_. ret ()), pr_groups = (\<lambda>_. Inr None),
     pr_template = (\<lambda>_ _ _ _ _ _. Inr ''{}'')\<rparr>"

theorem CreatePod_adopts_witness:
  "\<exists>p'. CreatePod sample_config sample_source sample_prep 3 sample_pod (sample_capsules, New) = (Inr (), (sample_capsules, p')) \<and>
     DAList.lookup (pv_pods p') (key_of sample_pod) = Some sample_pod \<and> pv_notified p' = []"
proof -
  have serves: "cf_serves sample_config (pod_namespace sample_pod)" by code_simp
  have src: "so_For sample_source (pod_namespace sample_pod) sample_capsules = (Inr sample_zun, sample_capsules)"
    by (simp add: sample_source_def static_source_def StaticFor_def ret_def)
  have list: "so_list sample_source sample_zun sample_capsules = (Inr [(''prod/web-1'', sample_capsules ! 1)], sample_capsules)"
    by code_simp
  have own: "map_of [(''prod/web-1'', sample_capsules ! 1)] (key_of sample_pod) = Some (sample_capsules ! 1)"
    "PodUID (sample_capsules ! 1) = pod_uid sample_pod" "pod_phase sample_pod \<noteq> []" by code_simp+
  from CreatePod_adopts [OF serves src list own, of sample_prep 3 New] show ?thesis by (simp add: New_def)
qed

definition sample_deletion :: "unit result \<times> (capsule list \<times> provider)" where
  "sample_deletion = DeletePod sample_config sample_source 7 sample_pod (sample_capsules, adoptPod 3 sample_pod New)"

theorem DeletePod_hides_witness:
  "GetPod sample_config (snd (snd sample_deletion)) ''prod'' ''web-1'' = Inl (not_running ''prod'' ''web-1'') \<and>
   (\<exists>t. pv_notified (snd (snd sample_deletion)) = [t] \<and> pod_phase t = ''Succeeded'')"
proof -
  have "fst sample_deletion = Inr ()" by code_simp
  then have "DeletePod sample_config sample_source 7 sample_pod (sample_capsules, adoptPod 3 sample_pod New)
      = (Inr (), (fst (snd sample_deletion), snd (snd sample_deletion)))"
    unfolding sample_deletion_def by (metis prod.collapse)
  from DeletePod_hides [OF this, of sample_prep 9] show ?thesis
    by (auto simp: sample_pod_def adoptPod_def New_def)
qed

text \<open>
  \<open>DeletePod\<close> does not compare the UID of the pod it is handed with the one it tracks: deleting the
  earlier pod of a name after a later one is tracked ends the later one, whose own capsule was
  not deleted.
\<close>

theorem late_deletion_ends_newer:
  assumes "DeletePod cfg S now old (s, p) = (Inr (), (s', p'))"
    and "DAList.lookup (pv_pods p) (key_of old) = Some new" and "pod_uid new \<noteq> pod_uid old"
  shows "GetPod cfg p' (pod_namespace old) (pod_name old) = Inl (not_running (pod_namespace old) (pod_name old)) \<and>
    CapsuleName new \<noteq> CapsuleName old \<and> pv_deleted p' (key_of old) = Some (pod_uid new)"
  using assms(1)
proof (cases rule: DeletePod_cases)
  case 2
  with assms(2,3) show ?thesis
    by (simp add: GetPod_def authorize_def markDeleted_def Let_def lookup_update CapsuleName_def flip: key_of_def)
qed simp

end
