(* ===== verification/Provider_Sync.thy ===== *)
theory Provider_Sync
  imports Provider_State
begin

text \<open>
  \<^verbatim>\<open>pkg/provider/sync.go\<close>: the status loop. A cycle lists the capsules of every tenant it can
  reach and then judges each tracked pod against the listing. The turn of one pod is a function of
  its snapshot and of the provider at the time of the turn, since creations and deletions run in
  between; a cycle is the sequence of the turns. The clock is read once for the timestamps of a
  cycle and once per pod.
\<close>

section \<open>Operations\<close>

definition capsuleAppearGrace :: time where "capsuleAppearGrace = 30 * second"
definition capsuleCreateTimeout :: time where "capsuleCreateTimeout = 10 * minute"
definition terminalCapsuleGrace :: time where "terminalCapsuleGrace = hour"

definition boolKey :: "bool \<Rightarrow> string" where
  "boolKey b = (if b then ''t'' else ''f'')"

fun containerStateKey :: "container_state \<Rightarrow> string" where
  "containerStateKey (CSRunning started) = ''running@'' @ show_int (unix_of started)"
| "containerStateKey (CSTerminated code reason _ started _) =
     ''terminated:'' @ reason @ '':'' @ show_int code @ ''@'' @ show_int (unix_of started)"
| "containerStateKey (CSWaiting reason _) = ''waiting:'' @ reason"
| "containerStateKey CSNone = ''unknown''"

definition containerKey :: "container_status \<Rightarrow> string" where
  "containerKey c =
     ''|'' @ cs_name c @ '':'' @ containerStateKey (cs_state c) @ '':'' @ boolKey (cs_ready c) @ '':'' @ show_int (cs_restarts c)"

definition conditionKey :: "pod_condition \<Rightarrow> string" where
  "conditionKey c = ''|'' @ pc_type c @ ''='' @ pc_status c"

definition statusFingerprint :: "pod \<Rightarrow> string" where
  "statusFingerprint pod =
     pod_phase pod @ ''|'' @ pod_reason pod @ ''|'' @ pod_ip pod
       @ concat (map containerKey (pod_statuses pod)) @ concat (map conditionKey (pod_conditions pod))"

text \<open>A status change is kept, and the node controller told, only when the fingerprint changed.\<close>

definition updateStatus :: "pod \<Rightarrow> (pod \<Rightarrow> pod) \<Rightarrow> provider \<Rightarrow> provider" where
  "updateStatus pod mutate p =
     (case DAList.lookup (pv_pods p) (key_of pod) of
        None \<Rightarrow> p
      | Some current \<Rightarrow>
          (let updated = mutate current in
           if statusFingerprint updated \<noteq> statusFingerprint current
           then p\<lparr>pv_pods := DAList.update (key_of pod) updated (pv_pods p), pv_notified := pv_notified p @ [updated]\<rparr>
           else p))"

fun failContainer :: "string \<Rightarrow> string \<Rightarrow> time \<Rightarrow> container_state \<Rightarrow> container_state option" where
  "failContainer reason msg t (CSTerminated _ _ _ _ _) = None"
| "failContainer reason msg t _ = Some (CSTerminated 1 reason msg 0 t)"

definition failContainers :: "string \<Rightarrow> string \<Rightarrow> time \<Rightarrow> pod \<Rightarrow> pod" where
  "failContainers reason msg t pod =
     pod\<lparr>pod_statuses := map (\<lambda>st. case failContainer reason msg t (cs_state st) of
                                   None \<Rightarrow> st
                                 | Some s \<Rightarrow> st\<lparr>cs_ready := False, cs_state := s\<rparr>) (pod_statuses pod)\<rparr>"

definition isTerminal :: "pod \<Rightarrow> bool" where
  "isTerminal pod = (pod_phase pod = ''Succeeded'' \<or> pod_phase pod = ''Failed'')"

text \<open>When the last container stopped, else the pod's start, else Go's zero time.\<close>

fun finish_time :: "container_state \<Rightarrow> time option" where
  "finish_time (CSTerminated _ _ _ _ finished) = Some finished"
| "finish_time _ = None"

definition finishedAt :: "pod \<Rightarrow> time" where
  "finishedAt pod =
     (let last = foldl (\<lambda>last cs. case finish_time (cs_state cs) of None \<Rightarrow> last | Some t \<Rightarrow> if t > last then t else last)
                   0 (pod_statuses pod)
      in if last = 0 then (case pod_start pod of None \<Rightarrow> last | Some t \<Rightarrow> t) else last)"

definition reclaimFinished :: "('s, 'api) source \<Rightarrow> time \<Rightarrow> pod \<Rightarrow> capsule \<Rightarrow> 's \<Rightarrow> 's" where
  "reclaimFinished S clk pod cap s =
     (if finishedAt pod = 0 \<or> clk - finishedAt pod < terminalCapsuleGrace then s
      else (case so_For S (pod_namespace pod) s of
              (Inl _, s') \<Rightarrow> s'
            | (Inr api, s') \<Rightarrow> snd (so_delete S api (cap_uuid cap) s')))"

text \<open>The three status changes of a turn.\<close>

definition lostPod :: "time \<Rightarrow> pod \<Rightarrow> pod" where
  "lostPod now pod =
     failContainers ''ContainerStatusUnknown'' ''the containers are gone and their outcome cannot be determined'' now
       (pod\<lparr>pod_phase := ''Failed'', pod_reason := ''ContainerStatusUnknown'', pod_conditions := PodConditions ''Error'' False now\<rparr>)"

definition stuckPod :: "time \<Rightarrow> pod \<Rightarrow> pod" where
  "stuckPod now pod =
     failContainers ''FailedCreatePodSandBox'' ''the sandbox never finished being created; no machine claimed this pod'' now
       (pod\<lparr>pod_phase := ''Failed'', pod_reason := ''FailedCreatePodSandBox'', pod_conditions := PodConditions ''Error'' False now\<rparr>)"

definition observedReady :: "capsule \<Rightarrow> bool" where
  "observedReady cap = (cap_status cap = ''Running'' \<and> PodIP cap \<noteq> [] \<and> CapsuleReady cap)"

definition observedPod :: "time \<Rightarrow> container_status list \<Rightarrow> capsule \<Rightarrow> pod \<Rightarrow> pod" where
  "observedPod now statuses cap pod =
     (let seen = pod\<lparr>pod_phase := PhaseOf cap, pod_reason := cap_reason cap,
                     pod_conditions := PodConditions (cap_status cap) (observedReady cap) now, pod_statuses := statuses\<rparr>
      in if PodIP cap \<noteq> [] then seen\<lparr>pod_ip := PodIP cap, pod_ips := [PodIP cap], pod_hostIP := PodIP cap\<rparr> else seen)"

definition ownCapsule :: "(string \<rightharpoonup> capsule) \<Rightarrow> pod \<Rightarrow> capsule option" where
  "ownCapsule managed pod =
     (case managed (key_of pod) of
        None \<Rightarrow> None
      | Some cap \<Rightarrow> if PodUID cap \<noteq> [] \<and> PodUID cap \<noteq> pod_uid pod then None else Some cap)"

definition dropPod :: "string \<Rightarrow> provider \<Rightarrow> provider" where
  "dropPod key p = p\<lparr>pv_pods := DAList.delete key (pv_pods p), pv_deleted := (pv_deleted p)(key := None)\<rparr>"

definition coveredPod :: "('s, 'api) source \<Rightarrow> string list \<Rightarrow> pod \<Rightarrow> bool" where
  "coveredPod S covered pod = (case so_TenantOf S (pod_namespace pod) of None \<Rightarrow> False | Some t \<Rightarrow> t \<in> set covered)"

definition appearing :: "time \<Rightarrow> pod \<Rightarrow> bool" where
  "appearing clk pod = (case pod_start pod of None \<Rightarrow> False | Some t \<Rightarrow> clk - t < capsuleAppearGrace)"

definition stuck :: "time \<Rightarrow> capsule \<Rightarrow> bool" where
  "stuck clk cap = (cap_status cap = ''Creating'' \<and> cap_created cap \<noteq> 0 \<and> clk - cap_created cap > capsuleCreateTimeout)"

definition syncTurn ::
  "('s, 'api) source \<Rightarrow> time \<Rightarrow> time \<Rightarrow> (string \<rightharpoonup> capsule) \<Rightarrow> string list \<Rightarrow> pod \<Rightarrow> 's \<times> provider \<Rightarrow> 's \<times> provider" where
  "syncTurn S now clk managed covered pod sp =
     (case sp of (s, p) \<Rightarrow>
        if \<not> coveredPod S covered pod then (s, p)
        else (case ownCapsule managed pod of
          None \<Rightarrow>
            if isTerminal pod then (s, dropPod (key_of pod) p)
            else if appearing clk pod then (s, p)
            else if pod_phase pod = ''Pending'' \<or> pod_phase pod = ''Running'' then (s, updateStatus pod (lostPod now) p)
            else (s, p)
        | Some cap \<Rightarrow>
            if isTerminal pod then (reclaimFinished S clk pod cap s, p)
            else if stuck clk cap then (s, updateStatus pod (stuckPod now) p)
            else (s, updateStatus pod (observedPod now (ContainerStatuses pod cap) cap) p)))"

text \<open>What the walk gathers: the newest capsule of each pod, and the tenants that answered.\<close>

type_synonym listing = "(string \<rightharpoonup> capsule) \<times> string list"

definition syncList :: "('s, 'api) source \<Rightarrow> string \<Rightarrow> 'api \<Rightarrow> ('s \<times> listing, unit) act" where
  "syncList S tenant api =
     bind_a (lift_w (so_list S api)) (\<lambda>part. modify (\<lambda>(managed, covered). (managed ++ map_of part, tenant # covered)))"

definition syncOnce ::
  "('s, 'api) source \<Rightarrow> ((string \<Rightarrow> 'api \<Rightarrow> ('s \<times> listing, unit) act) \<Rightarrow> ('s \<times> listing, unit) act)
     \<Rightarrow> time \<Rightarrow> (string \<Rightarrow> time) \<Rightarrow> ('s \<times> provider, unit) act" where
  "syncOnce S each now clk sp =
     (case sp of (s, p) \<Rightarrow>
        (case each (syncList S) (s, (Map.empty, [])) of
           (Inl e, (s', _)) \<Rightarrow> (Inl e, (s', p))
         | (Inr _, (s', (managed, covered))) \<Rightarrow>
             (Inr (), foldl (\<lambda>sp pod. syncTurn S now (clk (key_of pod)) managed covered pod sp) (s', p) (GetPods p))))"

section \<open>A cycle, pod by pod\<close>

text \<open>
  What a cycle makes of one tracked pod, with no reference to the others: nothing for a pod whose
  tenant did not answer, else the verdict of its turn; \<open>None\<close> is a pod that is forgotten.
\<close>

definition settled :: "pod \<Rightarrow> pod \<Rightarrow> pod" where
  "settled old new = (if statusFingerprint new \<noteq> statusFingerprint old then new else old)"

definition judged ::
  "('s, 'api) source \<Rightarrow> time \<Rightarrow> time \<Rightarrow> (string \<rightharpoonup> capsule) \<Rightarrow> string list \<Rightarrow> pod \<Rightarrow> pod option" where
  "judged S now clk managed covered pod =
     (if \<not> coveredPod S covered pod then Some pod
      else (case ownCapsule managed pod of
        None \<Rightarrow>
          if isTerminal pod then None
          else if \<not> appearing clk pod \<and> pod_phase pod \<in> {''Pending'', ''Running''} then Some (settled pod (lostPod now pod))
          else Some pod
      | Some cap \<Rightarrow>
          if isTerminal pod then Some pod
          else if stuck clk cap then Some (settled pod (stuckPod now pod))
          else Some (settled pod (observedPod now (ContainerStatuses pod cap) cap pod))))"

lemma failContainers_identity [simp]:
  "key_of (failContainers reason msg t pod) = key_of pod" "pod_uid (failContainers reason msg t pod) = pod_uid pod"
  "pod_namespace (failContainers reason msg t pod) = pod_namespace pod" "pod_name (failContainers reason msg t pod) = pod_name pod"
  "pod_phase (failContainers reason msg t pod) = pod_phase pod" "pod_conditions (failContainers reason msg t pod) = pod_conditions pod"
  by (simp_all add: failContainers_def key_of_def)

lemma change_identity [simp]:
  "key_of (lostPod now pod) = key_of pod" "pod_uid (lostPod now pod) = pod_uid pod"
  "key_of (stuckPod now pod) = key_of pod" "pod_uid (stuckPod now pod) = pod_uid pod"
  "key_of (observedPod now sts cap pod) = key_of pod" "pod_uid (observedPod now sts cap pod) = pod_uid pod"
  by (simp_all add: lostPod_def stuckPod_def observedPod_def Let_def key_of_def)

lemma lookup_updateStatus:
  "DAList.lookup (pv_pods (updateStatus pod f p)) =
     (case DAList.lookup (pv_pods p) (key_of pod) of
        None \<Rightarrow> DAList.lookup (pv_pods p)
      | Some cur \<Rightarrow> (DAList.lookup (pv_pods p))(key_of pod \<mapsto> settled cur (f cur)))"
  by (auto simp: updateStatus_def Let_def settled_def lookup_update fun_eq_iff split: option.splits)

lemma pv_deleted_updateStatus [simp]: "pv_deleted (updateStatus pod f p) = pv_deleted p"
  by (simp add: updateStatus_def Let_def split: option.splits)

lemma lookup_delete_fun: "DAList.lookup (DAList.delete k al) = (DAList.lookup al)(k := None)"
  by (simp add: fun_eq_iff lookup_delete)

lemma syncTurn_lookup:
  assumes "DAList.lookup (pv_pods p) (key_of pod) = Some pod"
  shows "DAList.lookup (pv_pods (snd (syncTurn S now clk managed covered pod (s, p)))) =
    (DAList.lookup (pv_pods p))(key_of pod := judged S now clk managed covered pod)"
  using assms
  by (auto simp: syncTurn_def judged_def dropPod_def lookup_delete_fun lookup_updateStatus fun_eq_iff split: option.splits)

lemma turns_lookup:
  assumes "distinct (map key_of pods)" and "\<And>pd. pd \<in> set pods \<Longrightarrow> DAList.lookup (pv_pods p) (key_of pd) = Some pd"
  shows "DAList.lookup (pv_pods (snd (foldl (\<lambda>sp pod. syncTurn S now (clk (key_of pod)) managed covered pod sp) (s, p) pods))) k =
    (case find (\<lambda>pd. key_of pd = k) pods of
       None \<Rightarrow> DAList.lookup (pv_pods p) k
     | Some pd \<Rightarrow> judged S now (clk k) managed covered pd)"
  using assms
proof (induction pods arbitrary: s p)
  case (Cons pd pods)
  obtain s1 p1 where t: "syncTurn S now (clk (key_of pd)) managed covered pd (s, p) = (s1, p1)" by (meson surj_pair)
  from syncTurn_lookup [of p pd S now "clk (key_of pd)" managed covered s] Cons.prems t
  have p1: "DAList.lookup (pv_pods p1) = (DAList.lookup (pv_pods p))(key_of pd := judged S now (clk (key_of pd)) managed covered pd)"
    by simp
  have "DAList.lookup (pv_pods p1) (key_of q) = Some q" if "q \<in> set pods" for q
    using that Cons.prems by (auto simp: p1 image_iff)
  from Cons.IH [OF _ this, of s1] Cons.prems(1) have
    "DAList.lookup (pv_pods (snd (foldl (\<lambda>sp pod. syncTurn S now (clk (key_of pod)) managed covered pod sp) (s1, p1) pods))) k =
      (case find (\<lambda>pd. key_of pd = k) pods of
         None \<Rightarrow> DAList.lookup (pv_pods p1) k
       | Some pd \<Rightarrow> judged S now (clk k) managed covered pd)"
    by simp
  moreover have "find (\<lambda>q. key_of q = key_of pd) pods = None"
    using Cons.prems(1) by (auto simp: find_None_iff image_iff)
  ultimately show ?case
    by (auto simp: t p1 split: option.splits)
qed simp

lemma GetPods_lookup:
  assumes "provider_ok p" and "pd \<in> set (GetPods p)"
  shows "DAList.lookup (pv_pods p) (key_of pd) = Some pd"
proof -
  from assms(2) obtain k where "(k, pd) \<in> set (DAList.impl_of (pv_pods p))" by (auto simp: GetPods_def)
  then have "DAList.lookup (pv_pods p) k = Some pd"
    by (simp add: DAList.lookup.rep_eq map_of_eq_Some_iff)
  with assms(1) show ?thesis by (auto simp: provider_ok_def)
qed

lemma GetPods_keys: "provider_ok p \<Longrightarrow> map key_of (GetPods p) = map fst (DAList.impl_of (pv_pods p))"
  by (auto simp: GetPods_def provider_ok_def DAList.lookup.rep_eq map_of_eq_Some_iff)

lemma find_GetPods:
  assumes "provider_ok p"
  shows "find (\<lambda>pd. key_of pd = k) (GetPods p) = DAList.lookup (pv_pods p) k"
proof (cases "find (\<lambda>pd. key_of pd = k) (GetPods p)")
  case None
  have "DAList.lookup (pv_pods p) k = None"
  proof (cases "DAList.lookup (pv_pods p) k")
    case (Some pd)
    then have "(k, pd) \<in> set (DAList.impl_of (pv_pods p))" by (auto simp: DAList.lookup.rep_eq dest: map_of_SomeD)
    then have "pd \<in> set (GetPods p)" by (force simp: GetPods_def)
    moreover from Some assms have "key_of pd = k" by (simp add: provider_ok_def)
    moreover note None
    ultimately have False by (auto simp: find_None_iff)
    then show ?thesis ..
  qed simp
  with None show ?thesis by simp
next
  case (Some pd)
  then have "pd \<in> set (GetPods p)" "key_of pd = k" by (auto dest: find_SomeD)
  with GetPods_lookup [OF assms] Some show ?thesis by auto
qed

lemma syncOnce_pods:
  assumes "provider_ok p" and "each (syncList S) (s, (Map.empty, [])) = (Inr u, (s1, (managed, covered)))"
    and "syncOnce S each now clk (s, p) = (r, (s', p'))"
  shows "DAList.lookup (pv_pods p') k = Option.bind (DAList.lookup (pv_pods p) k) (judged S now (clk k) managed covered)"
proof -
  have "distinct (map key_of (GetPods p))" by (simp add: GetPods_keys [OF assms(1)])
  from turns_lookup [OF this GetPods_lookup [OF assms(1)], of S now clk managed covered s1 k] assms(2,3)
  show ?thesis by (auto simp: syncOnce_def find_GetPods [OF assms(1)] split: option.splits)
qed

section \<open>The provider through its life\<close>

text \<open>
  The operations as they interleave: the node controller's calls, and turns of the status loop on
  any snapshot, however old.
\<close>

inductive lives :: "'s config \<Rightarrow> ('s, 'api) source \<Rightarrow> ('s, 'f, 'd, 'c) preparation \<Rightarrow> provider \<Rightarrow> bool"
  for cfg S pr where
  start: "lives cfg S pr New"
| create: "lives cfg S pr p \<Longrightarrow> CreatePod cfg S pr now pod (s, p) = (r, (s', p')) \<Longrightarrow> lives cfg S pr p'"
| update: "lives cfg S pr p \<Longrightarrow> UpdatePod cfg S pr now pod (s, p) = (r, (s', p')) \<Longrightarrow> lives cfg S pr p'"
| delete: "lives cfg S pr p \<Longrightarrow> DeletePod cfg S now pod (s, p) = (r, (s', p')) \<Longrightarrow> lives cfg S pr p'"
| turn: "lives cfg S pr p \<Longrightarrow> syncTurn S now clk managed covered pod (s, p) = (s', p') \<Longrightarrow> lives cfg S pr p'"

lemma updateStatus_ok:
  assumes "provider_ok p" and "\<And>q. key_of (f q) = key_of q" and "\<And>q. pod_uid (f q) = pod_uid q"
  shows "provider_ok (updateStatus pod f p)"
  using assms by (fastforce simp: provider_ok_def lookup_updateStatus settled_def split: option.splits)

lemma dropPod_ok: "provider_ok p \<Longrightarrow> provider_ok (dropPod key p)"
  by (auto simp: provider_ok_def dropPod_def lookup_delete)

lemma syncTurn_ok:
  "provider_ok p \<Longrightarrow> syncTurn S now clk managed covered pod (s, p) = (s', p') \<Longrightarrow> provider_ok p'"
  by (auto simp: syncTurn_def dropPod_ok updateStatus_ok split: if_splits option.splits)

lemma CreatePod_ok:
  "provider_ok p \<Longrightarrow> CreatePod cfg S pr now pod (s, p) = (r, (s', p')) \<Longrightarrow> provider_ok p'"
  by (auto elim!: CreatePod_cases intro: adoptPod_ok trackPod_ok)

lemma lives_ok: "lives cfg S pr p \<Longrightarrow> provider_ok p"
proof (induction rule: lives.induct)
  case (update p now pod s r s' p')
  from update(2) update(3) show ?case by (elim UpdatePod_cases) (auto intro: CreatePod_ok)
next
  case (delete p now pod s r s' p')
  from delete(2) delete(3) show ?case by (elim DeletePod_cases) (auto intro: markDeleted_ok)
qed (auto intro: CreatePod_ok syncTurn_ok)

lemma fingerprint_now:
  "statusFingerprint (stuckPod now pod) = statusFingerprint (stuckPod now' pod)"
  "statusFingerprint (observedPod now sts cap pod) = statusFingerprint (observedPod now' sts cap pod)"
proof -
  have key: "containerKey (case failContainer r m t (cs_state st) of None \<Rightarrow> st | Some s \<Rightarrow> st\<lparr>cs_ready := False, cs_state := s\<rparr>) =
      containerKey (case failContainer r m t' (cs_state st) of None \<Rightarrow> st | Some s \<Rightarrow> st\<lparr>cs_ready := False, cs_state := s\<rparr>)" for r m t t' st
    by (cases "cs_state st") (simp_all add: containerKey_def)
  have cond: "map conditionKey (PodConditions status ready t) = map conditionKey (PodConditions status ready t')" for status ready t t'
    by (simp add: PodConditions_def Let_def cond_def conditionKey_def)
  show "statusFingerprint (stuckPod now pod) = statusFingerprint (stuckPod now' pod)"
    unfolding stuckPod_def failContainers_def statusFingerprint_def
    by (simp add: comp_def key [where t = now and t' = now'] cond [where t = now and t' = now'])
  show "statusFingerprint (observedPod now sts cap pod) = statusFingerprint (observedPod now' sts cap pod)"
    by (simp add: observedPod_def Let_def statusFingerprint_def cond [where t = now and t' = now'])
qed

lemma observedPod_again: "statusFingerprint (observedPod now sts cap (observedPod now' sts cap pod)) = statusFingerprint (observedPod now sts cap pod)"
  by (simp add: observedPod_def Let_def statusFingerprint_def)

lemma containers_kept [simp]: "pod_containers (observedPod now sts cap pod) = pod_containers pod"
  "pod_containers (stuckPod now pod) = pod_containers pod"
  by (simp_all add: observedPod_def Let_def stuckPod_def failContainers_def)

lemma ContainerStatuses_cong: "pod_containers a = pod_containers b \<Longrightarrow> ContainerStatuses a cap = ContainerStatuses b cap"
  by (simp add: ContainerStatuses_def)

lemma ownCapsule_cong: "key_of a = key_of b \<Longrightarrow> pod_uid a = pod_uid b \<Longrightarrow> ownCapsule managed a = ownCapsule managed b"
  by (simp add: ownCapsule_def split: option.split)

lemma PodConditions_ready:
  "c \<in> set (PodConditions status ready t) \<Longrightarrow> pc_type c = ''Ready'' \<Longrightarrow> pc_status c = ''True'' \<Longrightarrow> status = ''Running'' \<and> ready"
  by (auto simp: PodConditions_def Let_def cond_def split: if_splits)

lemma lostPod_conditions [simp]: "pod_conditions (lostPod now pod) = PodConditions ''Error'' False now"
  by (simp add: lostPod_def)

lemma stuckPod_conditions [simp]: "pod_conditions (stuckPod now pod) = PodConditions ''Error'' False now"
  by (simp add: stuckPod_def)

lemma stuckPod_terminal [simp]: "isTerminal (stuckPod now pod)"
  by (simp add: stuckPod_def isTerminal_def)

lemma observedPod_simps [simp]:
  "pod_phase (observedPod now sts cap pod) = PhaseOf cap"
  "pod_conditions (observedPod now sts cap pod) = PodConditions (cap_status cap) (observedReady cap) now"
  "PodIP cap \<noteq> [] \<Longrightarrow> pod_ip (observedPod now sts cap pod) = PodIP cap"
  by (simp_all add: observedPod_def Let_def)

section \<open>Properties\<close>

text \<open>
  C16. A cycle judges no pod on a listing that could not have seen it: when the walk over the
  tenants failed the provider is exactly as it was, and a pod whose tenant did not answer, or
  whose namespace is not served, keeps its status whatever the other tenants' listings hold.
\<close>

theorem unanswered_pods_kept:
  assumes "provider_ok p" and "each (syncList S) (s, (Map.empty, [])) = (w, (s1, (managed, covered)))"
    and "syncOnce S each now clk (s, p) = (r, (s', p'))"
    and "DAList.lookup (pv_pods p) k = Some pd"
    and "isl w \<or> (case so_TenantOf S (pod_namespace pd) of None \<Rightarrow> True | Some t \<Rightarrow> t \<notin> set covered)"
  shows "DAList.lookup (pv_pods p') k = Some pd \<and> (isl w \<longrightarrow> p' = p)"
proof (cases w)
  case (Inl e)
  with assms(2-4) show ?thesis by (simp add: syncOnce_def)
next
  case (Inr u)
  with assms(5) have "\<not> coveredPod S covered pd" by (simp add: coveredPod_def split: option.splits)
  with Inr syncOnce_pods [OF assms(1) _ assms(3), of u s1 managed covered k] assms(2,4)
  show ?thesis by (simp add: judged_def)
qed

text \<open>
  C17. A pod is failed only on evidence: when a cycle turns a pod that had not finished into a
  failed one, its tenant answered, and either no capsule of this pod exists although it is past
  the grace a new capsule has to appear, or its capsule has been in \<open>Creating\<close> for more than ten
  minutes, or the capsule itself reports failure.
\<close>

theorem pod_failed_on_evidence:
  assumes "provider_ok p" and "each (syncList S) (s, (Map.empty, [])) = (Inr u, (s1, (managed, covered)))"
    and "syncOnce S each now clk (s, p) = (r, (s', p'))"
    and "DAList.lookup (pv_pods p) k = Some pd" and "\<not> isTerminal pd"
    and "DAList.lookup (pv_pods p') k = Some pd'" and "pod_phase pd' = ''Failed''"
  shows "coveredPod S covered pd \<and>
    (case ownCapsule managed pd of
       None \<Rightarrow> pod_start pd = None \<or> clk k - the (pod_start pd) \<ge> 30 * second
     | Some cap \<Rightarrow> (cap_status cap = ''Creating'' \<and> clk k - cap_created cap > 10 * minute) \<or> PhaseOf cap = ''Failed'')"
  using syncOnce_pods [OF assms(1-3), of k] assms(4-7)
  by (auto simp: judged_def settled_def isTerminal_def appearing_def stuck_def capsuleAppearGrace_def capsuleCreateTimeout_def
      split: if_splits option.splits)

text \<open>
  C18. Traffic is only sent where something answers: a cycle marks a pod ready only when a capsule
  under its name, carrying its UID or none, runs, has an address which is the one published for
  the pod, and every one of its containers says it is serving.
\<close>

theorem pod_ready_on_evidence:
  assumes "provider_ok p" and "each (syncList S) (s, (Map.empty, [])) = (Inr u, (s1, (managed, covered)))"
    and "syncOnce S each now clk (s, p) = (r, (s', p'))"
    and "DAList.lookup (pv_pods p) k = Some pd" and "DAList.lookup (pv_pods p') k = Some pd'" and "pd' \<noteq> pd"
    and "list_ex (\<lambda>c. pc_type c = ''Ready'' \<and> pc_status c = ''True'') (pod_conditions pd')"
  shows "\<exists>cap. managed k = Some cap \<and> PodUID cap \<in> {[], pod_uid pd} \<and> cap_status cap = ''Running'' \<and>
    PodIP cap \<noteq> [] \<and> pod_ip pd' = PodIP cap \<and> cap_containers cap \<noteq> [] \<and> list_all ContainerReady (cap_containers cap)"
proof -
  from assms(1,4) have k: "key_of pd = k" by (simp add: provider_ok_def)
  from assms(7) obtain c where c: "c \<in> set (pod_conditions pd')" "pc_type c = ''Ready''" "pc_status c = ''True''"
    by (auto simp: list_ex_iff)
  from syncOnce_pods [OF assms(1-3), of k] assms(4-6) c
  obtain cap where "ownCapsule managed pd = Some cap" "pd' = observedPod now (ContainerStatuses pd cap) cap pd"
    by (auto simp: judged_def settled_def dest: PodConditions_ready split: if_splits option.splits)
  moreover from this c have "observedReady cap" by (auto dest: PodConditions_ready)
  ultimately show ?thesis
    by (auto simp: ownCapsule_def observedReady_def CapsuleReady_def k split: option.splits if_splits)
qed

text \<open>
  A steady state produces no traffic: when the same capsule is read again for a pod that has
  not finished, the second turn leaves the provider as it is and notifies nobody, whatever time
  has passed between the two readings.
\<close>

theorem steady_state_silent:
  assumes "DAList.lookup (pv_pods p) (key_of pod) = Some pod" and "ownCapsule managed pod = Some cap"
    and "syncTurn S now clk managed covered pod (s, p) = (s1, p1)"
    and "DAList.lookup (pv_pods p1) (key_of pod) = Some pod1" and "\<not> isTerminal pod1" and "stuck clk' cap = stuck clk cap"
  shows "syncTurn S now' clk' managed covered pod1 (s1, p1) = (s1, p1)"
proof -
  from syncTurn_lookup [OF assms(1), of S now clk managed covered s] assms(3,4)
  have pod1: "judged S now clk managed covered pod = Some pod1" by simp
  have quiet: "updateStatus pod1 f p1 = p1" if "statusFingerprint (f pod1) = statusFingerprint pod1" "key_of pod1 = key_of pod" for f
    using that assms(4) by (simp add: updateStatus_def Let_def)
  show ?thesis
  proof (cases "coveredPod S covered pod \<and> \<not> isTerminal pod")
    case False
    with pod1 assms(2,5) have "\<not> coveredPod S covered pod" "pod1 = pod" by (auto simp: judged_def split: if_splits)
    then show ?thesis by (simp add: syncTurn_def)
  next
    case live: True
    let ?f = "\<lambda>t pd. if stuck clk cap then stuckPod t pd else observedPod t (ContainerStatuses pod cap) cap pd"
    from live pod1 assms(2) have p1: "pod1 = settled pod (?f now pod)" by (auto simp: judged_def split: if_splits)
    have same: "key_of pod1 = key_of pod" "pod_containers pod1 = pod_containers pod" "pod_uid pod1 = pod_uid pod"
      by (auto simp: p1 settled_def)
    have own: "ownCapsule managed pod1 = Some cap"
      using ownCapsule_cong [OF same(1,3)] assms(2) by simp
    have "statusFingerprint (?f now' pod1) = statusFingerprint pod1"
      using assms(5) fingerprint_now [where now = now' and now' = now]
      by (auto simp: p1 settled_def observedPod_again split: if_splits)
    with quiet [of "?f now'"] same(1) own assms(5,6) ContainerStatuses_cong [OF same(2), of cap]
    show ?thesis by (auto simp: syncTurn_def split: if_splits)
  qed
qed

text \<open>
  A finished pod's capsule, and the address it holds, is released only when it may be: a turn
  of the status loop calls on the outside world only for a pod that has finished, at least an hour
  after its last container stopped, and then only to delete the capsule found under its name with
  its own UID or none, through the API of the pod's own namespace.
\<close>

theorem reclaim_only_finished:
  assumes "syncTurn S now clk managed covered pod (s, p) = (s', p')" and "s' \<noteq> s"
  shows "coveredPod S covered pod \<and> isTerminal pod \<and> finishedAt pod \<noteq> 0 \<and> clk - finishedAt pod \<ge> hour \<and> p' = p \<and>
    (\<exists>cap. ownCapsule managed pod = Some cap \<and>
      s' = (case so_For S (pod_namespace pod) s of (Inl _, s1) \<Rightarrow> s1 | (Inr api, s1) \<Rightarrow> snd (so_delete S api (cap_uuid cap) s1)))"
  using assms by (auto simp: syncTurn_def reclaimFinished_def terminalCapsuleGrace_def split: if_splits option.splits)

text \<open>
  However creations, updates, deletions and turns of the status loop interleave, a name whose
  pod has been deleted is never answered for: while its mark is there, the lookup of that name
  fails, and what is kept under a name is always a pod of that name.
\<close>

theorem deleted_pods_hidden:
  assumes "lives cfg S pr p"
  shows "(pv_deleted p (PodKey ns n) \<noteq> None \<longrightarrow> isl (GetPod cfg p ns n)) \<and>
    (GetPod cfg p ns n = Inr pd \<longrightarrow> key_of pd = PodKey ns n)"
  using lives_ok [OF assms] by (fastforce simp: provider_ok_def GetPod_def authorize_def split: option.splits if_splits)

section \<open>Samples\<close>

definition sample_tracked :: provider where
  "sample_tracked = adoptPod 3 sample_pod New"

definition sample_running :: capsule where
  "sample_running = sample_capsule\<lparr>cap_status := ''Running'',
     cap_containers := [sample_container\<lparr>zc_status := ''Running'', zc_detail := []\<rparr>]\<rparr>"

definition sample_cycle :: "capsule list \<Rightarrow> time \<Rightarrow> unit result \<times> (capsule list \<times> provider)" where
  "sample_cycle w t = syncOnce sample_source (StaticEach sample_zun) t (\<lambda>_. t) (w, sample_tracked)"

definition sample_listing :: "capsule list \<Rightarrow> listing" where
  "sample_listing w = snd (snd (StaticEach sample_zun (syncList sample_source) (w, (Map.empty, []))))"

lemma sample_tracked_ok: "provider_ok sample_tracked"
  by (simp add: sample_tracked_def adoptPod_ok)

lemma sample_tracked_pod: "DAList.lookup (pv_pods sample_tracked) ''prod/web-1'' = Some sample_pod"
  by code_simp

lemma sample_walk:
  "StaticEach sample_zun (syncList sample_source) (w, (Map.empty, [])) = (Inr (), (w, (fst (sample_listing w), snd (sample_listing w))))"
  by (simp add: sample_listing_def StaticEach_def syncList_def sample_source_def static_source_def ListManaged_def ListManagedAll_def
      sample_zun_def bind_a_def lift_w_def with_err_def ret_def modify_def)

lemma sample_cycle_run:
  "syncOnce sample_source (StaticEach sample_zun) t (\<lambda>_. t) (w, sample_tracked) =
     (fst (sample_cycle w t), (fst (snd (sample_cycle w t)), snd (snd (sample_cycle w t))))"
  by (simp add: sample_cycle_def)

theorem unanswered_pods_kept_witness:
  "DAList.lookup (pv_pods (snd (snd (syncOnce (sample_source\<lparr>so_TenantOf := \<lambda>_. None\<rparr>) (StaticEach sample_zun) 99 (\<lambda>_. 99) ([], sample_tracked)))))
     ''prod/web-1'' = Some sample_pod"
proof -
  let ?S = "sample_source\<lparr>so_TenantOf := \<lambda>_. None\<rparr>"
  obtain w s1 m c where walk: "StaticEach sample_zun (syncList ?S) ([], (Map.empty, [])) = (w, (s1, (m, c)))" by (metis prod_cases4)
  obtain r s' p' where run: "syncOnce ?S (StaticEach sample_zun) 99 (\<lambda>_. 99) ([], sample_tracked) = (r, (s', p'))" by (metis prod_cases3)
  from unanswered_pods_kept [OF sample_tracked_ok walk run sample_tracked_pod] run show ?thesis by simp
qed

theorem pod_failed_on_evidence_witness:
  "coveredPod sample_source (snd (sample_listing [])) sample_pod \<and>
   map_option pod_phase (DAList.lookup (pv_pods (snd (snd (sample_cycle [] 99)))) ''prod/web-1'') = Some ''Failed''"
proof -
  have "map_option pod_phase (DAList.lookup (pv_pods (snd (snd (sample_cycle [] 99)))) ''prod/web-1'') = Some ''Failed''" by code_simp
  moreover from this obtain pd' where "DAList.lookup (pv_pods (snd (snd (sample_cycle [] 99)))) ''prod/web-1'' = Some pd'"
    "pod_phase pd' = ''Failed''" by auto
  moreover have "\<not> isTerminal sample_pod" by code_simp
  ultimately show ?thesis
    using pod_failed_on_evidence [OF sample_tracked_ok sample_walk sample_cycle_run [where t = 99 and w = "[]"] sample_tracked_pod] by auto
qed

theorem pod_ready_on_evidence_witness:
  "\<exists>cap. fst (sample_listing [sample_running]) ''prod/web-1'' = Some cap \<and> cap_status cap = ''Running'' \<and> PodIP cap \<noteq> []"
proof -
  have "map_option (\<lambda>pd. (pd \<noteq> sample_pod, list_ex (\<lambda>c. pc_type c = ''Ready'' \<and> pc_status c = ''True'') (pod_conditions pd)))
      (DAList.lookup (pv_pods (snd (snd (sample_cycle [sample_running] 99)))) ''prod/web-1'') = Some (True, True)"
    unfolding sample_pod_def by code_simp
  then obtain pd' where "DAList.lookup (pv_pods (snd (snd (sample_cycle [sample_running] 99)))) ''prod/web-1'' = Some pd'"
    "pd' \<noteq> sample_pod" "list_ex (\<lambda>c. pc_type c = ''Ready'' \<and> pc_status c = ''True'') (pod_conditions pd')" by auto
  from pod_ready_on_evidence [OF sample_tracked_ok sample_walk sample_cycle_run sample_tracked_pod this] show ?thesis by auto
qed

definition sample_turn :: "capsule list \<times> provider" where
  "sample_turn = syncTurn sample_source 50 50 (fst (sample_listing [sample_running])) [[]] sample_pod ([sample_running], sample_tracked)"

theorem steady_state_silent_witness:
  "pv_notified (snd sample_turn) \<noteq> [] \<and>
   syncTurn sample_source 90 90 (fst (sample_listing [sample_running])) [[]]
     (the (DAList.lookup (pv_pods (snd sample_turn)) ''prod/web-1'')) sample_turn = sample_turn"
proof -
  have own: "ownCapsule (fst (sample_listing [sample_running])) sample_pod = Some sample_running" by code_simp
  have turn: "syncTurn sample_source 50 50 (fst (sample_listing [sample_running])) [[]] sample_pod ([sample_running], sample_tracked)
      = (fst sample_turn, snd sample_turn)" by (simp add: sample_turn_def)
  have key: "key_of sample_pod = ''prod/web-1''" by code_simp
  have "map_option isTerminal (DAList.lookup (pv_pods (snd sample_turn)) ''prod/web-1'') = Some False" by code_simp
  then obtain pd where pd: "DAList.lookup (pv_pods (snd sample_turn)) ''prod/web-1'' = Some pd" "\<not> isTerminal pd" by auto
  have "stuck 90 sample_running = stuck 50 sample_running" by code_simp
  from steady_state_silent [OF _ own turn _ pd(2) this] sample_tracked_pod pd key
  have "syncTurn sample_source 90 90 (fst (sample_listing [sample_running])) [[]] pd (fst sample_turn, snd sample_turn)
      = (fst sample_turn, snd sample_turn)" by simp
  moreover have "pv_notified (snd sample_turn) \<noteq> []" by code_simp
  ultimately show ?thesis by (simp add: pd(1))
qed

definition sample_finished :: pod where
  "sample_finished = sample_pod\<lparr>pod_phase := ''Succeeded'', pod_start := Some 10\<rparr>"

definition sample_reclaim :: "capsule list \<times> provider" where
  "sample_reclaim = syncTurn sample_source (10 + hour) (10 + hour) (fst (sample_listing [sample_capsule])) [[]] sample_finished ([sample_capsule], New)"

theorem reclaim_only_finished_witness:
  "fst sample_reclaim = [] \<and> isTerminal sample_finished \<and> 10 + hour - finishedAt sample_finished \<ge> hour"
proof -
  have gone: "fst sample_reclaim = []" by code_simp
  have "syncTurn sample_source (10 + hour) (10 + hour) (fst (sample_listing [sample_capsule])) [[]] sample_finished ([sample_capsule], New)
      = (fst sample_reclaim, snd sample_reclaim)" by (simp add: sample_reclaim_def)
  from reclaim_only_finished [OF this] gone show ?thesis by simp
qed

definition sample_unseen :: "unit result \<times> (capsule list \<times> provider)" where
  "sample_unseen = DeletePod sample_config sample_source 7 sample_pod (sample_capsules, New)"

theorem deleted_pods_hidden_witness:
  "isl (GetPod sample_config (snd (snd sample_unseen)) ''prod'' ''web-1'')"
proof -
  have "DeletePod sample_config sample_source 7 sample_pod (sample_capsules, New)
      = (fst sample_unseen, (fst (snd sample_unseen), snd (snd sample_unseen)))" by (simp add: sample_unseen_def)
  with lives.start have "lives sample_config sample_source sample_prep (snd (snd sample_unseen))" by (rule lives.delete)
  moreover have "pv_deleted (snd (snd sample_unseen)) (PodKey ''prod'' ''web-1'') \<noteq> None" by code_simp
  ultimately show ?thesis using deleted_pods_hidden [of sample_config sample_source sample_prep _ "''prod''" "''web-1''"] by blast
qed

section \<open>What the model shows of the code\<close>

text \<open>
  A turn acts by name on the provider as it is at that moment, with the snapshot of the cycle's
  start: a finished pod's turn forgets the pod that took its name in between, and its mark.
\<close>

theorem stale_turn_forgets_newer:
  assumes "coveredPod S covered old" and "ownCapsule managed old = None" and "isTerminal old"
    and "DAList.lookup (pv_pods p) (key_of old) = Some new" and "pod_uid new \<noteq> pod_uid old"
  shows "DAList.lookup (pv_pods (snd (syncTurn S now clk managed covered old (s, p)))) (key_of old) = None"
  using assms by (simp add: syncTurn_def dropPod_def lookup_delete)

text \<open>
  The listing of a cycle is keyed by the pod a capsule's labels name, over all tenants: a capsule
  of a tenant visited later whose labels name another tenant's pod, and that carries no pod UID,
  is what that pod's status and address are read from.
\<close>

theorem foreign_capsule_read:
  assumes "so_list S own s = (Inr part, s1)" and "so_list S foreign s1 = (Inr part', s2)"
    and "map_of part' (key_of pod) = Some cap" and "PodUID cap = []"
  shows "\<exists>managed covered. bind_a (syncList S tenant own) (\<lambda>_. syncList S other foreign) (s, (Map.empty, []))
      = (Inr (), (s2, (managed, covered))) \<and> ownCapsule managed pod = Some cap"
  using assms by (auto simp: syncList_def bind_a_def lift_w_def modify_def ownCapsule_def)

end
