(* ===== verification/Provider_Orphans.thy ===== *)
theory Provider_Orphans
  imports Provider_State
begin

text \<open>
  \<^verbatim>\<open>pkg/provider/orphans.go\<close>: the sweep that deletes capsules nothing needs any more. It walks
  the tenants through the \<open>capsule_source\<close> interface; what it spares is proved once against that
  interface and read off for the sources the program has. A capsule pointer is its position in
  the pod's list.
\<close>

section \<open>Operations\<close>

definition orphanGrace :: time where "orphanGrace = 5 * minute"

definition reportedUnowned :: "string \<Rightarrow> provider \<Rightarrow> bool \<times> provider" where
  "reportedUnowned uuid p =
     (if uuid \<in> set (pv_unowned p) then (True, p) else (False, p\<lparr>pv_unowned := uuid # pv_unowned p\<rparr>))"

text \<open>The loop over a pod's capsules: this node's are collected, those of no node are noted once.\<close>

fun mineAmong :: "string \<Rightarrow> capsule list \<Rightarrow> provider \<Rightarrow> capsule list \<times> provider" where
  "mineAmong node [] p = ([], p)"
| "mineAmong node (c # cs) p =
     (if NodeName c = node then (case mineAmong node cs p of (mine, p') \<Rightarrow> (c # mine, p'))
      else if NodeName c = [] then mineAmong node cs (snd (reportedUnowned (cap_uuid c) p))
      else mineAmong node cs p)"

definition eligible :: "string \<Rightarrow> capsule \<Rightarrow> bool" where
  "eligible podUID c \<longleftrightarrow> \<not> (PodUID c \<noteq> [] \<and> PodUID c \<noteq> podUID)"

fun keepAmong :: "string \<Rightarrow> (nat \<times> capsule) option \<Rightarrow> (nat \<times> capsule) list \<Rightarrow> (nat \<times> capsule) option" where
  "keepAmong podUID keep [] = keep"
| "keepAmong podUID keep ((i, c) # cs) =
     (if \<not> eligible podUID c then keepAmong podUID keep cs
      else if (case keep of None \<Rightarrow> True | Some (_, k) \<Rightarrow> cap_created c > cap_created k) then keepAmong podUID (Some (i, c)) cs
      else keepAmong podUID keep cs)"

definition tooYoung :: "time \<Rightarrow> capsule \<Rightarrow> bool" where
  "tooYoung clk c = (cap_created c \<noteq> 0 \<and> clk - cap_created c < orphanGrace)"

definition othersThan :: "time \<Rightarrow> (nat \<times> capsule) option \<Rightarrow> (nat \<times> capsule) list \<Rightarrow> capsule list" where
  "othersThan clk keep cs =
     map snd (filter (\<lambda>(i, c). map_option fst keep \<noteq> Some i \<and> \<not> tooYoung clk c) cs)"

definition orphansAmong ::
  "'s config \<Rightarrow> pod lister \<Rightarrow> time \<Rightarrow> string \<Rightarrow> capsule list \<Rightarrow> provider \<Rightarrow> capsule list \<times> provider" where
  "orphansAmong cfg podLister clk key capsules p =
     (case SplitPodKey key of
        Inl _ \<Rightarrow> ([], p)
      | Inr (namespace, name) \<Rightarrow>
          if isl (authorize cfg namespace) then ([], p)
          else (case mineAmong (cf_nodeName cfg) capsules p of
            (mine, p') \<Rightarrow>
              if mine = [] then ([], p')
              else (case l_Get podLister namespace name of
                Inr pod \<Rightarrow> (othersThan clk (keepAmong (pod_uid pod) None (enumerate 0 mine)) (enumerate 0 mine), p')
              | Inl e \<Rightarrow>
                  if is_kube_not_found e then (othersThan clk None (enumerate 0 mine), p') else ([], p'))))"

text \<open>A capsule that cannot be deleted is reported and the sweep goes on.\<close>

definition deleteOrphans :: "('s, 'api) source \<Rightarrow> 'api \<Rightarrow> capsule list \<Rightarrow> 's \<Rightarrow> 's" where
  "deleteOrphans S api orphans s = foldl (\<lambda>s c. snd (so_delete S api (cap_uuid c) s)) s orphans"

fun sweepPods ::
  "'s config \<Rightarrow> ('s, 'api) source \<Rightarrow> pod lister \<Rightarrow> time \<Rightarrow> 'api \<Rightarrow> (string \<times> capsule list) list \<Rightarrow> 's \<times> provider \<Rightarrow> 's \<times> provider" where
  "sweepPods cfg S podLister clk api [] sp = sp"
| "sweepPods cfg S podLister clk api ((key, capsules) # managed) (s, p) =
     (case orphansAmong cfg podLister clk key capsules p of
        (orphans, p') \<Rightarrow> sweepPods cfg S podLister clk api managed (deleteOrphans S api orphans s, p'))"

text \<open>A tenant that cannot be listed is skipped, and the walk continues.\<close>

definition sweepTenant ::
  "'s config \<Rightarrow> ('s, 'api) source \<Rightarrow> pod lister \<Rightarrow> time \<Rightarrow> string \<Rightarrow> 'api \<Rightarrow> ('s \<times> provider, unit) act" where
  "sweepTenant cfg S podLister clk tenant api sp =
     (case lift_w (so_listAll S api) sp of
        (Inl _, sp') \<Rightarrow> (Inr (), sp')
      | (Inr managed, sp') \<Rightarrow> (Inr (), sweepPods cfg S podLister clk api managed sp'))"

text \<open>
  \<open>podLister\<close> is \<open>None\<close> for a provider without a pod cache; \<open>synced\<close> is what the cache
  answers, \<open>None\<close> when there is nobody to ask.
\<close>

definition sweepOrphans ::
  "'s config \<Rightarrow> ('s, 'api) source \<Rightarrow> ((string \<Rightarrow> 'api \<Rightarrow> ('s \<times> provider, unit) act) \<Rightarrow> ('s \<times> provider, unit) act)
     \<Rightarrow> pod lister option \<Rightarrow> bool option \<Rightarrow> time \<Rightarrow> 's \<times> provider \<Rightarrow> 's \<times> provider" where
  "sweepOrphans cfg S each podLister synced clk sp =
     (case podLister of
        None \<Rightarrow> sp
      | Some L \<Rightarrow> if synced = Some False then sp else snd (each (sweepTenant cfg S L clk) sp))"

section \<open>What condemns a capsule\<close>

text \<open>
  The only ground on which a capsule of this node may be deleted: it is old enough, its namespace
  is served, and either the pod cache answers that the pod does not exist, or the pod exists and
  the capsule is another pod's of the same name, or a duplicate no newer than another one.
  \<open>siblings\<close> are the capsules of the same pod.
\<close>

definition condemned :: "'s config \<Rightarrow> pod lister \<Rightarrow> time \<Rightarrow> string \<Rightarrow> capsule set \<Rightarrow> capsule \<Rightarrow> bool" where
  "condemned cfg L clk key siblings c \<longleftrightarrow>
     NodeName c = cf_nodeName cfg \<and> \<not> tooYoung clk c \<and>
     (\<exists>ns n. SplitPodKey key = Inr (ns, n) \<and> cf_serves cfg ns \<and>
        (case l_Get L ns n of
           Inl e \<Rightarrow> is_kube_not_found e
         | Inr pod \<Rightarrow> eligible (pod_uid pod) c \<longrightarrow>
             (\<exists>k \<in> siblings - {c}. NodeName k = cf_nodeName cfg \<and> eligible (pod_uid pod) k \<and> cap_created c \<le> cap_created k)))"

lemma condemned_mono: "condemned cfg L clk key A c \<Longrightarrow> A \<subseteq> B \<Longrightarrow> condemned cfg L clk key B c"
  unfolding condemned_def by (auto split: sum.splits) blast

lemma mineAmong_filter: "fst (mineAmong node cs p) = filter (\<lambda>c. NodeName c = node) cs"
  by (induction node cs p rule: mineAmong.induct) (auto split: prod.splits)

lemma keepAmong_member:
  "keepAmong u keep cs = Some (i, k) \<Longrightarrow> keep = Some (i, k) \<or> ((i, k) \<in> set cs \<and> eligible u k)"
  by (induction u keep cs rule: keepAmong.induct) (auto split: if_splits)

lemma keepAmong_grows:
  "keep = Some (j, c) \<Longrightarrow> \<exists>i k. keepAmong u keep cs = Some (i, k) \<and> cap_created c \<le> cap_created k"
proof (induction u keep cs arbitrary: j c rule: keepAmong.induct)
  case (2 u keep i d cs)
  show ?case
  proof (cases "eligible u d \<and> cap_created d > cap_created c")
    case True
    with 2(2) [of i d] 2(4) obtain a k where "keepAmong u (Some (i, d)) cs = Some (a, k)" "cap_created d \<le> cap_created k" by auto
    with True 2(4) show ?thesis by auto
  qed (use 2 in auto)
qed simp

lemma keepAmong_newest:
  "(j, c) \<in> set cs \<Longrightarrow> eligible u c \<Longrightarrow> \<exists>i k. keepAmong u keep cs = Some (i, k) \<and> cap_created c \<le> cap_created k"
proof (induction u keep cs rule: keepAmong.induct)
  case (2 u keep i d cs)
  show ?case
  proof (cases "(j, c) \<in> set cs")
    case False
    with 2(4) have eq: "j = i" "c = d" by auto
    show ?thesis
    proof (cases keep)
      case None
      with 2(5) eq keepAmong_grows [OF refl, where j = i and c = d and u = u and cs = cs] show ?thesis by simp
    next
      case (Some jk)
      obtain a b where ab: "jk = (a, b)" by (meson surj_pair)
      show ?thesis
      proof (cases "cap_created b < cap_created d")
        case True
        with 2(5) eq keepAmong_grows [OF refl, where j = i and c = d and u = u and cs = cs] Some ab show ?thesis by simp
      next
        case False
        moreover obtain x y where "keepAmong u (Some (a, b)) cs = Some (x, y)" "cap_created b \<le> cap_created y"
          using keepAmong_grows [OF refl, where j = a and c = b and u = u and cs = cs] by blast
        ultimately show ?thesis using 2(5) eq Some ab by auto
      qed
    qed
  qed (use 2 in auto)
qed simp

lemma othersThan_evidence:
  assumes "distinct mine" and "c \<in> set (othersThan clk (keepAmong u None (enumerate 0 mine)) (enumerate 0 mine))"
  shows "c \<in> set mine \<and> \<not> tooYoung clk c \<and>
    (eligible u c \<longrightarrow> (\<exists>k \<in> set mine - {c}. eligible u k \<and> cap_created c \<le> cap_created k))"
proof -
  from assms(2) obtain i where i: "(i, c) \<in> set (enumerate 0 mine)" "\<not> tooYoung clk c"
      "map_option fst (keepAmong u None (enumerate 0 mine)) \<noteq> Some i"
    by (auto simp: othersThan_def)
  then have at: "i < length mine" "mine ! i = c" by (auto simp: in_set_enumerate_eq)
  moreover have "\<exists>k \<in> set mine - {c}. eligible u k \<and> cap_created c \<le> cap_created k" if "eligible u c"
  proof -
    from keepAmong_newest [OF i(1) that, of None] obtain j k where
      k: "keepAmong u None (enumerate 0 mine) = Some (j, k)" "cap_created c \<le> cap_created k" by blast
    from keepAmong_member [OF k(1)] have "(j, k) \<in> set (enumerate 0 mine)" "eligible u k" by auto
    then have jk: "j < length mine" "mine ! j = k" "eligible u k" by (auto simp: in_set_enumerate_eq)
    from i(3) k(1) have "j \<noteq> i" by auto
    with at jk assms(1) have "k \<noteq> c" by (auto simp: distinct_conv_nth)
    with jk k(2) show ?thesis using nth_mem [of j mine] by auto
  qed
  ultimately show ?thesis using i(2) by auto
qed

lemma orphansAmong_condemned:
  assumes "distinct cs" and "c \<in> set (fst (orphansAmong cfg L clk key cs p))"
  shows "c \<in> set cs \<and> condemned cfg L clk key (set cs) c"
proof -
  let ?mine = "filter (\<lambda>c. NodeName c = cf_nodeName cfg) cs"
  from assms(1) have d: "distinct ?mine" by simp
  obtain p' where m: "mineAmong (cf_nodeName cfg) cs p = (?mine, p')" by (metis mineAmong_filter prod.collapse)
  from assms(2) obtain ns n where k: "SplitPodKey key = Inr (ns, n)" "cf_serves cfg ns"
    by (auto simp: orphansAmong_def authorize_def split: sum.splits if_splits)
  show ?thesis
  proof (cases "l_Get L ns n")
    case (Inl e)
    with assms(2) k m have "is_kube_not_found e" "c \<in> set (othersThan clk None (enumerate 0 ?mine))"
      by (auto simp: orphansAmong_def authorize_def split: if_splits)
    then show ?thesis using k Inl by (auto simp: othersThan_def condemned_def in_set_enumerate_eq dest!: nth_mem [of _ ?mine])
  next
    case (Inr pod)
    with assms(2) k m have "c \<in> set (othersThan clk (keepAmong (pod_uid pod) None (enumerate 0 ?mine)) (enumerate 0 ?mine))"
      by (auto simp: orphansAmong_def authorize_def split: if_splits)
    from othersThan_evidence [OF d this] k Inr show ?thesis by (auto simp: condemned_def)
  qed
qed

section \<open>The sweep\<close>

text \<open>
  What is relied on of Zun, for the APIs \<open>A\<close> and with \<open>H\<close> the capsules held: identifiers are
  unique; a deletion by the identifier of a capsule removes at most that one, and a deletion by a name of the
  form the node gives removes at most the capsules of that name; a listing changes nothing and
  names each capsule once, under the pod its labels say.
\<close>

definition answers_to :: "string \<Rightarrow> capsule \<Rightarrow> bool" where
  "answers_to i c \<longleftrightarrow> cap_uuid c = i \<or> cap_Name c = i"

definition given_name :: "string \<Rightarrow> bool" where
  "given_name i = has_prefix i ''kubezun-''"

definition capsule_laws :: "('s, 'api) source \<Rightarrow> 'api set \<Rightarrow> ('s \<Rightarrow> capsule set) \<Rightarrow> bool" where
  "capsule_laws S A H \<longleftrightarrow>
     (\<forall>s. inj_on cap_uuid (H s)) \<and>
     (\<forall>api \<in> A. \<forall>i s. H (snd (so_delete S api i s)) \<subseteq> H s) \<and>
     (\<forall>api \<in> A. \<forall>i s s0. i \<in> cap_uuid ` H s0 \<longrightarrow> (\<forall>c \<in> H s. cap_uuid c \<noteq> i \<longrightarrow> c \<in> H (snd (so_delete S api i s)))) \<and>
     (\<forall>api \<in> A. \<forall>i s. given_name i \<longrightarrow> (\<forall>c \<in> H s. \<not> answers_to i c \<longrightarrow> c \<in> H (snd (so_delete S api i s)))) \<and>
     (\<forall>api \<in> A. \<forall>s. H (snd (so_listAll S api s)) = H s) \<and>
     (\<forall>api \<in> A. \<forall>s managed s'. so_listAll S api s = (Inr managed, s') \<longrightarrow>
        (\<forall>key cs. (key, cs) \<in> set managed \<longrightarrow> distinct cs \<and> set cs \<subseteq> {c \<in> H s. pod_of c = Some key}))"

text \<open>A capsule in safe hands: held, with nothing new held, and not condemned by what was held.\<close>

definition safe :: "'s config \<Rightarrow> pod lister \<Rightarrow> time \<Rightarrow> ('s \<Rightarrow> capsule set) \<Rightarrow> capsule set \<Rightarrow> capsule \<Rightarrow> 's \<times> provider \<Rightarrow> bool" where
  "safe cfg L clk H H0 c sp \<longleftrightarrow>
     c \<in> H (fst sp) \<and> H (fst sp) \<subseteq> H0 \<and> (\<exists>s0. H0 = H s0) \<and> inj_on cap_uuid H0 \<and>
     (\<forall>key. pod_of c = Some key \<longrightarrow> \<not> condemned cfg L clk key {k \<in> H0. pod_of k = Some key} c)"

lemma capsule_lawsD:
  assumes "capsule_laws S A H"
  shows "inj_on cap_uuid (H s)" "api \<in> A \<Longrightarrow> H (snd (so_delete S api i s)) \<subseteq> H s"
    "api \<in> A \<Longrightarrow> i \<in> cap_uuid ` H s0 \<Longrightarrow> c \<in> H s \<Longrightarrow> cap_uuid c \<noteq> i \<Longrightarrow> c \<in> H (snd (so_delete S api i s))"
    "api \<in> A \<Longrightarrow> H (snd (so_listAll S api s)) = H s"
    "api \<in> A \<Longrightarrow> so_listAll S api s = (Inr managed, s') \<Longrightarrow> (key, cs) \<in> set managed \<Longrightarrow>
       distinct cs \<and> set cs \<subseteq> {c \<in> H s. pod_of c = Some key}"
    "api \<in> A \<Longrightarrow> given_name i \<Longrightarrow> c \<in> H s \<Longrightarrow> \<not> answers_to i c \<Longrightarrow> c \<in> H (snd (so_delete S api i s))"
proof -
  note laws = assms [unfolded capsule_laws_def]
  show "inj_on cap_uuid (H s)" by (rule laws [THEN conjunct1, rule_format])
  show "api \<in> A \<Longrightarrow> H (snd (so_delete S api i s)) \<subseteq> H s" by (rule laws [THEN conjunct2, THEN conjunct1, rule_format])
  show "api \<in> A \<Longrightarrow> i \<in> cap_uuid ` H s0 \<Longrightarrow> c \<in> H s \<Longrightarrow> cap_uuid c \<noteq> i \<Longrightarrow> c \<in> H (snd (so_delete S api i s))"
    by (rule laws [THEN conjunct2, THEN conjunct2, THEN conjunct1, rule_format])
  show "api \<in> A \<Longrightarrow> given_name i \<Longrightarrow> c \<in> H s \<Longrightarrow> \<not> answers_to i c \<Longrightarrow> c \<in> H (snd (so_delete S api i s))"
    by (rule laws [THEN conjunct2, THEN conjunct2, THEN conjunct2, THEN conjunct1, rule_format])
  show "api \<in> A \<Longrightarrow> H (snd (so_listAll S api s)) = H s" by (rule laws [THEN conjunct2, THEN conjunct2, THEN conjunct2, THEN conjunct2, THEN conjunct1, rule_format])
  show "api \<in> A \<Longrightarrow> so_listAll S api s = (Inr managed, s') \<Longrightarrow> (key, cs) \<in> set managed \<Longrightarrow>
       distinct cs \<and> set cs \<subseteq> {c \<in> H s. pod_of c = Some key}"
    by (rule laws [THEN conjunct2, THEN conjunct2, THEN conjunct2, THEN conjunct2, THEN conjunct2, rule_format])
qed

lemma safe_mono: "safe cfg L clk H H0 c (s, p) \<Longrightarrow> c \<in> H s' \<Longrightarrow> H s' \<subseteq> H s \<Longrightarrow> safe cfg L clk H H0 c (s', p')"
  by (auto simp: safe_def)

lemma deleteOrphans_safe:
  assumes "capsule_laws S A H" and "api \<in> A" and "safe cfg L clk H H0 c (s, p)" and "\<forall>o' \<in> set os. o' \<in> H0 \<and> cap_uuid o' \<noteq> cap_uuid c"
  shows "safe cfg L clk H H0 c (deleteOrphans S api os s, p')"
  using assms(3,4)
proof (induction os arbitrary: s p)
  case Nil
  then show ?case by (simp add: deleteOrphans_def safe_def)
next
  case (Cons x os)
  from Cons.prems obtain s0 where "x \<in> H s0" "cap_uuid c \<noteq> cap_uuid x" "c \<in> H s" by (auto simp: safe_def)
  then have "c \<in> H (snd (so_delete S api (cap_uuid x) s))" "H (snd (so_delete S api (cap_uuid x) s)) \<subseteq> H s"
    using capsule_lawsD(2,3) [OF assms(1,2)] by blast+
  from safe_mono [OF Cons.prems(1) this] Cons show ?case by (simp add: deleteOrphans_def)
qed

lemma orphans_spare:
  assumes "safe cfg L clk H H0 c sp" and "distinct cs" and "set cs \<subseteq> {c \<in> H0. pod_of c = Some key}"
    and "x \<in> set (fst (orphansAmong cfg L clk key cs p))"
  shows "x \<in> H0 \<and> cap_uuid x \<noteq> cap_uuid c"
proof (intro conjI notI)
  from orphansAmong_condemned [OF assms(2,4)] have x: "x \<in> set cs" "condemned cfg L clk key (set cs) x" by auto
  then show "x \<in> H0" using assms(3) by auto
  assume "cap_uuid x = cap_uuid c"
  from assms(1) have "c \<in> H0" "inj_on cap_uuid H0" by (auto simp: safe_def)
  with x assms(3) \<open>cap_uuid x = cap_uuid c\<close> have "x = c" by (auto dest: inj_onD)
  with x assms(1,3) condemned_mono [OF x(2) assms(3)] show False by (auto simp: safe_def)
qed

lemma sweepPods_safe:
  assumes "capsule_laws S A H" and "api \<in> A" and "safe cfg L clk H H0 c sp"
    and "\<And>key cs. (key, cs) \<in> set managed \<Longrightarrow> distinct cs \<and> set cs \<subseteq> {c \<in> H0. pod_of c = Some key}"
  shows "safe cfg L clk H H0 c (sweepPods cfg S L clk api managed sp)"
  using assms(3,4)
proof (induction managed arbitrary: sp)
  case (Cons kc managed)
  obtain key cs where kc: "kc = (key, cs)" by (meson surj_pair)
  obtain s p where sp: "sp = (s, p)" by (meson surj_pair)
  obtain os p' where o: "orphansAmong cfg L clk key cs p = (os, p')" by (meson surj_pair)
  have cs: "distinct cs" "set cs \<subseteq> {c \<in> H0. pod_of c = Some key}" using Cons.prems(2) [of key cs] kc by auto
  have "\<forall>x \<in> set os. x \<in> H0 \<and> cap_uuid x \<noteq> cap_uuid c"
    using orphans_spare [OF Cons.prems(1) cs, of _ p] o by auto
  then have "safe cfg L clk H H0 c (deleteOrphans S api os s, p')"
    using deleteOrphans_safe [OF assms(1,2), of cfg L clk H0 c s p os] Cons.prems(1) sp by simp
  moreover have "distinct cs \<and> set cs \<subseteq> {c \<in> H0. pod_of c = Some key}" if "(key, cs) \<in> set managed" for key cs
    using Cons.prems(2) that by auto
  ultimately show ?case using Cons.IH by (simp add: kc sp o)
qed simp

lemma sweepTenant_safe:
  assumes "capsule_laws S A H" and "api \<in> A"
  shows "keeps (safe cfg L clk H H0 c) (sweepTenant cfg S L clk t api)"
proof (rule keepsI)
  fix sp assume safe: "safe cfg L clk H H0 c sp"
  obtain s p where sp: "sp = (s, p)" by (meson surj_pair)
  obtain r s' where l: "so_listAll S api s = (r, s')" by (meson surj_pair)
  have H: "H s' = H s" using capsule_lawsD(4) [OF assms, of s] l by simp
  from safe have safe': "safe cfg L clk H H0 c (s', p)" by (simp add: safe_def sp H)
  show "safe cfg L clk H H0 c (snd (sweepTenant cfg S L clk t api sp))"
  proof (cases r)
    case (Inl e)
    with safe' l show ?thesis by (simp add: sweepTenant_def lift_w_def sp)
  next
    case (Inr managed)
    have "distinct cs \<and> set cs \<subseteq> {c \<in> H0. pod_of c = Some key}" if "(key, cs) \<in> set managed" for key cs
    proof -
      from capsule_lawsD(5) [OF assms l [unfolded Inr] that] safe sp show ?thesis by (auto simp: safe_def)
    qed
    from sweepPods_safe [OF assms safe' this] l Inr show ?thesis by (simp add: sweepTenant_def lift_w_def sp)
  qed
qed

text \<open>The sweep touches neither the resolver's sessions nor the APIs it has built.\<close>

lemma deleteOrphans_cache: "snd (deleteOrphans (resolved_source R flip mk) api os v) = snd v"
  unfolding deleteOrphans_def
proof (induction os arbitrary: v)
  case (Cons x os)
  then show ?case by (cases v) (simp add: resolved_source_def lift_w_def case_prod_beta)
qed simp

lemma sweepPods_cache: "snd (fst (sweepPods cfg (resolved_source R flip mk) L clk api managed vp)) = snd (fst vp)"
proof (induction managed arbitrary: vp)
  case (Cons kc managed)
  obtain key cs v p where "kc = (key, cs)" "vp = (v, p)" by (meson surj_pair)
  with Cons show ?case by (simp add: deleteOrphans_cache case_prod_beta)
qed simp

lemma sweepTenant_cache:
  "keeps (\<lambda>vp. P (snd (snd (fst vp)))) (sweepTenant cfg (resolved_source R flip mk) L clk t api)"
proof (rule keepsI)
  fix vp :: "('a, 'a zun_api) rworld \<times> provider" assume P: "P (snd (snd (fst vp)))"
  obtain w rest p where vp: "vp = ((w, rest), p)" by (metis prod.collapse)
  obtain r w' where l: "ListManagedAll api w = (r, w')" by (meson surj_pair)
  show "P (snd (snd (fst (snd (sweepTenant cfg (resolved_source R flip mk) L clk t api vp)))))"
    using P l by (cases r) (simp_all add: sweepTenant_def lift_w_def resolved_source_def vp
        sweepPods_cache [unfolded resolved_source_def])
qed

lemma resolver_quiet:
  assumes "\<forall>ns v. H (snd (ResolvedFor R flip mk ns v)) = H v"
  shows "keeps (\<lambda>vp. safe cfg L clk H H0 c vp \<and> apis_ok mk (snd (snd (fst vp)))) (lift_w (ResolvedFor R flip mk ns))"
proof (rule keepsI)
  fix vp :: "('a, 'b) rworld \<times> provider"
  assume q: "safe cfg L clk H H0 c vp \<and> apis_ok mk (snd (snd (fst vp)))"
  obtain w st apis p where vp: "vp = ((w, st, apis), p)" by (metis prod.collapse)
  obtain r w' st' apis' where r: "ResolvedFor R flip mk ns (w, st, apis) = (r, (w', st', apis'))" by (metis prod_cases3)
  with assms have "H (w', st', apis') = H (w, st, apis)" by (metis snd_conv)
  with q ResolvedFor_apis_ok [OF r] show "safe cfg L clk H H0 c (snd (lift_w (ResolvedFor R flip mk ns) vp)) \<and>
      apis_ok mk (snd (snd (fst (snd (lift_w (ResolvedFor R flip mk ns) vp)))))"
    by (simp add: vp lift_w_def r safe_def)
qed

text \<open>
  What resolving a namespace calls: the secrets of the tenants and their authentication. Where none
  of those calls touches a part of the world, resolving does not.
\<close>

definition resolver_leaves :: "'w resolver \<Rightarrow> ('w \<Rightarrow> 'h) \<Rightarrow> bool" where
  "resolver_leaves R H \<longleftrightarrow>
     (\<forall>n w. H (snd (sec_Get (rv_secrets R) n w)) = H w) \<and> (\<forall>n as w. H (snd (sec_Patch (rv_secrets R) n as w)) = H w) \<and>
     (\<forall>cr w. H (snd (rv_connect R cr w)) = H w)"

lemma keeps_lift_w: "keeps P m \<Longrightarrow> keeps (\<lambda>ws. P (fst ws)) (lift_w m)"
  by (simp add: keeps_def lift_w_def case_prod_beta)

lemma connect_leaves:
  assumes "resolver_leaves R H"
  shows "keeps (\<lambda>ws. H (fst ws) = h) (connect R flip tenant)"
proof -
  have get: "keeps (\<lambda>w. H w = h) (getSecret R tenant)"
    using assms by (auto simp: resolver_leaves_def keeps_def getSecret_def case_prod_beta split: sum.split)
  have auth: "keeps (\<lambda>w. H w = h) (wrap_err m (rv_connect R cr))" for m cr
    using assms by (auto simp: resolver_leaves_def keeps_def)
  have rec: "keeps (\<lambda>w. H w = h) (record_binding R s want missing)" for s want missing
    using assms by (auto simp: resolver_leaves_def keeps_def record_binding_def Let_def)
  have check: "keeps (\<lambda>ws. H (fst ws) = h) (checkBinding R flip tenant s ses)" for s ses
    using rec by (auto simp: keeps_def checkBinding_def case_prod_beta split: sum.split)
  show ?thesis
    unfolding connect_def by (intro keeps_bind_a keeps_ret check keeps_lift_w [OF get] keeps_lift_w [OF auth])
qed

lemma ResolvedFor_leaves:
  assumes "resolver_leaves R H"
  shows "H (fst (snd (ResolvedFor R flip mk ns v))) = H (fst v)"
proof -
  obtain w st apis where v: "v = (w, st, apis)" by (metis prod_cases3)
  let ?P = "\<lambda>ws. H (fst ws) = H w"
  have store: "keeps ?P (storeBinding tenant b)" for tenant b
    by (auto simp: keeps_def storeBinding_def split: option.splits)
  have "keeps ?P (BindingFor R flip ns)"
    using connect_leaves [OF assms] keeps_bind_a [OF connect_leaves [OF assms] store]
    by (auto simp: keeps_def BindingFor_def split: option.split)
  then have "keeps ?P (SessionFor R flip ns)"
    unfolding SessionFor_def by (intro keeps_bind_a keeps_ret)
  from keepsD [OF this, of "(w, st)"] obtain r w' st' where s: "SessionFor R flip ns (w, st) = (r, (w', st'))" "H w' = H w"
    by (metis fst_conv prod_cases3 snd_conv)
  then show ?thesis
    by (cases r) (auto simp: v ResolvedFor_def bind_a_def with_resolver_def apiFor_def split: option.split sum.split)
qed

text \<open>A walk of the sweep keeps a capsule there is no ground to delete.\<close>

lemma sweep_walk_keeps:
  assumes "capsule_laws (resolved_source R flip mk) {api. \<exists>ses. mk ses = Inr api} (\<lambda>v. H (fst v))" and "resolver_leaves R H"
  shows "keeps (\<lambda>vp. safe cfg L clk (\<lambda>v. H (fst v)) H0 c vp \<and> apis_ok mk (snd (snd (fst vp))))
    (ResolvedEach R flip mk nsOf ts (sweepTenant cfg (resolved_source R flip mk) L clk))"
proof -
  let ?Q = "\<lambda>vp. safe cfg L clk (\<lambda>v. H (fst v)) H0 c vp \<and> apis_ok mk (snd (snd (fst vp)))"
  let ?fn = "sweepTenant cfg (resolved_source R flip mk) L clk"
  have "keeps ?Q (lift_w (ResolvedFor R flip mk ns))" for ns
    using resolver_quiet [of "\<lambda>v. H (fst v)" R flip mk] ResolvedFor_leaves [OF assms(2)] by blast
  moreover have "\<exists>ses. mk ses = Inr api" if "?Q vp" "lift_w (ResolvedFor R flip mk ns) vp = (Inr api, vp')" for ns vp api vp'
    using that by (cases vp; cases vp') (auto simp: lift_w_iff dest: ResolvedFor_apis_ok)
  moreover have "keeps ?Q (?fn t api)" if "\<exists>ses. mk ses = Inr api" for t api
    using sweepTenant_safe [OF assms(1), of api cfg L clk H0 c t] sweepTenant_cache [of "apis_ok mk" cfg R flip mk L clk t api] that
    by (simp add: keeps_def)
  ultimately show ?thesis
    using resolved.each_handed [where R = R and flip = flip and mk = mk and Q = ?Q and handed = "\<lambda>api. \<exists>ses. mk ses = Inr api" and fn = ?fn and nsOf = nsOf and ts = ts] by blast
qed

section \<open>Properties\<close>


definition sample_tenants :: "(capsule list) resolver" where
  "sample_tenants =
     \<lparr>rv_secrets = \<lparr>sec_Get = (\<lambda>n w. (Inr (sample_secret\<lparr>sec_name := n\<rparr>), w)), sec_Patch = (\<lambda>n as w. (Inr (), w))\<rparr>,
      rv_tenantOf = (\<lambda>ns. if ns = ''prod'' then Some ''t1'' else None), rv_secretName = None,
      rv_connect = (\<lambda>_ w. (Inr \<lparr>ses_project = ''p1'', ses_region = ''r1''\<rparr>, w))\<rparr>"

text \<open>A service that keeps the first of the capsules with one identifier.\<close>

fun uniq :: "capsule list \<Rightarrow> capsule list" where
  "uniq [] = []"
| "uniq (c # cs) = c # filter (\<lambda>d. cap_uuid d \<noteq> cap_uuid c) (uniq cs)"

definition sample_service :: "(capsule list) zun_api" where
  "sample_service = sample_zun\<lparr>z_List := (\<lambda>w. (Inr (uniq w), w))\<rparr>"

definition sample_held :: "capsule list \<Rightarrow> capsule set" where
  "sample_held w = set (uniq w)"

definition no_pods :: "pod lister" where
  "no_pods = \<lparr>l_List = (\<lambda>_. Inr []), l_In = (\<lambda>_ _. Inr []), l_Get = (\<lambda>_ n. Inl (ErrKubeNotFound n))\<rparr>"

lemma uniq_filter: "uniq (filter (\<lambda>c. cap_uuid c \<noteq> i) w) = filter (\<lambda>c. cap_uuid c \<noteq> i) (uniq w)"
  by (induction w) (auto intro: filter_cong)

lemma inj_uniq: "inj_on cap_uuid (set (uniq w))"
  by (induction w) (auto simp: inj_on_def)

lemma distinct_uniq: "distinct (uniq w)"
  by (induction w) auto

lemma sample_laws: "capsule_laws (resolved_source R flip (\<lambda>_. Inr sample_service)) {api. \<exists>ses :: session. (Inr sample_service :: _ result) = Inr api}
    (\<lambda>v. sample_held (fst v))"
  unfolding capsule_laws_def
  by (auto simp: sample_held_def inj_uniq distinct_uniq resolved_source_def lift_w_def CapsuleDelete_def sample_service_def sample_zun_def
      with_err_def ListManagedAll_def bind_a_def ret_def uniq_filter groupCapsules_iff answers_to_def)

definition sample_node :: "string \<Rightarrow> 's config" where
  "sample_node node = \<lparr>cf_serves = (\<lambda>ns. ns = ''prod''), cf_nodeName = node, cf_networkID = [], cf_networkIDFor = None\<rparr>"

definition sample_sweep :: "string \<Rightarrow> (capsule list, capsule list zun_api) rworld \<times> provider" where
  "sample_sweep node =
     sweepOrphans (sample_node node) (resolved_source sample_tenants False (\<lambda>_. Inr sample_service))
       (ResolvedEach sample_tenants False (\<lambda>_. Inr sample_service) (\<lambda>_. Some ''prod'') [''t1'']) (Some no_pods) (Some True) hour
       ((sample_capsules, res_init, Map.empty), New)"


text \<open>
  A capsule whose creation time is unknown is old enough to delete: only a known age under the
  grace period protects.
\<close>

theorem undated_capsule_swept:
  assumes "cf_serves cfg ns" and "SplitPodKey key = Inr (ns, n)" and "l_Get L ns n = Inl e" and "is_kube_not_found e"
    and "NodeName c = cf_nodeName cfg" and "cap_created c = 0"
  shows "fst (orphansAmong cfg L clk key [c] p) = [c]"
  using assms by (simp add: orphansAmong_def authorize_def othersThan_def tooYoung_def enumerate_eq_zip)

end
