(* ===== verification/Node_Health.thy ===== *)
theory Node_Health
  imports Kube
begin

text \<open>
  \<^verbatim>\<open>pkg/node/node.go\<close>, the Node object a virtual node registers as, and
  \<^verbatim>\<open>pkg/provider/nodehealth.go\<close>, the watch over Zun that takes it out of service. Quantities
  are parsed by apimachinery's \<^verbatim>\<open>resource.MustParse\<close>, which is a parameter. The failure counter is
  a Go \<^verbatim>\<open>int\<close>; at one probe every fifteen seconds it does not wrap.
\<close>

section \<open>The node\<close>

record node_condition =
  nc_status :: string
  nc_reason :: string
  nc_msg :: string
  nc_heartbeat :: time
  nc_transition :: time

record taint =
  tn_key :: string
  tn_value :: string
  tn_effect :: string

record 'q node =
  nd_name :: string
  nd_labels :: "string \<rightharpoonup> string"
  nd_taints :: "taint list"
  nd_os :: string
  nd_arch :: string
  nd_version :: string
  nd_runtime :: string
  nd_capacity :: "string \<rightharpoonup> 'q"
  nd_allocatable :: "string \<rightharpoonup> 'q"
  nd_port :: int
  nd_addresses :: "(string \<times> string) list"
  nd_conditions :: "node_condition list"

record capacity =
  cp_cpu :: string
  cp_memory :: string
  cp_pods :: string
  cp_ephemeral :: string

record node_options =
  no_name :: string
  no_tenant :: string
  no_zone :: string
  no_region :: string
  no_shard :: string
  no_version :: string
  no_os :: string
  no_arch :: string
  no_capacity :: capacity
  no_internalIP :: string
  no_kubeletPort :: int

definition TenantTaintKey :: string where "TenantTaintKey = ''knaas.io/tenant''"
definition ServerlessTaintKey :: string where "ServerlessTaintKey = ''knaas.io/serverless''"
definition ShardLabelKey :: string where "ShardLabelKey = ''knaas.io/shard''"
definition PoolLabelKey :: string where "PoolLabelKey = ''kubezoo.io/pool''"

definition condition :: "string \<Rightarrow> string \<Rightarrow> string \<Rightarrow> time \<Rightarrow> node_condition" where
  "condition status reason msg now =
     \<lparr>nc_status = status, nc_reason = reason, nc_msg = msg, nc_heartbeat = now, nc_transition = now\<rparr>"

definition ReadyCondition :: "time \<Rightarrow> node_condition" where
  "ReadyCondition = condition ''True'' ''KubeletReady'' ''zun is reachable''"

definition NotReadyCondition :: "string \<Rightarrow> time \<Rightarrow> node_condition" where
  "NotReadyCondition msg = condition ''False'' ''KubeletNotReady'' msg"

definition orDefault :: "string \<Rightarrow> string \<Rightarrow> string" where
  "orDefault d s = (if s = [] then d else s)"

definition buildCapacity :: "(string \<Rightarrow> 'q) \<Rightarrow> capacity \<Rightarrow> (string \<rightharpoonup> 'q)" where
  "buildCapacity mustParse c =
     (let out = [''cpu'' \<mapsto> mustParse (orDefault ''0'' (cp_cpu c)), ''memory'' \<mapsto> mustParse (orDefault ''0'' (cp_memory c)),
                 ''pods'' \<mapsto> mustParse (orDefault ''0'' (cp_pods c))]
      in if cp_ephemeral c \<noteq> [] then out(''ephemeral-storage'' \<mapsto> mustParse (cp_ephemeral c)) else out)"

text \<open>A label that is set only for a nonempty value.\<close>

definition labelled :: "string \<Rightarrow> string \<Rightarrow> (string \<rightharpoonup> string) \<Rightarrow> (string \<rightharpoonup> string)" where
  "labelled k v m = (if v \<noteq> [] then m(k \<mapsto> v) else m)"

definition nodeLabels :: "node_options \<Rightarrow> (string \<rightharpoonup> string)" where
  "nodeLabels opts =
     labelled ''topology.kubernetes.io/zone'' (no_zone opts)
       (labelled ''topology.kubernetes.io/region'' (no_region opts)
         (labelled ShardLabelKey (no_shard opts)
           (labelled PoolLabelKey (no_tenant opts)
             [''kubernetes.io/os'' \<mapsto> orDefault ''linux'' (no_os opts), ''kubernetes.io/arch'' \<mapsto> orDefault ''amd64'' (no_arch opts),
              ''kubernetes.io/hostname'' \<mapsto> no_name opts, ''type'' \<mapsto> ''virtual-kubelet'',
              ''node-role.kubernetes.io/serverless'' \<mapsto> [], ''node.kubernetes.io/instance-type'' \<mapsto> ''knaas.serverless''])))"

definition nodeTaints :: "node_options \<Rightarrow> taint list" where
  "nodeTaints opts =
     (if no_tenant opts \<noteq> [] then [\<lparr>tn_key = TenantTaintKey, tn_value = no_tenant opts, tn_effect = ''NoSchedule''\<rparr>]
      else if no_shard opts \<noteq> [] then [\<lparr>tn_key = ServerlessTaintKey, tn_value = ''true'', tn_effect = ''NoSchedule''\<rparr>]
      else [])"

definition Build :: "(string \<Rightarrow> 'q) \<Rightarrow> time \<Rightarrow> node_options \<Rightarrow> 'q node" where
  "Build mustParse now opts =
     \<lparr>nd_name = no_name opts, nd_labels = nodeLabels opts, nd_taints = nodeTaints opts,
      nd_os = orDefault ''linux'' (no_os opts), nd_arch = orDefault ''amd64'' (no_arch opts), nd_version = no_version opts,
      nd_runtime = ''zun://kata'', nd_capacity = buildCapacity mustParse (no_capacity opts),
      nd_allocatable = buildCapacity mustParse (no_capacity opts),
      nd_port = (if no_kubeletPort opts = 0 then 10250 else no_kubeletPort opts),
      nd_addresses = (if no_internalIP opts \<noteq> [] then [(''InternalIP'', no_internalIP opts)] else []),
      nd_conditions = [NotReadyCondition ''Registering the node'' now]\<rparr>"

section \<open>Its health\<close>

definition unhealthyAfter :: nat where "unhealthyAfter = 3"

text \<open>\<open>h_told\<close> are the nodes handed to the notification callback, in order.\<close>

record 'q node_health =
  h_failures :: nat
  h_healthy :: bool
  h_lastErr :: "err option"
  h_node :: "'q node option"
  h_told :: "'q node list"

definition NewNodeHealth :: "'q node option \<Rightarrow> 'q node_health" where
  "NewNodeHealth n = \<lparr>h_failures = 0, h_healthy = True, h_lastErr = None, h_node = n, h_told = []\<rparr>"

definition Ping :: "'q node_health \<Rightarrow> unit result" where
  "Ping h =
     (if h_healthy h then Inr ()
      else (case h_lastErr h of
              Some e \<Rightarrow> Inl (ErrWrap ''zun is unreachable'' e)
            | None \<Rightarrow> Inl (ErrText ''zun is unreachable: %!w(<nil>)'')))"

fun probed :: "'a result \<Rightarrow> 'q node_health \<Rightarrow> 'q node_health" where
  "probed (Inr _) h = h\<lparr>h_failures := 0, h_healthy := True, h_lastErr := None\<rparr>"
| "probed (Inl e) h =
     h\<lparr>h_failures := h_failures h + 1, h_lastErr := Some e,
       h_healthy := (if h_failures h + 1 \<ge> unhealthyAfter then False else h_healthy h)\<rparr>"

definition probe_condition :: "time \<Rightarrow> 'q node_health \<Rightarrow> node_condition" where
  "probe_condition now h =
     (if h_healthy h then ReadyCondition now
      else NotReadyCondition (''zun is unreachable: '' @ (case h_lastErr h of Some e \<Rightarrow> err_text e | None \<Rightarrow> [])) now)"

text \<open>
  One probe: the answer of the listing is recorded, and a change of health is published. The
  listing is the call \<^verbatim>\<open>ListManaged\<close> of the capsule API; \<open>answer\<close> is its result.
\<close>

definition probe :: "time \<Rightarrow> 'a result \<Rightarrow> 'q node_health \<Rightarrow> 'q node_health" where
  "probe now answer h =
     (let h' = probed answer h in
      if h_healthy h = h_healthy h' then h'
      else (case h_node h' of
              None \<Rightarrow> h'
            | Some n \<Rightarrow>
                (let updated = n\<lparr>nd_conditions := [probe_condition now h']\<rparr>
                 in h'\<lparr>h_node := Some updated, h_told := h_told h' @ [updated]\<rparr>)))"

definition probes :: "(time \<times> 'a result) list \<Rightarrow> 'q node_health \<Rightarrow> 'q node_health" where
  "probes as h = foldl (\<lambda>h (now, a). probe now a h) h as"

section \<open>Properties\<close>

text \<open>How many of the last answers in a row were failures.\<close>

definition trailing :: "(time \<times> 'a result) list \<Rightarrow> nat" where
  "trailing as = length (takeWhile (\<lambda>(_, a). isl a) (rev as))"

lemma trailing_snoc [simp]: "trailing (as @ [(t, Inr x)]) = 0" "trailing (as @ [(t, Inl e)]) = Suc (trailing as)"
  by (simp_all add: trailing_def)

lemma probes_snoc: "probes (as @ [(t, a)]) h = probe t a (probes as h)"
  by (simp add: probes_def)

lemma probe_counts [simp]:
  "h_failures (probe t a h) = h_failures (probed a h)" "h_healthy (probe t a h) = h_healthy (probed a h)"
  "h_lastErr (probe t a h) = h_lastErr (probed a h)"
  by (auto simp: probe_def Let_def split: option.splits)

lemma probes_count:
  "h_failures (probes as (NewNodeHealth n)) = trailing as \<and> h_healthy (probes as (NewNodeHealth n)) = (trailing as < 3)"
proof (induction as rule: rev_induct)
  case Nil
  then show ?case by (simp add: probes_def NewNodeHealth_def trailing_def)
next
  case (snoc x as)
  then show ?case by (cases x; cases "snd x") (auto simp: probes_snoc unhealthyAfter_def)
qed

definition published :: "'q node_health \<Rightarrow> bool" where
  "published h \<longleftrightarrow>
     (h_told h = [] \<longrightarrow> h_healthy h) \<and>
     (h_told h \<noteq> [] \<longrightarrow> h_node h = Some (last (h_told h)) \<and>
        map nc_status (nd_conditions (last (h_told h))) = [if h_healthy h then ''True'' else ''False''])"

lemma published_probe: "published h \<Longrightarrow> h_node h \<noteq> None \<Longrightarrow> published (probe t a h) \<and> h_node (probe t a h) \<noteq> None"
  by (cases a) (auto simp: published_def probe_def Let_def probe_condition_def ReadyCondition_def NotReadyCondition_def condition_def
      split: if_splits)

lemma published_probes: "published (probes as (NewNodeHealth (Some n))) \<and> h_node (probes as (NewNodeHealth (Some n))) \<noteq> None"
proof (induction as rule: rev_induct)
  case Nil
  then show ?case by (simp add: probes_def NewNodeHealth_def published_def)
next
  case (snoc x as)
  obtain t a where x: "x = (t, a)" by (meson surj_pair)
  from published_probe [of "probes as (NewNodeHealth (Some n))" t a] snoc show ?case unfolding x probes_snoc by blast
qed

text \<open>
  A node leaves service after exactly three failed probes in a row and returns with the first
  that succeeds: after any history of probes the lease is renewed just when fewer than three of
  the last answers failed in a row, and the condition last published says the same (nothing has
  been published only while the node was never out of service).
\<close>

theorem health_follows_probes:
  "let h = probes as (NewNodeHealth (Some n)) in
     (Ping h = Inr () \<longleftrightarrow> trailing as < 3) \<and>
     (if h_told h = [] then trailing as < 3
      else map nc_status (nd_conditions (last (h_told h))) = [if trailing as < 3 then ''True'' else ''False''])"
  using published_probes [of as n] probes_count [of as "Some n"]
  by (auto simp: Let_def Ping_def published_def split: option.splits)

text \<open>
  A node of this program is never open to everybody's pods: with a tenant or a shard it
  carries exactly one taint, which forbids scheduling and names the tenant if there is one; the
  pool label the gateway's placement relies on is there just for a tenant's node and names it.
\<close>

theorem Build_tainted:
  assumes "no_tenant opts \<noteq> [] \<or> no_shard opts \<noteq> []"
  shows "\<exists>t. nd_taints (Build mustParse now opts) = [t] \<and> tn_effect t = ''NoSchedule'' \<and>
      (tn_key t, tn_value t) = (if no_tenant opts \<noteq> [] then (''knaas.io/tenant'', no_tenant opts) else (''knaas.io/serverless'', ''true'')) \<and>
      nd_labels (Build mustParse now opts) ''kubezoo.io/pool'' = (if no_tenant opts \<noteq> [] then Some (no_tenant opts) else None)"
  using assms
  by (auto simp: Build_def nodeTaints_def nodeLabels_def labelled_def TenantTaintKey_def ServerlessTaintKey_def PoolLabelKey_def ShardLabelKey_def)

definition sample_options :: node_options where
  "sample_options =
     \<lparr>no_name = ''vk'', no_tenant = ''t1'', no_zone = [], no_region = ''r1'', no_shard = [], no_version = ''v1'', no_os = [],
      no_arch = [], no_capacity = \<lparr>cp_cpu = ''4'', cp_memory = [], cp_pods = [], cp_ephemeral = []\<rparr>,
      no_internalIP = [], no_kubeletPort = 0\<rparr>"

theorem Build_tainted_witness:
  "\<exists>t. nd_taints (Build (\<lambda>s. s) 0 sample_options) = [t] \<and> tn_effect t = ''NoSchedule''"
proof -
  have "no_tenant sample_options \<noteq> [] \<or> no_shard sample_options \<noteq> []" by code_simp
  from Build_tainted [OF this, of "\<lambda>s. s" 0] show ?thesis by blast
qed

end
