(* ===== verification/Service_Octavia.thy ===== *)
theory Service_Octavia
  imports Capsule_Source
begin

text \<open>
  \<^verbatim>\<open>pkg/service/members.go\<close>, \<^verbatim>\<open>octavia.go\<close> and \<^verbatim>\<open>subnet.go\<close>: the members of a load
  balancer's pool, the calls on Octavia, and the subnet a member is bound to. Octavia is outside
  the repository: its calls are the fields of a record. The Go interface
  \<^verbatim>\<open>SubnetResolver\<close> is the locale \<open>subnet_resolver\<close>, interpreted by the resolver that reads the
  capsules.
\<close>

section \<open>Endpoints and members\<close>

record endpoint =
  ep_ready :: "bool option"
  ep_addresses :: "string list"
  ep_target :: "(string \<times> string) option"

record slice =
  sl_namespace :: string
  sl_labels :: labels
  sl_addressType :: string
  sl_ports :: "(string option \<times> int option) list"
  sl_endpoints :: "endpoint list"

record service_port =
  sp_name :: string
  sp_protocol :: string
  sp_port :: int

record member =
  mb_address :: string
  mb_port :: int
  mb_name :: "string option"
  mb_subnet :: "string option"

fun matchPort :: "string \<Rightarrow> (string option \<times> int option) list \<Rightarrow> int" where
  "matchPort want [] = 0"
| "matchPort want ((name, None) # ps) = matchPort want ps"
| "matchPort want ((name, Some n) # ps) =
     (if (case name of None \<Rightarrow> [] | Some s \<Rightarrow> s) = want then n else matchPort want ps)"

definition resolveSlicePort :: "slice \<Rightarrow> service_port \<Rightarrow> int" where
  "resolveSlicePort s svcPort = matchPort (sp_name svcPort) (sl_ports s)"

definition no_pod :: "endpoint \<Rightarrow> err" where
  "no_pod ep = ErrText (''endpoint ['' @ join_str '' '' (ep_addresses ep) @ ''] has no pod to resolve a subnet from'')"

text \<open>An endpoint in the pool: not reported unready, with an address.\<close>

definition serving :: "endpoint \<Rightarrow> bool" where
  "serving ep \<longleftrightarrow> \<not> (ep_ready ep = Some False) \<and> ep_addresses ep \<noteq> []"

fun sliceMembers ::
  "(string \<Rightarrow> string \<Rightarrow> ('v, string) act) \<Rightarrow> string \<Rightarrow> int \<Rightarrow> endpoint list \<Rightarrow> ('v, member list) act" where
  "sliceMembers subnetFor ns port [] = ret []"
| "sliceMembers subnetFor ns port (ep # eps) =
     (if \<not> serving ep then sliceMembers subnetFor ns port eps
      else (case ep_target ep of
        None \<Rightarrow> fail (no_pod ep)
      | Some (kind, name) \<Rightarrow>
          if kind \<noteq> ''Pod'' then fail (no_pod ep)
          else bind_a (wrap_err (''member '' @ name) (subnetFor ns name)) (\<lambda>sid.
               bind_a (sliceMembers subnetFor ns port eps) (\<lambda>ms.
               ret (\<lparr>mb_address = hd (ep_addresses ep), mb_port = port, mb_name = Some name, mb_subnet = Some sid\<rparr> # ms)))))"

text \<open>A slice of the other address family, or that does not carry the port yet, adds nothing.\<close>

definition relevant :: "service_port \<Rightarrow> string \<Rightarrow> slice \<Rightarrow> bool" where
  "relevant svcPort family s \<longleftrightarrow> sl_addressType s = family \<and> resolveSlicePort s svcPort \<noteq> 0"

fun BuildMembers ::
  "(string \<Rightarrow> string \<Rightarrow> ('v, string) act) \<Rightarrow> slice list \<Rightarrow> service_port \<Rightarrow> string \<Rightarrow> ('v, member list) act" where
  "BuildMembers subnetFor [] svcPort family = ret []"
| "BuildMembers subnetFor (s # ss) svcPort family =
     (if \<not> relevant svcPort family s then BuildMembers subnetFor ss svcPort family
      else bind_a (sliceMembers subnetFor (sl_namespace s) (resolveSlicePort s svcPort) (sl_endpoints s)) (\<lambda>ms.
           bind_a (BuildMembers subnetFor ss svcPort family) (\<lambda>rest. ret (ms @ rest))))"

section \<open>The subnet of a member\<close>

text \<open>
  What a resolver promises: while its own state is sound it never answers an empty subnet, and a
  call leaves its state sound whatever it answers.
\<close>

locale subnet_resolver =
  fixes subnetFor :: "string \<Rightarrow> string \<Rightarrow> ('v, string) act" and sound :: "'v \<Rightarrow> bool"
  assumes sound_kept: "keeps sound (subnetFor ns n)"
    and never_blank: "sound v \<Longrightarrow> subnetFor ns n v = (Inr sid, v') \<Longrightarrow> sid \<noteq> []"
begin

lemma sliceMembers_sound: "keeps sound (sliceMembers subnetFor ns port eps)"
  by (induction eps) (auto intro!: keeps_bind_a keeps_wrap_err sound_kept split: option.splits)

lemma BuildMembers_sound: "keeps sound (BuildMembers subnetFor slices svcPort family)"
  by (induction slices) (auto intro!: keeps_bind_a sliceMembers_sound)

lemma sliceMembers_bound:
  assumes "sound v" and "sliceMembers subnetFor ns port eps v = (Inr ms, v')"
  shows "list_all (\<lambda>m. \<exists>sid. mb_subnet m = Some sid \<and> sid \<noteq> []) ms"
  using assms
proof (induction eps arbitrary: v ms)
  case (Cons ep eps)
  show ?case
  proof (cases "serving ep")
    case True
    with Cons.prems(2) obtain name sid v1 ms' v2 where "subnetFor ns name v = (Inr sid, v1)"
        "sliceMembers subnetFor ns port eps v1 = (Inr ms', v2)" and ms: "ms = \<lparr>mb_address = hd (ep_addresses ep), mb_port = port,
          mb_name = Some name, mb_subnet = Some sid\<rparr> # ms'" and "v' = v2"
      by (auto simp: act_simps split: option.splits if_splits)
    moreover from this have "sound v1" using keepsD [OF sound_kept, of v ns name] Cons.prems(1) by simp
    ultimately show ?thesis using Cons.IH never_blank [OF Cons.prems(1)] by auto
  qed (use Cons in auto)
qed (simp add: act_simps)

lemma BuildMembers_bound:
  assumes "sound v" and "BuildMembers subnetFor slices svcPort family v = (Inr ms, v')"
  shows "list_all (\<lambda>m. \<exists>sid. mb_subnet m = Some sid \<and> sid \<noteq> []) ms"
  using assms
proof (induction slices arbitrary: v ms)
  case (Cons s slices)
  show ?case
  proof (cases "relevant svcPort family s")
    case True
    with Cons.prems(2) obtain ms1 v1 ms2 where "sliceMembers subnetFor (sl_namespace s) (resolveSlicePort s svcPort) (sl_endpoints s) v = (Inr ms1, v1)"
        "BuildMembers subnetFor slices svcPort family v1 = (Inr ms2, v')" "ms = ms1 @ ms2" by (auto simp: act_simps)
    moreover from this have "sound v1" using keepsD [OF sliceMembers_sound] Cons.prems(1) by (metis snd_conv)
    ultimately show ?thesis using sliceMembers_bound [OF Cons.prems(1)] Cons.IH by auto
  qed (use Cons in auto)
qed (simp add: act_simps)

end

text \<open>The resolver the program has: the subnet the pod's capsule reports, remembered by pod name.\<close>

type_synonym subnet_cache = "string \<rightharpoonup> string"

definition no_capsule :: "string \<Rightarrow> err" where
  "no_capsule key = ErrText (''no capsule for pod '' @ key @ '', so its subnet is unknown'')"

definition no_subnet :: "string \<Rightarrow> err" where
  "no_subnet key = ErrText (''capsule for pod '' @ key @ '' reports no subnet; a member bound to the wrong subnet drops traffic silently, so this is refused rather than guessed'')"

definition SubnetFor :: "'w zun_api \<Rightarrow> string \<Rightarrow> string \<Rightarrow> ('w \<times> subnet_cache, string) act" where
  "SubnetFor Z namespace podName v =
     (case v of (w, cache) \<Rightarrow>
        let key = PodKey namespace podName in
        (case cache key of
           Some cached \<Rightarrow> (Inr cached, v)
         | None \<Rightarrow>
             (case ListManaged Z w of
                (Inl e, w') \<Rightarrow> (Inl (ErrWrap (''listing capsules to resolve the subnet of '' @ key) e), (w', cache))
              | (Inr managed, w') \<Rightarrow>
                  (case map_of managed key of
                     None \<Rightarrow> (Inl (no_capsule key), (w', cache))
                   | Some cap \<Rightarrow>
                       if PodSubnetID cap = [] then (Inl (no_subnet key), (w', cache))
                       else (Inr (PodSubnetID cap), (w', cache(key \<mapsto> PodSubnetID cap)))))))"

definition ForgetSubnet :: "string \<Rightarrow> string \<Rightarrow> subnet_cache \<Rightarrow> subnet_cache" where
  "ForgetSubnet namespace podName cache = cache(PodKey namespace podName := None)"

definition cache_sound :: "'w \<times> subnet_cache \<Rightarrow> bool" where
  "cache_sound v \<longleftrightarrow> [] \<notin> ran (snd v)"

lemma SubnetFor_sound: "cache_sound v \<Longrightarrow> SubnetFor Z ns n v = (r, v') \<Longrightarrow> cache_sound v' \<and> (\<forall>sid. r = Inr sid \<longrightarrow> sid \<noteq> [])"
  by (cases v; cases "ListManaged Z (fst v)"; cases "fst (ListManaged Z (fst v))")
    (auto simp: SubnetFor_def Let_def cache_sound_def dest: ranI split: option.splits if_splits)

interpretation capsule_subnets: subnet_resolver "SubnetFor Z" cache_sound for Z
proof
  show "keeps cache_sound (SubnetFor Z ns n)" for ns n
    by (rule keepsI) (metis SubnetFor_sound prod.collapse)
qed (use SubnetFor_sound in blast)

section \<open>Octavia\<close>

record lb =
  lb_id :: string
  lb_name :: string
  lb_status :: string
  lb_vip :: string
  lb_vipPort :: string
  lb_provider :: string

text \<open>The four timeouts of a listener: client data, member data, member connect, TCP inspect.\<close>

record 'a timeouts =
  to_clientData :: 'a
  to_memberData :: 'a
  to_memberConnect :: 'a
  to_tcpInspect :: 'a

record listener =
  li_id :: string
  li_lbs :: "string list"
  li_tls :: string
  li_defaultPool :: string
  li_cidrs :: "string list"
  li_timeouts :: "int timeouts"

record pool =
  po_id :: string
  po_name :: string
  po_listeners :: "string list"
  po_monitor :: string

record pool_member =
  pm_address :: string
  pm_port :: int
  pm_subnet :: string

record l7_policy =
  l7_id :: string
  l7_name :: string
  l7_position :: int
  l7_pool :: string

record l7_rule =
  l7r_type :: string
  l7r_compare :: string
  l7r_value :: string

text \<open>
  The options of a creation. A field that a literal of the sources leaves out has its zero value,
  so the literals are updates of the zero options.
\<close>

record lb_opts =
  lo_name :: string
  lo_description :: string
  lo_subnet :: string
  lo_provider :: string

record listener_opts =
  lio_name :: string
  lio_protocol :: string
  lio_port :: int
  lio_lb :: string
  lio_tls :: string
  lio_sni :: "string list"
  lio_defaultPool :: string
  lio_cidrs :: "string list"
  lio_timeouts :: "int option timeouts"

record pool_opts =
  poo_name :: string
  poo_protocol :: string
  poo_method :: string
  poo_listener :: string
  poo_lb :: string

record monitor_opts =
  mo_name :: string
  mo_pool :: string
  mo_type :: string
  mo_urlPath :: string
  mo_delay :: int
  mo_timeout :: int
  mo_maxRetries :: int
  mo_maxRetriesDown :: int

record l7_opts =
  l7o_name :: string
  l7o_listener :: string
  l7o_action :: string
  l7o_pool :: string
  l7o_position :: int

definition unmanaged :: "int option timeouts" where
  "unmanaged = \<lparr>to_clientData = None, to_memberData = None, to_memberConnect = None, to_tcpInspect = None\<rparr>"

definition zero_listener :: listener_opts where
  "zero_listener = \<lparr>lio_name = [], lio_protocol = [], lio_port = 0, lio_lb = [], lio_tls = [], lio_sni = [],
     lio_defaultPool = [], lio_cidrs = [], lio_timeouts = unmanaged\<rparr>"

definition zero_pool :: pool_opts where
  "zero_pool = \<lparr>poo_name = [], poo_protocol = [], poo_method = [], poo_listener = [], poo_lb = []\<rparr>"

definition zero_monitor :: monitor_opts where
  "zero_monitor = \<lparr>mo_name = [], mo_pool = [], mo_type = [], mo_urlPath = [], mo_delay = 0, mo_timeout = 0,
     mo_maxRetries = 0, mo_maxRetriesDown = 0\<rparr>"

text \<open>An update of a listener: a field that is \<open>None\<close> (a nil pointer) is not sent.\<close>

record listener_update =
  liu_tls :: "string option"
  liu_defaultPool :: "string option"
  liu_cidrs :: "string list option"
  liu_timeouts :: "int option timeouts"

text \<open>
  The calls, the clock they pass under and the pause between two polls, which ends early with the
  context's error. A listing is all its pages; one by name takes the name, or \<open>None\<close>.
\<close>

record 'v octavia_api =
  o_now :: "'v \<Rightarrow> time"
  o_sleep :: "time \<Rightarrow> ('v, unit) act"
  lb_Get :: "string \<Rightarrow> ('v, lb) act"
  lb_List :: "string option \<Rightarrow> ('v, lb list) act"
  lb_Create :: "lb_opts \<Rightarrow> ('v, lb) act"
  lb_Delete :: "string \<Rightarrow> ('v, unit) act"
  prov_List :: "('v, string list) act"
  li_List :: "string \<Rightarrow> ('v, listener list) act"
  li_Create :: "listener_opts \<Rightarrow> ('v, listener) act"
  li_Update :: "string \<Rightarrow> listener_update \<Rightarrow> ('v, unit) act"
  li_Delete :: "string \<Rightarrow> ('v, unit) act"
  po_List :: "string \<Rightarrow> string option \<Rightarrow> ('v, pool list) act"
  po_Create :: "pool_opts \<Rightarrow> ('v, pool) act"
  po_Delete :: "string \<Rightarrow> ('v, unit) act"
  mon_Create :: "monitor_opts \<Rightarrow> ('v, unit) act"
  mem_List :: "string \<Rightarrow> ('v, pool_member list) act"
  mem_Batch :: "string \<Rightarrow> member list \<Rightarrow> ('v, unit) act"
  l7_List :: "string \<Rightarrow> ('v, l7_policy list) act"
  l7_Rules :: "string \<Rightarrow> ('v, l7_rule list) act"
  l7_Create :: "l7_opts \<Rightarrow> ('v, l7_policy) act"
  l7_CreateRule :: "string \<Rightarrow> l7_rule \<Rightarrow> ('v, unit) act"
  l7_Delete :: "string \<Rightarrow> ('v, unit) act"

definition activeTimeout :: time where "activeTimeout = 5 * minute"
definition activePoll :: time where "activePoll = 2 * second"

definition GetLoadBalancerByID :: "'v octavia_api \<Rightarrow> string \<Rightarrow> ('v, lb) act" where
  "GetLoadBalancerByID c i = with_err (\<lambda>e. if response_code_is e 404 then ErrNotFound else e) (lb_Get c i)"

definition several :: "nat \<Rightarrow> string \<Rightarrow> err" where
  "several n name = ErrText (show_nat n @ '' load balancers are named '' @ quote_str name)"

definition GetLoadBalancerByName :: "'v octavia_api \<Rightarrow> string \<Rightarrow> ('v, lb) act" where
  "GetLoadBalancerByName c name =
     bind_a (lb_List c (Some name)) (\<lambda>all.
       case all of [] \<Rightarrow> fail ErrNotFound | [lb] \<Rightarrow> ret lb | _ \<Rightarrow> fail (several (length all) name))"

definition ListLoadBalancers :: "'v octavia_api \<Rightarrow> ('v, lb list) act" where
  "ListLoadBalancers c = lb_List c None"

definition in_error :: "string \<Rightarrow> err" where
  "in_error i = ErrText (''load balancer '' @ i @ '' is in ERROR'')"

definition still :: "string \<Rightarrow> string \<Rightarrow> err" where
  "still i status = ErrText (''load balancer '' @ i @ '' was still '' @ status @ '' after 5m0s'')"

text \<open>
  The polling loop with its fuel; running out of it is a value no other branch has, and the
  theorem below shows the fuel of \<open>WaitActive\<close> never does.
\<close>

definition out_of_fuel :: err where "out_of_fuel = ErrPanic ''the polling loop was cut short''"

fun waitLoop :: "nat \<Rightarrow> 'v octavia_api \<Rightarrow> string \<Rightarrow> time \<Rightarrow> ('v, lb) act" where
  "waitLoop 0 c i deadline = fail out_of_fuel"
| "waitLoop (Suc n) c i deadline =
     bind_a (GetLoadBalancerByID c i) (\<lambda>lb.
       if lb_status lb = ''ACTIVE'' then ret lb
       else if lb_status lb = ''ERROR'' then fail (in_error i)
       else (\<lambda>v. if o_now c v > deadline then fail (still i (lb_status lb)) v
                  else bind_a (o_sleep c activePoll) (\<lambda>_. waitLoop n c i deadline) v))"

definition waitFuel :: nat where "waitFuel = 152"

definition WaitActive :: "'v octavia_api \<Rightarrow> string \<Rightarrow> ('v, lb) act" where
  "WaitActive c i v = waitLoop waitFuel c i (o_now c v + activeTimeout) v"

definition GetListenerByName :: "'v octavia_api \<Rightarrow> string \<Rightarrow> string \<Rightarrow> ('v, listener) act" where
  "GetListenerByName c lbID name =
     bind_a (li_List c name) (\<lambda>all.
       case find (\<lambda>l. lbID \<in> set (li_lbs l)) all of Some l \<Rightarrow> ret l | None \<Rightarrow> fail ErrNotFound)"

definition GetPoolByListener :: "'v octavia_api \<Rightarrow> string \<Rightarrow> string \<Rightarrow> ('v, pool) act" where
  "GetPoolByListener c lbID listenerID =
     bind_a (po_List c lbID None) (\<lambda>all.
       case find (\<lambda>p. listenerID \<in> set (po_listeners p)) all of Some p \<Rightarrow> ret p | None \<Rightarrow> fail ErrNotFound)"

definition CreateListener :: "'v octavia_api \<Rightarrow> string \<Rightarrow> listener_opts \<Rightarrow> ('v, listener) act" where
  "CreateListener c lbID opts = bind_a (li_Create c opts) (\<lambda>l. bind_a (WaitActive c lbID) (\<lambda>_. ret l))"

definition CreatePool :: "'v octavia_api \<Rightarrow> string \<Rightarrow> pool_opts \<Rightarrow> ('v, pool) act" where
  "CreatePool c lbID opts = bind_a (po_Create c opts) (\<lambda>p. bind_a (WaitActive c lbID) (\<lambda>_. ret p))"

definition CreateHealthMonitor :: "'v octavia_api \<Rightarrow> string \<Rightarrow> monitor_opts \<Rightarrow> ('v, unit) act" where
  "CreateHealthMonitor c lbID opts = bind_a (mon_Create c opts) (\<lambda>m. bind_a (WaitActive c lbID) (\<lambda>_. ret m))"

text \<open>The key a member is compared by, \<^verbatim>\<open>"%s|%d|%s"\<close>.\<close>

definition member_key :: "string \<Rightarrow> int \<Rightarrow> string \<Rightarrow> string" where
  "member_key address port subnet = address @ ''|'' @ show_int port @ ''|'' @ subnet"

definition current_key :: "pool_member \<Rightarrow> string" where
  "current_key m = member_key (pm_address m) (pm_port m) (pm_subnet m)"

definition desired_key :: "member \<Rightarrow> string" where
  "desired_key m = member_key (mb_address m) (mb_port m) (case mb_subnet m of None \<Rightarrow> [] | Some sid \<Rightarrow> sid)"

definition sameMembers :: "pool_member list \<Rightarrow> member list \<Rightarrow> bool" where
  "sameMembers current desired =
     (length current = length desired \<and> list_all (\<lambda>m. desired_key m \<in> set (map current_key current)) desired)"

text \<open>A listing that fails does not stop the write.\<close>

definition SetPoolMembers :: "'v octavia_api \<Rightarrow> string \<Rightarrow> string \<Rightarrow> member list \<Rightarrow> ('v, unit) act" where
  "SetPoolMembers c lbID poolID members v =
     (case mem_List c poolID v of
        (r, v') \<Rightarrow>
          if (case r of Inl _ \<Rightarrow> False | Inr current \<Rightarrow> sameMembers current members) then (Inr (), v')
          else bind_a (mem_Batch c poolID members) (\<lambda>_. bind_a (WaitActive c lbID) (\<lambda>_. ret ())) v')"

definition DeleteLoadBalancer :: "'v octavia_api \<Rightarrow> string \<Rightarrow> ('v, unit) act" where
  "DeleteLoadBalancer c i = ignore_if (\<lambda>e. response_code_is e 404) (lb_Delete c i)"

section \<open>Lemmas\<close>

text \<open>What the pool of a port should hold, one entry per endpoint in the pool, in order.\<close>

definition poolEndpoints :: "slice list \<Rightarrow> service_port \<Rightarrow> string \<Rightarrow> (string \<times> int \<times> string) list" where
  "poolEndpoints slices svcPort family =
     concat (map (\<lambda>s. map (\<lambda>ep. (hd (ep_addresses ep), resolveSlicePort s svcPort, snd (the (ep_target ep))))
                        (filter serving (sl_endpoints s)))
              (filter (relevant svcPort family) slices))"

definition member_place :: "member \<Rightarrow> string \<times> int \<times> string" where
  "member_place m = (mb_address m, mb_port m, the (mb_name m))"

lemma sliceMembers_places:
  "sliceMembers subnetFor ns port eps v = (Inr ms, v') \<Longrightarrow>
     map member_place ms = map (\<lambda>ep. (hd (ep_addresses ep), port, snd (the (ep_target ep)))) (filter serving eps)"
proof (induction eps arbitrary: v ms)
  case (Cons ep eps)
  show ?case
  proof (cases "serving ep")
    case True
    with Cons.prems obtain name sid v1 ms' where "sliceMembers subnetFor ns port eps v1 = (Inr ms', v')"
        "ep_target ep = Some (''Pod'', name)"
        "ms = \<lparr>mb_address = hd (ep_addresses ep), mb_port = port, mb_name = Some name, mb_subnet = Some sid\<rparr> # ms'"
      by (auto simp: act_simps split: option.splits if_splits)
    with True Cons.IH show ?thesis by (auto simp: member_place_def)
  qed (use Cons in auto)
qed (simp add: act_simps)

lemma BuildMembers_places:
  "BuildMembers subnetFor slices svcPort family v = (Inr ms, v') \<Longrightarrow> map member_place ms = poolEndpoints slices svcPort family"
proof (induction slices arbitrary: v ms)
  case (Cons s slices)
  show ?case
  proof (cases "relevant svcPort family s")
    case True
    with Cons.prems obtain ms1 v1 ms2 where "sliceMembers subnetFor (sl_namespace s) (resolveSlicePort s svcPort) (sl_endpoints s) v = (Inr ms1, v1)"
        "BuildMembers subnetFor slices svcPort family v1 = (Inr ms2, v')" "ms = ms1 @ ms2" by (auto simp: act_simps)
    with True Cons.IH sliceMembers_places show ?thesis by (fastforce simp: poolEndpoints_def)
  qed (use Cons in \<open>auto simp: poolEndpoints_def\<close>)
qed (simp add: act_simps poolEndpoints_def)

text \<open>Reads do not turn the clock back, and a pause that was not cut short lasts as long as asked.\<close>

definition clock_laws :: "'v octavia_api \<Rightarrow> bool" where
  "clock_laws c \<longleftrightarrow>
     (\<forall>i v. o_now c v \<le> o_now c (snd (lb_Get c i v))) \<and> (\<forall>d v v'. o_sleep c d v = (Inr (), v') \<longrightarrow> o_now c v + d \<le> o_now c v')"

lemma GetLoadBalancerByID_clock: "clock_laws c \<Longrightarrow> GetLoadBalancerByID c i v = (r, v') \<Longrightarrow> o_now c v \<le> o_now c v'"
  by (auto simp: GetLoadBalancerByID_def with_err_iff clock_laws_def) (metis snd_conv)

lemma waitLoop_enough:
  assumes "clock_laws c" and "deadline < o_now c v + activePoll * int k"
  shows "waitLoop (Suc k + m) c i deadline v = waitLoop (Suc k) c i deadline v"
  using assms(2)
proof (induction k arbitrary: v)
  case 0
  obtain r v1 where g: "GetLoadBalancerByID c i v = (r, v1)" by (meson surj_pair)
  with GetLoadBalancerByID_clock [OF assms(1) g] 0 show ?case
    by (cases r) (auto simp: bind_a_def)
next
  case (Suc k)
  obtain r v1 where g: "GetLoadBalancerByID c i v = (r, v1)" by (meson surj_pair)
  obtain q v2 where sl: "o_sleep c activePoll v1 = (q, v2)" by (meson surj_pair)
  have "waitLoop (Suc k + m) c i deadline v2 = waitLoop (Suc k) c i deadline v2" if "q = Inr ()"
  proof (rule Suc.IH)
    from sl that assms(1) have "o_now c v1 + activePoll \<le> o_now c v2" by (auto simp: clock_laws_def)
    with GetLoadBalancerByID_clock [OF assms(1) g] Suc.prems show "deadline < o_now c v2 + activePoll * int k"
      by (simp add: activePoll_def)
  qed
  with g sl show ?case
    by (cases r; cases q) (auto simp: bind_a_def)
qed

text \<open>The loop reports being cut short only when it was, or when a call it makes says so.\<close>

definition honest :: "'v octavia_api \<Rightarrow> bool" where
  "honest c \<longleftrightarrow> (\<forall>i v. fst (lb_Get c i v) \<noteq> Inl out_of_fuel) \<and> (\<forall>d v. fst (o_sleep c d v) \<noteq> Inl out_of_fuel)"

lemma GetLoadBalancerByID_honest: "honest c \<Longrightarrow> fst (GetLoadBalancerByID c i v) \<noteq> Inl out_of_fuel"
  by (cases "lb_Get c i v"; cases "fst (lb_Get c i v)")
    (auto simp: GetLoadBalancerByID_def with_err_def honest_def out_of_fuel_def, metis fst_conv)

lemma waitLoop_returns:
  assumes "clock_laws c" and "honest c" and "deadline < o_now c v + activePoll * int k"
  shows "fst (waitLoop (Suc k) c i deadline v) \<noteq> Inl out_of_fuel"
  using assms(3)
proof (induction k arbitrary: v)
  case 0
  obtain r v1 where g: "GetLoadBalancerByID c i v = (r, v1)" by (meson surj_pair)
  with GetLoadBalancerByID_clock [OF assms(1) g] GetLoadBalancerByID_honest [OF assms(2), of i v] 0 show ?case
    by (cases r) (auto simp: bind_a_def ret_def fail_def in_error_def still_def out_of_fuel_def)
next
  case (Suc k)
  obtain r v1 where g: "GetLoadBalancerByID c i v = (r, v1)" by (meson surj_pair)
  obtain q v2 where sl: "o_sleep c activePoll v1 = (q, v2)" by (meson surj_pair)
  have "fst (waitLoop (Suc k) c i deadline v2) \<noteq> Inl out_of_fuel" if "q = Inr ()"
  proof (rule Suc.IH)
    from sl that assms(1) have "o_now c v1 + activePoll \<le> o_now c v2" by (auto simp: clock_laws_def)
    with GetLoadBalancerByID_clock [OF assms(1) g] Suc.prems show "deadline < o_now c v2 + activePoll * int k"
      by (simp add: activePoll_def)
  qed
  moreover have "q \<noteq> Inl out_of_fuel" using assms(2) sl by (auto simp: honest_def) (metis fst_conv)
  ultimately show ?case
    using g sl GetLoadBalancerByID_honest [OF assms(2), of i v]
    by (cases r; cases q) (auto simp: bind_a_def ret_def fail_def in_error_def still_def out_of_fuel_def)
qed

lemma waitLoop_active: "waitLoop n c i deadline v = (Inr lb, v') \<Longrightarrow> lb_status lb = ''ACTIVE''"
  by (induction n c i deadline arbitrary: v rule: waitLoop.induct)
    (auto simp: act_simps split: if_splits)

lemma waitLoop_read: "waitLoop n c i deadline v = (Inr lb, v') \<Longrightarrow> \<exists>w w'. lb_Get c i w = (Inr lb, w')"
proof (induction n c i deadline arbitrary: v rule: waitLoop.induct)
  case (2 n c i deadline)
  then show ?case by (auto simp: act_simps GetLoadBalancerByID_def with_err_def split: if_splits prod.splits sum.splits)
qed (simp add: fail_def)

text \<open>
  What a pool holds, \<open>M v pool\<close> being the keys of its members: a listing that succeeds answers it,
  a batch update that succeeds replaces it, and nothing else of what is called here changes it.
\<close>

definition member_laws :: "'v octavia_api \<Rightarrow> ('v \<Rightarrow> string \<Rightarrow> string list) \<Rightarrow> bool" where
  "member_laws c M \<longleftrightarrow>
     (\<forall>p v r v'. mem_List c p v = (r, v') \<longrightarrow> M v' = M v \<and> (\<forall>cur. r = Inr cur \<longrightarrow> map current_key cur = M v p)) \<and>
     (\<forall>p ms v v'. mem_Batch c p ms v = (Inr (), v') \<longrightarrow> M v' = (M v)(p := map desired_key ms)) \<and>
     (\<forall>i v. M (snd (lb_Get c i v)) = M v) \<and> (\<forall>d v. M (snd (o_sleep c d v)) = M v)"

lemma waitLoop_members:
  assumes "member_laws c M"
  shows "keeps (\<lambda>v. M v = m) (waitLoop n c i deadline)"
proof (induction n)
  case (Suc n)
  have "keeps (\<lambda>v. M v = m) (GetLoadBalancerByID c i)"
    using assms by (auto simp: keeps_def GetLoadBalancerByID_def with_err_def member_laws_def case_prod_beta split: sum.split)
  moreover have "keeps (\<lambda>v. M v = m) (o_sleep c activePoll)"
    using assms by (auto simp: keeps_def member_laws_def)
  ultimately show ?case
    using Suc keeps_bind_a [of "\<lambda>v. M v = m" "o_sleep c activePoll" "\<lambda>_. waitLoop n c i deadline"]
    by (auto intro!: keeps_bind_a) (auto simp: keeps_def)
qed simp

lemma sameMembers_distinct:
  assumes "sameMembers current desired" and "distinct (map desired_key desired)"
  shows "distinct (map current_key current) \<and> set (map current_key current) = set (map desired_key desired)"
proof -
  have sub: "set (map desired_key desired) \<subseteq> set (map current_key current)"
    using assms(1) by (auto simp: sameMembers_def list_all_iff)
  have len: "length (map current_key current) = length (map desired_key desired)"
    using assms(1) by (simp add: sameMembers_def)
  have "card (set (map desired_key desired)) = length (map current_key current)"
    using distinct_card [OF assms(2)] len by simp
  with sub card_mono [OF _ sub] card_length [of "map current_key current"]
  have eq: "card (set (map current_key current)) = length (map current_key current)" by simp
  then have "distinct (map current_key current)" by (rule card_distinct)
  moreover have "set (map desired_key desired) = set (map current_key current)"
    using sub by (rule card_subset_eq [OF finite_set]) (use eq \<open>card (set (map desired_key desired)) = _\<close> in simp)
  ultimately show ?thesis by simp
qed

section \<open>Properties\<close>

text \<open>
  A pool is given the whole set and nothing unbound: when the members of a port are built,
  they are exactly one per endpoint that is not unready and has an address, in the slices of the
  load balancer's address family that carry the port, at the endpoint's own address and the
  slice's own port; and each is bound to a subnet its capsule reported, never to a blank one.
\<close>

theorem BuildMembers_whole_set:
  assumes "BuildMembers (SubnetFor Z) slices svcPort family v = (Inr ms, v')" and "cache_sound v"
  shows "map member_place ms = poolEndpoints slices svcPort family \<and>
    list_all (\<lambda>m. \<exists>sid. mb_subnet m = Some sid \<and> sid \<noteq> []) ms \<and> cache_sound v'"
  using BuildMembers_places [OF assms(1)] capsule_subnets.BuildMembers_bound [OF assms(2,1)]
    keepsD [OF capsule_subnets.BuildMembers_sound assms(2), of Z slices svcPort family] assms(1) by simp

definition sample_slice :: slice where
  "sample_slice = \<lparr>sl_namespace = ''prod'', sl_labels = [(''kubernetes.io/service-name'', ''web'')], sl_addressType = ''IPv4'',
     sl_ports = [(Some ''http'', Some 8080)],
     sl_endpoints = [\<lparr>ep_ready = Some True, ep_addresses = [''10.0.0.5''], ep_target = Some (''Pod'', ''web-1'')\<rparr>,
                     \<lparr>ep_ready = Some False, ep_addresses = [''10.0.0.6''], ep_target = Some (''Pod'', ''web-2'')\<rparr>]\<rparr>"

definition sample_port :: service_port where
  "sample_port = \<lparr>sp_name = ''http'', sp_protocol = ''TCP'', sp_port = 80\<rparr>"

definition sample_build :: "member list result \<times> (capsule list \<times> subnet_cache)" where
  "sample_build = BuildMembers (SubnetFor sample_zun) [sample_slice] sample_port ''IPv4'' (sample_capsules, Map.empty)"

theorem BuildMembers_whole_set_witness:
  "map member_place (projr (fst sample_build)) = [(''10.0.0.5'', 8080, ''web-1'')] \<and>
   list_all (\<lambda>m. mb_subnet m \<noteq> Some []) (projr (fst sample_build))"
proof -
  have "\<not> isl (fst sample_build)" by code_simp
  then have "BuildMembers (SubnetFor sample_zun) [sample_slice] sample_port ''IPv4'' (sample_capsules, Map.empty)
      = (Inr (projr (fst sample_build)), snd sample_build)"
    unfolding sample_build_def by (metis prod.collapse sum.collapse(2))
  moreover have "cache_sound (sample_capsules, Map.empty)" by (simp add: cache_sound_def)
  ultimately have m: "map member_place (projr (fst sample_build)) = poolEndpoints [sample_slice] sample_port ''IPv4''"
      "list_all (\<lambda>m. \<exists>sid. mb_subnet m = Some sid \<and> sid \<noteq> []) (projr (fst sample_build))"
    using BuildMembers_whole_set by blast+
  have "poolEndpoints [sample_slice] sample_port ''IPv4'' = [(''10.0.0.5'', 8080, ''web-1'')]" by code_simp
  with m show ?thesis by (auto simp: list_all_iff)
qed

text \<open>
  Waiting for a load balancer always ends: the loop that polls every two seconds for five
  minutes returns within 152 rounds, whatever Octavia answers and however slowly; more rounds
  would change nothing, and what it returns without an error is a load balancer that is active.
\<close>

theorem WaitActive_returns:
  assumes "clock_laws c" and "honest c"
  shows "fst (WaitActive c i v) \<noteq> Inl out_of_fuel \<and>
    waitLoop (152 + m) c i (o_now c v + 5 * minute) v = WaitActive c i v \<and>
    (case fst (WaitActive c i v) of Inl _ \<Rightarrow> True | Inr lb \<Rightarrow> lb_status lb = ''ACTIVE'')"
proof -
  have bound: "o_now c v + activeTimeout < o_now c v + activePoll * int 151" by (simp add: activeTimeout_def activePoll_def)
  have w: "WaitActive c i v = waitLoop (Suc 151) c i (o_now c v + activeTimeout) v" by (simp add: WaitActive_def waitFuel_def)
  have "fst (WaitActive c i v) \<noteq> Inl out_of_fuel"
    using waitLoop_returns [OF assms bound, of i] w by simp
  moreover have "waitLoop (152 + m) c i (o_now c v + 5 * minute) v = WaitActive c i v"
    using waitLoop_enough [OF assms(1) bound, of m i] w by (simp add: activeTimeout_def)
  moreover have "case fst (WaitActive c i v) of Inl _ \<Rightarrow> True | Inr lb \<Rightarrow> lb_status lb = ''ACTIVE''"
  proof (cases "fst (WaitActive c i v)")
    case (Inr lb)
    then have "waitLoop (Suc 151) c i (o_now c v + activeTimeout) v = (Inr lb, snd (WaitActive c i v))" unfolding w by (metis prod.collapse)
    from waitLoop_active [OF this] Inr show ?thesis by simp
  qed simp
  ultimately show ?thesis by blast
qed

text \<open>
  A write of a pool's members leaves exactly the wanted ones: when it succeeds with members
  that differ from each other, the pool holds each of them once and nothing else, whether it was
  written or found to be right already; no other pool is touched.
\<close>

theorem SetPoolMembers_exact:
  assumes "member_laws c M" and "SetPoolMembers c lbID poolID ms v = (Inr (), v')" and "distinct (map desired_key ms)"
  shows "distinct (M v' poolID) \<and> set (M v' poolID) = set (map desired_key ms) \<and> (\<forall>p. p \<noteq> poolID \<longrightarrow> M v' p = M v p)"
proof -
  obtain r v1 where l: "mem_List c poolID v = (r, v1)" by (meson surj_pair)
  with assms(1) have v1: "M v1 = M v" "\<And>cur. r = Inr cur \<Longrightarrow> map current_key cur = M v poolID" by (auto simp: member_laws_def)
  show ?thesis
  proof (cases "case r of Inl _ \<Rightarrow> False | Inr current \<Rightarrow> sameMembers current ms")
    case True
    then obtain cur where cur: "r = Inr cur" "sameMembers cur ms" by (auto split: sum.splits)
    from True assms(2) l have "v' = v1" by (simp add: SetPoolMembers_def)
    with sameMembers_distinct [OF cur(2) assms(3)] v1(1) v1(2) [OF cur(1)] show ?thesis by simp
  next
    case False
    with assms(2) l obtain v2 lb where b: "mem_Batch c poolID ms v1 = (Inr (), v2)" and w: "WaitActive c lbID v2 = (Inr lb, v')"
      by (auto simp: SetPoolMembers_def act_simps)
    from b assms(1) have "M v2 = (M v1)(poolID := map desired_key ms)" by (auto simp: member_laws_def)
    moreover have "M v' = M v2"
      using keepsD [OF waitLoop_members [OF assms(1)], of v2 "M v2"] w by (simp add: WaitActive_def) (metis snd_conv)
    ultimately show ?thesis using v1(1) assms(3) by simp
  qed
qed

text \<open>A small Octavia: a clock, a load balancer that settles after some polls, and pools.\<close>

record omem =
  om_now :: time
  om_polls :: nat
  om_pools :: "(string \<times> pool_member list) list"

definition mem_pool :: "omem \<Rightarrow> string \<Rightarrow> pool_member list" where
  "mem_pool v p = (case map_of (om_pools v) p of None \<Rightarrow> [] | Some ms \<Rightarrow> ms)"

definition stored_member :: "member \<Rightarrow> pool_member" where
  "stored_member m = \<lparr>pm_address = mb_address m, pm_port = mb_port m, pm_subnet = (case mb_subnet m of None \<Rightarrow> [] | Some sid \<Rightarrow> sid)\<rparr>"

text \<open>An Octavia that holds nothing and takes nothing, which the samples below and elsewhere fill in.\<close>

definition quiet_octavia :: "'v octavia_api" where
  "quiet_octavia =
     \<lparr>o_now = (\<lambda>_. 0), o_sleep = (\<lambda>_. ret ()), lb_Get = (\<lambda>_. fail ErrNotFound), lb_List = (\<lambda>_. ret []),
      lb_Create = (\<lambda>_. fail ErrNotFound), lb_Delete = (\<lambda>_. ret ()), prov_List = ret [],
      li_List = (\<lambda>_. ret []), li_Create = (\<lambda>_. fail ErrNotFound), li_Update = (\<lambda>_ _. ret ()), li_Delete = (\<lambda>_. ret ()),
      po_List = (\<lambda>_ _. ret []), po_Create = (\<lambda>_. fail ErrNotFound), po_Delete = (\<lambda>_. ret ()), mon_Create = (\<lambda>_. ret ()),
      mem_List = (\<lambda>_. ret []), mem_Batch = (\<lambda>_ _. ret ()), l7_List = (\<lambda>_. ret []), l7_Rules = (\<lambda>_. ret []),
      l7_Create = (\<lambda>_. fail ErrNotFound), l7_CreateRule = (\<lambda>_ _. ret ()), l7_Delete = (\<lambda>_. ret ())\<rparr>"

definition sample_octavia :: "omem octavia_api" where
  "sample_octavia = quiet_octavia
     \<lparr>o_now := om_now, o_sleep := (\<lambda>d v. (Inr (), v\<lparr>om_now := om_now v + max 0 d\<rparr>)),
      lb_Get := (\<lambda>i v. (Inr \<lparr>lb_id = i, lb_name = ''x'', lb_status = (if om_polls v = 0 then ''ACTIVE'' else ''PENDING_UPDATE''),
          lb_vip = ''10.9.0.1'', lb_vipPort = ''vp'', lb_provider = ''amphora''\<rparr>, v\<lparr>om_polls := om_polls v - 1\<rparr>)),
      mem_List := (\<lambda>p v. (Inr (mem_pool v p), v)),
      mem_Batch := (\<lambda>p ms v. (Inr (), v\<lparr>om_pools := (p, map stored_member ms) # om_pools v\<rparr>))\<rparr>"

lemma sample_clock: "clock_laws sample_octavia" "honest sample_octavia"
  by (auto simp: clock_laws_def honest_def sample_octavia_def quiet_octavia_def)

lemma current_stored [simp]: "current_key (stored_member m) = desired_key m"
  by (simp add: current_key_def stored_member_def desired_key_def)

lemma sample_members: "member_laws sample_octavia (\<lambda>v p. map current_key (mem_pool v p))"
  by (auto simp: member_laws_def sample_octavia_def quiet_octavia_def mem_pool_def fun_eq_iff)

theorem WaitActive_returns_witness:
  "fst (WaitActive sample_octavia ''lb1'' \<lparr>om_now = 7, om_polls = 3, om_pools = []\<rparr>) \<noteq> Inl out_of_fuel \<and>
   om_now (snd (WaitActive sample_octavia ''lb1'' \<lparr>om_now = 7, om_polls = 3, om_pools = []\<rparr>)) = 7 + 6 * second"
proof -
  have "om_now (snd (WaitActive sample_octavia ''lb1'' \<lparr>om_now = 7, om_polls = 3, om_pools = []\<rparr>)) = 7 + 6 * second" by code_simp
  with WaitActive_returns [OF sample_clock, of "''lb1''" "\<lparr>om_now = 7, om_polls = 3, om_pools = []\<rparr>" 0] show ?thesis by blast
qed

definition sample_wanted :: "member list" where
  "sample_wanted = [\<lparr>mb_address = ''10.0.0.5'', mb_port = 80, mb_name = Some ''web-1'', mb_subnet = Some ''s1''\<rparr>]"

definition sample_pool :: omem where
  "sample_pool = \<lparr>om_now = 7, om_polls = 0, om_pools = [(''p1'', [])]\<rparr>"

definition sample_write :: "unit result \<times> omem" where
  "sample_write = SetPoolMembers sample_octavia ''lb1'' ''p1'' sample_wanted sample_pool"

theorem SetPoolMembers_exact_witness:
  "set (map current_key (mem_pool (snd sample_write) ''p1'')) = set (map desired_key sample_wanted)"
proof -
  have "fst sample_write = Inr ()" by code_simp
  then have run: "SetPoolMembers sample_octavia ''lb1'' ''p1'' sample_wanted sample_pool = (Inr (), snd sample_write)"
    unfolding sample_write_def by (metis prod.collapse)
  have "distinct (map desired_key sample_wanted)" by (simp add: sample_wanted_def)
  from SetPoolMembers_exact [OF sample_members run this] show ?thesis by blast
qed

text \<open>
  Members are compared as a set against a list of the same length, so wanted members that repeat
  one another make a pool with a stale member look right: it is then left as it is.
\<close>

theorem repeated_member_hides_stale:
  assumes "desired_key a = current_key x"
  shows "sameMembers [x, stale] [a, a]"
  using assms by (simp add: sameMembers_def)

text \<open>
  The subnet of a name is remembered until it is forgotten: a pod recreated under the same name on
  another subnet is bound to the subnet of the pod before it, and nothing in the program forgets.
\<close>

theorem recreated_pod_keeps_subnet:
  assumes "SubnetFor Z ns n (w, cache) = (Inr sid, (w', cache'))"
  shows "SubnetFor Z ns n (w2, cache') = (Inr sid, (w2, cache'))"
proof -
  have "cache' (PodKey ns n) = Some sid"
  proof (cases "cache (PodKey ns n)")
    case (Some x)
    with assms show ?thesis by (simp add: SubnetFor_def Let_def)
  next
    case None
    obtain r w1 where l: "ListManaged Z w = (r, w1)" by (meson surj_pair)
    with assms None obtain managed cap where "r = Inr managed" "map_of managed (PodKey ns n) = Some cap" "PodSubnetID cap \<noteq> []"
      by (auto simp: SubnetFor_def Let_def split: sum.splits option.splits if_splits)
    with assms None l show ?thesis by (auto simp: SubnetFor_def Let_def)
  qed
  then show ?thesis by (simp add: SubnetFor_def Let_def)
qed

end
