(* ===== verification/Service_Reconciler.thy ===== *)
theory Service_Reconciler
  imports Service_Octavia "HOL-Library.AList"
begin

text \<open>
  \<^verbatim>\<open>pkg/service/reconciler.go\<close>, \<^verbatim>\<open>floatingip.go\<close>, \<^verbatim>\<open>gc.go\<close> and
  \<^verbatim>\<open>controller.go\<close>: a load balancer for every Service. Octavia, Neutron's floating IPs and the
  Kubernetes API are records of calls on one world; a nil Neutron client panics when it is used.
\<close>

section \<open>State\<close>

record service_obj =
  sv_namespace :: string
  sv_name :: string
  sv_version :: nat
  sv_annotations :: labels
  sv_clusterIP :: string
  sv_type :: string
  sv_deleting :: bool
  sv_ports :: "service_port list"
  sv_ingress :: "string list"

record floating_ip =
  fi_id :: string
  fi_address :: string
  fi_port :: string
  fi_description :: string

text \<open>An update of a floating IP: a field that is \<open>None\<close> (a nil pointer) is not sent.\<close>

record fip_update =
  fu_port :: "string option"
  fu_description :: "string option"

text \<open>
  Floating IPs are listed by port or by address; a creation takes the network, the port and the
  description.
\<close>

record 'v fip_api =
  fip_List :: "string \<Rightarrow> ('v, floating_ip list) act"
  fip_ByAddress :: "string \<Rightarrow> ('v, floating_ip list) act"
  fip_Create :: "string \<Rightarrow> string \<Rightarrow> string \<Rightarrow> ('v, floating_ip) act"
  fip_Update :: "string \<Rightarrow> fip_update \<Rightarrow> ('v, unit) act"
  fip_Delete :: "string \<Rightarrow> ('v, unit) act"

record 'v service_client =
  sc_Update :: "service_obj \<Rightarrow> ('v, service_obj) act"
  sc_UpdateStatus :: "service_obj \<Rightarrow> ('v, service_obj) act"

text \<open>\<open>rc_fromSet\<close> is \<^verbatim>\<open>labels.SelectorFromSet\<close>.\<close>

record 'v service_rec =
  rc_octavia :: "'v octavia_api"
  rc_subnetFor :: "string \<Rightarrow> string \<Rightarrow> ('v, string) act"
  rc_serves :: "(string \<Rightarrow> bool) option"
  rc_namespaces :: "string list option"
  rc_services :: "service_obj lister"
  rc_slices :: "slice lister"
  rc_fromSet :: "labels \<Rightarrow> selector"
  rc_client :: "'v service_client"
  rc_vipSubnet :: string
  rc_vipNetwork :: string
  rc_tenant :: string
  rc_neutron :: "'v fip_api option"
  rc_fipNetwork :: string
  rc_public :: bool

definition lbIDAnnotation :: string where "lbIDAnnotation = ''knaas.io/loadbalancer-id''"
definition AddressAnnotation :: string where "AddressAnnotation = ''kubezoo.io/cluster-ip''"
definition InternalAnnotation :: string where "InternalAnnotation = ''service.beta.kubernetes.io/openstack-internal-load-balancer''"
definition FloatingNetworkAnnotation :: string where "FloatingNetworkAnnotation = ''loadbalancer.openstack.org/floating-network-id''"

definition annotation :: "service_obj \<Rightarrow> string \<Rightarrow> string" where
  "annotation svc key = label_of (sv_annotations svc) key"

definition annotated :: "string \<Rightarrow> string \<Rightarrow> service_obj \<Rightarrow> service_obj" where
  "annotated key val svc = svc\<lparr>sv_annotations := AList.update key val (sv_annotations svc)\<rparr>"

section \<open>Public addresses\<close>

definition nil_client :: err where
  "nil_client = ErrPanic ''nil service client''"

definition on_client :: "'c option \<Rightarrow> ('c \<Rightarrow> ('v, 'a) act) \<Rightarrow> ('v, 'a) act" where
  "on_client client f = (case client of None \<Rightarrow> fail nil_client | Some n \<Rightarrow> f n)"

definition wantsPublicAddress :: "service_obj \<Rightarrow> bool \<Rightarrow> bool" where
  "wantsPublicAddress svc defaultPublic =
     (if sv_type svc \<noteq> ''LoadBalancer'' then False
      else if annotation svc InternalAnnotation = ''true'' then False
      else if annotation svc InternalAnnotation = ''false'' then True
      else defaultPublic)"

definition floatingIPForPort :: "'v fip_api option \<Rightarrow> string \<Rightarrow> ('v, floating_ip option) act" where
  "floatingIPForPort neutron portID =
     (if portID = [] then ret None
      else bind_a (wrap_err (''looking for a public address on port '' @ portID) (on_client neutron (\<lambda>n. fip_List n portID)))
             (\<lambda>all. ret (case all of [] \<Rightarrow> None | f # _ \<Rightarrow> Some f)))"

definition no_network :: err where
  "no_network = ErrText ''no external network is configured, so a public address cannot be given; set one on the node or ask for an internal load balancer''"

definition ensureFloatingIP :: "'v fip_api option \<Rightarrow> string \<Rightarrow> string \<Rightarrow> ('v, string) act" where
  "ensureFloatingIP neutron vipPortID floatingNetworkID =
     bind_a (floatingIPForPort neutron vipPortID) (\<lambda>existing.
       case existing of
         Some f \<Rightarrow> ret (fi_address f)
       | None \<Rightarrow>
           if floatingNetworkID = [] then fail no_network
           else bind_a (wrap_err (''allocating a public address on network '' @ floatingNetworkID)
                  (on_client neutron (\<lambda>n. fip_Create n floatingNetworkID vipPortID []))) (\<lambda>f. ret (fi_address f)))"

definition releaseFloatingIP :: "'v fip_api option \<Rightarrow> string \<Rightarrow> ('v, unit) act" where
  "releaseFloatingIP neutron vipPortID =
     bind_a (floatingIPForPort neutron vipPortID) (\<lambda>fip.
       case fip of
         None \<Rightarrow> ret ()
       | Some f \<Rightarrow> wrap_err (''releasing public address '' @ fi_address f)
           (ignore_if (\<lambda>e. response_code_is e 404) (on_client neutron (\<lambda>n. fip_Delete n (fi_id f)))))"

section \<open>Load balancers\<close>

definition lbName :: "'v service_rec \<Rightarrow> string \<Rightarrow> string \<Rightarrow> string" where
  "lbName r namespace name = ''kubezun_'' @ rc_tenant r @ ''_'' @ namespace @ ''_'' @ name"

definition publishAddress :: "'v service_rec \<Rightarrow> service_obj \<Rightarrow> string \<Rightarrow> ('v, unit) act" where
  "publishAddress r svc address =
     bind_a (if annotation svc AddressAnnotation \<noteq> address
             then sc_Update (rc_client r) (annotated AddressAnnotation address svc) else ret svc) (\<lambda>svc.
       if sv_type svc \<noteq> ''LoadBalancer'' then ret ()
       else if sv_ingress svc = [address] then ret ()
       else bind_a (sc_UpdateStatus (rc_client r) (svc\<lparr>sv_ingress := [address]\<rparr>)) (\<lambda>_. ret ()))"

definition recordLoadBalancerID :: "'v service_rec \<Rightarrow> service_obj \<Rightarrow> string \<Rightarrow> ('v, unit) act" where
  "recordLoadBalancerID r svc i =
     (if annotation svc lbIDAnnotation = i then ret ()
      else bind_a (sc_Update (rc_client r) (annotated lbIDAnnotation i svc)) (\<lambda>_. ret ()))"

text \<open>A lookup whose \<open>ErrNotFound\<close> leads on and whose other errors are wrapped.\<close>

definition found_or :: "string \<Rightarrow> ('v, 'a) act \<Rightarrow> ('v, 'a) act \<Rightarrow> ('v, 'a) act" where
  "found_or looking lookup other v =
     (case lookup v of
        (Inr x, v') \<Rightarrow> (Inr x, v')
      | (Inl e, v') \<Rightarrow> if e = ErrNotFound then other v' else (Inl (ErrWrap looking e), v'))"

definition createLoadBalancer :: "'v service_rec \<Rightarrow> service_obj \<Rightarrow> string \<Rightarrow> ('v, lb) act" where
  "createLoadBalancer r svc name =
     bind_a (wrap_err (''creating load balancer '' @ quote_str name @ '' on subnet '' @ rc_vipSubnet r)
       (lb_Create (rc_octavia r)
         \<lparr>lo_name = name, lo_description = ''kubezun Service '' @ sv_namespace svc @ ''/'' @ sv_name svc,
          lo_subnet = rc_vipSubnet r, lo_provider = ''ovn''\<rparr>)) (\<lambda>lb.
     bind_a (ignore_if (\<lambda>e. \<not> is_panic e) (publishAddress r svc (lb_vip lb))) (\<lambda>_. ret lb))"

definition lbByName :: "'v service_rec \<Rightarrow> service_obj \<Rightarrow> ('v, lb) act" where
  "lbByName r svc =
     (let name = lbName r (sv_namespace svc) (sv_name svc) in
      bind_a (found_or (''looking up load balancer '' @ quote_str name) (GetLoadBalancerByName (rc_octavia r) name)
               (createLoadBalancer r svc name)) (\<lambda>lb.
      bind_a (WaitActive (rc_octavia r) (lb_id lb)) (\<lambda>lb.
      bind_a (recordLoadBalancerID r svc (lb_id lb)) (\<lambda>_. ret lb))))"

definition ensureLoadBalancer :: "'v service_rec \<Rightarrow> service_obj \<Rightarrow> ('v, lb) act" where
  "ensureLoadBalancer r svc =
     (let i = annotation svc lbIDAnnotation in
      if i \<noteq> [] then
        (\<lambda>v. case GetLoadBalancerByID (rc_octavia r) i v of
               (Inr lb, v') \<Rightarrow> WaitActive (rc_octavia r) (lb_id lb) v'
             | (Inl e, v') \<Rightarrow> if e = ErrNotFound then lbByName r svc v' else (Inl (ErrWrap (''reading load balancer '' @ i) e), v'))
      else lbByName r svc)"

definition proto_of :: "service_port \<Rightarrow> string" where
  "proto_of sp = (let p = to_upper (sp_protocol sp) in if p = [] then ''TCP'' else p)"

definition port_name :: "'v service_rec \<Rightarrow> service_obj \<Rightarrow> service_port \<Rightarrow> string" where
  "port_name r svc sp =
     lbName r (sv_namespace svc) (sv_name svc) @ ''_'' @ to_lower (proto_of sp) @ ''_'' @ show_int (sp_port sp)"

definition ensureListener :: "'v service_rec \<Rightarrow> service_obj \<Rightarrow> lb \<Rightarrow> service_port \<Rightarrow> ('v, listener) act" where
  "ensureListener r svc lb sp =
     (let name = port_name r svc sp in
      found_or (''looking up listener '' @ quote_str name) (GetListenerByName (rc_octavia r) (lb_id lb) name)
        (wrap_err (''creating listener '' @ quote_str name)
          (CreateListener (rc_octavia r) (lb_id lb)
            (zero_listener\<lparr>lio_name := name, lio_protocol := proto_of sp, lio_port := sp_port sp, lio_lb := lb_id lb\<rparr>))))"

definition ensurePool :: "'v service_rec \<Rightarrow> service_obj \<Rightarrow> lb \<Rightarrow> service_port \<Rightarrow> listener \<Rightarrow> ('v, pool) act" where
  "ensurePool r svc lb sp listener =
     (let name = port_name r svc sp in
      found_or (''looking up the pool of listener '' @ quote_str name) (GetPoolByListener (rc_octavia r) (lb_id lb) (li_id listener))
        (wrap_err (''creating pool '' @ quote_str name)
          (CreatePool (rc_octavia r) (lb_id lb)
            (zero_pool\<lparr>poo_name := name, poo_protocol := proto_of sp, poo_method := ''SOURCE_IP_PORT'', poo_listener := li_id listener\<rparr>))))"

definition ensureMonitor :: "'v service_rec \<Rightarrow> service_obj \<Rightarrow> lb \<Rightarrow> service_port \<Rightarrow> pool \<Rightarrow> ('v, unit) act" where
  "ensureMonitor r svc lb sp pool =
     (let name = port_name r svc sp in
      if po_monitor pool \<noteq> [] then ret ()
      else wrap_err (''creating the health monitor of pool '' @ quote_str name)
        (CreateHealthMonitor (rc_octavia r) (lb_id lb)
          (zero_monitor\<lparr>mo_name := name, mo_pool := po_id pool, mo_type := (if proto_of sp = ''UDP'' then ''UDP-CONNECT'' else ''TCP''),
             mo_delay := 5, mo_timeout := 3, mo_maxRetries := 3, mo_maxRetriesDown := 3\<rparr>)))"

definition family_of :: "lb \<Rightarrow> string" where
  "family_of lb = (if contains_str (lb_vip lb) '':'' then ''IPv6'' else ''IPv4'')"

definition ensurePort :: "'v service_rec \<Rightarrow> service_obj \<Rightarrow> lb \<Rightarrow> slice list \<Rightarrow> service_port \<Rightarrow> ('v, unit) act" where
  "ensurePort r svc lb slices sp =
     (if proto_of sp \<notin> {''TCP'', ''UDP'', ''SCTP''}
      then fail (ErrText (''port '' @ quote_str (sp_name sp) @ '': the OVN provider does not carry '' @ proto_of sp))
      else
        bind_a (ensureListener r svc lb sp) (\<lambda>listener.
        bind_a (ensurePool r svc lb sp listener) (\<lambda>pool.
        bind_a (ensureMonitor r svc lb sp pool) (\<lambda>_.
        bind_a (BuildMembers (rc_subnetFor r) slices sp (family_of lb)) (\<lambda>members.
        wrap_err (''setting the '' @ show_nat (length members) @ '' members of pool '' @ quote_str (port_name r svc sp))
          (SetPoolMembers (rc_octavia r) (lb_id lb) (po_id pool) members))))))"

definition slicesFor :: "'v service_rec \<Rightarrow> service_obj \<Rightarrow> slice list result" where
  "slicesFor r svc = l_In (rc_slices r) (sv_namespace svc) (rc_fromSet r [(''kubernetes.io/service-name'', sv_name svc)])"

definition tearDown :: "'v service_rec \<Rightarrow> string \<Rightarrow> ('v, unit) act" where
  "tearDown r i =
     bind_a (case rc_neutron r of
               None \<Rightarrow> ret ()
             | Some _ \<Rightarrow>
                 (\<lambda>v. case GetLoadBalancerByID (rc_octavia r) i v of
                        (Inr lb, v') \<Rightarrow> releaseFloatingIP (rc_neutron r) (lb_vipPort lb) v'
                      | (Inl e, v') \<Rightarrow> if e = ErrNotFound then (Inr (), v') else (Inl e, v'))) (\<lambda>_.
     DeleteLoadBalancer (rc_octavia r) i)"

text \<open>No load balancer of that name is nothing to delete.\<close>

definition deleteByName :: "'v service_rec \<Rightarrow> string \<Rightarrow> string \<Rightarrow> ('v, unit) act" where
  "deleteByName r namespace name = (\<lambda>v.
      case GetLoadBalancerByName (rc_octavia r) (lbName r namespace name) v of
        (Inr lb, v') \<Rightarrow> tearDown r (lb_id lb) v'
      | (Inl e, v') \<Rightarrow> if e = ErrNotFound then (Inr (), v') else (Inl e, v'))"

definition deleteLoadBalancer :: "'v service_rec \<Rightarrow> service_obj \<Rightarrow> ('v, unit) act" where
  "deleteLoadBalancer r svc =
     (let i = annotation svc lbIDAnnotation in
      if i = [] then deleteByName r (sv_namespace svc) (sv_name svc) else tearDown r i)"

definition addressFor :: "'v service_rec \<Rightarrow> service_obj \<Rightarrow> lb \<Rightarrow> ('v, string) act" where
  "addressFor r svc lb =
     (if wantsPublicAddress svc (rc_public r)
      then ensureFloatingIP (rc_neutron r) (lb_vipPort lb)
             (if annotation svc FloatingNetworkAnnotation \<noteq> [] then annotation svc FloatingNetworkAnnotation else rc_fipNetwork r)
      else bind_a (releaseFloatingIP (rc_neutron r) (lb_vipPort lb)) (\<lambda>_. ret (lb_vip lb)))"

definition Reconcile :: "'v service_rec \<Rightarrow> string \<Rightarrow> string \<Rightarrow> ('v, unit) act" where
  "Reconcile r namespace name =
     (case l_Get (rc_services r) namespace name of
        Inl e \<Rightarrow> if is_kube_not_found e then deleteByName r namespace name else fail e
      | Inr svc \<Rightarrow>
          if sv_clusterIP svc = ''None'' then ret ()
          else if sv_deleting svc then deleteLoadBalancer r svc
          else
            bind_a (ensureLoadBalancer r svc) (\<lambda>lb.
            bind_a (lift_r (slicesFor r svc)) (\<lambda>slices.
            bind_a (for_each (ensurePort r svc lb slices) (sv_ports svc)) (\<lambda>_.
            bind_a (addressFor r svc lb) (\<lambda>address.
            publishAddress r svc address)))))"

section \<open>Which calls are made\<close>

text \<open>
  \<open>octavia_keeps\<close>: no call on Octavia affects \<open>P\<close>. \<open>but_allocation\<close>: no call the
  reconciler can make does, the allocation of a public address apart; a property of the world with
  both is kept by everything that does not allocate one.
\<close>

definition octavia_keeps :: "'v octavia_api \<Rightarrow> ('v \<Rightarrow> bool) \<Rightarrow> bool" where
  "octavia_keeps c P \<longleftrightarrow>
     (\<forall>d. keeps P (o_sleep c d)) \<and> (\<forall>i. keeps P (lb_Get c i)) \<and> (\<forall>n. keeps P (lb_List c n)) \<and> (\<forall>opts. keeps P (lb_Create c opts)) \<and>
     (\<forall>i. keeps P (lb_Delete c i)) \<and> (\<forall>n. keeps P (li_List c n)) \<and> (\<forall>opts. keeps P (li_Create c opts)) \<and> (\<forall>i n. keeps P (po_List c i n)) \<and>
     (\<forall>opts. keeps P (po_Create c opts)) \<and> (\<forall>opts. keeps P (mon_Create c opts)) \<and> (\<forall>i. keeps P (mem_List c i)) \<and>
     (\<forall>i ms. keeps P (mem_Batch c i ms))"

definition but_allocation :: "'v service_rec \<Rightarrow> ('v \<Rightarrow> bool) \<Rightarrow> bool" where
  "but_allocation r P \<longleftrightarrow>
     octavia_keeps (rc_octavia r) P \<and> (\<forall>ns n. keeps P (rc_subnetFor r ns n)) \<and>
     (\<forall>s. keeps P (sc_Update (rc_client r) s)) \<and> (\<forall>s. keeps P (sc_UpdateStatus (rc_client r) s)) \<and>
     (case rc_neutron r of None \<Rightarrow> True | Some n \<Rightarrow> (\<forall>p. keeps P (fip_List n p)) \<and> (\<forall>i. keeps P (fip_Delete n i)))"

lemma keeps_found_or: "keeps P lookup \<Longrightarrow> keeps P other \<Longrightarrow> keeps P (found_or looking lookup other)"
  by (auto simp: keeps_def found_or_def case_prod_beta split: sum.split)

lemma keeps_cases:
  assumes "keeps P m" and "\<And>x. keeps P (f x)" and "\<And>e v. P v \<Longrightarrow> P (snd (g e v))"
  shows "keeps P (\<lambda>v. case m v of (Inr x, v') \<Rightarrow> f x v' | (Inl e, v') \<Rightarrow> g e v')"
  using assms by (auto simp: keeps_def case_prod_beta split: sum.split)

text \<open>What reading and waiting keep, polling for an active load balancer keeps.\<close>

lemma WaitActive_keeps:
  assumes "\<And>i. keeps P (lb_Get c i)" and "\<And>d. keeps P (o_sleep c d)"
  shows "keeps P (GetLoadBalancerByID c i)" "keeps P (waitLoop k c i d)" "keeps P (WaitActive c i)"
proof -
  have id: "keeps P (GetLoadBalancerByID c i)" for i
    unfolding GetLoadBalancerByID_def using assms(1) by (rule keeps_with_err)
  have loop: "keeps P (waitLoop k c i d)" for k d
  proof (induction k)
    case (Suc k)
    have "keeps P (bind_a (o_sleep c activePoll) (\<lambda>_. waitLoop k c i d))" using assms(2) Suc by (auto intro: keeps_bind_a)
    then show ?case using id by (auto intro!: keeps_bind_a) (auto simp: keeps_def)
  qed simp
  then show "keeps P (waitLoop k c i d)" "keeps P (WaitActive c i)" by (auto simp: keeps_def WaitActive_def)
  show "keeps P (GetLoadBalancerByID c i)" by (rule id)
qed

lemma octavia_calls:
  assumes "octavia_keeps c P"
  shows "keeps P (GetLoadBalancerByID c i)" "keeps P (GetLoadBalancerByName c n)" "keeps P (waitLoop k c i d)" "keeps P (WaitActive c i)"
    "keeps P (GetListenerByName c i n)" "keeps P (GetPoolByListener c i n)" "keeps P (CreateListener c i lopts)"
    "keeps P (CreatePool c i popts)" "keeps P (CreateHealthMonitor c i mopts)" "keeps P (SetPoolMembers c i p ms)"
    "keeps P (DeleteLoadBalancer c i)"
proof -
  note K = assms [unfolded octavia_keeps_def]
  have get: "\<And>i. keeps P (lb_Get c i)" and pause: "\<And>d. keeps P (o_sleep c d)" using K by auto
  note wait = WaitActive_keeps [OF get pause]
  show "keeps P (GetLoadBalancerByID c i)" "keeps P (waitLoop k c i d)" "keeps P (WaitActive c i)" by (fact wait)+
  show "keeps P (GetLoadBalancerByName c n)" "keeps P (GetListenerByName c i n)" "keeps P (GetPoolByListener c i n)"
    unfolding GetLoadBalancerByName_def GetListenerByName_def GetPoolByListener_def
    using K by (auto intro!: keeps_bind_a split: list.split option.split)
  show "keeps P (CreateListener c i lopts)" "keeps P (CreatePool c i popts)" "keeps P (CreateHealthMonitor c i mopts)"
    unfolding CreateListener_def CreatePool_def CreateHealthMonitor_def using K wait by (auto intro!: keeps_bind_a)
  have "keeps P (bind_a (mem_Batch c p ms) (\<lambda>_. bind_a (WaitActive c i) (\<lambda>_. ret ())))"
    using K wait by (auto intro!: keeps_bind_a)
  then show "keeps P (SetPoolMembers c i p ms)"
    using K by (auto simp: keeps_def SetPoolMembers_def case_prod_beta)
  show "keeps P (DeleteLoadBalancer c i)"
    unfolding DeleteLoadBalancer_def using K by (auto intro: keeps_ignore_if)
qed

lemma BuildMembers_keeps:
  assumes "\<And>ns n. keeps P (subnetFor ns n)"
  shows "keeps P (BuildMembers subnetFor slices sp family)"
proof -
  have "keeps P (sliceMembers subnetFor ns port eps)" for ns port eps
    by (induction eps) (auto intro!: keeps_bind_a keeps_wrap_err assms split: option.splits)
  then show ?thesis by (induction slices) (auto intro!: keeps_bind_a)
qed

lemma reconciler_calls:
  assumes "but_allocation r P"
  shows "keeps P (publishAddress r svc a)" "keeps P (ensureLoadBalancer r svc)" "keeps P (ensurePort r svc lb slices sp)"
    "keeps P (releaseFloatingIP (rc_neutron r) port)" "keeps P (tearDown r i)" "keeps P (deleteByName r ns n)"
    "keeps P (deleteLoadBalancer r svc)"
proof -
  note K = assms [unfolded but_allocation_def]
  note oct = octavia_calls [OF K [THEN conjunct1]]
  have create: "keeps P (lb_Create (rc_octavia r) opts)" for opts using K by (auto simp: octavia_keeps_def)
  have publish: "keeps P (publishAddress r svc a)" for svc a
    unfolding publishAddress_def using K by (auto intro!: keeps_bind_a)
  have rec: "keeps P (recordLoadBalancerID r svc i)" for svc i
    unfolding recordLoadBalancerID_def using K by (auto intro!: keeps_bind_a)
  have byName: "keeps P (lbByName r svc)" for svc
    unfolding lbByName_def Let_def createLoadBalancer_def
    by (intro keeps_bind_a keeps_found_or keeps_wrap_err keeps_ignore_if keeps_ret create publish rec oct)
  show "keeps P (publishAddress r svc a)" by (fact publish)
  show "keeps P (ensureLoadBalancer r svc)"
    unfolding ensureLoadBalancer_def Let_def using byName by (auto intro!: keeps_cases oct simp: keepsD [OF byName])
  show "keeps P (ensurePort r svc lb slices sp)"
    unfolding ensurePort_def ensureListener_def ensurePool_def ensureMonitor_def Let_def
    using K by (auto intro!: keeps_bind_a keeps_found_or keeps_wrap_err oct BuildMembers_keeps)
  have "keeps P (on_client (rc_neutron r) (\<lambda>n. fip_List n port))" "keeps P (on_client (rc_neutron r) (\<lambda>n. fip_Delete n i))" for port i
    using K by (auto simp: on_client_def split: option.splits)
  then have release: "keeps P (releaseFloatingIP (rc_neutron r) port)" for port
    unfolding releaseFloatingIP_def floatingIPForPort_def
    by (auto intro!: keeps_bind_a keeps_wrap_err keeps_ignore_if split: option.splits)
  then show "keeps P (releaseFloatingIP (rc_neutron r) port)" .
  have tear: "keeps P (tearDown r i)" for i
    unfolding tearDown_def using release by (auto intro!: keeps_bind_a oct keeps_cases split: option.split)
  then show "keeps P (tearDown r i)" .
  have del: "keeps P (deleteByName r ns n)" for ns n
    unfolding deleteByName_def using tear by (auto intro!: keeps_cases oct)
  then show "keeps P (deleteByName r ns n)" .
  show "keeps P (deleteLoadBalancer r svc)"
    unfolding deleteLoadBalancer_def Let_def using del tear by auto
qed


section \<open>Properties\<close>

text \<open>
  A load balancer that the Service records and that exists is kept as it is: whatever reading
  and waiting leave true is true after ensuring it, so nothing is created, deleted, renamed or
  published, and the load balancer handed back, when one is, was read as active.
\<close>

theorem existing_lb_kept:
  assumes "annotation svc lbIDAnnotation \<noteq> []"
    and "lb_Get (rc_octavia r) (annotation svc lbIDAnnotation) v = (Inr b, v')"
    and "\<And>i. keeps P (lb_Get (rc_octavia r) i)" and "\<And>d. keeps P (o_sleep (rc_octavia r) d)" and "P v"
  shows "P (snd (ensureLoadBalancer r svc v)) \<and>
    (case fst (ensureLoadBalancer r svc v) of Inl _ \<Rightarrow> True | Inr lb \<Rightarrow> lb_status lb = ''ACTIVE'')"
proof -
  have e: "ensureLoadBalancer r svc v = WaitActive (rc_octavia r) (lb_id b) v'"
    using assms(1,2) by (simp add: ensureLoadBalancer_def GetLoadBalancerByID_def with_err_def Let_def)
  have "P v'" using keepsD [OF assms(3,5), of "annotation svc lbIDAnnotation"] assms(2) by simp
  then have "P (snd (ensureLoadBalancer r svc v))"
    unfolding e by (rule keepsD [OF WaitActive_keeps(3) [OF assms(3,4)]])
  moreover have "lb_status lb = ''ACTIVE''" if "fst (ensureLoadBalancer r svc v) = Inr lb" for lb
    using that e waitLoop_active unfolding WaitActive_def by (metis prod.collapse)
  ultimately show ?thesis by (auto split: sum.split)
qed

text \<open>
  No public address is allocated for a Service that does not ask for one: reconciling a Service
  that is gone, headless, being deleted, or whose type and annotations ask for none keeps
  everything that only an allocation could change.
\<close>

theorem no_public_address_unasked:
  assumes "but_allocation r P" and "P v"
    and "case l_Get (rc_services r) namespace name of Inl _ \<Rightarrow> True | Inr svc \<Rightarrow> \<not> wantsPublicAddress svc (rc_public r)"
  shows "P (snd (Reconcile r namespace name v))"
proof -
  note calls = reconciler_calls [OF assms(1)]
  have "keeps P (Reconcile r namespace name)"
  proof (cases "l_Get (rc_services r) namespace name")
    case (Inr svc)
    then have "addressFor r svc lb = bind_a (releaseFloatingIP (rc_neutron r) (lb_vipPort lb)) (\<lambda>_. ret (lb_vip lb))" for lb
      using assms(3) by (simp add: addressFor_def)
    with Inr calls show ?thesis unfolding Reconcile_def by (auto intro!: keeps_bind_a keeps_for_each)
  qed (auto simp: Reconcile_def calls)
  then show ?thesis using assms(2) by (rule keepsD)
qed

definition sample_svc :: service_obj where
  "sample_svc = \<lparr>sv_namespace = ''prod'', sv_name = ''web'', sv_version = 4, sv_annotations = [(''knaas.io/loadbalancer-id'', ''lb1'')],
     sv_clusterIP = ''10.96.0.7'', sv_type = ''ClusterIP'', sv_deleting = False, sv_ports = [], sv_ingress = []\<rparr>"

text \<open>Octavia of \<open>Service_Octavia\<close> beside the number of public addresses and of writes of Services.\<close>

definition over :: "('v, 'a) act \<Rightarrow> ('v \<times> 'x, 'a) act" where
  "over m v = (case m (fst v) of (q, w) \<Rightarrow> (q, (w, snd v)))"

definition sample_octavia2 :: "(omem \<times> nat \<times> nat) octavia_api" where
  "sample_octavia2 = quiet_octavia
     \<lparr>o_now := (\<lambda>v. om_now (fst v)), o_sleep := (\<lambda>d. over (o_sleep sample_octavia d)), lb_Get := (\<lambda>i. over (lb_Get sample_octavia i))\<rparr>"

definition sample_rec :: "(omem \<times> nat \<times> nat) service_rec" where
  "sample_rec =
     \<lparr>rc_octavia = sample_octavia2, rc_subnetFor = (\<lambda>_ _. ret ''s1''), rc_serves = None, rc_namespaces = Some [''prod''],
      rc_services = \<lparr>l_List = (\<lambda>_. Inr [sample_svc]), l_In = (\<lambda>_ _. Inr [sample_svc]), l_Get = (\<lambda>_ _. Inr sample_svc)\<rparr>,
      rc_slices = \<lparr>l_List = (\<lambda>_. Inr []), l_In = (\<lambda>_ _. Inr []), l_Get = (\<lambda>_ _. Inl ErrNotFound)\<rparr>,
      rc_fromSet = (\<lambda>_. \<lparr>sel_string = [], sel_matches = (\<lambda>_. True)\<rparr>),
      rc_client = \<lparr>sc_Update = (\<lambda>s v. (Inr s, (fst v, fst (snd v), Suc (snd (snd v))))), sc_UpdateStatus = (\<lambda>s. ret s)\<rparr>,
      rc_vipSubnet = ''vip'', rc_vipNetwork = [], rc_tenant = ''acme'',
      rc_neutron = Some \<lparr>fip_List = (\<lambda>_. ret []), fip_ByAddress = (\<lambda>_. ret []),
        fip_Create = (\<lambda>_ port d v. (Inr \<lparr>fi_id = ''f'', fi_address = ''203.0.113.9'', fi_port = port, fi_description = d\<rparr>, (fst v, Suc (fst (snd v)), snd (snd v)))),
        fip_Update = (\<lambda>_ _. ret ()), fip_Delete = (\<lambda>_. ret ())\<rparr>,
      rc_fipNetwork = ''ext'', rc_public = True\<rparr>"

definition sample_world :: "omem \<times> nat \<times> nat" where
  "sample_world = (\<lparr>om_now = 7, om_polls = 1, om_pools = []\<rparr>, 0, 0)"

lemma over_keeps: "keeps (\<lambda>v. Q (snd v)) (over m)"
  by (auto simp: keeps_def over_def case_prod_beta)

lemmas sample_rec_simps = sample_rec_def sample_octavia2_def quiet_octavia_def Let_def

theorem existing_lb_kept_witness:
  "snd (snd (ensureLoadBalancer sample_rec sample_svc sample_world)) = (0, 0) \<and>
   fst (ensureLoadBalancer sample_rec sample_svc sample_world) \<noteq> Inl out_of_fuel"
proof -
  have id: "annotation sample_svc lbIDAnnotation \<noteq> []" by code_simp
  have "\<not> isl (fst (lb_Get (rc_octavia sample_rec) (annotation sample_svc lbIDAnnotation) sample_world))" by code_simp
  then obtain b v' where get: "lb_Get (rc_octavia sample_rec) (annotation sample_svc lbIDAnnotation) sample_world = (Inr b, v')"
    by (metis isl_def prod.collapse sum.exhaust_sel)
  have "snd (snd (ensureLoadBalancer sample_rec sample_svc sample_world)) = (0, 0)"
    using existing_lb_kept [OF id get, where P = "\<lambda>v. snd v = (0, 0)"]
    by (simp add: sample_rec_simps over_keeps [where Q = "\<lambda>x. x = (0, 0)"] sample_world_def)
  moreover have "fst (ensureLoadBalancer sample_rec sample_svc sample_world) \<noteq> Inl out_of_fuel" by code_simp
  ultimately show ?thesis ..
qed

theorem no_public_address_unasked_witness:
  "fst (snd (snd (Reconcile sample_rec ''prod'' ''web'' sample_world))) = 0"
proof -
  have "but_allocation sample_rec (\<lambda>v. fst (snd v) = 0)"
    by (simp add: but_allocation_def octavia_keeps_def sample_rec_simps over_keeps [where Q = "\<lambda>x. fst x = 0"])
      (simp add: keeps_def)
  moreover have "case l_Get (rc_services sample_rec) ''prod'' ''web'' of Inl _ \<Rightarrow> True | Inr svc \<Rightarrow> \<not> wantsPublicAddress svc (rc_public sample_rec)"
    by code_simp
  moreover have "fst (snd sample_world) = 0" by (simp add: sample_world_def)
  ultimately show ?thesis
    using no_public_address_unasked [where r = sample_rec and P = "\<lambda>v. fst (snd v) = 0" and v = sample_world
      and namespace = "''prod''" and name = "''web''"] by simp
qed

text \<open>
  On the pass that creates the load balancer the address is published first and the identifier
  recorded after, on the same object: where the API refuses an update that carries an old version,
  the first makes the second fail, so the pass ends in an error and the Service is left for a retry.
\<close>

theorem first_pass_conflicts:
  assumes "annotation svc lbIDAnnotation = []"
    and "GetLoadBalancerByName (rc_octavia r) (lbName r (sv_namespace svc) (sv_name svc)) v = (Inl ErrNotFound, v1)"
    and "\<And>opts. lb_Create (rc_octavia r) opts v1 = (Inr b, v2)"
    and "annotation svc AddressAnnotation \<noteq> lb_vip b"
    and "sc_Update (rc_client r) (annotated AddressAnnotation (lb_vip b) svc) v2 = (Inr fresh, v3)"
    and "stale v3" and "\<And>s. keeps stale (sc_UpdateStatus (rc_client r) s)" and "octavia_keeps (rc_octavia r) stale"
    and "\<And>s w. stale w \<Longrightarrow> sv_version s = sv_version svc \<Longrightarrow> isl (fst (sc_Update (rc_client r) s w))"
    and "\<And>i w lb w'. lb_Get (rc_octavia r) i w = (Inr lb, w') \<Longrightarrow> lb_id lb \<noteq> []"
  shows "isl (fst (ensureLoadBalancer r svc v))"
proof -
  obtain q v4 where pub: "publishAddress r svc (lb_vip b) v2 = (q, v4)" by (meson surj_pair)
  have "publishAddress r svc (lb_vip b) v2 =
      (if sv_type fresh \<noteq> ''LoadBalancer'' then ret () else if sv_ingress fresh = [lb_vip b] then ret ()
       else bind_a (sc_UpdateStatus (rc_client r) (fresh\<lparr>sv_ingress := [lb_vip b]\<rparr>)) (\<lambda>_. ret ())) v3"
    using assms(4,5) by (simp add: publishAddress_def bind_a_def)
  moreover have "keeps stale (bind_a (sc_UpdateStatus (rc_client r) (fresh\<lparr>sv_ingress := [lb_vip b]\<rparr>)) (\<lambda>_. ret ()))"
    using assms(7) by (auto intro!: keeps_bind_a)
  ultimately have v4: "stale v4" using pub assms(6) by (auto simp: keeps_def act_simps split: if_splits) (metis snd_conv)
  obtain w v5 where wait: "WaitActive (rc_octavia r) (lb_id b) v4 = (w, v5)" by (meson surj_pair)
  with v4 have v5: "stale v5" using keepsD [OF octavia_calls(4) [OF assms(8)], of v4 "lb_id b"] by simp
  have rec: "isl (fst (recordLoadBalancerID r svc (lb_id lb) v5))" if "w = Inr lb" for lb
  proof -
    have "lb_id lb \<noteq> []" using that wait assms(10) waitLoop_read unfolding WaitActive_def by metis
    moreover have "isl (fst (sc_Update (rc_client r) (annotated lbIDAnnotation (lb_id lb) svc) v5))"
      by (rule assms(9) [OF v5]) (simp add: annotated_def)
    ultimately show ?thesis using assms(1) by (auto simp: recordLoadBalancerID_def bind_a_def case_prod_beta split: sum.split)
  qed
  have "ensureLoadBalancer r svc v = lbByName r svc v" using assms(1) by (simp add: ensureLoadBalancer_def)
  then show ?thesis
    using assms(2,3) pub wait rec
    by (cases q; cases w) (auto simp: lbByName_def Let_def found_or_def createLoadBalancer_def wrap_err_def bind_a_def ignore_if_def ret_def
      case_prod_beta split: sum.splits)
qed

end
