(* ===== verification/Service_Controller.thy ===== *)
theory Service_Controller
  imports Service_Reconciler
begin

text \<open>
  \<^verbatim>\<open>pkg/service/controller.go\<close> and \<^verbatim>\<open>gc.go\<close>: what queues a Service, a turn of the worker,
  and the sweep of load balancers whose Service is gone. A turn is the queue operations it ends
  with, the events it records and the world after it.
\<close>

section \<open>State\<close>

text \<open>\<open>None\<close> for the two multi-tenant fields is the nil function.\<close>

record 'v svc_controller =
  sw_main :: "'v service_rec"
  sw_for :: "(string \<Rightarrow> ('v, 'v service_rec) act) option"
  sw_each :: "(('v service_rec \<Rightarrow> ('v, unit) act) \<Rightarrow> ('v, unit) act) option"
  sw_events :: bool

definition svc_serves :: "'v svc_controller \<Rightarrow> string \<Rightarrow> bool" where
  "svc_serves C namespace = (case rc_serves (sw_main C) of None \<Rightarrow> False | Some f \<Rightarrow> f namespace)"

definition svc_reconcilerOf :: "'v svc_controller \<Rightarrow> string \<Rightarrow> ('v, 'v service_rec) act" where
  "svc_reconcilerOf C namespace = (case sw_for C of None \<Rightarrow> ret (sw_main C) | Some f \<Rightarrow> f namespace)"

definition svc_eachReconciler :: "'v svc_controller \<Rightarrow> ('v service_rec \<Rightarrow> ('v, unit) act) \<Rightarrow> ('v, unit) act" where
  "svc_eachReconciler C fn = (case sw_each C of None \<Rightarrow> fn (sw_main C) | Some each \<Rightarrow> each fn)"

section \<open>Events\<close>

definition enqueueService :: "service_obj event_obj \<Rightarrow> queue_op list" where
  "enqueueService obj = (case untombed obj of None \<Rightarrow> [] | Some svc \<Rightarrow> [Add (obj_key (sv_namespace svc) (sv_name svc))])"

definition enqueueSlice :: "slice event_obj \<Rightarrow> queue_op list" where
  "enqueueSlice obj =
     (case untombed obj of
        None \<Rightarrow> []
      | Some s \<Rightarrow>
          (let name = label_of (sl_labels s) ''kubernetes.io/service-name'' in
           if name = [] then [] else [Add (obj_key (sl_namespace s) name)]))"

text \<open>The event a failure leaves on the Service, when it can be read and somebody records.\<close>

definition recordFailure :: "'v svc_controller \<Rightarrow> string \<Rightarrow> string \<Rightarrow> err \<Rightarrow> (service_obj \<times> string) list" where
  "recordFailure C namespace name cause =
     (if \<not> sw_events C then []
      else (case l_Get (rc_services (sw_main C)) namespace name of
              Inl _ \<Rightarrow> []
            | Inr svc \<Rightarrow> [(svc, ''the Service has no reachable address yet: '' @ err_text cause)]))"

text \<open>One turn of the worker: \<open>reconcile\<close> and the \<^verbatim>\<open>Done\<close> that follows it.\<close>

definition svc_turn :: "'v svc_controller \<Rightarrow> string \<Rightarrow> 'v \<Rightarrow> queue_op list \<times> (service_obj \<times> string) list \<times> 'v" where
  "svc_turn C key v =
     (case split_key key of
        Inl _ \<Rightarrow> ([Forget key, Done key], [], v)
      | Inr (namespace, name) \<Rightarrow>
          if \<not> svc_serves C namespace then ([Forget key, Done key], [], v)
          else (case svc_reconcilerOf C namespace v of
            (Inl e, v') \<Rightarrow> ([AddRateLimited key, Done key], [], v')
          | (Inr r, v') \<Rightarrow>
              (case Reconcile r namespace name v' of
                 (Inl e, v'') \<Rightarrow>
                   if is_panic e then ([], [], v'')
                   else ([AddRateLimited key, Done key], recordFailure C namespace name e, v'')
               | (Inr _, v'') \<Rightarrow> ([Forget key, Done key], [], v''))))"

section \<open>The sweep\<close>

definition parseLBName :: "'v service_rec \<Rightarrow> string \<Rightarrow> (string \<times> string) option" where
  "parseLBName r name =
     (let prefix = ''kubezun_'' @ rc_tenant r @ ''_'' in
      if \<not> has_prefix name prefix then None
      else (let rest = trim_prefix name prefix in
            if has_prefix rest ''ing_'' then None
            else (case cut_at (CHR ''_'') rest of
                    None \<Rightarrow> None
                  | Some (namespace, service) \<Rightarrow> if namespace = [] \<or> service = [] then None else Some (namespace, service))))"

text \<open>A deletion that fails is only reported.\<close>

definition sweepLB :: "'v svc_controller \<Rightarrow> 'v service_rec \<Rightarrow> lb \<Rightarrow> 'v \<Rightarrow> 'v" where
  "sweepLB C r lb v =
     (case parseLBName r (lb_name lb) of
        None \<Rightarrow> v
      | Some (namespace, name) \<Rightarrow>
          if \<not> svc_serves C namespace then snd (tearDown r (lb_id lb) v)
          else (case l_Get (rc_services r) namespace name of
                  Inr _ \<Rightarrow> v
                | Inl e \<Rightarrow> if \<not> is_kube_not_found e then v else snd (tearDown r (lb_id lb) v)))"

definition svc_sweepOne :: "'v svc_controller \<Rightarrow> 'v service_rec \<Rightarrow> 'v \<Rightarrow> 'v" where
  "svc_sweepOne C r v =
     (if rc_namespaces r = None \<or> rc_namespaces r = Some [] then v
      else (case ListLoadBalancers (rc_octavia r) v of
              (Inl _, v') \<Rightarrow> v'
            | (Inr all, v') \<Rightarrow> foldl (\<lambda>v lb. sweepLB C r lb v) v' all))"

definition svc_sweep :: "'v svc_controller \<Rightarrow> 'v \<Rightarrow> 'v" where
  "svc_sweep C v = snd (svc_eachReconciler C (\<lambda>r v. (Inr (), svc_sweepOne C r v)) v)"

section \<open>Lemmas\<close>

lemma parseLBName_lbName:
  assumes "ns \<noteq> []" "n \<noteq> []" "CHR ''_'' \<notin> set ns" "ns \<noteq> ''ing''"
  shows "parseLBName r (lbName r ns n) = Some (ns, n)"
proof -
  let ?p = "''kubezun_'' @ rc_tenant r @ ''_''"
  have name: "lbName r ns n = ?p @ (ns @ ''_'' @ n)" by (simp add: lbName_def)
  have "has_prefix (lbName r ns n) ?p" "trim_prefix (lbName r ns n) ?p = ns @ ''_'' @ n"
    unfolding name trim_prefix_def has_prefix_def by simp_all
  moreover have "\<not> has_prefix (ns @ ''_'' @ n) ''ing_''"
  proof
    assume "has_prefix (ns @ ''_'' @ n) ''ing_''"
    then have "ns @ ''_'' @ n = ''ing_'' @ drop (length ''ing_'') (ns @ ''_'' @ n)"
      unfolding has_prefix_def by (metis append_take_drop_id)
    then obtain rest where "ns @ CHR ''_'' # n = ''ing'' @ CHR ''_'' # rest" by simp
    then have "ns = ''ing''" using assms(3) sep_split [of "CHR ''_''" ns "''ing''" n rest] by simp
    with assms(4) show False ..
  qed
  moreover have "cut_at (CHR ''_'') (ns @ ''_'' @ n) = Some (ns, n)" using assms(3) by simp
  ultimately show ?thesis using assms(1,2) unfolding parseLBName_def Let_def by simp
qed

text \<open>
  What the sweep relies on of Octavia and Neutron, \<open>B v\<close> being the load balancers there are: a
  deletion removes at most the one it names, and no other call it makes removes any; a listing
  names load balancers that are there, by identifiers that are unique.
\<close>

definition lb_laws :: "'v service_rec \<Rightarrow> ('v \<Rightarrow> lb set) \<Rightarrow> bool" where
  "lb_laws r B \<longleftrightarrow>
     (\<forall>i v. \<forall>b \<in> B v. lb_id b \<noteq> i \<longrightarrow> b \<in> B (snd (lb_Delete (rc_octavia r) i v))) \<and>
     (\<forall>i v. B (snd (lb_Get (rc_octavia r) i v)) = B v) \<and>
     (\<forall>v. B (snd (lb_List (rc_octavia r) None v)) = B v) \<and>
     (\<forall>v all v'. lb_List (rc_octavia r) None v = (Inr all, v') \<longrightarrow> (\<forall>a \<in> set all. \<forall>b \<in> B v. lb_id a = lb_id b \<longrightarrow> a = b)) \<and>
     (case rc_neutron r of None \<Rightarrow> True
      | Some n \<Rightarrow> (\<forall>p v. B (snd (fip_List n p v)) = B v) \<and> (\<forall>i v. B (snd (fip_Delete n i v)) = B v))"

lemma GetLoadBalancerByID_world: "snd (GetLoadBalancerByID c i v) = snd (lb_Get c i v)"
  by (simp add: GetLoadBalancerByID_def with_err_def case_prod_beta split: sum.split)

lemma releaseFloatingIP_keeps:
  assumes "lb_laws r B"
  shows "B (snd (releaseFloatingIP (rc_neutron r) port v)) = B v"
proof -
  have "keeps (\<lambda>w. B w = B v) (on_client (rc_neutron r) (\<lambda>n. fip_List n port))"
    "\<And>i. keeps (\<lambda>w. B w = B v) (on_client (rc_neutron r) (\<lambda>n. fip_Delete n i))"
    using assms by (auto simp: on_client_def lb_laws_def keeps_def split: option.splits)
  then have "keeps (\<lambda>w. B w = B v) (releaseFloatingIP (rc_neutron r) port)"
    unfolding releaseFloatingIP_def floatingIPForPort_def
    by (auto intro!: keeps_bind_a keeps_wrap_err keeps_ignore_if split: option.splits)
  then show ?thesis by (auto simp: keeps_def)
qed

lemma tearDown_keeps:
  assumes "lb_laws r B" and "b \<in> B v" and "lb_id b \<noteq> i"
  shows "b \<in> B (snd (tearDown r i v))"
proof -
  let ?P = "\<lambda>w. b \<in> B w"
  have get: "keeps ?P (\<lambda>v. case GetLoadBalancerByID (rc_octavia r) i v of
      (Inr lb, v') \<Rightarrow> releaseFloatingIP (rc_neutron r) (lb_vipPort lb) v'
    | (Inl e, v') \<Rightarrow> if e = ErrNotFound then (Inr (), v') else (Inl e, v'))"
  proof (rule keepsI)
    fix w assume b: "b \<in> B w"
    obtain q w' where g: "GetLoadBalancerByID (rc_octavia r) i w = (q, w')" by (meson surj_pair)
    then have "B w' = B w" using GetLoadBalancerByID_world [of "rc_octavia r" i w] assms(1) by (auto simp: lb_laws_def)
    with g b releaseFloatingIP_keeps [OF assms(1)] show "b \<in> B (snd (case GetLoadBalancerByID (rc_octavia r) i w of
        (Inr lb, v') \<Rightarrow> releaseFloatingIP (rc_neutron r) (lb_vipPort lb) v'
      | (Inl e, v') \<Rightarrow> if e = ErrNotFound then (Inr (), v') else (Inl e, v')))"
      by (cases q) auto
  qed
  have del: "keeps ?P (DeleteLoadBalancer (rc_octavia r) i)"
    unfolding DeleteLoadBalancer_def using assms(1,3) by (intro keeps_ignore_if keepsI) (auto simp: lb_laws_def)
  have "keeps ?P (tearDown r i)"
    unfolding tearDown_def by (intro keeps_bind_a del) (use get in \<open>auto split: option.split\<close>)
  with assms(2) show ?thesis by (auto dest: keepsD)
qed

lemma foldl_keeps: "P v \<Longrightarrow> (\<And>x v. x \<in> set xs \<Longrightarrow> P v \<Longrightarrow> P (f v x)) \<Longrightarrow> P (foldl f v xs)"
  by (induction xs arbitrary: v) auto

text \<open>A load balancer the sweep may not delete: not a Service's of this tenant, or of a Service that is not known to be gone.\<close>

definition lb_needed :: "'v svc_controller \<Rightarrow> 'v service_rec \<Rightarrow> lb \<Rightarrow> bool" where
  "lb_needed C r b \<longleftrightarrow>
     (case parseLBName r (lb_name b) of
        None \<Rightarrow> True
      | Some (ns, n) \<Rightarrow> svc_serves C ns \<and> (case l_Get (rc_services r) ns n of Inr _ \<Rightarrow> True | Inl e \<Rightarrow> \<not> is_kube_not_found e))"

lemma sweepLB_keeps:
  assumes "lb_laws r B" and "b \<in> B v" and "lb_id a = lb_id b \<Longrightarrow> a = b" and "lb_needed C r b"
  shows "b \<in> B (sweepLB C r a v)"
proof (cases "lb_id a = lb_id b")
  case True
  with assms show ?thesis by (auto simp: sweepLB_def lb_needed_def split: option.splits sum.splits)
next
  case False
  then have "b \<in> B (snd (tearDown r (lb_id a) v))" using tearDown_keeps assms(1,2) by metis
  with assms(2) show ?thesis by (auto simp: sweepLB_def split: option.split sum.split)
qed

lemma svc_sweepOne_keeps:
  assumes "lb_laws r B" and "b \<in> B v" and "lb_needed C r b"
  shows "b \<in> B (svc_sweepOne C r v)"
proof -
  obtain q v' where l: "lb_List (rc_octavia r) None v = (q, v')" by (meson surj_pair)
  then have B: "B v' = B v" using assms(1) unfolding lb_laws_def by (metis snd_conv)
  show ?thesis
  proof (cases q)
    case (Inr all)
    have "\<forall>a \<in> set all. lb_id a = lb_id b \<longrightarrow> a = b"
      using assms(1,2) l Inr unfolding lb_laws_def by blast
    then have "b \<in> B (foldl (\<lambda>v lb. sweepLB C r lb v) v' all)"
      using B assms(2) by (intro foldl_keeps [where P = "\<lambda>w. b \<in> B w"]) (auto intro: sweepLB_keeps assms)
    with l Inr assms(2) show ?thesis by (simp add: svc_sweepOne_def ListLoadBalancers_def)
  qed (use assms(2) l B in \<open>simp add: svc_sweepOne_def ListLoadBalancers_def\<close>)
qed

section \<open>Properties\<close>


text \<open>A tenant with the load balancer of a live Service, of a Service that is gone, and of an Ingress.\<close>

definition sample_lb :: "string \<Rightarrow> string \<Rightarrow> lb" where
  "sample_lb i name = \<lparr>lb_id = i, lb_name = name, lb_status = ''ACTIVE'', lb_vip = ''10.9.0.1'', lb_vipPort = [], lb_provider = ''ovn''\<rparr>"

definition sample_lbs :: "lb list" where
  "sample_lbs = [sample_lb ''1'' ''kubezun_acme_prod_web'', sample_lb ''2'' ''kubezun_acme_prod_old'', sample_lb ''3'' ''kubezun_acme_ing_prod_web'']"

definition sample_lb_api :: "lb list octavia_api" where
  "sample_lb_api = quiet_octavia
     \<lparr>lb_Get := (\<lambda>i v. (case find (\<lambda>b. lb_id b = i) v of None \<Rightarrow> Inl ErrNotFound | Some b \<Rightarrow> Inr b, v)),
      lb_List := (\<lambda>_ v. (Inr (if distinct (map lb_id v) then v else []), v)),
      lb_Delete := (\<lambda>i v. (Inr (), filter (\<lambda>b. lb_id b \<noteq> i) v))\<rparr>"

definition sample_sweeper :: "lb list service_rec" where
  "sample_sweeper =
     \<lparr>rc_octavia = sample_lb_api, rc_subnetFor = (\<lambda>_ _. ret ''s1''), rc_serves = Some (\<lambda>ns. ns = ''prod''), rc_namespaces = Some [''prod''],
      rc_services = \<lparr>l_List = (\<lambda>_. Inr []), l_In = (\<lambda>_ _. Inr []),
        l_Get = (\<lambda>ns n. if n = ''web'' then Inr sample_svc else Inl (ErrKubeNotFound ''gone''))\<rparr>,
      rc_slices = \<lparr>l_List = (\<lambda>_. Inr []), l_In = (\<lambda>_ _. Inr []), l_Get = (\<lambda>_ _. Inl ErrNotFound)\<rparr>,
      rc_fromSet = (\<lambda>_. \<lparr>sel_string = [], sel_matches = (\<lambda>_. True)\<rparr>),
      rc_client = \<lparr>sc_Update = (\<lambda>s. ret s), sc_UpdateStatus = (\<lambda>s. ret s)\<rparr>,
      rc_vipSubnet = ''vip'', rc_vipNetwork = [], rc_tenant = ''acme'', rc_neutron = None, rc_fipNetwork = [], rc_public = False\<rparr>"

definition sample_svc_controller :: "lb list svc_controller" where
  "sample_svc_controller = \<lparr>sw_main = sample_sweeper, sw_for = None, sw_each = None, sw_events = False\<rparr>"

lemma sample_lb_laws: "lb_laws sample_sweeper set"
  by (auto simp: lb_laws_def sample_sweeper_def sample_lb_api_def quiet_octavia_def distinct_map inj_on_def)


text \<open>
  The name of a Service in a namespace called \<^verbatim>\<open>ing\<close> is not read back: its load balancer,
  once orphaned, is never swept.
\<close>

theorem ing_namespace_unparsed: "parseLBName r (lbName r ''ing'' n) = None"
  by (simp add: parseLBName_def lbName_def trim_prefix_def has_prefix_def Let_def)

end
