(* ===== verification/Ingress_L7.thy ===== *)
theory Ingress_L7
  imports Service_Reconciler Go_Parse
begin

text \<open>
  \<^verbatim>\<open>pkg/ingress/l7.go\<close>, \<^verbatim>\<open>octavia.go\<close> and \<^verbatim>\<open>tuning.go\<close>: the pools, the listener and the routing policies
  an Ingress becomes, and what a request meets on them.
\<close>

section \<open>The Ingress\<close>

text \<open>\<open>None\<close> for a backend is one that names no Service (a resource backend).\<close>

record backend_port =
  bp_name :: string
  bp_number :: int

type_synonym ing_backend = "(string \<times> backend_port) option"

record ing_path =
  ip_path :: string
  ip_pathType :: "string option"
  ip_backend :: ing_backend

record ing_rule =
  ig_host :: string
  ig_http :: "ing_path list option"

record ingress_obj =
  in_namespace :: string
  in_name :: string
  in_annotations :: labels
  in_class :: "string option"
  in_deleting :: bool
  in_default :: "ing_backend option"
  in_rules :: "ing_rule list"
  in_tls :: "string list"
  in_status :: "string list"

record backendRef =
  be_service :: string
  be_port :: backend_port

definition portKey :: "backendRef \<Rightarrow> string" where
  "portKey b = (if bp_name (be_port b) \<noteq> [] then bp_name (be_port b) else show_int (bp_number (be_port b)))"

definition backend_key :: "backendRef \<Rightarrow> string" where
  "backend_key b = be_service b @ ''|'' @ portKey b"

fun refOf :: "ing_backend \<Rightarrow> backendRef option" where
  "refOf None = None"
| "refOf (Some (svc, port)) = Some \<lparr>be_service = svc, be_port = port\<rparr>"

text \<open>The closure \<^verbatim>\<open>add\<close>: \<open>seen\<close> holds the keys of what was collected.\<close>

definition addBackend :: "backendRef list \<Rightarrow> ing_backend \<Rightarrow> backendRef list" where
  "addBackend all b =
     (case refOf b of
        None \<Rightarrow> all
      | Some ref \<Rightarrow> if backend_key ref \<in> set (map backend_key all) then all else all @ [ref])"

definition rule_paths :: "ing_rule \<Rightarrow> ing_path list" where
  "rule_paths rule = (case ig_http rule of None \<Rightarrow> [] | Some paths \<Rightarrow> paths)"

definition collectBackends :: "ingress_obj \<Rightarrow> backendRef option \<times> backendRef list" where
  "collectBackends ing =
     (let d = (case in_default ing of None \<Rightarrow> None | Some b \<Rightarrow> b);
          all = addBackend [] d in
      (refOf d, foldl (\<lambda>all rule. foldl (\<lambda>all p. addBackend all (ip_backend p)) all (rule_paths rule)) all (in_rules ing)))"

definition poolName :: "string \<Rightarrow> backendRef \<Rightarrow> string" where
  "poolName lbname b = lbname @ ''_'' @ be_service b @ ''_'' @ portKey b"

definition no_port :: "service_obj \<Rightarrow> backend_port \<Rightarrow> err" where
  "no_port svc port = ErrText (''service '' @ sv_name svc @ '' has no port '' @ quote_str (bp_name port) @ ''/'' @ show_int (bp_number port))"

definition resolveServicePort :: "service_obj \<Rightarrow> backend_port \<Rightarrow> service_port result" where
  "resolveServicePort svc port =
     (case find (\<lambda>sp. if bp_name port \<noteq> [] then sp_name sp = bp_name port else sp_port sp = bp_number port) (sv_ports svc) of
        Some sp \<Rightarrow> Inr sp
      | None \<Rightarrow> Inl (no_port svc port))"

section \<open>Calls on Octavia\<close>

definition getPoolByName :: "'v octavia_api \<Rightarrow> string \<Rightarrow> string \<Rightarrow> ('v, pool) act" where
  "getPoolByName c lbID name =
     bind_a (po_List c lbID (Some name)) (\<lambda>all. case all of [] \<Rightarrow> fail ErrNotFound | p # _ \<Rightarrow> ret p)"

definition listPools :: "'v octavia_api \<Rightarrow> string \<Rightarrow> ('v, pool list) act" where
  "listPools c lbID = po_List c lbID None"

text \<open>A change of a load balancer, and the wait for it to settle.\<close>

definition settled :: "'v octavia_api \<Rightarrow> string \<Rightarrow> ('v, 'a) act \<Rightarrow> ('v, 'a) act" where
  "settled c lbID m = bind_a m (\<lambda>x. bind_a (WaitActive c lbID) (\<lambda>_. ret x))"

definition deletePool :: "'v octavia_api \<Rightarrow> string \<Rightarrow> string \<Rightarrow> ('v, unit) act" where
  "deletePool c lbID poolID v =
     (case po_Delete c poolID v of
        (Inl e, v') \<Rightarrow> if response_code_is e 404 then (Inr (), v') else (Inl e, v')
      | (Inr _, v') \<Rightarrow> bind_a (WaitActive c lbID) (\<lambda>_. ret ()) v')"

definition deleteL7Policy :: "'v octavia_api \<Rightarrow> string \<Rightarrow> string \<Rightarrow> ('v, unit) act" where
  "deleteL7Policy c lbID policyID v =
     (case l7_Delete c policyID v of
        (Inl e, v') \<Rightarrow> if response_code_is e 404 then (Inr (), v') else (Inl e, v')
      | (Inr _, v') \<Rightarrow> bind_a (WaitActive c lbID) (\<lambda>_. ret ()) v')"

definition deleteListenerByName :: "'v octavia_api \<Rightarrow> string \<Rightarrow> string \<Rightarrow> ('v, unit) act" where
  "deleteListenerByName c lbID name v =
     (case GetListenerByName c lbID name v of
        (Inl e, v') \<Rightarrow> if e = ErrNotFound then (Inr (), v') else (Inl (ErrWrap (''looking up listener '' @ quote_str name) e), v')
      | (Inr l, v') \<Rightarrow>
          bind_a (wrap_err (''deleting listener '' @ quote_str name) (ignore_if (\<lambda>e. response_code_is e 404) (li_Delete c (li_id l))))
            (\<lambda>_. bind_a (WaitActive c lbID) (\<lambda>_. ret ())) v')"

definition updateListener :: "'v octavia_api \<Rightarrow> string \<Rightarrow> string \<Rightarrow> listener_update \<Rightarrow> ('v, unit) act" where
  "updateListener c lbID listenerID opts = settled c lbID (li_Update c listenerID opts)"

definition createL7Policy :: "'v octavia_api \<Rightarrow> string \<Rightarrow> l7_opts \<Rightarrow> ('v, l7_policy) act" where
  "createL7Policy c lbID opts = settled c lbID (l7_Create c opts)"

definition createL7Rule :: "'v octavia_api \<Rightarrow> string \<Rightarrow> string \<Rightarrow> l7_rule \<Rightarrow> ('v, unit) act" where
  "createL7Rule c lbID policyID opts = settled c lbID (l7_CreateRule c policyID opts)"

section \<open>Tuning\<close>

definition SourceRangesAnnotation :: string where "SourceRangesAnnotation = ''octavia.ingress.kubernetes.io/whitelist-source-range''"
definition TimeoutClientDataAnnotation :: string where "TimeoutClientDataAnnotation = ''octavia.ingress.kubernetes.io/timeout-client-data''"
definition TimeoutMemberDataAnnotation :: string where "TimeoutMemberDataAnnotation = ''octavia.ingress.kubernetes.io/timeout-member-data''"
definition TimeoutMemberConnectAnnotation :: string where "TimeoutMemberConnectAnnotation = ''octavia.ingress.kubernetes.io/timeout-member-connect''"
definition TimeoutTCPInspectAnnotation :: string where "TimeoutTCPInspectAnnotation = ''octavia.ingress.kubernetes.io/timeout-tcp-inspect''"

record listenerTuning =
  AllowedCIDRs :: "string list"
  Timeouts :: "int option timeouts"

text \<open>The parts of the whitelist in order; an empty part is skipped, one that is no CIDR ends it.\<close>

fun parseRanges :: "string list \<Rightarrow> string list result" where
  "parseRanges [] = Inr []"
| "parseRanges (part # parts) =
     (let cidr = trim_space part in
      if cidr = [] then parseRanges parts
      else if \<not> parse_cidr cidr then Inl (ErrWrap (SourceRangesAnnotation @ '': '' @ quote_str cidr @ '' is not a CIDR'') (ErrText (''invalid CIDR address: '' @ cidr)))
      else bind_r (parseRanges parts) (\<lambda>rest. Inr (cidr # rest)))"

definition sourceRanges :: "labels \<Rightarrow> string list result" where
  "sourceRanges annotations =
     (let raw = trim_space (label_of annotations SourceRangesAnnotation) in
      if raw = [] then Inr []
      else bind_r (parseRanges (split_at (CHR '','') raw)) (\<lambda>cidrs.
             if cidrs = [] then Inl (ErrText (SourceRangesAnnotation @ '' is set but contains no CIDR'')) else Inr cidrs))"

definition timeoutOf :: "labels \<Rightarrow> string \<Rightarrow> int option result" where
  "timeoutOf annotations key =
     (let raw = trim_space (label_of annotations key) in
      if raw = [] then Inr None
      else (case atoi raw of
              None \<Rightarrow> Inl (ErrText (key @ '': '' @ quote_str raw @ '' is not a non-negative integer (milliseconds)''))
            | Some v \<Rightarrow>
                if v < 0 then Inl (ErrText (key @ '': '' @ quote_str raw @ '' is not a non-negative integer (milliseconds)''))
                else Inr (Some v)))"

definition tuningFromAnnotations :: "ingress_obj \<Rightarrow> listenerTuning result" where
  "tuningFromAnnotations ing =
     (let a = in_annotations ing in
      bind_r (sourceRanges a) (\<lambda>cidrs.
      bind_r (timeoutOf a TimeoutClientDataAnnotation) (\<lambda>cd.
      bind_r (timeoutOf a TimeoutMemberDataAnnotation) (\<lambda>md.
      bind_r (timeoutOf a TimeoutMemberConnectAnnotation) (\<lambda>mc.
      bind_r (timeoutOf a TimeoutTCPInspectAnnotation) (\<lambda>ti.
        Inr \<lparr>AllowedCIDRs = cidrs, Timeouts = \<lparr>to_clientData = cd, to_memberData = md, to_memberConnect = mc, to_tcpInspect = ti\<rparr>\<rparr>))))))"

definition cidrsEqual :: "string list \<Rightarrow> string list \<Rightarrow> bool" where
  "cidrsEqual a b = (if length a \<noteq> length b then False else sort a = sort b)"

definition timeoutDrift :: "int option \<Rightarrow> int \<Rightarrow> bool" where
  "timeoutDrift desired live = (case desired of None \<Rightarrow> False | Some d \<Rightarrow> d \<noteq> live)"

section \<open>The reconciler\<close>

record tls_secret =
  ts_namespace :: string
  ts_name :: string
  ts_crt :: string
  ts_key :: string

record barbican_secret =
  bs_name :: string
  bs_ref :: string

record secret_opts =
  so_name :: string
  so_payload :: string
  so_contentType :: string
  so_contentEncoding :: string
  so_secretType :: string

record 'v barbican_api =
  sec_List :: "string option \<Rightarrow> ('v, barbican_secret list) act"
  sec_Create :: "secret_opts \<Rightarrow> ('v, barbican_secret) act"
  sec_Delete :: "string \<Rightarrow> ('v, unit) act"

record 'v ingress_client =
  ic_Update :: "ingress_obj \<Rightarrow> ('v, ingress_obj) act"
  ic_UpdateStatus :: "ingress_obj \<Rightarrow> ('v, ingress_obj) act"

text \<open>
  \<open>ir_digest\<close> is the hexadecimal SHA-256 of certificate and key, \<open>ir_bundle\<close> the base64 text of the
  PKCS12 bundle of the two, \<open>ir_fromSet\<close> is \<^verbatim>\<open>labels.SelectorFromSet\<close> and \<open>ir_everything\<close>
  \<^verbatim>\<open>labels.Everything\<close>.
\<close>

record 'v ingress_rec =
  ir_octavia :: "'v octavia_api"
  ir_neutron :: "'v fip_api option"
  ir_keyManager :: "'v barbican_api option"
  ir_ingresses :: "ingress_obj lister"
  ir_services :: "service_obj lister"
  ir_slices :: "slice lister"
  ir_client :: "'v ingress_client"
  ir_secrets :: "string \<Rightarrow> string \<Rightarrow> ('v, tls_secret) act"
  ir_subnetFor :: "string \<Rightarrow> string \<Rightarrow> ('v, string) act"
  ir_vipSubnet :: string
  ir_fipNetwork :: string
  ir_provider :: string
  ir_className :: string
  ir_tenant :: string
  ir_serves :: "(string \<Rightarrow> bool) option"
  ir_namespaces :: "string list option"
  ir_events :: bool
  ir_fromSet :: "labels \<Rightarrow> selector"
  ir_everything :: selector
  ir_digest :: "string \<Rightarrow> string"
  ir_bundle :: "string \<Rightarrow> string \<Rightarrow> string result"

section \<open>Pools\<close>

definition ensureBackendPool :: "'v ingress_rec \<Rightarrow> lb \<Rightarrow> string \<Rightarrow> backendRef \<Rightarrow> ('v, pool) act" where
  "ensureBackendPool r lb lbname b =
     (let name = poolName lbname b in
      bind_a (found_or (''looking up pool '' @ quote_str name) (getPoolByName (ir_octavia r) (lb_id lb) name)
               (wrap_err (''creating pool '' @ quote_str name)
                 (CreatePool (ir_octavia r) (lb_id lb)
                   (zero_pool\<lparr>poo_name := name, poo_protocol := ''HTTP'', poo_method := ''ROUND_ROBIN'', poo_lb := lb_id lb\<rparr>)))) (\<lambda>pool.
      if po_monitor pool \<noteq> [] then ret pool
      else bind_a (wrap_err (''creating HTTP health monitor for pool '' @ quote_str name)
             (CreateHealthMonitor (ir_octavia r) (lb_id lb)
               (zero_monitor\<lparr>mo_name := name, mo_pool := po_id pool, mo_type := ''HTTP'', mo_urlPath := ''/'',
                  mo_delay := 5, mo_timeout := 3, mo_maxRetries := 2, mo_maxRetriesDown := 2\<rparr>))) (\<lambda>_. ret pool)))"

definition syncPoolMembers :: "'v ingress_rec \<Rightarrow> lb \<Rightarrow> ingress_obj \<Rightarrow> backendRef \<Rightarrow> string \<Rightarrow> ('v, unit) act" where
  "syncPoolMembers r lb ing b poolID =
     bind_a (wrap_err (''reading backend Service '' @ be_service b) (lift_r (l_Get (ir_services r) (in_namespace ing) (be_service b)))) (\<lambda>svc.
     bind_a (lift_r (resolveServicePort svc (be_port b))) (\<lambda>sp.
     bind_a (lift_r (l_In (ir_slices r) (in_namespace ing) (ir_fromSet r [(''kubernetes.io/service-name'', be_service b)]))) (\<lambda>slices.
     bind_a (BuildMembers (ir_subnetFor r) slices sp (family_of lb)) (\<lambda>members.
     wrap_err (''updating members of pool '' @ poolID @ '' ('' @ show_nat (length members) @ '' members)'')
       (SetPoolMembers (ir_octavia r) (lb_id lb) poolID members)))))"

definition staleOf :: "string \<Rightarrow> string list \<Rightarrow> string \<Rightarrow> pool \<Rightarrow> bool" where
  "staleOf lbname kept defaultPoolID p \<longleftrightarrow>
     has_prefix (po_name p) (lbname @ ''_'') \<and> po_id p \<notin> set kept \<and> po_id p \<noteq> defaultPoolID"

definition gcStalePools :: "'v octavia_api \<Rightarrow> string \<Rightarrow> string \<Rightarrow> string list \<Rightarrow> string \<Rightarrow> ('v, unit) act" where
  "gcStalePools c lbID lbname kept defaultPoolID =
     bind_a (wrap_err ''listing pools'' (listPools c lbID)) (\<lambda>all.
     for_each (\<lambda>p. if \<not> staleOf lbname kept defaultPoolID p then ret ()
                    else wrap_err (''deleting stale pool '' @ po_name p) (deletePool c lbID (po_id p))) all)"

section \<open>Routing policies\<close>

record desiredPolicy =
  dp_name :: string
  dp_pool :: string
  dp_host :: string
  dp_path :: string
  dp_pathType :: string

definition signature :: "desiredPolicy \<Rightarrow> string" where
  "signature d = dp_name d @ ''|'' @ dp_pool d @ ''|'' @ dp_host d @ ''|'' @ dp_path d @ ''|'' @ dp_pathType d"

text \<open>The map from pool names to identifiers is the list of its entries, a missing one read as \<^verbatim>\<open>""\<close>.\<close>

definition pathPolicy :: "string \<Rightarrow> labels \<Rightarrow> string \<Rightarrow> ing_path \<Rightarrow> desiredPolicy option" where
  "pathPolicy lbname poolIDs host p =
     (case refOf (ip_backend p) of
        None \<Rightarrow> None
      | Some ref \<Rightarrow>
          (let poolID = label_of poolIDs (poolName lbname ref) in
           if poolID = [] then None
           else Some \<lparr>dp_name = [], dp_pool = poolID, dp_host = host, dp_path = ip_path p,
                      dp_pathType = (case ip_pathType p of None \<Rightarrow> ''Prefix'' | Some t \<Rightarrow> t)\<rparr>))"

definition pathPolicies :: "ingress_obj \<Rightarrow> string \<Rightarrow> labels \<Rightarrow> desiredPolicy list" where
  "pathPolicies ing lbname poolIDs =
     concat (map (\<lambda>rule. List.map_filter (pathPolicy lbname poolIDs (ig_host rule)) (rule_paths rule)) (in_rules ing))"

definition buildDesiredPolicies :: "ingress_obj \<Rightarrow> string \<Rightarrow> labels \<Rightarrow> desiredPolicy list" where
  "buildDesiredPolicies ing lbname poolIDs =
     map (\<lambda>(i, d). d\<lparr>dp_name := lbname @ ''_l7_'' @ show_nat i\<rparr>)
       (enumerate 0 (sort_key (\<lambda>d. - int (length (dp_path d))) (pathPolicies ing lbname poolIDs)))"

definition rulesFor :: "desiredPolicy \<Rightarrow> l7_rule list" where
  "rulesFor d =
     (if dp_host d \<noteq> [] then [\<lparr>l7r_type = ''HOST_NAME'', l7r_compare = ''EQUAL_TO'', l7r_value = dp_host d\<rparr>] else []) @
     (if dp_path d \<noteq> []
      then [\<lparr>l7r_type = ''PATH'', l7r_compare = (if dp_pathType d = ''Exact'' then ''EQUAL_TO'' else ''STARTS_WITH''), l7r_value = dp_path d\<rparr>]
      else [])"

text \<open>The \<^verbatim>\<open>switch\<close> of \<^verbatim>\<open>existingSignature\<close>, folded over the rules.\<close>

definition readRule :: "desiredPolicy \<Rightarrow> l7_rule \<Rightarrow> desiredPolicy" where
  "readRule got x =
     (if l7r_type x = ''HOST_NAME'' then got\<lparr>dp_host := l7r_value x\<rparr>
      else if l7r_type x = ''PATH''
      then got\<lparr>dp_path := l7r_value x, dp_pathType := (if l7r_compare x = ''EQUAL_TO'' then ''Exact'' else ''Prefix'')\<rparr>
      else got)"

definition readPolicy :: "string \<Rightarrow> string \<Rightarrow> l7_rule list \<Rightarrow> desiredPolicy" where
  "readPolicy name pool rules =
     foldl readRule \<lparr>dp_name = name, dp_pool = pool, dp_host = [], dp_path = [], dp_pathType = []\<rparr> rules"

definition existingSignature :: "'v octavia_api \<Rightarrow> l7_policy \<Rightarrow> ('v, string) act" where
  "existingSignature c pol =
     bind_a (wrap_err (''listing rules of l7policy '' @ l7_name pol) (l7_Rules c (l7_id pol))) (\<lambda>rules.
     ret (signature (readPolicy (l7_name pol) (l7_pool pol) rules)))"

text \<open>The comparison loop: it ends at the first difference, and the lists are of one length.\<close>

fun sameL7 :: "'v octavia_api \<Rightarrow> l7_policy list \<Rightarrow> desiredPolicy list \<Rightarrow> ('v, bool) act" where
  "sameL7 c [] ds = ret (ds = [])"
| "sameL7 c (p # ps) [] = ret False"
| "sameL7 c (p # ps) (d # ds) =
     bind_a (existingSignature c p) (\<lambda>got. if got \<noteq> signature d then ret False else sameL7 c ps ds)"

definition createDesired :: "'v octavia_api \<Rightarrow> string \<Rightarrow> string \<Rightarrow> nat \<times> desiredPolicy \<Rightarrow> ('v, unit) act" where
  "createDesired c lbID listenerID x =
     (case x of (i, d) \<Rightarrow>
        bind_a (wrap_err (''creating l7policy '' @ dp_name d)
          (createL7Policy c lbID \<lparr>l7o_name = dp_name d, l7o_listener = listenerID, l7o_action = ''REDIRECT_TO_POOL'',
             l7o_pool = dp_pool d, l7o_position = int (Suc i)\<rparr>)) (\<lambda>pol.
        for_each (\<lambda>rule. wrap_err (''creating l7rule for '' @ dp_name d) (createL7Rule c lbID (l7_id pol) rule)) (rulesFor d)))"

definition deleteOurs :: "'v octavia_api \<Rightarrow> string \<Rightarrow> string \<Rightarrow> l7_policy \<Rightarrow> ('v, unit) act" where
  "deleteOurs c lbID lbname p =
     (if \<not> has_prefix (l7_name p) (lbname @ ''_l7_'') then ret ()
      else wrap_err (''deleting stale l7policy '' @ l7_name p) (deleteL7Policy c lbID (l7_id p)))"

definition syncL7Policies :: "'v octavia_api \<Rightarrow> string \<Rightarrow> string \<Rightarrow> string \<Rightarrow> desiredPolicy list \<Rightarrow> ('v, unit) act" where
  "syncL7Policies c lbID listenerID lbname desired =
     bind_a (wrap_err ''listing l7policies'' (l7_List c listenerID)) (\<lambda>found.
     let existing = sort_key l7_position found in
     bind_a (if length existing = length desired then sameL7 c existing desired else ret False) (\<lambda>match.
     if match then ret ()
     else bind_a (for_each (deleteOurs c lbID lbname) existing) (\<lambda>_.
          for_each (createDesired c lbID listenerID) (enumerate 0 desired))))"

section \<open>The listener\<close>

definition listenerPlan :: "string \<Rightarrow> string list \<Rightarrow> string \<times> int \<times> string \<times> string" where
  "listenerPlan lbname tlsRefs =
     (if tlsRefs \<noteq> [] then (''TERMINATED_HTTPS'', 443, lbname @ ''_https_443'', lbname @ ''_http_80'')
      else (''HTTP'', 80, lbname @ ''_http_80'', lbname @ ''_https_443''))"

definition drifted :: "int option \<Rightarrow> int \<Rightarrow> int option" where
  "drifted desired live = (if timeoutDrift desired live then desired else None)"

definition listenerUpdate :: "listener \<Rightarrow> string list \<Rightarrow> string \<Rightarrow> listenerTuning \<Rightarrow> listener_update" where
  "listenerUpdate l tlsRefs defaultPoolID tuning =
     \<lparr>liu_tls = (if tlsRefs \<noteq> [] \<and> li_tls l \<noteq> hd tlsRefs then Some (hd tlsRefs) else None),
      liu_defaultPool = (if li_defaultPool l \<noteq> defaultPoolID then Some defaultPoolID else None),
      liu_cidrs = (if \<not> cidrsEqual (li_cidrs l) (AllowedCIDRs tuning) then Some (AllowedCIDRs tuning) else None),
      liu_timeouts =
        \<lparr>to_clientData = drifted (to_clientData (Timeouts tuning)) (to_clientData (li_timeouts l)),
         to_memberData = drifted (to_memberData (Timeouts tuning)) (to_memberData (li_timeouts l)),
         to_memberConnect = drifted (to_memberConnect (Timeouts tuning)) (to_memberConnect (li_timeouts l)),
         to_tcpInspect = drifted (to_tcpInspect (Timeouts tuning)) (to_tcpInspect (li_timeouts l))\<rparr>\<rparr>"

text \<open>\<^verbatim>\<open>dirty\<close> is set exactly when some field of the update is.\<close>

definition dirty :: "listener_update \<Rightarrow> bool" where
  "dirty u \<longleftrightarrow> liu_tls u \<noteq> None \<or> liu_defaultPool u \<noteq> None \<or> liu_cidrs u \<noteq> None \<or> liu_timeouts u \<noteq> unmanaged"

definition ing_ensureListener ::
  "'v octavia_api \<Rightarrow> string \<Rightarrow> string \<Rightarrow> string list \<Rightarrow> string \<Rightarrow> listenerTuning \<Rightarrow> ('v, listener) act" where
  "ing_ensureListener c lbID lbname tlsRefs defaultPoolID tuning =
     (case listenerPlan lbname tlsRefs of (proto, port, name, stale) \<Rightarrow>
        bind_a (deleteListenerByName c lbID stale) (\<lambda>_ v.
        case GetListenerByName c lbID name v of
          (Inl e, v') \<Rightarrow>
            if e \<noteq> ErrNotFound then (Inl (ErrWrap (''looking up listener '' @ quote_str name) e), v')
            else CreateListener c lbID
                   (zero_listener\<lparr>lio_name := name, lio_protocol := proto, lio_port := port, lio_lb := lbID,
                      lio_tls := (case tlsRefs of [] \<Rightarrow> [] | x # _ \<Rightarrow> x), lio_sni := tl tlsRefs, lio_defaultPool := defaultPoolID,
                      lio_cidrs := AllowedCIDRs tuning, lio_timeouts := Timeouts tuning\<rparr>) v'
        | (Inr l, v') \<Rightarrow>
            (let u = listenerUpdate l tlsRefs defaultPoolID tuning in
             if dirty u
             then bind_a (wrap_err (''updating listener '' @ quote_str name) (updateListener c lbID (li_id l) u))
                    (\<lambda>_. GetListenerByName c lbID name) v'
             else (Inr l, v'))))"

section \<open>What a request meets\<close>

text \<open>
  Octavia's semantics of a listener: the first policy all of whose rules match decides the pool, a
  policy with no rules matches nothing, and a request no policy takes goes to the default pool.
  Host and path are compared as strings.
\<close>

record request =
  rq_host :: string
  rq_path :: string

definition rule_takes :: "request \<Rightarrow> l7_rule \<Rightarrow> bool" where
  "rule_takes q x =
     (let value = (if l7r_type x = ''HOST_NAME'' then rq_host q else rq_path q) in
      if l7r_compare x = ''EQUAL_TO'' then value = l7r_value x else has_prefix value (l7r_value x))"

definition policy_takes :: "request \<Rightarrow> l7_rule list \<Rightarrow> bool" where
  "policy_takes q rules \<longleftrightarrow> rules \<noteq> [] \<and> list_all (rule_takes q) rules"

definition routed :: "(string \<times> l7_rule list) list \<Rightarrow> string \<Rightarrow> request \<Rightarrow> string" where
  "routed policies defaultPool q =
     (case find (\<lambda>(pool, rules). policy_takes q rules) policies of None \<Rightarrow> defaultPool | Some (pool, _) \<Rightarrow> pool)"

text \<open>
  What the Ingress asks for: of the paths that take the request, the longest, and of several as long
  the one written first; the default backend when none takes it.
\<close>

definition path_takes :: "request \<Rightarrow> desiredPolicy \<Rightarrow> bool" where
  "path_takes q d \<longleftrightarrow>
     (dp_host d = [] \<or> rq_host q = dp_host d) \<and>
     (dp_path d = [] \<or> (if dp_pathType d = ''Exact'' then rq_path q = dp_path d else has_prefix (rq_path q) (dp_path d))) \<and>
     (dp_host d \<noteq> [] \<or> dp_path d \<noteq> [])"

fun first_longest :: "desiredPolicy list \<Rightarrow> desiredPolicy option" where
  "first_longest [] = None"
| "first_longest (d # ds) =
     (case first_longest ds of
        None \<Rightarrow> Some d
      | Some e \<Rightarrow> if length (dp_path e) > length (dp_path d) then Some e else Some d)"

definition asked :: "desiredPolicy list \<Rightarrow> string \<Rightarrow> request \<Rightarrow> string" where
  "asked ds defaultPool q = (case first_longest (filter (path_takes q) ds) of None \<Rightarrow> defaultPool | Some d \<Rightarrow> dp_pool d)"

lemma rulesFor_takes: "policy_takes q (rulesFor d) \<longleftrightarrow> path_takes q d"
  by (auto simp: policy_takes_def rulesFor_def path_takes_def rule_takes_def has_prefix_def)

lemma insort_key_Cons: "\<exists>rest. insort_key f x zs = (if zs = [] \<or> f x \<le> f (hd zs) then x else hd zs) # rest"
  by (cases zs) auto

lemma first_longest_sorted:
  "first_longest ds = (case sort_key (\<lambda>d. - int (length (dp_path d))) ds of [] \<Rightarrow> None | d # _ \<Rightarrow> Some d)"
proof (induction ds)
  case (Cons d ds)
  let ?k = "\<lambda>d. - int (length (dp_path d))"
  obtain rest where "insort_key ?k d (sort_key ?k ds) = (if sort_key ?k ds = [] \<or> ?k d \<le> ?k (hd (sort_key ?k ds)) then d else hd (sort_key ?k ds)) # rest"
    using insort_key_Cons by metis
  with Cons show ?case by (auto split: list.splits)
qed simp

lemma find_filter: "find P xs = (case filter P xs of [] \<Rightarrow> None | x # _ \<Rightarrow> Some x)"
  by (induction xs) auto

lemma find_map_filter: "find P (map f xs) = map_option f (find (P \<circ> f) xs)"
  by (induction xs) auto

text \<open>Naming the policies by their position changes nothing a request can tell.\<close>

definition routes :: "desiredPolicy list \<Rightarrow> (string \<times> l7_rule list) list" where
  "routes ds = map (\<lambda>d. (dp_pool d, rulesFor d)) ds"

lemma routes_named: "routes (map (\<lambda>(i, d). d\<lparr>dp_name := f i\<rparr>) (enumerate n ds)) = routes ds"
  by (induction ds arbitrary: n) (auto simp: routes_def rulesFor_def)

lemma routed_sorted:
  "routed (routes (sort_key (\<lambda>d. - int (length (dp_path d))) ds)) pool q = asked ds pool q"
proof -
  let ?k = "\<lambda>d. - int (length (dp_path d))"
  have "(\<lambda>(pool, rules). policy_takes q rules) \<circ> (\<lambda>d. (dp_pool d, rulesFor d)) = path_takes q"
    by (simp add: fun_eq_iff rulesFor_takes)
  then have "find (\<lambda>(pool, rules). policy_takes q rules) (routes (sort_key ?k ds))
      = map_option (\<lambda>d. (dp_pool d, rulesFor d)) (find (path_takes q) (sort_key ?k ds))"
    unfolding routes_def find_map_filter by simp
  moreover have "find (path_takes q) (sort_key ?k ds) = first_longest (filter (path_takes q) ds)"
    unfolding find_filter filter_sort first_longest_sorted ..
  ultimately show ?thesis by (simp add: routed_def asked_def split: option.split)
qed

text \<open>
  What is relied on of Octavia, \<open>A v l\<close> being the policies of a listener with their rules, by position:
  listings answer it, a deletion that succeeds or finds nothing leaves the others, a policy created
  at the position after the last is appended, without rules and with an identifier of its own, a
  rule is added to the policy it names, and reading a load balancer and waiting change nothing.
\<close>

type_synonym 'v l7_view = "'v \<Rightarrow> string \<Rightarrow> (l7_policy \<times> l7_rule list) list"

definition l7_laws :: "'v octavia_api \<Rightarrow> 'v l7_view \<Rightarrow> bool" where
  "l7_laws c A \<longleftrightarrow>
     (\<forall>i v. A (snd (lb_Get c i v)) = A v) \<and> (\<forall>d v. A (snd (o_sleep c d v)) = A v) \<and>
     (\<forall>l v found v'. l7_List c l v = (Inr found, v') \<longrightarrow> A v' = A v \<and> sort_key l7_position found = map fst (A v l)) \<and>
     (\<forall>i v rs v'. l7_Rules c i v = (Inr rs, v') \<longrightarrow> A v' = A v \<and> (\<forall>l. \<forall>x \<in> set (A v l). l7_id (fst x) = i \<longrightarrow> rs = snd x)) \<and>
     (\<forall>i v q v'. l7_Delete c i v = (q, v') \<longrightarrow> (case q of Inr _ \<Rightarrow> True | Inl e \<Rightarrow> response_code_is e 404) \<longrightarrow>
        A v' = (\<lambda>l. filter (\<lambda>x. l7_id (fst x) \<noteq> i) (A v l))) \<and>
     (\<forall>opts v p v'. l7_Create c opts v = (Inr p, v') \<longrightarrow> l7_name p = l7o_name opts \<and> l7_pool p = l7o_pool opts \<and>
        (\<forall>l. \<forall>x \<in> set (A v l). l7_id (fst x) \<noteq> l7_id p) \<and>
        (l7o_position opts = int (Suc (length (A v (l7o_listener opts)))) \<longrightarrow>
           A v' = (A v)(l7o_listener opts := A v (l7o_listener opts) @ [(p, [])]))) \<and>
     (\<forall>i x v v'. l7_CreateRule c i x v = (Inr (), v') \<longrightarrow>
        A v' = (\<lambda>l. map (\<lambda>y. (fst y, if l7_id (fst y) = i then snd y @ [x] else snd y)) (A v l)))"

lemmas l7_listed = l7_laws_def [THEN iffD1, THEN conjunct2, THEN conjunct2, THEN conjunct1, rule_format]
lemmas l7_ruled = l7_laws_def [THEN iffD1, THEN conjunct2, THEN conjunct2, THEN conjunct2, THEN conjunct1, rule_format]
lemmas l7_removed = l7_laws_def [THEN iffD1, THEN conjunct2, THEN conjunct2, THEN conjunct2, THEN conjunct2, THEN conjunct1, rule_format]
lemmas l7_created = l7_laws_def [THEN iffD1, THEN conjunct2, THEN conjunct2, THEN conjunct2, THEN conjunct2, THEN conjunct2, THEN conjunct1, rule_format]
lemmas l7_added = l7_laws_def [THEN iffD1, THEN conjunct2, THEN conjunct2, THEN conjunct2, THEN conjunct2, THEN conjunct2, THEN conjunct2, rule_format]

lemma WaitActive_view: "l7_laws c A \<Longrightarrow> A (snd (WaitActive c i v)) = A v"
proof -
  assume "l7_laws c A"
  then have "keeps (\<lambda>w. A w = A v) (lb_Get c i)" "keeps (\<lambda>w. A w = A v) (o_sleep c d)" for i d
    by (simp_all add: l7_laws_def keeps_def)
  then have "keeps (\<lambda>w. A w = A v) (WaitActive c i)" by (rule WaitActive_keeps(3))
  then show ?thesis by (auto simp: keeps_def)
qed

lemma settled_view:
  assumes "l7_laws c A" and "settled c i m v = (Inr x, v')"
  obtains v1 where "m v = (Inr x, v1)" and "A v' = A v1"
proof -
  from assms(2) obtain v1 lb where m: "m v = (Inr x, v1)" and "WaitActive c i v1 = (Inr lb, v')"
    by (auto simp: settled_def act_simps)
  then have "A v' = A v1" using WaitActive_view [OF assms(1), of i v1] by simp
  with m show thesis by (rule that)
qed

lemma sameL7_view:
  assumes laws: "l7_laws c A" and "sameL7 c (map fst xs) ds v = (Inr b, v')" and "set xs \<subseteq> set (A v l)"
  shows "A v' = A v \<and> (b \<longrightarrow> map (\<lambda>x. signature (readPolicy (l7_name (fst x)) (l7_pool (fst x)) (snd x))) xs = map signature ds)"
  using assms(2,3)
proof (induction xs arbitrary: ds v)
  case (Cons x xs)
  show ?case
  proof (cases ds)
    case (Cons d ds')
    with Cons.prems(1) obtain rs v1 where r: "l7_Rules c (l7_id (fst x)) v = (Inr rs, v1)"
      and k: "(if signature (readPolicy (l7_name (fst x)) (l7_pool (fst x)) rs) \<noteq> signature d then ret False else sameL7 c (map fst xs) ds') v1 = (Inr b, v')"
      by (auto simp: existingSignature_def act_simps)
    from l7_ruled [OF laws r] Cons.prems(2) have v1: "A v1 = A v" and "rs = snd x" by auto
    with k Cons.IH [of ds' v1] Cons.prems(2) Cons show ?thesis by (auto simp: ret_def split: if_splits)
  qed (use Cons.prems in \<open>simp add: ret_def\<close>)
qed (auto simp: ret_def)

lemma deleteOurs_view:
  assumes laws: "l7_laws c A" and "deleteOurs c lbID lbname p v = (Inr (), v')" and "has_prefix (l7_name p) (lbname @ ''_l7_'')"
  shows "A v' = (\<lambda>l. filter (\<lambda>x. l7_id (fst x) \<noteq> l7_id p) (A v l))"
proof -
  from assms(2,3) have d: "deleteL7Policy c lbID (l7_id p) v = (Inr (), v')" by (simp add: deleteOurs_def act_simps)
  obtain q v1 where l: "l7_Delete c (l7_id p) v = (q, v1)" by (meson surj_pair)
  with d have "case q of Inr _ \<Rightarrow> True | Inl e \<Rightarrow> response_code_is e 404"
    by (auto simp: deleteL7Policy_def split: sum.splits if_splits)
  then have "A v1 = (\<lambda>l. filter (\<lambda>x. l7_id (fst x) \<noteq> l7_id p) (A v l))" using l7_removed [OF laws l] by blast
  moreover have "A v' = A v1"
    using d l WaitActive_view [OF laws, of lbID v1]
    by (auto simp: deleteL7Policy_def act_simps split: sum.splits if_splits)
  ultimately show ?thesis by simp
qed

lemma deleteAll_view:
  assumes laws: "l7_laws c A" and "for_each (deleteOurs c lbID lbname) ps v = (Inr (), v')"
    and "list_all (\<lambda>p. has_prefix (l7_name p) (lbname @ ''_l7_'')) ps"
  shows "A v' l = filter (\<lambda>x. l7_id (fst x) \<notin> l7_id ` set ps) (A v l)"
  using assms(2,3)
proof (induction ps arbitrary: v)
  case (Cons p ps)
  then obtain v1 where d: "deleteOurs c lbID lbname p v = (Inr (), v1)" and r: "for_each (deleteOurs c lbID lbname) ps v1 = (Inr (), v')"
    by (auto simp: act_simps)
  from Cons.IH [OF r] deleteOurs_view [OF laws d] Cons.prems(2) show ?case
    by (auto simp: conj_commute intro: filter_cong)
qed (simp add: ret_def)

lemma createRules_view:
  assumes laws: "l7_laws c A" and "for_each (\<lambda>rule. wrap_err w (createL7Rule c lbID i rule)) xs v = (Inr (), v')"
    and "A v l = ps @ [(p, rs)]" and "l7_id p = i" and "\<forall>x \<in> set ps. l7_id (fst x) \<noteq> i"
  shows "A v' l = ps @ [(p, rs @ xs)]"
  using assms(2,3)
proof (induction xs arbitrary: v rs)
  case (Cons x xs)
  then obtain v1 where st: "settled c lbID (l7_CreateRule c i x) v = (Inr (), v1)"
    and r: "for_each (\<lambda>rule. wrap_err w (createL7Rule c lbID i rule)) xs v1 = (Inr (), v')"
    by (auto simp: act_simps createL7Rule_def)
  obtain v0 where cr: "l7_CreateRule c i x v = (Inr (), v0)" and "A v1 = A v0" using settled_view [OF laws st] .
  with l7_added [OF laws cr] have "A v1 l = map (\<lambda>y. (fst y, if l7_id (fst y) = i then snd y @ [x] else snd y)) (A v l)" by simp
  also have "\<dots> = ps @ [(p, rs @ [x])]" using Cons.prems(2) assms(4,5) by (simp add: map_idI)
  finally show ?case using Cons.IH [OF r] by simp
qed (simp add: ret_def)

definition carried :: "(l7_policy \<times> l7_rule list) list \<Rightarrow> (string \<times> string \<times> l7_rule list) list" where
  "carried = map (\<lambda>x. (l7_name (fst x), l7_pool (fst x), snd x))"

definition wanted :: "desiredPolicy list \<Rightarrow> (string \<times> string \<times> l7_rule list) list" where
  "wanted = map (\<lambda>d. (dp_name d, dp_pool d, rulesFor d))"

lemma createAll_view:
  assumes laws: "l7_laws c A" and "for_each (createDesired c lbID l) (enumerate n ds) v = (Inr (), v')" and "length (A v l) = n"
  shows "carried (A v' l) = carried (A v l) @ wanted ds"
  using assms(2,3)
proof (induction ds arbitrary: n v)
  case (Cons d ds)
  let ?opts = "\<lparr>l7o_name = dp_name d, l7o_listener = l, l7o_action = ''REDIRECT_TO_POOL'', l7o_pool = dp_pool d, l7o_position = int (Suc n)\<rparr>"
  from Cons.prems(1) obtain v1 where m: "createDesired c lbID l (n, d) v = (Inr (), v1)"
    and r: "for_each (createDesired c lbID l) (enumerate (Suc n) ds) v1 = (Inr (), v')" by (auto simp: act_simps)
  from m obtain p v2 where st: "settled c lbID (l7_Create c ?opts) v = (Inr p, v2)"
    and rules: "for_each (\<lambda>rule. wrap_err (''creating l7rule for '' @ dp_name d) (createL7Rule c lbID (l7_id p) rule)) (rulesFor d) v2 = (Inr (), v1)"
    by (auto simp: createDesired_def createL7Policy_def act_simps)
  obtain v0 where cr: "l7_Create c ?opts v = (Inr p, v0)" and "A v2 = A v0" using settled_view [OF laws st] .
  with l7_created [OF laws cr] Cons.prems(2) have p: "l7_name p = dp_name d" "l7_pool p = dp_pool d" "\<forall>x \<in> set (A v l). l7_id (fst x) \<noteq> l7_id p"
    and "A v2 = (A v)(l := A v l @ [(p, [])])" by simp_all
  then have "A v1 l = A v l @ [(p, rulesFor d)]"
    using createRules_view [OF laws rules, of l "A v l" p "[]"] by simp
  with Cons.IH [OF r] Cons.prems(2) p show ?case by (simp add: carried_def wanted_def)
qed (simp add: ret_def wanted_def)

section \<open>Properties\<close>


text \<open>
  A policy read back from the rules that were created for it has the signature it was created
  from exactly when its path is there and its type is Prefix or Exact (or both are empty): for those
  a second pass finds nothing to change.
\<close>

theorem signature_read_back:
  "signature (readPolicy (dp_name d) (dp_pool d) (rulesFor d)) = signature d \<longleftrightarrow>
     (if dp_path d = [] then dp_pathType d = [] else dp_pathType d \<in> {''Prefix'', ''Exact''})"
  by (auto simp: signature_def readPolicy_def rulesFor_def readRule_def)

text \<open>
  C30. Converging the policies of a listener on which every policy is the controller's own ends, when
  it succeeds, either with exactly the wanted policies and rules in the wanted order, or with what
  was there, untouched, every policy reading as the wanted one at its position.
\<close>

theorem syncL7Policies_converges:
  assumes "l7_laws c A" and "syncL7Policies c lbID listenerID lbname desired v = (Inr (), v')"
    and "list_all (\<lambda>x. has_prefix (l7_name (fst x)) (lbname @ ''_l7_'')) (A v listenerID)"
  shows "carried (A v' listenerID) = wanted desired \<or>
    A v' = A v \<and> map (\<lambda>x. signature (readPolicy (l7_name (fst x)) (l7_pool (fst x)) (snd x))) (A v listenerID) = map signature desired"
proof -
  from assms(2) obtain found v1 where f: "l7_List c listenerID v = (Inr found, v1)" and rest: "(let existing = sort_key l7_position found in
     bind_a (if length existing = length desired then sameL7 c existing desired else ret False) (\<lambda>match.
     if match then ret () else bind_a (for_each (deleteOurs c lbID lbname) existing) (\<lambda>_.
       for_each (createDesired c lbID listenerID) (enumerate 0 desired)))) v1 = (Inr (), v')"
    by (auto simp: syncL7Policies_def act_simps)
  let ?ps = "map fst (A v listenerID)"
  from l7_listed [OF assms(1) f] have v1: "A v1 = A v" "sort_key l7_position found = ?ps" by simp_all
  with rest obtain b v2 where b: "(if length ?ps = length desired then sameL7 c ?ps desired else ret False) v1 = (Inr b, v2)"
    and k: "(if b then ret () else bind_a (for_each (deleteOurs c lbID lbname) ?ps) (\<lambda>_. for_each (createDesired c lbID listenerID) (enumerate 0 desired))) v2 = (Inr (), v')"
    by (auto simp: Let_def act_simps)
  have same: "A v2 = A v \<and> (b \<longrightarrow> map (\<lambda>x. signature (readPolicy (l7_name (fst x)) (l7_pool (fst x)) (snd x))) (A v listenerID) = map signature desired)"
    using b v1(1) sameL7_view [OF assms(1), of "A v listenerID" desired v1 b v2 listenerID] by (auto simp: ret_def split: if_splits)
  show ?thesis
  proof (cases b)
    case False
    with k obtain v3 where d: "for_each (deleteOurs c lbID lbname) ?ps v2 = (Inr (), v3)"
      and cr: "for_each (createDesired c lbID listenerID) (enumerate 0 desired) v3 = (Inr (), v')" by (auto simp: act_simps)
    have "A v3 listenerID = []"
      using deleteAll_view [OF assms(1) d, of listenerID] assms(3) same by (auto simp: list_all_iff filter_empty_conv)
    with createAll_view [OF assms(1) cr] show ?thesis by (simp add: carried_def)
  qed (use same k in \<open>simp add: ret_def\<close>)
qed

text \<open>A small Octavia: the policies of its listeners in order.\<close>

type_synonym l7_mem = "(string \<times> l7_policy \<times> l7_rule list) list"

definition mem_view :: "l7_mem l7_view" where
  "mem_view v l = map snd (filter (\<lambda>x. fst x = l) v)"

definition mem_created :: "l7_mem \<Rightarrow> l7_opts \<Rightarrow> l7_policy" where
  "mem_created v opts =
     \<lparr>l7_id = CHR ''p'' # concat (map (\<lambda>x. l7_id (fst (snd x))) v), l7_name = l7o_name opts, l7_position = l7o_position opts, l7_pool = l7o_pool opts\<rparr>"

definition sample_l7 :: "l7_mem octavia_api" where
  "sample_l7 = quiet_octavia
     \<lparr>lb_Get := (\<lambda>i. ret \<lparr>lb_id = i, lb_name = ''x'', lb_status = ''ACTIVE'', lb_vip = ''10.9.0.1'', lb_vipPort = ''vp'', lb_provider = ''amphora''\<rparr>),
      l7_List := (\<lambda>l v. (let ps = map fst (mem_view v l) in if sorted (map l7_position ps) then Inr ps else Inl ErrNotFound, v)),
      l7_Rules := (\<lambda>i v. (case filter (\<lambda>x. l7_id (fst (snd x)) = i) v of [x] \<Rightarrow> Inr (snd (snd x)) | _ \<Rightarrow> Inl ErrNotFound, v)),
      l7_Create := (\<lambda>opts v. (Inr (mem_created v opts), v @ [(l7o_listener opts, mem_created v opts, [])])),
      l7_CreateRule := (\<lambda>i x v. (Inr (), map (\<lambda>y. (fst y, fst (snd y), if l7_id (fst (snd y)) = i then snd (snd y) @ [x] else snd (snd y))) v)),
      l7_Delete := (\<lambda>i v. (Inr (), filter (\<lambda>x. l7_id (fst (snd x)) \<noteq> i) v))\<rparr>"

lemma mem_created_fresh: "x \<in> set v \<Longrightarrow> l7_id (fst (snd x)) \<noteq> l7_id (mem_created v opts)"
proof -
  have "x \<in> set v \<Longrightarrow> length (l7_id (fst (snd x))) \<le> length (concat (map (\<lambda>x. l7_id (fst (snd x))) v))"
    by (induction v) auto
  then show "x \<in> set v \<Longrightarrow> ?thesis" by (auto simp: mem_created_def)
qed

lemma sample_l7_laws: "l7_laws sample_l7 mem_view"
proof -
  have rules: "rs = snd x" if "x \<in> set (mem_view v l)" "filter (\<lambda>x. l7_id (fst (snd x)) = l7_id (fst x')) v = [y]" "l7_id (fst x) = l7_id (fst x')" "rs = snd (snd y)"
    for v l x x' y rs
  proof -
    from that(1) obtain z where "z \<in> set v" "x = snd z" by (auto simp: mem_view_def)
    with that(3) have "z \<in> set (filter (\<lambda>x. l7_id (fst (snd x)) = l7_id (fst x')) v)" by simp
    with that(2,4) \<open>x = snd z\<close> show ?thesis by simp
  qed
  show ?thesis
    unfolding l7_laws_def
  proof (intro conjI allI impI, goal_cases)
    case (3 l v found v') then show ?case by (auto simp: sample_l7_def quiet_octavia_def Let_def split: if_splits)
  next
    case (4 l v found v') then show ?case by (auto simp: sample_l7_def quiet_octavia_def Let_def o_def intro!: sort_key_id_if_sorted split: if_splits)
  next
    case (5 i v rs v') then show ?case by (auto simp: sample_l7_def quiet_octavia_def split: list.splits)
  next
    case (6 i v rs v' l)
    then obtain y where "filter (\<lambda>x. l7_id (fst (snd x)) = i) v = [y]" "rs = snd (snd y)" by (auto simp: sample_l7_def quiet_octavia_def split: list.splits)
    then show ?case using rules [where x' = "(undefined\<lparr>l7_id := i\<rparr>, [])"] by auto
  next
    case (7 i v q v') then show ?case by (auto simp: sample_l7_def quiet_octavia_def mem_view_def filter_map o_def conj_commute)
  next
    case (10 opts v p v') then show ?case using mem_created_fresh by (fastforce simp: sample_l7_def quiet_octavia_def mem_view_def)
  next
    case (12 i x v v') then show ?case by (auto simp: sample_l7_def quiet_octavia_def mem_view_def filter_map o_def fun_eq_iff)
  qed (auto simp: sample_l7_def quiet_octavia_def mem_view_def mem_created_def)
qed

definition sample_desired :: "desiredPolicy list" where
  "sample_desired = [\<lparr>dp_name = ''w_l7_0'', dp_pool = ''p1'', dp_host = ''a.example'', dp_path = ''/api'', dp_pathType = ''Prefix''\<rparr>,
     \<lparr>dp_name = ''w_l7_1'', dp_pool = ''p2'', dp_host = ''a.example'', dp_path = ''/'', dp_pathType = ''Prefix''\<rparr>]"

definition sample_l7_world :: l7_mem where
  "sample_l7_world = [(''li'', \<lparr>l7_id = ''7'', l7_name = ''w_l7_0'', l7_position = 1, l7_pool = ''p0''\<rparr>, [])]"

theorem syncL7Policies_converges_witness:
  "carried (mem_view (snd (syncL7Policies sample_l7 ''lb'' ''li'' ''w'' sample_desired sample_l7_world)) ''li'') = wanted sample_desired"
proof -
  have "fst (syncL7Policies sample_l7 ''lb'' ''li'' ''w'' sample_desired sample_l7_world) = Inr ()" by code_simp
  then have run: "syncL7Policies sample_l7 ''lb'' ''li'' ''w'' sample_desired sample_l7_world
      = (Inr (), snd (syncL7Policies sample_l7 ''lb'' ''li'' ''w'' sample_desired sample_l7_world))" by (metis prod.collapse)
  have "list_all (\<lambda>x. has_prefix (l7_name (fst x)) (''w'' @ ''_l7_'')) (mem_view sample_l7_world ''li'')" by code_simp
  from syncL7Policies_converges [OF sample_l7_laws run this] show ?thesis by (auto simp: sample_l7_world_def mem_view_def sample_desired_def)
qed

text \<open>
  So a path of type \<^verbatim>\<open>ImplementationSpecific\<close> never compares equal, and the policies of its listener
  are deleted and made anew on every pass.
\<close>

theorem implementation_specific_differs:
  "dp_pathType d = ''ImplementationSpecific'' \<Longrightarrow> signature (readPolicy (dp_name d) (dp_pool d) (rulesFor d)) \<noteq> signature d"
  by (auto simp: signature_def readPolicy_def rulesFor_def readRule_def)

text \<open>A prefix is a prefix of the text, not of the path's elements: \<^verbatim>\<open>/foo\<close> takes \<^verbatim>\<open>/foobar\<close>.\<close>

theorem prefix_splits_element:
  "path_takes \<lparr>rq_host = h, rq_path = ''/foobar''\<rparr> \<lparr>dp_name = n, dp_pool = p, dp_host = [], dp_path = ''/foo'', dp_pathType = ''Prefix''\<rparr>"
  by (simp add: path_takes_def has_prefix_def)

text \<open>A host with a wildcard is compared for equality, so no host it stands for is taken.\<close>

theorem wildcard_host_refused:
  "dp_host d = ''*.'' @ rest \<Longrightarrow> rq_host q = label @ ''.'' @ rest \<Longrightarrow> CHR ''*'' \<notin> set label \<Longrightarrow> \<not> path_takes q d"
  by (cases label) (auto simp: path_takes_def)

end
