(* ===== verification/Ingress_Reconciler.thy ===== *)
theory Ingress_Reconciler
  imports Ingress_L7
begin

text \<open>
  \<^verbatim>\<open>pkg/ingress/reconciler.go\<close>, \<^verbatim>\<open>fip.go\<close> and \<^verbatim>\<open>barbican.go\<close>: the load balancer of an Ingress, its
  certificates, its public address, and the teardown.
\<close>

definition LegacyClassAnnotation :: string where "LegacyClassAnnotation = ''kubernetes.io/ingress.class''"
definition ing_InternalAnnotation :: string where "ing_InternalAnnotation = ''octavia.ingress.kubernetes.io/internal''"
definition FloatingIPAnnotation :: string where "FloatingIPAnnotation = ''octavia.ingress.kubernetes.io/floatingip''"
definition KeepFloatingIPAnnotation :: string where "KeepFloatingIPAnnotation = ''octavia.ingress.kubernetes.io/keep-floatingip''"
definition ProviderAnnotation :: string where "ProviderAnnotation = ''knaas.io/ingress-provider''"
definition ovnProvider :: string where "ovnProvider = ''ovn''"

definition ing_annotation :: "ingress_obj \<Rightarrow> string \<Rightarrow> string" where
  "ing_annotation ing key = label_of (in_annotations ing) key"

section \<open>Providers\<close>

definition ovn_refused :: "string \<Rightarrow> err" where
  "ovn_refused provider = ErrText (ProviderAnnotation @ ''='' @ provider @
     '': the ovn provider is layer 4 only and cannot serve an Ingress (it refuses TERMINATED_HTTPS listeners and l7policies); name a provider that terminates HTTP, such as amphora'')"

definition resolveProvider :: "'v ingress_rec \<Rightarrow> ingress_obj \<Rightarrow> string result" where
  "resolveProvider r ing =
     (let provider = trim_space (ing_annotation ing ProviderAnnotation) in
      if provider = [] then Inr (ir_provider r)
      else if provider = ovnProvider then Inl (ovn_refused provider)
      else Inr provider)"

definition no_provider :: "string \<Rightarrow> string list \<Rightarrow> err" where
  "no_provider want names = ErrText (ProviderAnnotation @ ''='' @ want @ '': this deployment has no such Octavia provider; it offers '' @ join_str '', '' names)"

text \<open>A listing that fails or is empty is no evidence that the provider is missing.\<close>

definition checkProviderInstalled :: "'v octavia_api \<Rightarrow> string \<Rightarrow> ('v, unit) act" where
  "checkProviderInstalled c want v =
     (case prov_List c v of
        (Inl _, v') \<Rightarrow> (Inr (), v')
      | (Inr all, v') \<Rightarrow> if all = [] \<or> want \<in> set all then (Inr (), v') else (Inl (no_provider want all), v'))"

definition moved :: "lb \<Rightarrow> string \<Rightarrow> err" where
  "moved lb want = ErrText (''load balancer '' @ lb_id lb @ '' serves this Ingress on provider '' @ quote_str (lb_provider lb) @ '' and '' @ quote_str want @
     '' is now requested: Octavia cannot move a load balancer between providers. Delete the Ingress and create it again to move it -- its address, and any floating IP on it, will change'')"

definition providerMatches :: "lb \<Rightarrow> string \<Rightarrow> unit result" where
  "providerMatches lb want =
     (if lb_provider lb = [] \<or> want = [] \<or> lb_provider lb = want then Inr () else Inl (moved lb want))"

section \<open>Names and classes\<close>

definition ing_lbName :: "'v ingress_rec \<Rightarrow> string \<Rightarrow> string \<Rightarrow> string" where
  "ing_lbName r namespace name = ''kubezun_'' @ ir_tenant r @ ''_ing_'' @ namespace @ ''_'' @ name"

definition ParseLBName :: "string \<Rightarrow> string \<Rightarrow> (string \<times> string) option" where
  "ParseLBName tenant lbname =
     (let prefix = ''kubezun_'' @ tenant @ ''_ing_'' in
      if \<not> has_prefix lbname prefix then None
      else (case cut_at (CHR ''_'') (trim_prefix lbname prefix) of
              None \<Rightarrow> None
            | Some (namespace, name) \<Rightarrow> if namespace = [] \<or> name = [] then None else Some (namespace, name)))"

definition Ours :: "'v ingress_rec \<Rightarrow> ingress_obj \<Rightarrow> bool" where
  "Ours r ing =
     (let prefixed = ir_tenant r @ ''-'' @ ir_className r; legacy = ing_annotation ing LegacyClassAnnotation in
      (case in_class ing of None \<Rightarrow> False | Some cls \<Rightarrow> cls = ir_className r \<or> cls = prefixed) \<or>
      legacy = ir_className r \<or> legacy = prefixed)"

section \<open>Certificates\<close>

definition no_barbican :: err where
  "no_barbican = ErrText ''this deployment has no key-manager (Barbican) endpoint; TERMINATED_HTTPS Ingress needs one''"

definition misses :: "tls_secret \<Rightarrow> err" where
  "misses s = ErrText (''TLS Secret '' @ ts_namespace s @ ''/'' @ ts_name s @ '' misses tls.crt or tls.key'')"

definition ensureBarbicanSecret :: "'v ingress_rec \<Rightarrow> string \<Rightarrow> tls_secret \<Rightarrow> ('v, string) act" where
  "ensureBarbicanSecret r name s =
     (case ir_keyManager r of
        None \<Rightarrow> fail no_barbican
      | Some km \<Rightarrow>
          if ts_crt s = [] \<or> ts_key s = [] then fail (misses s)
          else (let full = name @ ''_'' @ take 10 (ir_digest r (ts_crt s @ ts_key s)) in
            bind_a (wrap_err (''listing Barbican secrets '' @ quote_str full) (sec_List km (Some full))) (\<lambda>existing.
            case existing of
              x # _ \<Rightarrow> ret (bs_ref x)
            | [] \<Rightarrow>
                bind_a (wrap_err (''encoding TLS Secret '' @ ts_namespace s @ ''/'' @ ts_name s @ '' as PKCS12'') (lift_r (ir_bundle r (ts_crt s) (ts_key s)))) (\<lambda>pfx.
                bind_a (wrap_err (''storing Barbican secret '' @ quote_str full)
                  (sec_Create km \<lparr>so_name = full, so_payload = pfx, so_contentType = ''application/octet-stream'',
                     so_contentEncoding = ''base64'', so_secretType = ''opaque''\<rparr>)) (\<lambda>created. ret (bs_ref created))))))"

definition doomedSecret :: "string \<Rightarrow> string list \<Rightarrow> barbican_secret \<Rightarrow> bool" where
  "doomedSecret prefix kept s \<longleftrightarrow> has_prefix (bs_name s) prefix \<and> bs_ref s \<notin> set kept"

definition cleanupBarbicanSecrets :: "'v barbican_api option \<Rightarrow> string \<Rightarrow> string list \<Rightarrow> ('v, unit) act" where
  "cleanupBarbicanSecrets km prefix kept =
     (case km of
        None \<Rightarrow> ret ()
      | Some km \<Rightarrow>
          bind_a (wrap_err ''listing Barbican secrets for cleanup'' (sec_List km None)) (\<lambda>all.
          for_each (\<lambda>s. if \<not> doomedSecret prefix kept s then ret ()
                         else wrap_err (''deleting Barbican secret '' @ bs_name s)
                           (ignore_if (\<lambda>e. response_code_is e 404) (sec_Delete km (after_last (CHR ''/'') (bs_ref s))))) all))"

text \<open>The loop over \<^verbatim>\<open>spec.tls\<close>: a Secret that is named again, or not named, is skipped.\<close>

fun tlsLoop :: "'v ingress_rec \<Rightarrow> string \<Rightarrow> string \<Rightarrow> string list \<Rightarrow> string list \<Rightarrow> ('v, string list) act" where
  "tlsLoop r ns prefix seen [] = ret []"
| "tlsLoop r ns prefix seen (name # names) =
     (if name = [] \<or> name \<in> set seen then tlsLoop r ns prefix seen names
      else bind_a (wrap_err (''reading TLS Secret '' @ name) (ir_secrets r ns name)) (\<lambda>sec.
           bind_a (ensureBarbicanSecret r (prefix @ name) sec) (\<lambda>ref.
           bind_a (tlsLoop r ns prefix (name # seen) names) (\<lambda>refs. ret (ref # refs)))))"

definition ensureTLS :: "'v ingress_rec \<Rightarrow> ingress_obj \<Rightarrow> string \<Rightarrow> ('v, string list) act" where
  "ensureTLS r ing lbname = tlsLoop r (in_namespace ing) (lbname @ ''_tls_'') [] (in_tls ing)"

section \<open>Public addresses\<close>

definition internal :: "ingress_obj \<Rightarrow> bool" where
  "internal ing \<longleftrightarrow> ing_annotation ing ing_InternalAnnotation \<noteq> ''false''"

definition fipDescription :: "string \<Rightarrow> bool \<Rightarrow> string" where
  "fipDescription lbname kept = (if kept then lbname @ ''_keep'' else lbname)"

definition ownedBy :: "string \<Rightarrow> string \<Rightarrow> bool" where
  "ownedBy description lbname \<longleftrightarrow> description = lbname \<or> description = lbname @ ''_keep''"

definition fipForPort :: "'v fip_api option \<Rightarrow> string \<Rightarrow> ('v, floating_ip option) act" where
  "fipForPort neutron portID =
     bind_a (on_client neutron (\<lambda>n. fip_List n portID)) (\<lambda>fips. ret (case fips of [] \<Rightarrow> None | f # _ \<Rightarrow> Some f))"

definition no_such_fip :: "string \<Rightarrow> err" where
  "no_such_fip addr = ErrText (''floating IP '' @ addr @ '' does not exist in this project (the '' @ FloatingIPAnnotation @ '' annotation must name an existing one)'')"

definition fipByAddress :: "'v fip_api option \<Rightarrow> string \<Rightarrow> ('v, floating_ip) act" where
  "fipByAddress neutron addr =
     bind_a (wrap_err (''listing floating IP '' @ addr) (on_client neutron (\<lambda>n. fip_ByAddress n addr))) (\<lambda>fips.
     case fips of [] \<Rightarrow> fail (no_such_fip addr) | f # _ \<Rightarrow> ret f)"

text \<open>What is deleted is what carries exactly the marker; anything else is sent an update without a port.\<close>

definition releaseFIP :: "'v ingress_rec \<Rightarrow> string \<Rightarrow> string \<Rightarrow> ('v, unit) act" where
  "releaseFIP r lbname vipPortID =
     (if vipPortID = [] then ret ()
      else bind_a (fipForPort (ir_neutron r) vipPortID) (\<lambda>fip.
        case fip of
          None \<Rightarrow> ret ()
        | Some f \<Rightarrow>
            if fi_description f = fipDescription lbname False
            then wrap_err (''deleting floating IP '' @ fi_address f)
                   (ignore_if (\<lambda>e. response_code_is e 404) (on_client (ir_neutron r) (\<lambda>n. fip_Delete n (fi_id f))))
            else ignore_if (\<lambda>e. response_code_is e 404)
                   (on_client (ir_neutron r) (\<lambda>n. fip_Update n (fi_id f) \<lparr>fu_port = None, fu_description = None\<rparr>))))"

definition no_floating_network :: err where
  "no_floating_network = ErrText (''the Ingress asks for external exposure ('' @ ing_InternalAnnotation @ ''=false) but this deployment has no floating network'')"

definition bindGiven :: "'v ingress_rec \<Rightarrow> string \<Rightarrow> string \<Rightarrow> ('v, string) act" where
  "bindGiven r vipPortID addr =
     bind_a (fipByAddress (ir_neutron r) addr) (\<lambda>f.
     bind_a (if fi_port f \<noteq> vipPortID
             then wrap_err (''associating floating IP '' @ addr @ '' with the listener'')
                    (on_client (ir_neutron r) (\<lambda>n. fip_Update n (fi_id f) \<lparr>fu_port = Some vipPortID, fu_description = None\<rparr>))
             else ret ()) (\<lambda>_. ret (fi_address f)))"

definition ownFIP :: "'v ingress_rec \<Rightarrow> bool \<Rightarrow> string \<Rightarrow> string \<Rightarrow> ('v, string) act" where
  "ownFIP r kept lbname vipPortID =
     bind_a (fipForPort (ir_neutron r) vipPortID) (\<lambda>fip.
     case fip of
       None \<Rightarrow>
         if ir_fipNetwork r = [] then fail no_floating_network
         else bind_a (wrap_err (''allocating a floating IP on network '' @ ir_fipNetwork r)
                (on_client (ir_neutron r) (\<lambda>n. fip_Create n (ir_fipNetwork r) vipPortID (fipDescription lbname kept)))) (\<lambda>f. ret (fi_address f))
     | Some f \<Rightarrow>
         bind_a (if fi_description f \<noteq> fipDescription lbname kept \<and> ownedBy (fi_description f) lbname
                 then wrap_err ''updating floating IP ownership marker''
                        (on_client (ir_neutron r) (\<lambda>n. fip_Update n (fi_id f) \<lparr>fu_port = None, fu_description = Some (fipDescription lbname kept)\<rparr>))
                 else ret ()) (\<lambda>_. ret (fi_address f)))"

definition ensureFIP :: "'v ingress_rec \<Rightarrow> ingress_obj \<Rightarrow> string \<Rightarrow> string \<Rightarrow> ('v, string) act" where
  "ensureFIP r ing lbname vipPortID =
     (if internal ing then bind_a (releaseFIP r lbname vipPortID) (\<lambda>_. ret [])
      else (let addr = ing_annotation ing FloatingIPAnnotation in
            if addr \<noteq> [] then bindGiven r vipPortID addr
            else ownFIP r (ing_annotation ing KeepFloatingIPAnnotation = ''true'') lbname vipPortID))"

section \<open>The load balancer\<close>

definition createIngressLB :: "'v ingress_rec \<Rightarrow> ingress_obj \<Rightarrow> string \<Rightarrow> string \<Rightarrow> ('v, lb) act" where
  "createIngressLB r ing provider name =
     bind_a (if ing_annotation ing ProviderAnnotation \<noteq> [] then checkProviderInstalled (ir_octavia r) provider else ret ()) (\<lambda>_.
     wrap_err (''creating load balancer '' @ quote_str name @ '' (provider='' @ provider @ '')'')
       (lb_Create (ir_octavia r)
         \<lparr>lo_name = name, lo_description = ''kubezun Ingress '' @ in_namespace ing @ ''/'' @ in_name ing,
          lo_subnet = ir_vipSubnet r, lo_provider = provider\<rparr>))"

definition ing_lbByName :: "'v ingress_rec \<Rightarrow> ingress_obj \<Rightarrow> string \<Rightarrow> ('v, lb) act" where
  "ing_lbByName r ing provider =
     (let name = ing_lbName r (in_namespace ing) (in_name ing) in
      bind_a (\<lambda>v. case GetLoadBalancerByName (ir_octavia r) name v of
                     (Inr lb, v') \<Rightarrow> bind_a (lift_r (providerMatches lb provider)) (\<lambda>_. ret lb) v'
                   | (Inl e, v') \<Rightarrow> if e = ErrNotFound then createIngressLB r ing provider name v' else (Inl e, v')) (\<lambda>lb.
      bind_a (WaitActive (ir_octavia r) (lb_id lb)) (\<lambda>lb.
      bind_a (if ing_annotation ing lbIDAnnotation \<noteq> lb_id lb
              then bind_a (ic_Update (ir_client r) (ing\<lparr>in_annotations := AList.update lbIDAnnotation (lb_id lb) (in_annotations ing)\<rparr>)) (\<lambda>_. ret ())
              else ret ()) (\<lambda>_. ret lb))))"

definition ing_ensureLoadBalancer :: "'v ingress_rec \<Rightarrow> ingress_obj \<Rightarrow> ('v, lb) act" where
  "ing_ensureLoadBalancer r ing =
     bind_a (lift_r (resolveProvider r ing)) (\<lambda>provider.
     let i = ing_annotation ing lbIDAnnotation in
     if i \<noteq> [] then
       (\<lambda>v. case GetLoadBalancerByID (ir_octavia r) i v of
              (Inr lb, v') \<Rightarrow> bind_a (lift_r (providerMatches lb provider)) (\<lambda>_. WaitActive (ir_octavia r) (lb_id lb)) v'
            | (Inl e, v') \<Rightarrow> if e = ErrNotFound then ing_lbByName r ing provider v'
                              else (Inl (ErrWrap (''reading load balancer '' @ i) e), v'))
     else ing_lbByName r ing provider)"

definition publishStatus :: "'v ingress_rec \<Rightarrow> ingress_obj \<Rightarrow> string \<Rightarrow> ('v, unit) act" where
  "publishStatus r ing address =
     (if address \<in> set (in_status ing) then ret ()
      else bind_a (ic_UpdateStatus (ir_client r) (ing\<lparr>in_status := [address]\<rparr>)) (\<lambda>_. ret ()))"

definition ing_tearDown :: "'v ingress_rec \<Rightarrow> string \<Rightarrow> lb \<Rightarrow> ('v, unit) act" where
  "ing_tearDown r lbname lb =
     bind_a (releaseFIP r lbname (lb_vipPort lb)) (\<lambda>_.
     bind_a (DeleteLoadBalancer (ir_octavia r) (lb_id lb)) (\<lambda>_.
     ignore_if (\<lambda>e. \<not> is_panic e) (cleanupBarbicanSecrets (ir_keyManager r) (lbname @ ''_tls_'') [])))"

definition tearDownByName :: "'v ingress_rec \<Rightarrow> string \<Rightarrow> string \<Rightarrow> ('v, unit) act" where
  "tearDownByName r namespace name =
     (let lbname = ing_lbName r namespace name in
      (\<lambda>v. case GetLoadBalancerByName (ir_octavia r) lbname v of
             (Inr lb, v') \<Rightarrow> ing_tearDown r lbname lb v'
           | (Inl e, v') \<Rightarrow>
               if e = ErrNotFound
               then ignore_if (\<lambda>e. \<not> is_panic e) (cleanupBarbicanSecrets (ir_keyManager r) (lbname @ ''_tls_'') []) v'
               else (Inl e, v')))"

text \<open>The loop that ensures the pools collects their identifiers by name.\<close>

definition ensurePools :: "'v ingress_rec \<Rightarrow> lb \<Rightarrow> string \<Rightarrow> backendRef list \<Rightarrow> ('v, labels) act" where
  "ensurePools r lb lbname backends =
     fold_act (\<lambda>poolIDs b. bind_a (ensureBackendPool r lb lbname b) (\<lambda>pool. ret ((poolName lbname b, po_id pool) # poolIDs))) [] backends"

definition ing_serve :: "'v ingress_rec \<Rightarrow> ingress_obj \<Rightarrow> string \<Rightarrow> lb \<Rightarrow> ('v, unit) act" where
  "ing_serve r ing lbname lb =
     bind_a (ensureTLS r ing lbname) (\<lambda>tlsRefs.
     case collectBackends ing of (defaultRef, backends) \<Rightarrow>
     bind_a (ensurePools r lb lbname backends) (\<lambda>poolIDs.
     let defaultPoolID = (case defaultRef of None \<Rightarrow> [] | Some b \<Rightarrow> label_of poolIDs (poolName lbname b)) in
     bind_a (lift_r (tuningFromAnnotations ing)) (\<lambda>tuning.
     bind_a (ing_ensureListener (ir_octavia r) (lb_id lb) lbname tlsRefs defaultPoolID tuning) (\<lambda>listener.
     bind_a (if tlsRefs \<noteq> [] then cleanupBarbicanSecrets (ir_keyManager r) (lbname @ ''_tls_'') tlsRefs else ret ()) (\<lambda>_.
     bind_a (for_each (\<lambda>b. syncPoolMembers r lb ing b (label_of poolIDs (poolName lbname b))) backends) (\<lambda>_.
     bind_a (syncL7Policies (ir_octavia r) (lb_id lb) (li_id listener) lbname (buildDesiredPolicies ing lbname poolIDs)) (\<lambda>_.
     bind_a (gcStalePools (ir_octavia r) (lb_id lb) lbname (map snd poolIDs) defaultPoolID) (\<lambda>_.
     bind_a (ensureFIP r ing lbname (lb_vipPort lb)) (\<lambda>address.
     publishStatus r ing (if address = [] then lb_vip lb else address))))))))))"

definition ing_Reconcile :: "'v ingress_rec \<Rightarrow> string \<Rightarrow> string \<Rightarrow> ('v, unit) act" where
  "ing_Reconcile r namespace name =
     (case l_Get (ir_ingresses r) namespace name of
        Inl _ \<Rightarrow> tearDownByName r namespace name
      | Inr ing \<Rightarrow>
          if \<not> Ours r ing then tearDownByName r namespace name
          else if in_deleting ing then tearDownByName r namespace name
          else bind_a (ing_ensureLoadBalancer r ing) (\<lambda>lb. ing_serve r ing (ing_lbName r namespace name) lb))"

section \<open>Which calls are made\<close>

text \<open>
  \<open>l7_keeps\<close>: no call on Octavia affects \<open>P\<close>. \<open>but_release\<close>: no call the reconciler can make does, the
  deletion of a floating IP apart. \<open>marked_only\<close>: nor does the deletion of one that was listed with the
  marker \<open>lbname\<close> as its description.
\<close>

definition l7_keeps :: "'v octavia_api \<Rightarrow> ('v \<Rightarrow> bool) \<Rightarrow> bool" where
  "l7_keeps c P \<longleftrightarrow>
     octavia_keeps c P \<and> keeps P (prov_List c) \<and> (\<forall>i u. keeps P (li_Update c i u)) \<and> (\<forall>i. keeps P (li_Delete c i)) \<and>
     (\<forall>i. keeps P (po_Delete c i)) \<and> (\<forall>i. keeps P (l7_List c i)) \<and> (\<forall>i. keeps P (l7_Rules c i)) \<and>
     (\<forall>opts. keeps P (l7_Create c opts)) \<and> (\<forall>i x. keeps P (l7_CreateRule c i x)) \<and> (\<forall>i. keeps P (l7_Delete c i))"

definition but_release :: "'v ingress_rec \<Rightarrow> ('v \<Rightarrow> bool) \<Rightarrow> bool" where
  "but_release r P \<longleftrightarrow>
     l7_keeps (ir_octavia r) P \<and> (\<forall>ns n. keeps P (ir_subnetFor r ns n)) \<and> (\<forall>ns n. keeps P (ir_secrets r ns n)) \<and>
     (\<forall>x. keeps P (ic_Update (ir_client r) x)) \<and> (\<forall>x. keeps P (ic_UpdateStatus (ir_client r) x)) \<and>
     (case ir_keyManager r of None \<Rightarrow> True
      | Some km \<Rightarrow> (\<forall>n. keeps P (sec_List km n)) \<and> (\<forall>opts. keeps P (sec_Create km opts)) \<and> (\<forall>i. keeps P (sec_Delete km i))) \<and>
     (case ir_neutron r of None \<Rightarrow> True
      | Some n \<Rightarrow> (\<forall>p. keeps P (fip_List n p)) \<and> (\<forall>a. keeps P (fip_ByAddress n a)) \<and> (\<forall>net p d. keeps P (fip_Create n net p d)) \<and>
                  (\<forall>i u. keeps P (fip_Update n i u)))"

definition marked_only :: "'v ingress_rec \<Rightarrow> string \<Rightarrow> ('v \<Rightarrow> bool) \<Rightarrow> bool" where
  "marked_only r lbname P \<longleftrightarrow>
     (case ir_neutron r of None \<Rightarrow> True
      | Some n \<Rightarrow> (\<forall>port v f fs v'. fip_List n port v = (Inr (f # fs), v') \<longrightarrow> fi_description f = lbname \<longrightarrow> P v' \<longrightarrow> P (snd (fip_Delete n (fi_id f) v'))))"

lemma l7_calls:
  fixes c :: "'v octavia_api"
  assumes "l7_keeps c P"
  shows "keeps P (getPoolByName c i n)" "keeps P (listPools c i)" "keeps P (deletePool c i p)" "keeps P (deleteL7Policy c i p)"
    "keeps P (deleteListenerByName c i n)" "keeps P (updateListener c i l u)" "keeps P (existingSignature c pol)" "keeps P (sameL7 c ps ds)"
    "keeps P (gcStalePools c i n ks p)" "keeps P (syncL7Policies c i l n ds)" "keeps P (ing_ensureListener c i n refs p t)"
    "keeps P (checkProviderInstalled c w)"
proof -
  note K = assms [unfolded l7_keeps_def]
  note oct = octavia_calls [OF K [THEN conjunct1]]
  note rest = K [THEN conjunct2]
  have pool: "keeps P (po_List c i n)" for i n using K by (simp add: octavia_keeps_def)
  show "keeps P (getPoolByName c i n)" "keeps P (listPools c i)"
    unfolding getPoolByName_def listPools_def using pool by (auto intro!: keeps_bind_a split: list.split)
  have wait: "keeps P (bind_a (WaitActive c i) (\<lambda>_. ret x))" for i x by (intro keeps_bind_a oct keeps_ret)
  have after: "keeps P (\<lambda>v. case m v of (Inl e, v') \<Rightarrow> if response_code_is e 404 then (Inr (), v') else (Inl e, v')
      | (Inr _, v') \<Rightarrow> bind_a (WaitActive c i) (\<lambda>_. ret ()) v')" if "keeps P m" for m :: "('v, unit) act" and i
    using that wait [of i "()"] by (auto simp: keeps_def case_prod_beta split: sum.split)
  show dp: "keeps P (deletePool c i p)" for i p unfolding deletePool_def [abs_def] using rest by (intro after) simp
  have dl: "keeps P (deleteL7Policy c i p)" for i p unfolding deleteL7Policy_def [abs_def] using rest by (intro after) simp
  then show "keeps P (deleteL7Policy c i p)" .
  show upd: "keeps P (updateListener c i l u)" for i l u
    unfolding updateListener_def settled_def using rest by (intro keeps_bind_a oct keeps_ret) simp
  show del: "keeps P (deleteListenerByName c i n)" for i n
    unfolding deleteListenerByName_def [abs_def]
    using rest by (intro keeps_cases oct keeps_bind_a keeps_wrap_err keeps_ignore_if wait) auto
  have sig: "keeps P (existingSignature c pol)" for pol
    unfolding existingSignature_def using rest by (intro keeps_bind_a keeps_wrap_err keeps_ret) simp
  then show "keeps P (existingSignature c pol)" .
  have same: "keeps P (sameL7 c ps ds)" for ps ds
  proof (induction ps arbitrary: ds)
    case (Cons p ps)
    then show ?case using sig by (cases ds) (auto intro!: keeps_bind_a)
  qed simp
  then show "keeps P (sameL7 c ps ds)" .
  show "keeps P (gcStalePools c i n ks p)"
    unfolding gcStalePools_def listPools_def by (auto intro!: keeps_bind_a keeps_wrap_err keeps_for_each pool dp)
  have ours: "keeps P (deleteOurs c i n q)" for q unfolding deleteOurs_def using dl by (auto intro: keeps_wrap_err)
  have make: "keeps P (createDesired c i l x)" for x
    unfolding createDesired_def createL7Policy_def createL7Rule_def settled_def
    using rest by (cases x) (auto intro!: keeps_bind_a keeps_wrap_err keeps_for_each oct)
  show "keeps P (syncL7Policies c i l n ds)"
    unfolding syncL7Policies_def Let_def using rest same ours make by (auto intro!: keeps_bind_a keeps_wrap_err keeps_for_each)
  show "keeps P (checkProviderInstalled c w)"
    using rest by (auto simp: keeps_def checkProviderInstalled_def case_prod_beta split: sum.split)
  obtain proto port name stale where plan: "listenerPlan n refs = (proto, port, name, stale)" by (cases "listenerPlan n refs")
  have body: "keeps P (\<lambda>v. case GetListenerByName c i name v of
      (Inl e, v') \<Rightarrow> if e \<noteq> ErrNotFound then (Inl (ErrWrap w e), v') else CreateListener c i opts v'
    | (Inr x, v') \<Rightarrow> (let u = listenerUpdate x refs p t in
        if dirty u then bind_a (wrap_err w' (updateListener c i (li_id x) u)) (\<lambda>_. GetListenerByName c i name) v' else (Inr x, v')))" for w w' opts
  proof -
    have "keeps P (bind_a (wrap_err w' (updateListener c i (li_id x) u)) (\<lambda>_. GetListenerByName c i name))" for x u
      by (intro keeps_bind_a keeps_wrap_err upd oct)
    then show ?thesis using oct(5) [of i name] oct(7) [of i opts] by (auto simp: keeps_def case_prod_beta Let_def split: sum.split)
  qed
  show "keeps P (ing_ensureListener c i n refs p t)"
    unfolding ing_ensureListener_def plan prod.case by (intro keeps_bind_a del body)
qed

lemma release_keeps:
  assumes "but_release r P" and "marked_only r lbname P"
  shows "keeps P (releaseFIP r lbname port)"
proof (cases "ir_neutron r")
  case None
  then show ?thesis
    by (auto simp: releaseFIP_def fipForPort_def on_client_def intro!: keeps_bind_a keeps_wrap_err keeps_ignore_if split: option.split)
next
  case (Some n)
  with assms(1) have list: "keeps P (fip_List n port)" and upd: "\<And>i u. keeps P (fip_Update n i u)" by (auto simp: but_release_def)
  have "P (snd (releaseFIP r lbname port v))" if "P v" for v
  proof -
    obtain q v' where l: "fip_List n port v = (q, v')" by (meson surj_pair)
    then have v': "P v'" using keepsD [OF list that] by simp
    have del: "P (snd (fip_Delete n (fi_id f) v'))" if "q = Inr (f # fs)" "fi_description f = lbname" for f fs
      using assms(2) Some l that v' unfolding marked_only_def by auto
    show ?thesis
    proof (cases "case q of Inr (f # fs) \<Rightarrow> True | _ \<Rightarrow> False")
      case True
      then obtain f fs where "q = Inr (f # fs)" by (auto split: sum.splits list.splits)
      then show ?thesis
        using del keepsD [OF upd v'] l Some that by (auto simp: releaseFIP_def fipForPort_def on_client_def bind_a_def ret_def fipDescription_def)
    next
      case False
      then show ?thesis
        using that v' l Some by (auto simp: releaseFIP_def fipForPort_def on_client_def bind_a_def ret_def split: sum.splits list.splits)
    qed
  qed
  then show ?thesis by (auto simp: keeps_def)
qed

lemma ingress_calls:
  assumes "but_release r P"
  shows "keeps P (ing_ensureLoadBalancer r ing)" "keeps P (ensureTLS r ing n)" "keeps P (cleanupBarbicanSecrets (ir_keyManager r) p ks)"
    "keeps P (ensurePools r lb n bs)" "keeps P (syncPoolMembers r lb ing b pid)" "keeps P (publishStatus r ing a)"
    "keeps P (bindGiven r port addr)" "keeps P (ownFIP r k n port)" "keeps P (DeleteLoadBalancer (ir_octavia r) i)"
proof -
  note K = assms [unfolded but_release_def]
  note l7 = l7_calls [OF K [THEN conjunct1]]
  have oct: "octavia_keeps (ir_octavia r) P" using K by (simp add: l7_keeps_def)
  note calls = octavia_calls [OF oct]
  have create: "keeps P (lb_Create (ir_octavia r) opts)" for opts using oct by (simp add: octavia_keeps_def)
  have new: "keeps P (createIngressLB r ing pr n)" for pr n
    unfolding createIngressLB_def using l7(12) create by (auto intro!: keeps_bind_a keeps_wrap_err)
  have byName: "keeps P (ing_lbByName r ing pr)" for pr
    unfolding ing_lbByName_def Let_def
    using K by (auto intro!: keeps_bind_a keeps_cases calls simp: keepsD [OF new])
  show "keeps P (ing_ensureLoadBalancer r ing)"
    unfolding ing_ensureLoadBalancer_def Let_def
    by (auto intro!: keeps_bind_a keeps_cases calls byName simp: keepsD [OF byName])
  have secret: "keeps P (ensureBarbicanSecret r m x)" for m x
    unfolding ensureBarbicanSecret_def Let_def using K
    by (auto intro!: keeps_bind_a keeps_wrap_err split: option.splits list.splits)
  have "keeps P (tlsLoop r ns m seen names)" for ns m seen names
    by (induction names arbitrary: seen) (use K secret in \<open>auto intro!: keeps_bind_a keeps_wrap_err\<close>)
  then show "keeps P (ensureTLS r ing n)" unfolding ensureTLS_def by simp
  show "keeps P (cleanupBarbicanSecrets (ir_keyManager r) p ks)"
    unfolding cleanupBarbicanSecrets_def using K by (auto intro!: keeps_bind_a keeps_wrap_err keeps_for_each keeps_ignore_if split: option.splits)
  have "keeps P (ensureBackendPool r lb n b)" for b
    unfolding ensureBackendPool_def Let_def by (auto intro!: keeps_bind_a keeps_wrap_err keeps_found_or l7 calls)
  then show "keeps P (ensurePools r lb n bs)" unfolding ensurePools_def by (auto intro!: keeps_fold_act keeps_bind_a)
  show "keeps P (syncPoolMembers r lb ing b pid)"
    unfolding syncPoolMembers_def using K by (auto intro!: keeps_bind_a keeps_wrap_err calls BuildMembers_keeps)
  show "keeps P (publishStatus r ing a)" unfolding publishStatus_def using K by (auto intro!: keeps_bind_a)
  have "keeps P (on_client (ir_neutron r) (\<lambda>n. fip_List n p))" "keeps P (on_client (ir_neutron r) (\<lambda>n. fip_ByAddress n a))"
    "keeps P (on_client (ir_neutron r) (\<lambda>n. fip_Update n i u))" "keeps P (on_client (ir_neutron r) (\<lambda>n. fip_Create n net p d))" for p a i u net d
    using K by (auto simp: on_client_def split: option.splits)
  then show "keeps P (bindGiven r port addr)" "keeps P (ownFIP r k n port)"
    unfolding bindGiven_def fipByAddress_def ownFIP_def fipForPort_def
    by (auto intro!: keeps_bind_a keeps_wrap_err split: option.splits list.splits)
  show "keeps P (DeleteLoadBalancer (ir_octavia r) i)" by (rule calls)
qed

lemma tearDown_keeps_fip:
  assumes "but_release r P" and "marked_only r lbname P"
  shows "keeps P (ing_tearDown r lbname lb)"
  unfolding ing_tearDown_def by (intro keeps_bind_a keeps_ignore_if release_keeps [OF assms] ingress_calls [OF assms(1)])

lemma Reconcile_keeps_fip:
  assumes "but_release r P" and "marked_only r (ing_lbName r ns n) P"
  shows "keeps P (ing_Reconcile r ns n)"
proof -
  note calls = ingress_calls [OF assms(1)]
  have oct: "l7_keeps (ir_octavia r) P" using assms(1) by (simp add: but_release_def)
  note l7 = l7_calls [OF oct]
  have down: "keeps P (tearDownByName r ns n)"
    unfolding tearDownByName_def Let_def
    using oct calls(3) by (auto intro!: keeps_cases tearDown_keeps_fip assms octavia_calls simp: l7_keeps_def keepsD [OF calls(3)])
  have fip: "keeps P (ensureFIP r ing (ing_lbName r ns n) port)" for ing port
    unfolding ensureFIP_def Let_def by (auto intro!: keeps_bind_a calls release_keeps assms)
  have "keeps P (ing_serve r ing (ing_lbName r ns n) lb)" for ing lb
    unfolding ing_serve_def Let_def
    by (cases "collectBackends ing") (auto intro!: keeps_bind_a keeps_for_each calls l7 fip)
  then show ?thesis unfolding ing_Reconcile_def using down calls(1) by (auto intro!: keeps_bind_a split: sum.split)
qed

lemma ParseLBName_lbName:
  assumes "ns \<noteq> []" "n \<noteq> []" "CHR ''_'' \<notin> set ns"
  shows "ParseLBName (ir_tenant r) (ing_lbName r ns n) = Some (ns, n)"
proof -
  let ?p = "''kubezun_'' @ ir_tenant r @ ''_ing_''"
  have name: "ing_lbName r ns n = ?p @ (ns @ CHR ''_'' # n)" by (simp add: ing_lbName_def)
  have "has_prefix (ing_lbName r ns n) ?p" "trim_prefix (ing_lbName r ns n) ?p = ns @ CHR ''_'' # n"
    unfolding name by (simp_all only: has_prefix_append trim_prefix_append)
  moreover have "cut_at (CHR ''_'') (ns @ CHR ''_'' # n) = Some (ns, n)" using assms(3) by simp
  ultimately show ?thesis using assms(1,2) unfolding ParseLBName_def Let_def by simp
qed

section \<open>Properties\<close>

text \<open>
  A floating IP that does not carry the Ingress's own marker is never deleted: a pass over an
  Ingress, on every branch of it (served, of another class, being deleted, unreadable), and a
  teardown of its load balancer, keep whatever no call keeps from holding except the deletion of an
  address listed with exactly the marker of that load balancer. A tenant's own address, and one
  marked to be kept, therefore survive.
\<close>

theorem unmarked_address_kept:
  assumes "but_release r P" and "marked_only r (ing_lbName r namespace name) P" and "P v"
  shows "P (snd (ing_Reconcile r namespace name v)) \<and> P (snd (ing_tearDown r (ing_lbName r namespace name) lb v))"
  using keepsD [OF Reconcile_keeps_fip [OF assms(1,2)] assms(3)] keepsD [OF tearDown_keeps_fip [OF assms(1,2)] assms(3)] by simp

text \<open>An Ingress that is gone, with the tenant's own floating IP on its port beside one of its own elsewhere.\<close>

definition sample_fip :: "string \<Rightarrow> string \<Rightarrow> string \<Rightarrow> floating_ip" where
  "sample_fip i port d = \<lparr>fi_id = i, fi_address = ''203.0.113.'' @ i, fi_port = port, fi_description = d\<rparr>"

definition sample_fips :: "floating_ip list" where
  "sample_fips = [sample_fip ''1'' ''vp'' ''mine'', sample_fip ''2'' ''vp2'' ''kubezun_acme_ing_prod_web'']"

definition sample_fip_api :: "floating_ip list fip_api" where
  "sample_fip_api =
     \<lparr>fip_List = (\<lambda>p v. (Inr (filter (\<lambda>f. fi_port f = p) (if distinct (map fi_id v) then v else [])), v)),
      fip_ByAddress = (\<lambda>a v. (Inr (filter (\<lambda>f. fi_address f = a) v), v)),
      fip_Create = (\<lambda>_ _ _. fail ErrNotFound), fip_Update = (\<lambda>_ _. ret ()), fip_Delete = (\<lambda>i v. (Inr (), filter (\<lambda>f. fi_id f \<noteq> i) v))\<rparr>"

definition sample_ingress_rec :: "floating_ip list ingress_rec" where
  "sample_ingress_rec =
     \<lparr>ir_octavia = quiet_octavia\<lparr>lb_List := (\<lambda>_. ret [\<lparr>lb_id = ''lb'', lb_name = ''kubezun_acme_ing_prod_web'', lb_status = ''ACTIVE'',
        lb_vip = ''10.9.0.2'', lb_vipPort = ''vp'', lb_provider = ''amphora''\<rparr>])\<rparr>,
      ir_neutron = Some sample_fip_api, ir_keyManager = None,
      ir_ingresses = \<lparr>l_List = (\<lambda>_. Inr []), l_In = (\<lambda>_ _. Inr []), l_Get = (\<lambda>_ _. Inl (ErrKubeNotFound ''gone''))\<rparr>,
      ir_services = \<lparr>l_List = (\<lambda>_. Inr []), l_In = (\<lambda>_ _. Inr []), l_Get = (\<lambda>_ _. Inl ErrNotFound)\<rparr>,
      ir_slices = \<lparr>l_List = (\<lambda>_. Inr []), l_In = (\<lambda>_ _. Inr []), l_Get = (\<lambda>_ _. Inl ErrNotFound)\<rparr>,
      ir_client = \<lparr>ic_Update = (\<lambda>x. ret x), ic_UpdateStatus = (\<lambda>x. ret x)\<rparr>,
      ir_secrets = (\<lambda>_ _. fail ErrNotFound), ir_subnetFor = (\<lambda>_ _. ret ''s1''), ir_vipSubnet = ''vip'', ir_fipNetwork = ''ext'',
      ir_provider = ''amphora'', ir_className = ''knaas'', ir_tenant = ''acme'', ir_serves = Some (\<lambda>_. True), ir_namespaces = Some [''prod''],
      ir_events = False, ir_fromSet = (\<lambda>_. \<lparr>sel_string = [], sel_matches = (\<lambda>_. True)\<rparr>),
      ir_everything = \<lparr>sel_string = [], sel_matches = (\<lambda>_. True)\<rparr>, ir_digest = (\<lambda>s. s), ir_bundle = (\<lambda>c k. Inr (c @ k))\<rparr>"

lemma sample_quiet: "but_release sample_ingress_rec (\<lambda>v. f \<in> set v)"
  by (simp add: but_release_def l7_keeps_def octavia_keeps_def sample_ingress_rec_def quiet_octavia_def sample_fip_api_def) (simp add: keeps_def)

lemma sample_marked:
  assumes "fi_description f \<noteq> lbname"
  shows "marked_only sample_ingress_rec lbname (\<lambda>v. f \<in> set v)"
proof -
  have "f \<in> set (filter (\<lambda>x. fi_id x \<noteq> fi_id g) v)"
    if "filter (\<lambda>x. fi_port x = p) (if distinct (map fi_id v) then v else []) = g # gs" "fi_description g = lbname" "f \<in> set v" for p v g gs
  proof -
    from that(1) have "distinct (map fi_id v)" "g \<in> set v" by (auto split: if_splits dest: filter_eq_ConsD)
    then have "fi_id f \<noteq> fi_id g" using that(2,3) assms by (metis distinct_map inj_onD)
    with that(3) show ?thesis by simp
  qed
  then show ?thesis by (auto simp: marked_only_def sample_ingress_rec_def sample_fip_api_def)
qed

theorem unmarked_address_kept_witness:
  "sample_fip ''1'' ''vp'' ''mine'' \<in> set (snd (ing_Reconcile sample_ingress_rec ''prod'' ''web'' sample_fips)) \<and>
   fst (ing_Reconcile sample_ingress_rec ''prod'' ''web'' sample_fips) = Inr ()"
proof -
  have "fi_description (sample_fip ''1'' ''vp'' ''mine'') \<noteq> ing_lbName sample_ingress_rec ''prod'' ''web''" by code_simp
  from sample_marked [OF this] have "sample_fip ''1'' ''vp'' ''mine'' \<in> set (snd (ing_Reconcile sample_ingress_rec ''prod'' ''web'' sample_fips))"
    using unmarked_address_kept [OF sample_quiet, where v = sample_fips and namespace = "''prod''" and name = "''web''"]
    by (simp add: sample_fips_def)
  moreover have "fst (ing_Reconcile sample_ingress_rec ''prod'' ''web'' sample_fips) = Inr ()" by code_simp
  ultimately show ?thesis ..
qed

text \<open>
  An Ingress that cannot be read, whatever the reason, is treated as one that is gone: its load
  balancer is torn down, where the sweep leaves it alone.
\<close>

theorem unreadable_ingress_torn_down:
  "l_Get (ir_ingresses r) namespace name = Inl e \<Longrightarrow> ing_Reconcile r namespace name = tearDownByName r namespace name"
  by (simp add: ing_Reconcile_def)

text \<open>
  The update of a listener looks at the first certificate only: when a later one is rotated nothing
  is re-pointed, and the cleanup that follows deletes the bundle the listener still refers to.
\<close>

theorem rotated_sni_unnoticed:
  "listenerUpdate l (ref # old) pool tuning = listenerUpdate l (ref # new) pool tuning \<and>
   (has_prefix (bs_name s) prefix \<and> bs_ref s \<in> set old \<and> bs_ref s \<notin> set (ref # new) \<longrightarrow> doomedSecret prefix (ref # new) s)"
  by (simp add: listenerUpdate_def doomedSecret_def)

text \<open>An address that is only to be detached is sent an update with no field in it.\<close>

theorem detach_sends_nothing:
  assumes "ir_neutron r = Some n" and "vipPortID \<noteq> []" and "fip_List n vipPortID v = (Inr (f # fs), v')" and "fi_description f \<noteq> lbname"
  shows "snd (releaseFIP r lbname vipPortID v) = snd (fip_Update n (fi_id f) \<lparr>fu_port = None, fu_description = None\<rparr> v')"
  using assms by (simp add: releaseFIP_def fipForPort_def on_client_def bind_a_def ret_def fipDescription_def)

end
