(* ===== verification/Ingress_Controller.thy ===== *)
theory Ingress_Controller
  imports Ingress_Reconciler Service_Controller
begin

text \<open>
  \<^verbatim>\<open>pkg/ingress/controller.go\<close>: what queues an Ingress, a turn of the worker, and the sweep of load
  balancers whose Ingress is gone.
\<close>

section \<open>State\<close>

record 'v ing_controller =
  iw_main :: "'v ingress_rec"
  iw_for :: "(string \<Rightarrow> ('v, 'v ingress_rec) act) option"
  iw_each :: "(('v ingress_rec \<Rightarrow> ('v, unit) act) \<Rightarrow> ('v, unit) act) option"

definition ing_serves :: "'v ing_controller \<Rightarrow> string \<Rightarrow> bool" where
  "ing_serves C namespace = (case ir_serves (iw_main C) of None \<Rightarrow> False | Some f \<Rightarrow> f namespace)"

definition ing_reconcilerOf :: "'v ing_controller \<Rightarrow> string \<Rightarrow> ('v, 'v ingress_rec) act" where
  "ing_reconcilerOf C namespace = (case iw_for C of None \<Rightarrow> ret (iw_main C) | Some f \<Rightarrow> f namespace)"

definition ing_eachReconciler :: "'v ing_controller \<Rightarrow> ('v ingress_rec \<Rightarrow> ('v, unit) act) \<Rightarrow> ('v, unit) act" where
  "ing_eachReconciler C fn = (case iw_each C of None \<Rightarrow> fn (iw_main C) | Some each \<Rightarrow> each fn)"

section \<open>Events\<close>

definition enqueueIngress :: "ingress_obj event_obj \<Rightarrow> queue_op list" where
  "enqueueIngress obj = (case untombed obj of None \<Rightarrow> [] | Some ing \<Rightarrow> [Add (obj_key (in_namespace ing) (in_name ing))])"

definition ing_enqueueSlice :: "'v ing_controller \<Rightarrow> slice event_obj \<Rightarrow> queue_op list" where
  "ing_enqueueSlice C obj =
     (case untombed obj of
        None \<Rightarrow> []
      | Some s \<Rightarrow>
          (let svcName = label_of (sl_labels s) ''kubernetes.io/service-name''; r = iw_main C in
           if svcName = [] then []
           else if \<not> ing_serves C (sl_namespace s) then []
           else (case l_In (ir_ingresses r) (sl_namespace s) (ir_everything r) of
                   Inl _ \<Rightarrow> []
                 | Inr ings \<Rightarrow>
                     map (\<lambda>ing. Add (obj_key (in_namespace ing) (in_name ing)))
                       (filter (\<lambda>ing. Ours r ing \<and> list_ex (\<lambda>b. be_service b = svcName) (snd (collectBackends ing))) ings))))"

definition ing_recordFailure :: "'v ing_controller \<Rightarrow> string \<Rightarrow> string \<Rightarrow> err \<Rightarrow> (ingress_obj \<times> string) list" where
  "ing_recordFailure C namespace name cause =
     (if \<not> ir_events (iw_main C) then []
      else (case l_Get (ir_ingresses (iw_main C)) namespace name of
              Inl _ \<Rightarrow> []
            | Inr ing \<Rightarrow> [(ing, ''the Ingress has no reachable address yet: '' @ err_text cause)]))"

definition ing_turn :: "'v ing_controller \<Rightarrow> string \<Rightarrow> 'v \<Rightarrow> queue_op list \<times> (ingress_obj \<times> string) list \<times> 'v" where
  "ing_turn C key v =
     (case split_key key of
        Inl _ \<Rightarrow> ([Forget key, Done key], [], v)
      | Inr (namespace, name) \<Rightarrow>
          if \<not> ing_serves C namespace then ([Forget key, Done key], [], v)
          else (case ing_reconcilerOf C namespace v of
            (Inl e, v') \<Rightarrow> ([AddRateLimited key, Done key], [], v')
          | (Inr r, v') \<Rightarrow>
              (case ing_Reconcile r namespace name v' of
                 (Inl e, v'') \<Rightarrow>
                   if is_panic e then ([], [], v'')
                   else ([AddRateLimited key, Done key], ing_recordFailure C namespace name e, v'')
               | (Inr _, v'') \<Rightarrow> ([Forget key, Done key], [], v''))))"

section \<open>The sweep\<close>

definition ing_sweepLB :: "'v ing_controller \<Rightarrow> 'v ingress_rec \<Rightarrow> lb \<Rightarrow> 'v \<Rightarrow> 'v" where
  "ing_sweepLB C r lb v =
     (case ParseLBName (ir_tenant r) (lb_name lb) of
        None \<Rightarrow> v
      | Some (namespace, name) \<Rightarrow>
          if \<not> ing_serves C namespace then snd (ing_tearDown r (lb_name lb) lb v)
          else (case l_Get (ir_ingresses r) namespace name of
                  Inr ing \<Rightarrow> if Ours r ing \<and> \<not> in_deleting ing then v else snd (ing_tearDown r (lb_name lb) lb v)
                | Inl e \<Rightarrow> if \<not> is_kube_not_found e then v else snd (ing_tearDown r (lb_name lb) lb v)))"

definition ing_sweepOne :: "'v ing_controller \<Rightarrow> 'v ingress_rec \<Rightarrow> 'v \<Rightarrow> 'v" where
  "ing_sweepOne C r v =
     (if ir_namespaces r = None \<or> ir_namespaces r = Some [] then v
      else (case ListLoadBalancers (ir_octavia r) v of
              (Inl _, v') \<Rightarrow> v'
            | (Inr all, v') \<Rightarrow> foldl (\<lambda>v lb. ing_sweepLB C r lb v) v' all))"

definition ing_sweep :: "'v ing_controller \<Rightarrow> 'v \<Rightarrow> 'v" where
  "ing_sweep C v = snd (ing_eachReconciler C (\<lambda>r v. (Inr (), ing_sweepOne C r v)) v)"

section \<open>Lemmas\<close>

text \<open>A load balancer the sweep may not delete.\<close>

definition ing_needed :: "'v ing_controller \<Rightarrow> 'v ingress_rec \<Rightarrow> lb \<Rightarrow> bool" where
  "ing_needed C r b \<longleftrightarrow>
     (case ParseLBName (ir_tenant r) (lb_name b) of
        None \<Rightarrow> True
      | Some (ns, n) \<Rightarrow>
          ing_serves C ns \<and>
          (case l_Get (ir_ingresses r) ns n of Inr ing \<Rightarrow> Ours r ing \<and> \<not> in_deleting ing | Inl e \<Rightarrow> \<not> is_kube_not_found e))"

text \<open>
  A sweep keeps the load balancers \<open>B v\<close> when a listing names them by unique identifiers, a deletion
  removes at most the one it names, and no other call of the teardown removes any.
\<close>

definition ing_lb_laws :: "'v ingress_rec \<Rightarrow> ('v \<Rightarrow> lb set) \<Rightarrow> bool" where
  "ing_lb_laws r B \<longleftrightarrow>
     (\<forall>i v. \<forall>b \<in> B v. lb_id b \<noteq> i \<longrightarrow> b \<in> B (snd (lb_Delete (ir_octavia r) i v))) \<and>
     (\<forall>v. B (snd (lb_List (ir_octavia r) None v)) = B v) \<and>
     (\<forall>v all v'. lb_List (ir_octavia r) None v = (Inr all, v') \<longrightarrow> (\<forall>a \<in> set all. \<forall>b \<in> B v. lb_id a = lb_id b \<longrightarrow> a = b)) \<and>
     (case ir_neutron r of None \<Rightarrow> True
      | Some n \<Rightarrow> (\<forall>p v. B (snd (fip_List n p v)) = B v) \<and> (\<forall>i u v. B (snd (fip_Update n i u v)) = B v) \<and> (\<forall>i v. B (snd (fip_Delete n i v)) = B v)) \<and>
     (case ir_keyManager r of None \<Rightarrow> True
      | Some km \<Rightarrow> (\<forall>n v. B (snd (sec_List km n v)) = B v) \<and> (\<forall>i v. B (snd (sec_Delete km i v)) = B v))"

lemma ing_tearDown_keeps:
  assumes "ing_lb_laws r B" and "b \<in> B v" and "lb_id b \<noteq> lb_id a"
  shows "b \<in> B (snd (ing_tearDown r lbname a v))"
proof -
  let ?P = "\<lambda>w. b \<in> B w"
  have fip: "keeps ?P (on_client (ir_neutron r) (\<lambda>n. fip_List n p))" "keeps ?P (on_client (ir_neutron r) (\<lambda>n. fip_Delete n i))"
    "keeps ?P (on_client (ir_neutron r) (\<lambda>n. fip_Update n i u))" for p i u
    using assms(1) by (auto simp: on_client_def ing_lb_laws_def keeps_def split: option.splits)
  have "keeps ?P (releaseFIP r lbname port)" for port
    unfolding releaseFIP_def fipForPort_def using fip by (auto intro!: keeps_bind_a keeps_wrap_err keeps_ignore_if split: option.splits)
  moreover have "keeps ?P (DeleteLoadBalancer (ir_octavia r) (lb_id a))"
    unfolding DeleteLoadBalancer_def using assms(1,3) by (intro keeps_ignore_if keepsI) (auto simp: ing_lb_laws_def)
  moreover have "keeps ?P (cleanupBarbicanSecrets (ir_keyManager r) p ks)" for p ks
  proof (cases "ir_keyManager r")
    case (Some km)
    with assms(1) have "keeps ?P (sec_List km n)" "keeps ?P (sec_Delete km i)" for n i by (simp_all add: ing_lb_laws_def keeps_def)
    with Some show ?thesis
      by (auto simp: cleanupBarbicanSecrets_def intro!: keeps_bind_a keeps_wrap_err keeps_for_each keeps_ignore_if)
  qed (simp add: cleanupBarbicanSecrets_def)
  ultimately have "keeps ?P (ing_tearDown r lbname a)"
    unfolding ing_tearDown_def by (intro keeps_bind_a keeps_ignore_if)
  with assms(2) show ?thesis by (auto dest: keepsD)
qed

lemma ing_sweepLB_keeps:
  assumes "ing_lb_laws r B" and "ing_needed C r b" and "lb_id a = lb_id b \<Longrightarrow> a = b" and "b \<in> B v"
  shows "b \<in> B (ing_sweepLB C r a v)"
proof (cases "lb_id a = lb_id b")
  case True
  with assms show ?thesis by (auto simp: ing_sweepLB_def ing_needed_def split: option.splits sum.splits)
next
  case False
  then have "b \<in> B (snd (ing_tearDown r (lb_name a) a v))" using ing_tearDown_keeps assms(1,4) by metis
  with assms(4) show ?thesis by (auto simp: ing_sweepLB_def split: option.split sum.split)
qed

section \<open>Properties\<close>

text \<open>
  The Ingress sweep deletes no load balancer that is still needed: one that is not an Ingress's of
  this tenant, or whose Ingress is in a served namespace and is there, of this class and not being
  deleted, or could not be looked up; and before the served namespaces are known it touches nothing.
\<close>

theorem ing_sweep_keeps_needed:
  assumes "ing_lb_laws r B" and "b \<in> B v" and "ing_needed C r b"
  shows "b \<in> B (ing_sweepOne C r v) \<and> (ir_namespaces r = None \<or> ir_namespaces r = Some [] \<longrightarrow> ing_sweepOne C r v = v)"
proof -
  obtain q v' where l: "lb_List (ir_octavia r) None v = (q, v')" by (meson surj_pair)
  then have b: "b \<in> B v'" using assms(1,2) unfolding ing_lb_laws_def by (metis snd_conv)
  have "b \<in> B (foldl (\<lambda>v lb. ing_sweepLB C r lb v) v' all)" if "q = Inr all" for all
  proof (rule foldl_keeps [where P = "\<lambda>w. b \<in> B w", OF b])
    fix a w assume "a \<in> set all" and "b \<in> B w"
    moreover have "lb_id a = lb_id b \<Longrightarrow> a = b" using assms(1,2) l that \<open>a \<in> set all\<close> unfolding ing_lb_laws_def by blast
    ultimately show "b \<in> B (ing_sweepLB C r a w)" using ing_sweepLB_keeps [OF assms(1,3)] by blast
  qed
  with b l assms(2) show ?thesis by (cases q) (auto simp: ing_sweepOne_def ListLoadBalancers_def)
qed

text \<open>The load balancers of the Service sweep's sample beside that of an Ingress that is gone.\<close>

definition sample_ing :: ingress_obj where
  "sample_ing = \<lparr>in_namespace = ''prod'', in_name = ''web'', in_annotations = [], in_class = Some ''acme-knaas'', in_deleting = False,
     in_default = None, in_rules = [], in_tls = [], in_status = []\<rparr>"

definition sample_ing_sweeper :: "lb list ingress_rec" where
  "sample_ing_sweeper =
     \<lparr>ir_octavia = sample_lb_api, ir_neutron = None, ir_keyManager = None,
      ir_ingresses = \<lparr>l_List = (\<lambda>_. Inr []), l_In = (\<lambda>_ _. Inr []),
        l_Get = (\<lambda>ns n. if n = ''web'' then Inr sample_ing else Inl (ErrKubeNotFound ''gone''))\<rparr>,
      ir_services = \<lparr>l_List = (\<lambda>_. Inr []), l_In = (\<lambda>_ _. Inr []), l_Get = (\<lambda>_ _. Inl ErrNotFound)\<rparr>,
      ir_slices = \<lparr>l_List = (\<lambda>_. Inr []), l_In = (\<lambda>_ _. Inr []), l_Get = (\<lambda>_ _. Inl ErrNotFound)\<rparr>,
      ir_client = \<lparr>ic_Update = (\<lambda>x. ret x), ic_UpdateStatus = (\<lambda>x. ret x)\<rparr>,
      ir_secrets = (\<lambda>_ _. fail ErrNotFound), ir_subnetFor = (\<lambda>_ _. ret ''s1''), ir_vipSubnet = ''vip'', ir_fipNetwork = ''ext'',
      ir_provider = ''amphora'', ir_className = ''knaas'', ir_tenant = ''acme'', ir_serves = Some (\<lambda>ns. ns = ''prod''), ir_namespaces = Some [''prod''],
      ir_events = False, ir_fromSet = (\<lambda>_. \<lparr>sel_string = [], sel_matches = (\<lambda>_. True)\<rparr>),
      ir_everything = \<lparr>sel_string = [], sel_matches = (\<lambda>_. True)\<rparr>, ir_digest = (\<lambda>s. s), ir_bundle = (\<lambda>c k. Inr (c @ k))\<rparr>"

definition sample_ing_controller :: "lb list ing_controller" where
  "sample_ing_controller = \<lparr>iw_main = sample_ing_sweeper, iw_for = None, iw_each = None\<rparr>"

definition sample_ing_lbs :: "lb list" where
  "sample_ing_lbs = sample_lbs @ [sample_lb ''4'' ''kubezun_acme_ing_prod_old'']"

lemma sample_ing_lb_laws: "ing_lb_laws sample_ing_sweeper set"
  by (auto simp: ing_lb_laws_def sample_ing_sweeper_def sample_lb_api_def quiet_octavia_def distinct_map inj_on_def)

theorem ing_sweep_keeps_needed_witness:
  "sample_lb ''3'' ''kubezun_acme_ing_prod_web'' \<in> set (ing_sweepOne sample_ing_controller sample_ing_sweeper sample_ing_lbs) \<and>
   map lb_id (ing_sweepOne sample_ing_controller sample_ing_sweeper sample_ing_lbs) = [''1'', ''2'', ''3'']"
proof -
  have "ing_needed sample_ing_controller sample_ing_sweeper (sample_lb ''3'' ''kubezun_acme_ing_prod_web'')" by code_simp
  moreover have "sample_lb ''3'' ''kubezun_acme_ing_prod_web'' \<in> set sample_ing_lbs" by (simp add: sample_ing_lbs_def sample_lbs_def)
  moreover have "map lb_id (ing_sweepOne sample_ing_controller sample_ing_sweeper sample_ing_lbs) = [''1'', ''2'', ''3'']" by code_simp
  ultimately show ?thesis using ing_sweep_keeps_needed [OF sample_ing_lb_laws] by blast
qed

end
