(* ===== verification/Volume_Backend.thy ===== *)
theory Volume_Backend
  imports Service_Reconciler "HOL-Library.Signed_Division"
begin

text \<open>
  \<^verbatim>\<open>pkg/volume/backend.go\<close> and \<^verbatim>\<open>expand.go\<close>: the storage behind a claim, a Cinder volume or a Manila
  share: creation, export, access, expansion with its two polling loops, deletion. A nil client is
  \<open>None\<close>; a call on it panics. Sizes are 64-bit integers, with the wrap-around written out.
\<close>

section \<open>Sizes\<close>

definition wrap64 :: "int \<Rightarrow> int" where
  "wrap64 = signed_take_bit 63"

text \<open>\<^verbatim>\<open>int((q.Value() + (1<<30) - 1) / (1<<30))\<close>: the whole gibibytes that hold a number of bytes.\<close>

definition gibOf :: "int \<Rightarrow> int" where
  "gibOf bytes = wrap64 (bytes + 2 ^ 30 - 1) sdiv 2 ^ 30"

text \<open>\<^verbatim>\<open>int64(gib) << 30\<close>.\<close>

definition bytesOf :: "int \<Rightarrow> int" where
  "bytesOf gib = wrap64 (gib * 2 ^ 30)"

section \<open>The services\<close>

definition Block :: string where "Block = ''cinder''"
definition Shared :: string where "Shared = ''manila''"
definition BlockDriver :: string where "BlockDriver = ''cinder.knaas.io''"
definition SharedDriver :: string where "SharedDriver = ''manila.knaas.io''"

record storage =
  st_id :: string
  st_size :: int
  st_status :: string

record storage_opts =
  sto_name :: string
  sto_size :: int
  sto_proto :: string
  sto_type :: string
  sto_az :: string
  sto_description :: string

record export_location =
  ex_path :: string
  ex_adminOnly :: bool
  ex_preferred :: bool

record access_rule =
  ar_id :: string
  ar_to :: string

text \<open>The microversion of an extension is that of the client it is called on, \<open>None\<close> being the shared one's.\<close>

record 'v block_api =
  bl_Get :: "string \<Rightarrow> ('v, storage) act"
  bl_Create :: "storage_opts \<Rightarrow> ('v, storage) act"
  bl_Extend :: "string option \<Rightarrow> string \<Rightarrow> int \<Rightarrow> ('v, unit) act"
  bl_Delete :: "string \<Rightarrow> ('v, unit) act"

record 'v share_api =
  sh_Get :: "string \<Rightarrow> ('v, storage) act"
  sh_Create :: "storage_opts \<Rightarrow> ('v, storage) act"
  sh_Extend :: "string \<Rightarrow> int \<Rightarrow> ('v, unit) act"
  sh_Delete :: "string \<Rightarrow> ('v, unit) act"
  sh_Exports :: "string \<Rightarrow> ('v, export_location list) act"
  sh_Grant :: "string \<Rightarrow> string \<Rightarrow> ('v, unit) act"
  sh_Rules :: "string \<Rightarrow> ('v, access_rule list) act"
  sh_Revoke :: "string \<Rightarrow> string \<Rightarrow> ('v, unit) act"

record 'v backend =
  vb_block :: "'v block_api option"
  vb_shared :: "'v share_api option"
  vb_shareType :: string
  vb_shareProto :: string
  vb_volumeType :: string
  vb_az :: string
  vb_now :: "'v \<Rightarrow> time"
  vb_sleep :: "time \<Rightarrow> ('v, unit) act"

record provisioned =
  pr_kind :: string
  pr_id :: string
  pr_gib :: int

section \<open>Creation, export, access, deletion\<close>

definition no_block :: err where "no_block = ErrText ''this deployment has no block storage endpoint''"
definition no_shared_rwx :: err where "no_shared_rwx = ErrText ''this deployment has no shared filesystem endpoint; ReadWriteMany needs one''"
definition no_shared :: err where "no_shared = ErrText ''this deployment has no shared filesystem endpoint''"
definition unknown_kind :: "string \<Rightarrow> err" where "unknown_kind kind = ErrText (''unknown storage kind '' @ quote_str kind)"

definition BackendCreate :: "'v backend \<Rightarrow> string \<Rightarrow> string \<Rightarrow> int \<Rightarrow> string \<Rightarrow> string \<Rightarrow> string \<Rightarrow> ('v, provisioned) act" where
  "BackendCreate b name kind gib0 description storageType az0 =
     (let az = (if az0 = [] then vb_az b else az0);
          gib = (if gib0 < 1 then 1 else gib0);
          typed = (\<lambda>dflt. if storageType \<noteq> [] then storageType else dflt) in
      if kind = Block then
        (case vb_block b of
           None \<Rightarrow> fail no_block
         | Some c \<Rightarrow>
             bind_a (wrap_err (''creating a '' @ show_int gib @ ''GiB volume'')
               (bl_Create c \<lparr>sto_name = name, sto_size = gib, sto_proto = [], sto_type = typed (vb_volumeType b), sto_az = az, sto_description = description\<rparr>))
               (\<lambda>v. ret \<lparr>pr_kind = Block, pr_id = st_id v, pr_gib = st_size v\<rparr>))
      else if kind = Shared then
        (case vb_shared b of
           None \<Rightarrow> fail no_shared_rwx
         | Some c \<Rightarrow>
             bind_a (wrap_err (''creating a '' @ show_int gib @ ''GiB share'')
               (sh_Create c \<lparr>sto_name = name, sto_size = gib, sto_proto = (if vb_shareProto b = [] then ''NFS'' else vb_shareProto b),
                  sto_type = typed (vb_shareType b), sto_az = az, sto_description = description\<rparr>))
               (\<lambda>s. ret \<lparr>pr_kind = Shared, pr_id = st_id s, pr_gib = st_size s\<rparr>))
      else fail (unknown_kind kind))"

definition chosenExport :: "export_location list \<Rightarrow> string" where
  "chosenExport locations =
     (case find (\<lambda>l. \<not> ex_adminOnly l \<and> ex_preferred l) locations of
        Some l \<Rightarrow> ex_path l
      | None \<Rightarrow> (case find (\<lambda>l. \<not> ex_adminOnly l) locations of Some l \<Rightarrow> ex_path l | None \<Rightarrow> []))"

definition ExportOf :: "'v backend \<Rightarrow> string \<Rightarrow> ('v, string) act" where
  "ExportOf b shareID = bind_a (on_client (vb_shared b) (\<lambda>c. sh_Exports c shareID)) (\<lambda>locations. ret (chosenExport locations))"

definition isAlreadyGranted :: "err \<Rightarrow> bool" where
  "isAlreadyGranted e \<longleftrightarrow> response_code_is e 400 \<and> contains_str (to_lower (err_text e)) ''exist''"

definition Grant :: "'v backend \<Rightarrow> string \<Rightarrow> string \<Rightarrow> ('v, unit) act" where
  "Grant b shareID client =
     wrap_err (''granting '' @ client @ '' access to share '' @ shareID)
       (ignore_if isAlreadyGranted (on_client (vb_shared b) (\<lambda>c. sh_Grant c shareID client)))"

definition Revoke :: "'v backend \<Rightarrow> string \<Rightarrow> string \<Rightarrow> ('v, unit) act" where
  "Revoke b shareID client =
     bind_a (on_client (vb_shared b) (\<lambda>c. sh_Rules c shareID)) (\<lambda>rules.
     for_each (\<lambda>x. if ar_to x \<noteq> client then ret () else on_client (vb_shared b) (\<lambda>c. sh_Revoke c shareID (ar_id x))) rules)"

text \<open>What is already gone is deleted; a kind that is none of the two is nothing to delete.\<close>

definition BackendDelete :: "'v backend \<Rightarrow> string \<Rightarrow> string \<Rightarrow> ('v, unit) act" where
  "BackendDelete b kind i =
     (if kind = Block then ignore_if (\<lambda>e. response_code_is e 404) (on_client (vb_block b) (\<lambda>c. bl_Delete c i))
      else if kind = Shared then ignore_if (\<lambda>e. response_code_is e 404) (on_client (vb_shared b) (\<lambda>c. sh_Delete c i))
      else ret ())"

section \<open>Expansion\<close>

definition extendSettle :: time where "extendSettle = 2 * minute"
definition extendPoll :: time where "extendPoll = 3 * second"

definition not_extended :: "string \<Rightarrow> int \<Rightarrow> storage \<Rightarrow> err" where
  "not_extended i want s = ErrText (i @ '' could not be extended to '' @ show_int want @ ''GiB; it is '' @ st_status s @ '' at '' @ show_int (st_size s) @ ''GiB'')"

definition settled_short :: "string \<Rightarrow> int \<Rightarrow> storage \<Rightarrow> err" where
  "settled_short i want s = ErrText (i @ '' settled at '' @ show_int (st_size s) @ ''GiB, short of the '' @ show_int want @ ''GiB asked for'')"

definition still_extending :: "string \<Rightarrow> err" where
  "still_extending i = ErrText (i @ '' was still extending after 2m0s'')"

definition await_cut :: err where "await_cut = ErrPanic ''the wait for an extension was cut short''"

text \<open>
  \<^verbatim>\<open>awaitBlockSize\<close> and \<^verbatim>\<open>awaitShareSize\<close> are one loop over the service they read and the status that
  reports a failure, with fuel; running out of it is a value no other branch has.
\<close>

fun awaitLoop :: "nat \<Rightarrow> 'v backend \<Rightarrow> ('v, storage) act \<Rightarrow> string \<Rightarrow> string \<Rightarrow> int \<Rightarrow> time \<Rightarrow> ('v, int) act" where
  "awaitLoop 0 b get failed i want deadline = fail await_cut"
| "awaitLoop (Suc n) b get failed i want deadline =
     (\<lambda>v. if vb_now b v < deadline then
            bind_a get (\<lambda>s.
              if st_status s = ''extending'' then bind_a (vb_sleep b extendPoll) (\<lambda>_. awaitLoop n b get failed i want deadline)
              else if st_status s = failed then fail (not_extended i want s)
              else if st_size s \<ge> want then ret (st_size s)
              else fail (settled_short i want s)) v
          else fail (still_extending i) v)"

definition awaitFuel :: nat where "awaitFuel = 41"

definition awaitSize :: "'v backend \<Rightarrow> ('v, storage) act \<Rightarrow> string \<Rightarrow> string \<Rightarrow> int \<Rightarrow> ('v, int) act" where
  "awaitSize b get failed i want v = awaitLoop awaitFuel b get failed i want (vb_now b v + extendSettle) v"

definition awaitBlockSize :: "'v backend \<Rightarrow> string \<Rightarrow> int \<Rightarrow> ('v, int) act" where
  "awaitBlockSize b i want = awaitSize b (on_client (vb_block b) (\<lambda>c. bl_Get c i)) ''error_extending'' (''volume '' @ i) want"

definition awaitShareSize :: "'v backend \<Rightarrow> string \<Rightarrow> int \<Rightarrow> ('v, int) act" where
  "awaitShareSize b i want = awaitSize b (on_client (vb_shared b) (\<lambda>c. sh_Get c i)) ''extending_error'' (''share '' @ i) want"

definition Expand :: "'v backend \<Rightarrow> string \<Rightarrow> string \<Rightarrow> int \<Rightarrow> ('v, int) act" where
  "Expand b kind i gib =
     (if kind = Block then
        (case vb_block b of
           None \<Rightarrow> fail no_block
         | Some c \<Rightarrow>
             bind_a (wrap_err (''reading volume '' @ i) (bl_Get c i)) (\<lambda>current.
             if st_size current \<ge> gib then ret (st_size current)
             else bind_a (wrap_err (''extending volume '' @ i @ '' to '' @ show_int gib @ ''GiB'')
                    (bl_Extend c (if st_status current = ''in-use'' then Some ''3.42'' else None) i gib)) (\<lambda>_.
                  awaitBlockSize b i gib)))
      else if kind = Shared then
        (case vb_shared b of
           None \<Rightarrow> fail no_shared
         | Some c \<Rightarrow>
             bind_a (wrap_err (''reading share '' @ i) (sh_Get c i)) (\<lambda>current.
             if st_size current \<ge> gib then ret (st_size current)
             else bind_a (wrap_err (''extending share '' @ i @ '' to '' @ show_int gib @ ''GiB'') (sh_Extend c i gib)) (\<lambda>_.
                  awaitShareSize b i gib)))
      else fail (unknown_kind kind))"

section \<open>Lemmas\<close>

lemma wrap64_id: "- (2 ^ 63) \<le> x \<Longrightarrow> x < 2 ^ 63 \<Longrightarrow> wrap64 x = x"
  unfolding wrap64_def by (rule signed_take_bit_int_eq_self) simp_all

lemma wrap64_above: "2 ^ 63 \<le> x \<Longrightarrow> x < 2 ^ 64 \<Longrightarrow> wrap64 x = x - 2 ^ 64"
proof -
  assume "2 ^ 63 \<le> x" and "x < 2 ^ 64"
  then have "(x + 2 ^ 63 - 2 ^ 64) mod 2 ^ 64 = x + 2 ^ 63 - 2 ^ 64" by (intro mod_pos_pos_trivial) simp_all
  then have "(x + 2 ^ 63) mod 2 ^ 64 = x + 2 ^ 63 - 2 ^ 64" unfolding minus_mod_self2 .
  then show ?thesis unfolding wrap64_def signed_take_bit_eq_take_bit_shift take_bit_eq_mod by simp
qed

lemma gibOf_ceiling:
  assumes "0 \<le> bytes" and "bytes \<le> 2 ^ 63 - 2 ^ 30"
  shows "gibOf bytes = (bytes + 2 ^ 30 - 1) div 2 ^ 30"
proof -
  have "wrap64 (bytes + 2 ^ 30 - 1) = bytes + 2 ^ 30 - 1" using assms by (intro wrap64_id) simp_all
  then show ?thesis using assms(1) by (simp add: gibOf_def signed_divide_int_def)
qed

text \<open>Reads do not turn the clock back, and a pause that was not cut short lasts as long as asked.\<close>

definition storage_clock :: "'v backend \<Rightarrow> bool" where
  "storage_clock b \<longleftrightarrow>
     (\<forall>d v v'. vb_sleep b d v = (Inr (), v') \<longrightarrow> vb_now b v + d \<le> vb_now b v') \<and> (\<forall>d v. fst (vb_sleep b d v) \<noteq> Inl await_cut) \<and>
     (case vb_block b of None \<Rightarrow> True | Some c \<Rightarrow>
        (\<forall>i v. vb_now b v \<le> vb_now b (snd (bl_Get c i v)) \<and> fst (bl_Get c i v) \<noteq> Inl await_cut) \<and> (\<forall>m i g v. fst (bl_Extend c m i g v) \<noteq> Inl await_cut)) \<and>
     (case vb_shared b of None \<Rightarrow> True | Some c \<Rightarrow>
        (\<forall>i v. vb_now b v \<le> vb_now b (snd (sh_Get c i v)) \<and> fst (sh_Get c i v) \<noteq> Inl await_cut) \<and> (\<forall>i g v. fst (sh_Extend c i g v) \<noteq> Inl await_cut))"

definition steady_read :: "'v backend \<Rightarrow> ('v, storage) act \<Rightarrow> bool" where
  "steady_read b get \<longleftrightarrow> (\<forall>v. vb_now b v \<le> vb_now b (snd (get v)) \<and> fst (get v) \<noteq> Inl await_cut)"

lemma awaitLoop_returns:
  assumes clock: "storage_clock b" and get: "steady_read b get" and "deadline \<le> vb_now b v + extendPoll * int k"
  shows "fst (awaitLoop (Suc k) b get failed i want deadline v) \<noteq> Inl await_cut \<and>
    awaitLoop (Suc k + m) b get failed i want deadline v = awaitLoop (Suc k) b get failed i want deadline v"
  using assms(3)
proof (induction k arbitrary: v)
  case 0
  then show ?case by (simp add: fail_def still_extending_def await_cut_def)
next
  case (Suc k)
  obtain q v1 where g: "get v = (q, v1)" by (meson surj_pair)
  with get have le: "vb_now b v \<le> vb_now b v1" and q: "q \<noteq> Inl await_cut" unfolding steady_read_def by (metis fst_conv snd_conv)+
  obtain z v2 where sl: "vb_sleep b extendPoll v1 = (z, v2)" by (meson surj_pair)
  have z: "z \<noteq> Inl await_cut" using clock sl unfolding storage_clock_def by (metis fst_conv)
  have rest: "fst (awaitLoop (Suc k) b get failed i want deadline v2) \<noteq> Inl await_cut \<and>
      awaitLoop (Suc k + m) b get failed i want deadline v2 = awaitLoop (Suc k) b get failed i want deadline v2" if "z = Inr ()"
  proof (rule Suc.IH)
    have "vb_now b v1 + extendPoll \<le> vb_now b v2" using clock sl that unfolding storage_clock_def by blast
    then show "deadline \<le> vb_now b v2 + extendPoll * int k" using le Suc.prems by (simp add: algebra_simps)
  qed
  show ?case
  proof (cases q)
    case (Inr s)
    with g sl z rest show ?thesis
      by (cases z) (auto simp: bind_a_def fail_def ret_def not_extended_def settled_short_def still_extending_def await_cut_def)
  qed (use g q in \<open>auto simp: bind_a_def fail_def still_extending_def await_cut_def\<close>)
qed

lemma awaitSize_returns:
  assumes "storage_clock b" and "steady_read b get"
  shows "fst (awaitSize b get failed i want v) \<noteq> Inl await_cut"
    "awaitLoop (41 + m) b get failed i want (vb_now b v + extendSettle) v = awaitSize b get failed i want v"
  using awaitLoop_returns [OF assms, of "vb_now b v + extendSettle" v 40] by (simp_all add: awaitSize_def awaitFuel_def extendSettle_def extendPoll_def)

lemma awaitLoop_reaches: "awaitLoop n b get failed i want deadline v = (Inr g, v') \<Longrightarrow> want \<le> g"
  by (induction n arbitrary: v) (auto simp: act_simps split: if_splits)

lemma steady_block: "storage_clock b \<Longrightarrow> steady_read b (on_client (vb_block b) (\<lambda>c. bl_Get c i))"
  by (auto simp: storage_clock_def steady_read_def on_client_def nil_client_def await_cut_def fail_def split: option.splits)

lemma steady_share: "storage_clock b \<Longrightarrow> steady_read b (on_client (vb_shared b) (\<lambda>c. sh_Get c i))"
  by (auto simp: storage_clock_def steady_read_def on_client_def nil_client_def await_cut_def fail_def split: option.splits)

lemma fst_bind_a: "fst (bind_a m f v) = (case fst (m v) of Inl e \<Rightarrow> Inl e | Inr x \<Rightarrow> fst (f x (snd (m v))))"
  by (simp add: bind_a_def case_prod_beta split: sum.split)

lemma fst_wrap_err: "fst (wrap_err p m v) = (case fst (m v) of Inl e \<Rightarrow> Inl (ErrWrap p e) | Inr x \<Rightarrow> Inr x)"
  by (simp add: wrap_err_def case_prod_beta split: sum.split)

section \<open>Properties\<close>

text \<open>
  C27. An expansion ends and is believed only when it happened: the wait for Cinder or Manila stays
  within its fuel, whatever they answer, so it returns an answer of its own and more fuel would
  change nothing, and a size that is reported is at least the size asked for.
\<close>

theorem Expand_returns:
  assumes "storage_clock b"
  shows "fst (Expand b kind i gib v) \<noteq> Inl await_cut \<and>
    (case fst (Expand b kind i gib v) of Inl _ \<Rightarrow> True | Inr got \<Rightarrow> gib \<le> got) \<and>
    awaitLoop (41 + m) b (on_client (vb_block b) (\<lambda>c. bl_Get c i)) ''error_extending'' (''volume '' @ i) gib (vb_now b v + 2 * minute) v
      = awaitBlockSize b i gib v"
proof -
  note steady = steady_block [OF assms, of i] steady_share [OF assms, of i]
  have reach: "gib \<le> got" if "awaitSize b get failed name gib w = (Inr got, w')" for get failed name w w' got
    by (rule awaitLoop_reaches [OF that [unfolded awaitSize_def]])
  have ret: "fst (awaitBlockSize b i gib w) \<noteq> Inl await_cut" "fst (awaitShareSize b i gib w) \<noteq> Inl await_cut" for w
    unfolding awaitBlockSize_def awaitShareSize_def using awaitSize_returns(1) [OF assms] steady by blast+
  have "fst (Expand b kind i gib v) \<noteq> Inl await_cut"
    using ret by (auto simp: Expand_def fst_bind_a fst_wrap_err no_block_def no_shared_def unknown_kind_def await_cut_def fail_def ret_def
      split: option.splits sum.splits if_splits)
  moreover have "gib \<le> got" if "Expand b kind i gib v = (Inr got, v')" for got v'
    using that by (auto simp: Expand_def act_simps awaitBlockSize_def awaitShareSize_def dest: reach split: option.splits if_splits)
  then have "case fst (Expand b kind i gib v) of Inl _ \<Rightarrow> True | Inr got \<Rightarrow> gib \<le> got" by (metis (no_types, lifting) prod.collapse sum.case_eq_if sum.collapse(2))
  moreover have "awaitLoop (41 + m) b (on_client (vb_block b) (\<lambda>c. bl_Get c i)) ''error_extending'' (''volume '' @ i) gib (vb_now b v + 2 * minute) v
      = awaitBlockSize b i gib v"
    using awaitSize_returns(2) [OF assms steady(1)] by (simp add: awaitBlockSize_def extendSettle_def)
  ultimately show ?thesis by blast
qed

text \<open>A volume that takes two polls to grow: the time, its size, the size it is growing to and the polls left.\<close>

type_synonym grow_mem = "int \<times> int \<times> int \<times> nat"

definition sample_block :: "grow_mem block_api" where
  "sample_block =
     \<lparr>bl_Get = (\<lambda>i (t, size, goal, polls). (Inr \<lparr>st_id = i, st_size = (if polls = 0 then goal else size), st_status = (if polls = 0 then ''in-use'' else ''extending'')\<rparr>,
        (t, if polls = 0 then goal else size, goal, polls - 1))),
      bl_Create = (\<lambda>_. fail ErrNotFound), bl_Extend = (\<lambda>_ _ g (t, size, goal, polls). (Inr (), (t, size, g, 2))), bl_Delete = (\<lambda>_. ret ())\<rparr>"

definition sample_backend :: "grow_mem backend" where
  "sample_backend = \<lparr>vb_block = Some sample_block, vb_shared = None, vb_shareType = [], vb_shareProto = [], vb_volumeType = [], vb_az = [],
     vb_now = fst, vb_sleep = (\<lambda>d (t, m). (Inr (), (t + max 0 d, m)))\<rparr>"

lemma sample_storage_clock: "storage_clock sample_backend"
  by (auto simp: storage_clock_def sample_backend_def sample_block_def)

theorem Expand_returns_witness:
  "fst (Expand sample_backend Block ''v1'' 20 (0, 10, 10, 0)) \<noteq> Inl await_cut \<and> fst (Expand sample_backend Block ''v1'' 20 (0, 10, 10, 0)) = Inr 20"
proof -
  have "fst (Expand sample_backend Block ''v1'' 20 (0, 10, 10, 0)) = Inr 20" by code_simp
  with Expand_returns [OF sample_storage_clock, of Block "''v1''" 20 "(0, 10, 10, 0)" 0] show ?thesis by blast
qed

text \<open>
  C28. A claim is given enough and not a gibibyte too much: for every request up to \<open>2\<^sup>6\<^sup>3 - 2\<^sup>3\<^sup>0\<close> bytes
  the size in gibibytes, computed in 64 bits, holds the request, one less would not, and turning it
  back into bytes does not wrap around.
\<close>

theorem gib_holds_request:
  assumes "0 \<le> bytes" and "bytes \<le> 2 ^ 63 - 2 ^ 30"
  shows "bytes \<le> gibOf bytes * 2 ^ 30 \<and> (gibOf bytes - 1) * 2 ^ 30 < bytes \<and> bytesOf (gibOf bytes) = gibOf bytes * 2 ^ 30"
proof -
  have g: "gibOf bytes = (bytes + 1073741823) div 1073741824" using gibOf_ceiling [OF assms] by simp
  let ?r = "(bytes + 1073741823) mod 1073741824"
  have r: "gibOf bytes * 1073741824 + ?r = bytes + 1073741823" "0 \<le> ?r" "?r < 1073741824"
    unfolding g by (simp_all only: div_mult_mod_eq)
  then have le: "bytes \<le> gibOf bytes * 1073741824" "(gibOf bytes - 1) * 1073741824 < bytes"
    unfolding left_diff_distrib by linarith+
  have "(gibOf bytes - 1) * 1073741824 < 8589934591 * 1073741824" using le(2) assms(2) by simp
  then have "gibOf bytes \<le> 8589934591" by simp
  then have "gibOf bytes * 1073741824 < 9223372036854775808" "- 9223372036854775808 \<le> gibOf bytes * 1073741824"
    using le(1) assms(1) by simp_all
  with le show ?thesis using wrap64_id [of "gibOf bytes * 1073741824"] by (simp add: bytesOf_def)
qed

theorem gib_holds_request_witness:
  "(5 :: int) * 10 ^ 9 \<le> gibOf (5 * 10 ^ 9) * 2 ^ 30 \<and> gibOf (5 * 10 ^ 9) = 5"
proof -
  have "gibOf (5 * 10 ^ 9) = 5" by code_simp
  with gib_holds_request [of "5 * 10 ^ 9"] show ?thesis by simp
qed

text \<open>Above that the sum wraps around, and the storage created is of one gibibyte.\<close>

theorem huge_request_wraps:
  assumes "2 ^ 63 - 2 ^ 30 < bytes" and "bytes < 2 ^ 63"
  shows "gibOf bytes < 1"
proof -
  have "wrap64 (bytes + 2 ^ 30 - 1) = bytes + 2 ^ 30 - 1 - 2 ^ 64" using assms by (intro wrap64_above) simp_all
  then have "wrap64 (bytes + 2 ^ 30 - 1) < 0" using assms by simp
  then show ?thesis unfolding gibOf_def by (simp add: signed_divide_int_def sgn_if)
qed

end
