(* ===== verification/Volume_Reconciler.thy ===== *)
theory Volume_Reconciler
  imports Volume_Backend
begin

text \<open>
  \<^verbatim>\<open>pkg/volume/reconciler.go\<close>, \<^verbatim>\<open>controller.go\<close> and \<^verbatim>\<open>pkg/zun/extend.go\<close>: a tenant's claims turned into
  storage, its expansion, its mount, and the sweep of what released volumes leave behind. A quantity
  is a whole number of bytes.
\<close>

section \<open>Objects\<close>

text \<open>
  The storage entry of each resource list of a claim; \<open>None\<close> is a list without it, which for the
  decoded allocation is the nil map.
\<close>

record claim =
  cl_namespace :: string
  cl_name :: string
  cl_uid :: string
  cl_annotations :: labels
  cl_class :: "string option"
  cl_accessModes :: "string list"
  cl_deleting :: bool
  cl_volumeName :: string
  cl_request :: "int option"
  cl_capacity :: "int option"
  cl_allocated :: "int option"
  cl_allocStatus :: "string option"

record csi_source =
  csi_driver :: string
  csi_handle :: string
  csi_export :: string

record volume =
  pv_name :: string
  pv_annotations :: labels
  pv_accessModes :: "string list"
  pv_capacity :: "int option"
  pv_reclaim :: string
  pv_class :: string
  pv_claim :: "(string \<times> string \<times> string) option"
  pv_csi :: "csi_source option"
  pv_affinity :: "(string \<times> string) list option"
  pv_phase :: string

record storage_class =
  sc_name :: string
  sc_provisioner :: string
  sc_parameters :: labels
  sc_bindingMode :: "string option"

text \<open>A pod as the volume controller reads it: the claims its volumes name.\<close>

record claim_pod =
  cp_namespace :: string
  cp_name :: string
  cp_uid :: string
  cp_claims :: "string list"

record placement =
  pl_zone :: string
  pl_az :: string
  pl_region :: string

record 'v volume_client =
  vc_CreatePV :: "volume \<Rightarrow> ('v, volume) act"
  vc_GetPV :: "string \<Rightarrow> ('v, volume) act"
  vc_UpdatePV :: "volume \<Rightarrow> ('v, volume) act"
  vc_DeletePV :: "string \<Rightarrow> ('v, unit) act"
  vc_GetPVC :: "string \<Rightarrow> string \<Rightarrow> ('v, claim) act"
  vc_UpdateStatusPVC :: "claim \<Rightarrow> ('v, claim) act"

text \<open>
  \<open>vr_alreadyExists\<close> is \<^verbatim>\<open>apierrors.IsAlreadyExists\<close>; \<open>vr_sameQuantity\<close> is Go's \<^verbatim>\<open>==\<close> on a quantity of the
  volume and a new one, which compares representations, \<open>vr_quantityText\<close> the text of a new one; \<open>vr_extend\<close> is the request \<^verbatim>\<open>ExtendVolume\<close>
  sends, \<open>vr_report\<close> the recording of an event.
\<close>

record 'v volume_rec =
  vr_backend :: "'v backend"
  vr_claims :: "claim lister"
  vr_volumes :: "volume list result"
  vr_volume :: "string \<Rightarrow> volume result"
  vr_classes :: "(string \<Rightarrow> storage_class result) option"
  vr_client :: "'v volume_client"
  vr_extend :: "(string \<Rightarrow> string \<Rightarrow> int \<Rightarrow> ('v, unit) act) option"
  vr_pods :: "(string \<Rightarrow> claim_pod list result) option"
  vr_placementOf :: "(string \<Rightarrow> placement option) option"
  vr_tenant :: string
  vr_serves :: "string \<Rightarrow> bool"
  vr_alreadyExists :: "err \<Rightarrow> bool"
  vr_sameQuantity :: "int option \<Rightarrow> int \<Rightarrow> bool"
  vr_quantityText :: "int \<Rightarrow> string"
  vr_report :: "claim \<Rightarrow> string \<Rightarrow> string \<Rightarrow> 'v \<Rightarrow> 'v"

definition KindAnnotation :: string where "KindAnnotation = ''knaas.io/storage-kind''"
definition IDAnnotation :: string where "IDAnnotation = ''knaas.io/storage-id''"
definition ExportAnnotation :: string where "ExportAnnotation = ''knaas.io/storage-export''"
definition provisionerAnnotation :: string where "provisionerAnnotation = ''volume.kubernetes.io/storage-provisioner''"
definition selectedNodeAnnotation :: string where "selectedNodeAnnotation = ''volume.kubernetes.io/selected-node''"

definition ControllerResizeInProgress :: string where "ControllerResizeInProgress = ''ControllerResizeInProgress''"
definition ControllerResizeInfeasible :: string where "ControllerResizeInfeasible = ''ControllerResizeInfeasible''"
definition NodeResizeInProgress :: string where "NodeResizeInProgress = ''NodeResizeInProgress''"

definition claim_key :: "claim \<Rightarrow> string" where
  "claim_key c = cl_namespace c @ ''/'' @ cl_name c"

section \<open>What a claim gets\<close>

definition storageName :: "'v volume_rec \<Rightarrow> string \<Rightarrow> string \<Rightarrow> string" where
  "storageName r namespace name =
     (if vr_tenant r \<noteq> [] then ''kubezun_'' @ vr_tenant r @ ''_pvc_'' @ namespace @ ''_'' @ name
      else ''kubezun_pvc_'' @ namespace @ ''_'' @ name)"

definition pvName :: "claim \<Rightarrow> string" where
  "pvName c = ''pvc-'' @ cl_uid c"

definition classOf :: "'v volume_rec \<Rightarrow> claim \<Rightarrow> storage_class option" where
  "classOf r c =
     (case (cl_class c, vr_classes r) of
        (Some name, Some get) \<Rightarrow>
          (case get name of
             Inr sc \<Rightarrow> Some sc
           | Inl _ \<Rightarrow>
               if vr_tenant r \<noteq> [] \<and> has_prefix name (vr_tenant r @ ''-'')
               then (case get (trim_prefix name (vr_tenant r @ ''-'')) of Inr sc \<Rightarrow> Some sc | Inl _ \<Rightarrow> None)
               else None)
      | _ \<Rightarrow> None)"

definition vol_Ours :: "'v volume_rec \<Rightarrow> claim \<Rightarrow> bool" where
  "vol_Ours r c \<longleftrightarrow>
     (case classOf r c of None \<Rightarrow> False | Some sc \<Rightarrow> sc_provisioner sc = BlockDriver \<or> sc_provisioner sc = SharedDriver)"

definition planFor :: "'v volume_rec \<Rightarrow> claim \<Rightarrow> (string \<times> string) result" where
  "planFor r c =
     (case classOf r c of
        None \<Rightarrow> Inl (ErrText (''claim '' @ claim_key c @ '' names no catalog class''))
      | Some sc \<Rightarrow>
          if sc_provisioner sc = BlockDriver then
            (case find (\<lambda>m. m = ''ReadWriteMany'' \<or> m = ''ReadOnlyMany'') (cl_accessModes c) of
               Some m \<Rightarrow> Inl (ErrText (''class '' @ sc_name sc @ '' is a block device and cannot serve '' @ m @ ''; use a shared filesystem class''))
             | None \<Rightarrow> Inr (Block, label_of (sc_parameters sc) ''type''))
          else if sc_provisioner sc = SharedDriver then Inr (Shared, label_of (sc_parameters sc) ''share_type'')
          else Inl (ErrText (''class '' @ sc_name sc @ '' is not served here'')))"

definition waitingForConsumer :: "'v volume_rec \<Rightarrow> claim \<Rightarrow> bool" where
  "waitingForConsumer r c \<longleftrightarrow>
     (case classOf r c of
        None \<Rightarrow> False
      | Some sc \<Rightarrow> sc_bindingMode sc = Some ''WaitForFirstConsumer'' \<and> label_of (cl_annotations c) selectedNodeAnnotation = [])"

definition placementFor :: "'v volume_rec \<Rightarrow> claim \<Rightarrow> placement" where
  "placementFor r c =
     (let where = \<lparr>pl_zone = [], pl_az = vb_az (vr_backend r), pl_region = []\<rparr>;
          node = label_of (cl_annotations c) selectedNodeAnnotation in
      if node = [] then where
      else (case vr_placementOf r of
              None \<Rightarrow> where
            | Some f \<Rightarrow> (case f node of None \<Rightarrow> where | Some p \<Rightarrow> where\<lparr>pl_zone := pl_zone p, pl_region := pl_region p\<rparr>)))"

definition nodeAffinityFor :: "placement \<Rightarrow> (string \<times> string) list option" where
  "nodeAffinityFor where =
     (let match = filter (\<lambda>(k, x). x \<noteq> []) [(''topology.kubernetes.io/region'', pl_region where), (''topology.kubernetes.io/zone'', pl_zone where)] in
      if match = [] then None else Some match)"

section \<open>Provisioning\<close>

definition volumeFor :: "claim \<Rightarrow> provisioned \<Rightarrow> string \<Rightarrow> placement \<Rightarrow> volume" where
  "volumeFor c made export where =
     (let driver = (if pr_kind made = Shared then SharedDriver else BlockDriver) in
      \<lparr>pv_name = pvName c,
       pv_annotations = [(KindAnnotation, pr_kind made), (IDAnnotation, pr_id made), (ExportAnnotation, export), (provisionerAnnotation, driver)],
       pv_accessModes = cl_accessModes c, pv_capacity = Some (bytesOf (pr_gib made)),
       pv_reclaim = (if label_of (cl_annotations c) ''knaas.io/reclaim-policy'' = ''Retain'' then ''Retain'' else ''Delete''),
       pv_class = (case cl_class c of None \<Rightarrow> [] | Some n \<Rightarrow> n), pv_claim = Some (cl_namespace c, cl_name c, cl_uid c),
       pv_csi = Some \<lparr>csi_driver = driver, csi_handle = pr_id made, csi_export = export\<rparr>,
       pv_affinity = nodeAffinityFor where, pv_phase = []\<rparr>)"

text \<open>A share whose export cannot be read yet is recorded without one.\<close>

definition exportFor :: "'v volume_rec \<Rightarrow> provisioned \<Rightarrow> ('v, string) act" where
  "exportFor r made v =
     (if pr_kind made = Shared then
        (case ExportOf (vr_backend r) (pr_id made) v of (Inr e, v') \<Rightarrow> (Inr e, v') | (Inl _, v') \<Rightarrow> (Inr [], v'))
      else (Inr [], v))"

definition discard :: "'v volume_rec \<Rightarrow> provisioned \<Rightarrow> 'v \<Rightarrow> 'v" where
  "discard r made v = snd (BackendDelete (vr_backend r) (pr_kind made) (pr_id made) v)"

definition createVolume :: "'v volume_rec \<Rightarrow> claim \<Rightarrow> provisioned \<Rightarrow> volume \<Rightarrow> ('v, volume) act" where
  "createVolume r c made pv v =
     (case vc_CreatePV (vr_client r) pv v of
        (Inr created, v') \<Rightarrow> (Inr created, v')
      | (Inl e, v') \<Rightarrow>
          if vr_alreadyExists r e then vc_GetPV (vr_client r) (pv_name pv) (discard r made v')
          else (Inl (ErrWrap (''creating the volume for claim '' @ claim_key c) e), discard r made v'))"

definition provision :: "'v volume_rec \<Rightarrow> claim \<Rightarrow> string \<Rightarrow> string \<Rightarrow> ('v, volume) act" where
  "provision r c kind storageType =
     (let gib = gibOf (case cl_request c of None \<Rightarrow> 0 | Some q \<Rightarrow> q); where = placementFor r c in
      bind_a (BackendCreate (vr_backend r) (storageName r (cl_namespace c) (cl_name c)) kind gib
                (''kubezun claim '' @ claim_key c) storageType (pl_az where)) (\<lambda>made.
      bind_a (exportFor r made) (\<lambda>export.
      createVolume r c made (volumeFor c made export where))))"

section \<open>Expansion\<close>

definition provisionedByUs :: "volume \<Rightarrow> bool" where
  "provisionedByUs pv \<longleftrightarrow> (case pv_csi pv of None \<Rightarrow> False | Some s \<Rightarrow> csi_driver s = BlockDriver \<or> csi_driver s = SharedDriver)"

definition nil_map :: err where "nil_map = ErrPanic ''assignment to entry in nil map''"

definition settleAllocation :: "'v volume_rec \<Rightarrow> claim \<Rightarrow> int \<Rightarrow> int \<Rightarrow> ('v, unit) act" where
  "settleAllocation r c want held =
     (case cl_allocated c of
        None \<Rightarrow> ret ()
      | Some allocated \<Rightarrow>
          if allocated \<le> want then ret ()
          else if cl_allocStatus c \<noteq> None then ret ()
          else if held > want then ret ()
          else bind_a (vc_GetPVC (vr_client r) (cl_namespace c) (cl_name c)) (\<lambda>fresh.
               if cl_allocated fresh = None then fail nil_map
               else bind_a (vc_UpdateStatusPVC (vr_client r) (fresh\<lparr>cl_allocated := Some want\<rparr>)) (\<lambda>_. ret ())))"

text \<open>The two cases in which nothing is written, then what is.\<close>

definition recorded_already :: "claim \<Rightarrow> int \<Rightarrow> string \<Rightarrow> bool" where
  "recorded_already fresh bytes state \<longleftrightarrow>
     (case cl_allocated fresh of
        None \<Rightarrow> False
      | Some already \<Rightarrow>
          already \<ge> bytes \<and> (case cl_allocStatus fresh of None \<Rightarrow> [] | Some s \<Rightarrow> s) = state \<or>
          already = bytes \<and> cl_allocStatus fresh = Some ControllerResizeInfeasible \<and> state = ControllerResizeInProgress)"

definition recordAllocation :: "'v volume_rec \<Rightarrow> claim \<Rightarrow> int \<Rightarrow> string \<Rightarrow> ('v, unit) act" where
  "recordAllocation r c bytes state =
     bind_a (vc_GetPVC (vr_client r) (cl_namespace c) (cl_name c)) (\<lambda>fresh.
     if recorded_already fresh bytes state then ret ()
     else bind_a (wrap_err (''recording what '' @ claim_key c @ '' is being grown to'')
            (vc_UpdateStatusPVC (vr_client r)
              (fresh\<lparr>cl_allocated := (case cl_allocated fresh of Some already \<Rightarrow> if already < bytes then Some bytes else Some already | None \<Rightarrow> Some bytes),
                     cl_allocStatus := Some state\<rparr>))) (\<lambda>_. ret ()))"

definition usesClaim :: "claim_pod \<Rightarrow> string \<Rightarrow> bool" where
  "usesClaim p name \<longleftrightarrow> name \<in> set (cp_claims p)"

definition extend_args :: err where "extend_args = ErrText ''a pod UID and a volume id are required to extend''"

definition ExtendVolume :: "(string \<Rightarrow> string \<Rightarrow> int \<Rightarrow> ('v, unit) act) \<Rightarrow> string \<Rightarrow> string \<Rightarrow> int \<Rightarrow> ('v, unit) act" where
  "ExtendVolume post podUID volumeID gib =
     (if podUID = [] \<or> volumeID = [] then fail extend_args
      else with_err translate_err (post (''kubezun-'' @ podUID) volumeID gib))"

text \<open>Every pod is tried; the last failure is the answer.\<close>

fun growLoop :: "(string \<Rightarrow> string \<Rightarrow> int \<Rightarrow> ('v, unit) act) \<Rightarrow> string \<Rightarrow> int \<Rightarrow> err option \<Rightarrow> claim_pod list \<Rightarrow> ('v, unit) act" where
  "growLoop post volumeID gib failed [] = (case failed of None \<Rightarrow> ret () | Some e \<Rightarrow> fail e)"
| "growLoop post volumeID gib failed (p # ps) =
     (\<lambda>v. case ExtendVolume post (cp_uid p) volumeID gib v of
            (Inl e, v') \<Rightarrow> growLoop post volumeID gib (Some e) ps v'
          | (Inr _, v') \<Rightarrow> growLoop post volumeID gib failed ps v')"

definition growFilesystems :: "'v volume_rec \<Rightarrow> claim \<Rightarrow> string \<Rightarrow> int \<Rightarrow> ('v, unit) act" where
  "growFilesystems r c volumeID gib =
     (case (vr_extend r, vr_pods r) of
        (Some post, Some pods) \<Rightarrow>
          bind_a (lift_r (pods (cl_namespace c))) (\<lambda>ps. growLoop post volumeID gib None (filter (\<lambda>p. usesClaim p (cl_name c)) ps))
      | _ \<Rightarrow> ret ())"

definition recordVolumeSize :: "'v volume_rec \<Rightarrow> volume \<Rightarrow> int \<Rightarrow> ('v, unit) act" where
  "recordVolumeSize r pv bytes =
     (if vr_sameQuantity r (pv_capacity pv) bytes then ret ()
      else bind_a (wrap_err (''recording the new size on '' @ pv_name pv) (vc_UpdatePV (vr_client r) (pv\<lparr>pv_capacity := Some bytes\<rparr>))) (\<lambda>_. ret ()))"

definition recordClaimSize :: "'v volume_rec \<Rightarrow> claim \<Rightarrow> int \<Rightarrow> ('v, unit) act" where
  "recordClaimSize r c bytes =
     bind_a (vc_GetPVC (vr_client r) (cl_namespace c) (cl_name c)) (\<lambda>fresh.
     bind_a (wrap_err (''recording the new size on claim '' @ claim_key c)
       (vc_UpdateStatusPVC (vr_client r)
         (fresh\<lparr>cl_capacity := Some bytes,
                cl_allocated := (case (cl_request fresh, cl_allocated fresh) of
                    (Some want, Some allocated) \<Rightarrow> if allocated > want \<and> bytes \<le> want then Some want else Some allocated
                  | _ \<Rightarrow> cl_allocated fresh),
                cl_allocStatus := None\<rparr>))) (\<lambda>_. ret ()))"

definition no_storage_id :: "volume \<Rightarrow> err" where
  "no_storage_id pv = ErrText (''volume '' @ pv_name pv @ '' records no storage id'')"

definition growFailed :: "'v volume_rec \<Rightarrow> claim \<Rightarrow> int \<Rightarrow> err \<Rightarrow> ('v, unit) act" where
  "growFailed r c want e v = (Inl e, vr_report r c ''ExpansionFailed'' (err_text e) (snd (recordAllocation r c want ControllerResizeInfeasible v)))"

definition growBlock :: "'v volume_rec \<Rightarrow> claim \<Rightarrow> int \<Rightarrow> string \<Rightarrow> int \<Rightarrow> ('v, unit) act" where
  "growBlock r c want i got =
     bind_a (recordAllocation r c want NodeResizeInProgress) (\<lambda>_ v.
     case growFilesystems r c i got v of
       (Inr _, v') \<Rightarrow> (Inr (), v')
     | (Inl e, v') \<Rightarrow>
         (Inl e, if is_panic e then v'
                  else vr_report r c ''FileSystemResizePending''
                         (''the volume is now '' @ vr_quantityText r (bytesOf got) @ '' but the filesystem has not been grown yet: '' @ err_text e) v'))"

definition grown :: "'v volume_rec \<Rightarrow> claim \<Rightarrow> volume \<Rightarrow> int \<Rightarrow> string \<Rightarrow> string \<Rightarrow> int \<Rightarrow> ('v, unit) act" where
  "grown r c pv want kind i got =
     bind_a (recordVolumeSize r pv (bytesOf got)) (\<lambda>_.
     bind_a (if kind = Block then growBlock r c want i got else ret ()) (\<lambda>_.
     recordClaimSize r c (bytesOf got)))"

definition expandVolume :: "'v volume_rec \<Rightarrow> claim \<Rightarrow> int \<Rightarrow> volume \<Rightarrow> ('v, unit) act" where
  "expandVolume r c want pv =
     (let kind = label_of (pv_annotations pv) KindAnnotation; i = label_of (pv_annotations pv) IDAnnotation in
      if i = [] then fail (no_storage_id pv)
      else bind_a (recordAllocation r c want ControllerResizeInProgress) (\<lambda>_ v.
           case Expand (vr_backend r) kind i (gibOf want) v of
             (Inl e, v') \<Rightarrow> if is_panic e then (Inl e, v') else growFailed r c want e v'
           | (Inr got, v') \<Rightarrow> grown r c pv want kind i got v'))"

definition expandIfAsked :: "'v volume_rec \<Rightarrow> claim \<Rightarrow> ('v, unit) act" where
  "expandIfAsked r c =
     (case cl_request c of
        None \<Rightarrow> ret ()
      | Some want \<Rightarrow>
          (let held = (case cl_capacity c of None \<Rightarrow> 0 | Some q \<Rightarrow> q) in
           if want \<le> held then settleAllocation r c want held
           else (case vr_volume r (cl_volumeName c) of
                   Inl _ \<Rightarrow> ret ()
                 | Inr pv \<Rightarrow> if \<not> provisionedByUs pv then ret () else expandVolume r c want pv)))"

section \<open>Reconciliation, sweep and mount\<close>

definition vol_Reconcile :: "'v volume_rec \<Rightarrow> string \<Rightarrow> string \<Rightarrow> ('v, unit) act" where
  "vol_Reconcile r namespace name =
     (if \<not> vr_serves r namespace then ret ()
      else (case l_Get (vr_claims r) namespace name of
        Inl e \<Rightarrow> if is_kube_not_found e then ret () else fail e
      | Inr c \<Rightarrow>
          if \<not> vol_Ours r c \<or> cl_deleting c then ret ()
          else if cl_volumeName c \<noteq> [] then expandIfAsked r c
          else (case planFor r c of
                  Inl e \<Rightarrow> fail (ErrWrap (''claim '' @ namespace @ ''/'' @ name) e)
                | Inr (kind, storageType) \<Rightarrow>
                    if waitingForConsumer r c then ret ()
                    else (case vr_volume r (pvName c) of
                            Inr _ \<Rightarrow> ret ()
                          | Inl e \<Rightarrow> if \<not> is_kube_not_found e then fail e
                                      else bind_a (provision r c kind storageType) (\<lambda>_. ret ())))))"

definition reclaimable :: "volume \<Rightarrow> bool" where
  "reclaimable pv \<longleftrightarrow>
     provisionedByUs pv \<and> (pv_phase pv = ''Released'' \<or> pv_phase pv = ''Failed'') \<and> pv_reclaim pv = ''Delete'' \<and>
     label_of (pv_annotations pv) IDAnnotation \<noteq> []"

definition sweepVolume :: "'v volume_rec \<Rightarrow> volume \<Rightarrow> ('v, unit) act" where
  "sweepVolume r pv v =
     (if \<not> reclaimable pv then (Inr (), v)
      else (case BackendDelete (vr_backend r) (label_of (pv_annotations pv) KindAnnotation) (label_of (pv_annotations pv) IDAnnotation) v of
              (Inl e, v') \<Rightarrow> (if is_panic e then Inl e else Inr (), v')
            | (Inr _, v') \<Rightarrow> (Inr (), snd (vc_DeletePV (vr_client r) (pv_name pv) v'))))"

definition SweepReleased :: "'v volume_rec \<Rightarrow> ('v, unit) act" where
  "SweepReleased r = (case vr_volumes r of Inl _ \<Rightarrow> ret () | Inr all \<Rightarrow> for_each (sweepVolume r) all)"

record mount =
  mt_kind :: string
  mt_id :: string
  mt_export :: string

definition no_export :: "string \<Rightarrow> err" where "no_export i = ErrText (''share '' @ i @ '' has no export location yet'')"

definition completeMount :: "volume \<Rightarrow> mount \<Rightarrow> mount result" where
  "completeMount pv m = (if mt_kind m = [] \<or> mt_id m = [] then Inl (ErrText (''volume '' @ pv_name pv @ '' does not say what backs it'')) else Inr m)"

definition MountFor :: "'v volume_rec \<Rightarrow> string \<Rightarrow> string \<Rightarrow> ('v, mount) act" where
  "MountFor r namespace claimName =
     (case l_Get (vr_claims r) namespace claimName of
        Inl e \<Rightarrow> fail (ErrWrap (''claim '' @ namespace @ ''/'' @ claimName) e)
      | Inr c \<Rightarrow>
          if cl_volumeName c = [] then fail (ErrText (''claim '' @ namespace @ ''/'' @ claimName @ '' has no volume yet''))
          else (case vr_volume r (cl_volumeName c) of
            Inl e \<Rightarrow> fail e
          | Inr pv \<Rightarrow>
              (let i0 = label_of (pv_annotations pv) IDAnnotation;
                   m = \<lparr>mt_kind = label_of (pv_annotations pv) KindAnnotation,
                        mt_id = (if i0 = [] then (case pv_csi pv of None \<Rightarrow> [] | Some s \<Rightarrow> csi_handle s) else i0),
                        mt_export = label_of (pv_annotations pv) ExportAnnotation\<rparr> in
               if mt_kind m = Shared \<and> mt_export m = [] then
                 (\<lambda>v. case ExportOf (vr_backend r) (mt_id m) v of
                        (Inl e, v') \<Rightarrow> (if is_panic e then Inl e else Inl (no_export (mt_id m)), v')
                      | (Inr export, v') \<Rightarrow>
                          (if export = [] then Inl (no_export (mt_id m)) else completeMount pv (m\<lparr>mt_export := export\<rparr>), v'))
               else lift_r (completeMount pv m))))"

definition ExportHost :: "string \<Rightarrow> string" where
  "ExportHost export = (case cut_at (CHR '':'') export of None \<Rightarrow> [] | Some (host, _) \<Rightarrow> host)"

section \<open>The controller\<close>

record 'v vol_controller =
  vw_main :: "'v volume_rec"
  vw_for :: "(string \<Rightarrow> ('v, 'v volume_rec) act) option"
  vw_each :: "(('v volume_rec \<Rightarrow> ('v, unit) act) \<Rightarrow> ('v, unit) act) option"

definition vol_enqueue :: "claim event_obj \<Rightarrow> queue_op list" where
  "vol_enqueue obj = (case untombed obj of None \<Rightarrow> [] | Some c \<Rightarrow> [Add (obj_key (cl_namespace c) (cl_name c))])"

definition vol_reconcilerOf :: "'v vol_controller \<Rightarrow> string \<Rightarrow> ('v, 'v volume_rec) act" where
  "vol_reconcilerOf C namespace = (case vw_for C of None \<Rightarrow> ret (vw_main C) | Some f \<Rightarrow> f namespace)"

definition vol_eachReconciler :: "'v vol_controller \<Rightarrow> ('v volume_rec \<Rightarrow> ('v, unit) act) \<Rightarrow> ('v, unit) act" where
  "vol_eachReconciler C fn = (case vw_each C of None \<Rightarrow> fn (vw_main C) | Some each \<Rightarrow> each fn)"

definition vol_turn :: "'v vol_controller \<Rightarrow> string \<Rightarrow> 'v \<Rightarrow> queue_op list \<times> 'v" where
  "vol_turn C key v =
     (case split_key key of
        Inl _ \<Rightarrow> ([Forget key, Done key], v)
      | Inr (namespace, name) \<Rightarrow>
          (case bind_a (vol_reconcilerOf C namespace) (\<lambda>r. vol_Reconcile r namespace name) v of
             (Inl e, v') \<Rightarrow> if is_panic e then ([], v') else ([AddRateLimited key, Done key], v')
           | (Inr _, v') \<Rightarrow> ([Forget key, Done key], v')))"

definition vol_gc :: "'v vol_controller \<Rightarrow> 'v \<Rightarrow> 'v" where
  "vol_gc C v = snd (vol_eachReconciler C SweepReleased v)"

section \<open>Lemmas\<close>

text \<open>
  What is relied on of the services and the API: \<open>S v\<close> is the storage there is, by kind and identifier,
  and \<open>R v\<close> the storage the volume objects name. A creation that succeeds adds the storage it answers, a
  deletion that succeeds, or finds nothing, leaves the storage without what it names, creating a
  volume object names what its annotations say, and no other call changes either.
\<close>

type_synonym 'v stored = "'v \<Rightarrow> (string \<times> string) set"

definition same :: "'v stored \<Rightarrow> 'v stored \<Rightarrow> ('v, 'a) act \<Rightarrow> bool" where
  "same S R m \<longleftrightarrow> (\<forall>s x. keeps (\<lambda>w. S w = s \<and> R w = x) m)"

definition service_laws :: "'v stored \<Rightarrow> 'v stored \<Rightarrow> string \<Rightarrow> (storage_opts \<Rightarrow> ('v, storage) act) \<Rightarrow> (string \<Rightarrow> ('v, unit) act) \<Rightarrow> bool" where
  "service_laws S R kind create delete \<longleftrightarrow>
     (\<forall>opts v q v'. create opts v = (q, v') \<longrightarrow> R v' = R v \<and> (case q of Inl _ \<Rightarrow> S v' = S v | Inr x \<Rightarrow> S v' = insert (kind, st_id x) (S v))) \<and>
     (\<forall>i v q v'. delete i v = (q, v') \<longrightarrow> R v' = R v \<and>
        (case q of Inl e \<Rightarrow> S v' = (if response_code_is e 404 then S v - {(kind, i)} else S v) | Inr _ \<Rightarrow> S v' = S v - {(kind, i)}))"

definition storage_of :: "volume \<Rightarrow> string \<times> string" where
  "storage_of pv = (label_of (pv_annotations pv) KindAnnotation, label_of (pv_annotations pv) IDAnnotation)"

definition storage_laws :: "'v volume_rec \<Rightarrow> 'v stored \<Rightarrow> 'v stored \<Rightarrow> bool" where
  "storage_laws r S R \<longleftrightarrow>
     (case vb_block (vr_backend r) of None \<Rightarrow> True
      | Some c \<Rightarrow> service_laws S R Block (bl_Create c) (bl_Delete c) \<and> (\<forall>i. same S R (bl_Get c i)) \<and> (\<forall>m i g. same S R (bl_Extend c m i g))) \<and>
     (case vb_shared (vr_backend r) of None \<Rightarrow> True
      | Some c \<Rightarrow> service_laws S R Shared (sh_Create c) (sh_Delete c) \<and> (\<forall>i. same S R (sh_Get c i)) \<and> (\<forall>i g. same S R (sh_Extend c i g)) \<and>
                  (\<forall>i. same S R (sh_Exports c i))) \<and>
     (\<forall>d. same S R (vb_sleep (vr_backend r) d)) \<and>
     (\<forall>pv v q v'. vc_CreatePV (vr_client r) pv v = (q, v') \<longrightarrow> S v' = S v \<and> (case q of Inl _ \<Rightarrow> R v' = R v | Inr _ \<Rightarrow> R v' = insert (storage_of pv) (R v))) \<and>
     (\<forall>n. same S R (vc_GetPV (vr_client r) n)) \<and> (\<forall>pv. same S R (vc_UpdatePV (vr_client r) pv)) \<and> (\<forall>n v. S (snd (vc_DeletePV (vr_client r) n v)) = S v) \<and>
     (\<forall>ns n. same S R (vc_GetPVC (vr_client r) ns n)) \<and> (\<forall>c. same S R (vc_UpdateStatusPVC (vr_client r) c)) \<and>
     (case vr_extend r of None \<Rightarrow> True | Some post \<Rightarrow> \<forall>n i g. same S R (post n i g)) \<and>
     (\<forall>c a m v. S (vr_report r c a m v) = S v \<and> R (vr_report r c a m v) = R v)"

text \<open>No deletion is refused.\<close>

definition removable :: "'v backend \<Rightarrow> bool" where
  "removable b \<longleftrightarrow>
     (let goes = (\<lambda>q. case q of Inl e \<Rightarrow> response_code_is e 404 | Inr _ \<Rightarrow> True) in
      (case vb_block b of None \<Rightarrow> True | Some c \<Rightarrow> \<forall>i v. goes (fst (bl_Delete c i v))) \<and>
      (case vb_shared b of None \<Rightarrow> True | Some c \<Rightarrow> \<forall>i v. goes (fst (sh_Delete c i v))))"

lemma sameD: "same S R m \<Longrightarrow> S (snd (m v)) = S v \<and> R (snd (m v)) = R v"
  by (auto simp: same_def keeps_def)

lemma same_calls:
  "same S R m \<Longrightarrow> (\<And>x. same S R (f x)) \<Longrightarrow> same S R (bind_a m f)"
  "same S R (ret a)" "same S R (fail e)" "same S R (lift_r q)"
  "same S R m' \<Longrightarrow> same S R (wrap_err w m')" "same S R m' \<Longrightarrow> same S R (with_err g m')"
  by (auto simp: same_def intro!: keeps_bind_a keeps_wrap_err keeps_with_err)

lemma sameI: "(\<And>v. S (snd (m v)) = S v \<and> R (snd (m v)) = R v) \<Longrightarrow> same S R m"
  by (auto simp: same_def keeps_def)

lemma same_cases:
  assumes "same S R m" and "\<And>x. same S R (f x)" and "\<And>e v. S (snd (g e v)) = S v \<and> R (snd (g e v)) = R v"
  shows "same S R (\<lambda>v. case m v of (Inr x, v') \<Rightarrow> f x v' | (Inl e, v') \<Rightarrow> g e v')"
  unfolding same_def
proof (intro allI)
  fix s x
  show "keeps (\<lambda>w. S w = s \<and> R w = x) (\<lambda>v. case m v of (Inr x, v') \<Rightarrow> f x v' | (Inl e, v') \<Rightarrow> g e v')"
    using assms by (intro keeps_cases) (auto simp: same_def)
qed

lemma on_client_same: "(\<And>c. client = Some c \<Longrightarrow> same S R (f c)) \<Longrightarrow> same S R (on_client client f)"
  by (cases client) (auto simp: on_client_def same_calls)

lemma expansion_same:
  assumes laws: "storage_laws r S R"
  shows "same S R (Expand (vr_backend r) kind i g)" "same S R (ExportOf (vr_backend r) i)"
proof -
  let ?b = "vr_backend r"
  have blk: "vb_block ?b = Some c \<Longrightarrow> same S R (bl_Get c i)" "vb_block ?b = Some c \<Longrightarrow> same S R (bl_Extend c m i g)" for c m i g
    using laws by (simp_all add: storage_laws_def)
  have shr: "vb_shared ?b = Some c \<Longrightarrow> same S R (sh_Get c i)" "vb_shared ?b = Some c \<Longrightarrow> same S R (sh_Extend c i g)"
    "vb_shared ?b = Some c \<Longrightarrow> same S R (sh_Exports c i)" for c i g
    using laws by (simp_all add: storage_laws_def)
  have pause: "same S R (vb_sleep ?b d)" for d using laws by (simp add: storage_laws_def)
  have loop: "same S R (awaitLoop n ?b get failed name g dl)" if "same S R get" for n get failed name dl
  proof (induction n)
    case (Suc n)
    have "same S R (bind_a get (\<lambda>x. if st_status x = ''extending'' then bind_a (vb_sleep ?b extendPoll) (\<lambda>_. awaitLoop n ?b get failed name g dl)
        else if st_status x = failed then fail (not_extended name g x) else if st_size x \<ge> g then ret (st_size x) else fail (settled_short name g x)))"
      using that Suc pause by (auto intro!: same_calls)
    from sameD [OF this] show ?case by (intro sameI) simp
  qed (simp add: same_calls)
  have await: "same S R (awaitSize ?b get failed name g)" if "same S R get" for get failed name
    by (intro sameI) (simp add: awaitSize_def sameD [OF loop [OF that]])
  show "same S R (Expand ?b kind i g)"
    unfolding Expand_def awaitBlockSize_def awaitShareSize_def
    using blk shr by (auto intro!: same_calls await on_client_same split: option.splits)
  show "same S R (ExportOf ?b i)"
    unfolding ExportOf_def using shr by (intro same_calls on_client_same)
qed

lemma expandIfAsked_same:
  assumes laws: "storage_laws r S R"
  shows "same S R (expandIfAsked r c)"
proof -
  have pvc: "same S R (vc_GetPVC (vr_client r) ns n)" "same S R (vc_UpdateStatusPVC (vr_client r) x)" "same S R (vc_UpdatePV (vr_client r) pv)" for ns n x pv
    using laws by (simp_all add: storage_laws_def)
  have rep: "S (vr_report r c a m v) = S v" "R (vr_report r c a m v) = R v" for c a m v
    using laws by (simp_all add: storage_laws_def)
  have alloc: "same S R (recordAllocation r c q st)" for q st
    unfolding recordAllocation_def using pvc by (auto intro!: same_calls)
  have settle: "same S R (settleAllocation r c q h)" for q h
    unfolding settleAllocation_def using pvc by (auto intro!: same_calls split: option.splits)
  have loop: "same S R (growLoop post i g failed ps)" if "\<And>n i g. same S R (post n i g)" for post i g failed ps
  proof (induction ps arbitrary: failed)
    case (Cons p ps)
    have "same S R (ExtendVolume post (cp_uid p) i g)" unfolding ExtendVolume_def using that by (auto intro!: same_calls)
    then show ?case unfolding growLoop.simps by (intro same_cases Cons.IH) (simp_all add: sameD [OF Cons.IH])
  qed (auto intro: same_calls split: option.split)
  have "same S R (growFilesystems r c i g)" for i g
    unfolding growFilesystems_def using laws
    by (auto simp: storage_laws_def intro!: same_calls loop split: option.split)
  then have block: "same S R (growBlock r c q i g)" for q i g
    unfolding growBlock_def by (intro same_calls alloc same_cases) (auto simp: rep intro: same_calls(2) [unfolded ret_def])
  have "same S R (grown r c pv q kind i g)" for pv q kind i g
    unfolding grown_def recordVolumeSize_def recordClaimSize_def using pvc block by (auto intro!: same_calls)
  moreover have "S (snd (growFailed r c q e v)) = S v \<and> R (snd (growFailed r c q e v)) = R v" for q e v
    using sameD [OF alloc] by (simp add: growFailed_def rep)
  ultimately have "same S R (expandVolume r c q pv)" for q pv
    unfolding expandVolume_def Let_def by (auto intro!: same_calls alloc same_cases expansion_same laws split: if_splits)
  then show ?thesis
    unfolding expandIfAsked_def Let_def using settle by (auto intro!: same_calls split: option.split sum.split)
qed

text \<open>Creating storage adds what it answers and nothing else; deleting it takes it away again.\<close>

lemma storage_services:
  assumes "storage_laws r S R"
  shows "vb_block (vr_backend r) = Some c \<Longrightarrow> service_laws S R Block (bl_Create c) (bl_Delete c)"
    "vb_shared (vr_backend r) = Some d \<Longrightarrow> service_laws S R Shared (sh_Create d) (sh_Delete d)"
  using assms by (simp_all add: storage_laws_def)

lemma BackendCreate_adds:
  assumes laws: "storage_laws r S R" and run: "BackendCreate (vr_backend r) name kind gib d t az v = (q, v')"
  shows "R v' = R v \<and>
    (case q of Inl _ \<Rightarrow> S v' = S v
     | Inr made \<Rightarrow> S v' = insert (pr_kind made, pr_id made) (S v) \<and>
         (pr_kind made = Block \<and> vb_block (vr_backend r) \<noteq> None \<or> pr_kind made = Shared \<and> vb_shared (vr_backend r) \<noteq> None))"
proof -
  have made: "R v' = R v \<and> (case q of Inl _ \<Rightarrow> S v' = S v | Inr made \<Rightarrow> S v' = insert (pr_kind made, pr_id made) (S v) \<and> pr_kind made = k)"
    if laws': "service_laws S R k create delete" and run': "bind_a (wrap_err m (create opts)) (\<lambda>x. ret \<lparr>pr_kind = k, pr_id = st_id x, pr_gib = st_size x\<rparr>) v = (q, v')"
    for k create delete opts m
  proof -
    obtain q1 v1 where c: "create opts v = (q1, v1)" by (meson surj_pair)
    have "R v1 = R v \<and> (case q1 of Inl _ \<Rightarrow> S v1 = S v | Inr x \<Rightarrow> S v1 = insert (k, st_id x) (S v))"
      using laws' c by (simp add: service_laws_def)
    with run' c show ?thesis by (cases q1) (auto simp: bind_a_def wrap_err_def ret_def)
  qed
  consider (block) c where "kind = Block" "vb_block (vr_backend r) = Some c" | (shared) c where "kind = Shared" "vb_shared (vr_backend r) = Some c"
    | (none) "(q, v') = (fst (q, v'), v)" "\<exists>e. q = Inl e"
    using run by (cases "vb_block (vr_backend r)"; cases "vb_shared (vr_backend r)")
      (auto simp: BackendCreate_def Let_def fail_def split: if_splits)
  then show ?thesis
  proof cases
    case block
    from made [OF storage_services(1) [OF laws block(2)] run [unfolded BackendCreate_def Let_def block if_P [OF refl] option.case]] block(2)
    show ?thesis by (auto split: sum.split)
  next
    case shared
    have "Shared \<noteq> Block" by (simp add: Block_def Shared_def)
    from made [OF storage_services(2) [OF laws shared(2)] run [unfolded BackendCreate_def Let_def shared if_not_P [OF this] if_P [OF refl] option.case]] shared(2)
    show ?thesis by (auto split: sum.split)
  qed auto
qed

lemma service_deletes:
  assumes "service_laws S R k create delete" and "case fst (delete i v) of Inl e \<Rightarrow> response_code_is e 404 | Inr _ \<Rightarrow> True"
  shows "S (snd (ignore_if p (delete i) v)) = S v - {(k, i)}" "R (snd (ignore_if p (delete i) v)) = R v"
proof -
  obtain q v1 where d: "delete i v = (q, v1)" by (meson surj_pair)
  have "R v1 = R v \<and> (case q of Inl e \<Rightarrow> S v1 = (if response_code_is e 404 then S v - {(k, i)} else S v) | Inr _ \<Rightarrow> S v1 = S v - {(k, i)})"
    using assms(1) d by (simp add: service_laws_def)
  with assms(2) d show "S (snd (ignore_if p (delete i) v)) = S v - {(k, i)}" "R (snd (ignore_if p (delete i) v)) = R v"
    by (cases q; simp add: ignore_if_def)+
qed

lemma discard_removes:
  assumes laws: "storage_laws r S R" and gone: "removable (vr_backend r)"
    and made: "pr_kind made = Block \<and> vb_block (vr_backend r) \<noteq> None \<or> pr_kind made = Shared \<and> vb_shared (vr_backend r) \<noteq> None"
  shows "S (discard r made v) = S v - {(pr_kind made, pr_id made)}" "R (discard r made v) = R v"
proof -
  have kinds: "Shared \<noteq> Block" by (simp add: Block_def Shared_def)
  consider (block) c where "pr_kind made = Block" "vb_block (vr_backend r) = Some c" | (shared) c where "pr_kind made = Shared" "vb_shared (vr_backend r) = Some c"
    using made by auto
  then have "S (discard r made v) = S v - {(pr_kind made, pr_id made)} \<and> R (discard r made v) = R v"
  proof cases
    case block
    from gone block(2) have "case fst (bl_Delete c (pr_id made) v) of Inl e \<Rightarrow> response_code_is e 404 | Inr _ \<Rightarrow> True"
      by (simp add: removable_def Let_def)
    from service_deletes [OF storage_services(1) [OF laws block(2)] this] block show ?thesis
      by (simp add: discard_def BackendDelete_def on_client_def)
  next
    case shared
    from gone shared(2) have "case fst (sh_Delete c (pr_id made) v) of Inl e \<Rightarrow> response_code_is e 404 | Inr _ \<Rightarrow> True"
      by (simp add: removable_def Let_def)
    from service_deletes [OF storage_services(2) [OF laws shared(2)] this] shared kinds show ?thesis
      by (simp add: discard_def BackendDelete_def on_client_def)
  qed
  then show "S (discard r made v) = S v - {(pr_kind made, pr_id made)}" "R (discard r made v) = R v" by auto
qed

lemma storage_of_made: "storage_of (volumeFor c made export where) = (pr_kind made, pr_id made)"
  by (simp add: storage_of_def volumeFor_def Let_def label_of_def KindAnnotation_def IDAnnotation_def)

lemma storage_named:
  assumes "storage_laws r S R"
  shows "vc_CreatePV (vr_client r) pv v = (q, v') \<Longrightarrow>
    S v' = S v \<and> (case q of Inl _ \<Rightarrow> R v' = R v | Inr _ \<Rightarrow> R v' = insert (storage_of pv) (R v))"
  using assms [unfolded storage_laws_def, THEN conjunct2, THEN conjunct2, THEN conjunct2, THEN conjunct1, rule_format] .

lemma createVolume_names:
  assumes laws: "storage_laws r S R" and gone: "removable (vr_backend r)"
    and made: "pr_kind made = Block \<and> vb_block (vr_backend r) \<noteq> None \<or> pr_kind made = Shared \<and> vb_shared (vr_backend r) \<noteq> None"
    and pv: "storage_of pv = (pr_kind made, pr_id made)"
    and v: "v' = snd (createVolume r c made pv v)"
  shows "S v' - R v' = S v - R v - {(pr_kind made, pr_id made)}"
proof -
  obtain q v1 where c: "vc_CreatePV (vr_client r) pv v = (q, v1)" by (meson surj_pair)
  have "S v1 = S v \<and> (case q of Inl _ \<Rightarrow> R v1 = R v | Inr _ \<Rightarrow> R v1 = insert (pr_kind made, pr_id made) (R v))"
    using storage_named [OF laws c] unfolding pv .
  moreover have get: "same S R (vc_GetPV (vr_client r) n)" for n using laws by (simp add: storage_laws_def)
  ultimately show ?thesis
    using v c by (cases q) (auto simp: createVolume_def sameD [OF get] discard_removes [OF laws gone made])
qed

lemma provision_leaks_nothing:
  assumes laws: "storage_laws r S R" and gone: "removable (vr_backend r)" and v: "v' = snd (provision r c kind t v)"
  shows "S v' - R v' \<subseteq> S v - R v"
proof -
  obtain q v1 where b: "BackendCreate (vr_backend r) (storageName r (cl_namespace c) (cl_name c)) kind
      (gibOf (case cl_request c of None \<Rightarrow> 0 | Some q \<Rightarrow> q)) (''kubezun claim '' @ claim_key c) t (pl_az (placementFor r c)) v = (q, v1)"
    by (meson surj_pair)
  note adds = BackendCreate_adds [OF laws b]
  show ?thesis
  proof (cases q)
    case (Inl e)
    with adds b v show ?thesis by (simp add: provision_def Let_def bind_a_def)
  next
    case (Inr made)
    obtain q2 v2 where e: "exportFor r made v1 = (q2, v2)" by (meson surj_pair)
    have "same S R (exportFor r made)"
      by (intro sameI) (simp add: exportFor_def case_prod_beta sameD [OF expansion_same(2) [OF laws]] split: sum.split)
    from sameD [OF this, of v1] e have v2: "S v2 = S v1" "R v2 = R v1" by simp_all
    obtain x where x: "q2 = Inr x"
      using e by (cases "fst (ExportOf (vr_backend r) (pr_id made) v1)") (auto simp: exportFor_def case_prod_beta split: if_splits dest: sym)
    with v b Inr e have "v' = snd (createVolume r c made (volumeFor c made x (placementFor r c)) v2)"
      by (simp add: provision_def Let_def bind_a_def)
    from createVolume_names [OF laws gone _ storage_of_made this] adds Inr v2 show ?thesis by auto
  qed
qed

lemma BackendDelete_keeps:
  assumes laws: "storage_laws r S R" and "x \<noteq> (kind, i)"
  shows "keeps (\<lambda>v. x \<in> S v) (BackendDelete (vr_backend r) kind i)"
proof -
  have del: "keeps (\<lambda>v. x \<in> S v) (delete i)" if "service_laws S R kind create delete" for create delete
  proof
    fix v assume "x \<in> S v"
    moreover obtain q v1 where d: "delete i v = (q, v1)" by (meson surj_pair)
    have "case q of Inl e \<Rightarrow> S v1 = (if response_code_is e 404 then S v - {(kind, i)} else S v) | Inr _ \<Rightarrow> S v1 = S v - {(kind, i)}"
      using that d by (simp add: service_laws_def)
    ultimately show "x \<in> S (snd (delete i v))" using d assms(2) by (cases q) (auto split: if_splits)
  qed
  show ?thesis
    unfolding BackendDelete_def on_client_def
    using del storage_services [OF laws] by (auto intro!: keeps_ignore_if split: option.split)
qed

section \<open>Properties\<close>


text \<open>One block store, with its volumes named after what they are made for, and a cluster that refuses a second object of a name.\<close>

type_synonym store_mem = "(string \<times> string) list \<times> volume list"

definition sample_store :: "store_mem block_api" where
  "sample_store =
     \<lparr>bl_Get = (\<lambda>i. fail ErrNotFound),
      bl_Create = (\<lambda>o' (st, pvs). (Inr \<lparr>st_id = sto_name o', st_size = sto_size o', st_status = ''available''\<rparr>, ((Block, sto_name o') # st, pvs))),
      bl_Extend = (\<lambda>_ _ _. ret ()), bl_Delete = (\<lambda>i (st, pvs). (Inr (), (filter (\<lambda>x. x \<noteq> (Block, i)) st, pvs)))\<rparr>"

definition sample_claim :: claim where
  "sample_claim = \<lparr>cl_namespace = ''ns'', cl_name = ''data'', cl_uid = ''u1'', cl_annotations = [], cl_class = Some ''fast'', cl_accessModes = [''ReadWriteOnce''],
     cl_deleting = False, cl_volumeName = [], cl_request = Some (5 * 2 ^ 30), cl_capacity = None, cl_allocated = None, cl_allocStatus = None\<rparr>"

definition sample_vclient :: "store_mem volume_client" where
  "sample_vclient =
     \<lparr>vc_CreatePV = (\<lambda>pv (st, pvs). if pv_name pv \<in> pv_name ` set pvs then (Inl (ErrText ''exists''), (st, pvs)) else (Inr pv, (st, pv # pvs))),
      vc_GetPV = (\<lambda>n (st, pvs). (case find (\<lambda>pv. pv_name pv = n) pvs of None \<Rightarrow> Inl ErrNotFound | Some pv \<Rightarrow> Inr pv, (st, pvs))),
      vc_UpdatePV = (\<lambda>pv. ret pv), vc_DeletePV = (\<lambda>n (st, pvs). (Inr (), (st, filter (\<lambda>pv. pv_name pv \<noteq> n) pvs))),
      vc_GetPVC = (\<lambda>_ _. ret sample_claim), vc_UpdateStatusPVC = (\<lambda>c. ret c)\<rparr>"

definition sample_volumes :: "volume list \<Rightarrow> store_mem volume_rec" where
  "sample_volumes cached =
     \<lparr>vr_backend = \<lparr>vb_block = Some sample_store, vb_shared = None, vb_shareType = [], vb_shareProto = [], vb_volumeType = [], vb_az = [],
                     vb_now = (\<lambda>_. 0), vb_sleep = (\<lambda>_. ret ())\<rparr>,
      vr_claims = \<lparr>l_List = (\<lambda>_. Inr [sample_claim]), l_In = (\<lambda>_ _. Inr [sample_claim]), l_Get = (\<lambda>ns n. if ns = ''ns'' \<and> n = ''data'' then Inr sample_claim else Inl (ErrKubeNotFound n))\<rparr>,
      vr_volumes = Inr cached, vr_volume = (\<lambda>n. Inl (ErrKubeNotFound n)),
      vr_classes = Some (\<lambda>_. Inr \<lparr>sc_name = ''fast'', sc_provisioner = BlockDriver, sc_parameters = [], sc_bindingMode = None\<rparr>),
      vr_client = sample_vclient, vr_extend = None, vr_pods = None, vr_placementOf = None, vr_tenant = [], vr_serves = (\<lambda>_. True),
      vr_alreadyExists = (\<lambda>e. e = ErrText ''exists''), vr_sameQuantity = (\<lambda>_ _. False), vr_quantityText = show_int, vr_report = (\<lambda>_ _ _ v. v)\<rparr>"

definition stored :: "store_mem stored" where "stored m = set (fst m)"
definition named :: "store_mem stored" where "named m = storage_of ` set (snd m)"

lemma sample_storage_laws: "storage_laws (sample_volumes cached) stored named"
proof -
  have "service_laws stored named Block (bl_Create sample_store) (bl_Delete sample_store)"
    by (auto simp: service_laws_def sample_store_def stored_def named_def)
  moreover have "same stored named (vc_GetPV sample_vclient n)" for n
    by (intro sameI) (auto simp: sample_vclient_def)
  moreover have "stored v' = stored v \<and> (case q of Inl _ \<Rightarrow> named v' = named v | Inr _ \<Rightarrow> named v' = insert (storage_of pv) (named v))"
    if "vc_CreatePV sample_vclient pv v = (q, v')" for pv v q v'
    using that by (cases v) (auto simp: sample_vclient_def stored_def named_def split: if_splits)
  moreover have "stored (snd (vc_DeletePV sample_vclient n v)) = stored v" for n v
    by (cases v) (simp add: sample_vclient_def stored_def)
  ultimately show ?thesis
    unfolding storage_laws_def sample_volumes_def
    by (simp add: same_calls) (auto simp: sample_store_def sample_vclient_def same_calls)
qed




text \<open>
  A pod is never started against storage that is not there: a mount is answered only for a claim
  that is bound to a volume, it names the kind and the identifier of what backs it, and for a share
  it has the export to mount; every other case is an error.
\<close>

theorem MountFor_complete:
  "case fst (MountFor r namespace claimName v) of
     Inl _ \<Rightarrow> True
   | Inr m \<Rightarrow> mt_kind m \<noteq> [] \<and> mt_id m \<noteq> [] \<and> (if mt_kind m = Shared then mt_export m \<noteq> [] else True) \<and>
       (\<exists>c pv. l_Get (vr_claims r) namespace claimName = Inr c \<and> cl_volumeName c \<noteq> [] \<and> vr_volume r (cl_volumeName c) = Inr pv)"
  by (auto simp: MountFor_def completeMount_def Let_def fail_def lift_r_def case_prod_beta split: sum.splits if_splits)

text \<open>
  An expansion that failed leaves its status on the claim, and the allocation it raised is never
  lowered again once the request is: what is recorded as infeasible counts as in progress.
\<close>

theorem infeasible_never_settled:
  assumes "cl_allocStatus c = Some ControllerResizeInfeasible"
  shows "settleAllocation r c want held v = (Inr (), v)"
  using assms by (simp add: settleAllocation_def ret_def split: option.split)

text \<open>
  A volume of another tenant whose storage this credential cannot see answers 404, and its object is
  deleted with its storage still there.
\<close>

theorem foreign_storage_forgotten:
  assumes "reclaimable pv" and "storage_of pv = (Block, i)" and "vb_block (vr_backend r) = Some c"
    and "bl_Delete c i v = (Inl e, v)" and "response_code_is e 404"
  shows "sweepVolume r pv v = (Inr (), snd (vc_DeletePV (vr_client r) (pv_name pv) v))"
  using assms by (simp add: sweepVolume_def storage_of_def BackendDelete_def on_client_def ignore_if_def)

end
