(* ===== verification/Provider_Stats.thy ===== *)
theory Provider_Stats
  imports Provider_State "HOL-Library.Word"
begin

text \<open>
  \<^verbatim>\<open>pkg/provider/stats.go\<close> and the \<^verbatim>\<open>Stats\<close> call of \<^verbatim>\<open>pkg/zun/stats.go\<close>: what the pods of the node use. The counters
  are 64-bit words and wrap around as the source's do; the time of a reading is a signed word. A
  counter that the source divides by \<^verbatim>\<open>1e9\<close> for a metric is kept in nanoseconds here, since the division
  is in floating point.
\<close>

section \<open>Rates\<close>

type_synonym u64 = "64 word"

record container_stats =
  zs_id :: string
  zs_name :: string
  zs_timestamp :: u64
  zs_cpu :: u64
  zs_workingSet :: u64
  zs_usage :: u64

record reading =
  rd_at :: u64
  rd_core :: u64
  rd_generation :: string

type_synonym rates = "string \<rightharpoonup> reading"

definition newRates :: rates where "newRates = Map.empty"

definition observe :: "string \<Rightarrow> container_stats \<Rightarrow> rates \<Rightarrow> u64 option \<times> rates" where
  "observe key s r =
     (let r' = r(key \<mapsto> \<lparr>rd_at = zs_timestamp s, rd_core = zs_cpu s, rd_generation = zs_id s\<rparr>) in
      case r key of
        None \<Rightarrow> (None, r')
      | Some prev \<Rightarrow>
          if rd_generation prev \<noteq> zs_id s then (None, r')
          else if zs_timestamp s \<le>s rd_at prev \<or> zs_cpu s < rd_core prev then (None, r')
          else (Some ((zs_cpu s - rd_core prev) * 1000000000 div (zs_timestamp s - rd_at prev)), r'))"

definition forget_rates :: "string list \<Rightarrow> rates \<Rightarrow> rates" where
  "forget_rates live r = (\<lambda>k. if k \<in> set live then r k else None)"

section \<open>Pods\<close>

record container_usage =
  cu_name :: string
  cu_start :: time
  cu_at :: u64
  cu_core :: u64
  cu_nanoCores :: "u64 option"
  cu_workingSet :: u64
  cu_usage :: u64

record pod_usage =
  pu_namespace :: string
  pu_name :: string
  pu_uid :: string
  pu_start :: time
  pu_containers :: "container_usage list"
  pu_nanoCores :: "u64 option"
  pu_workingSet :: u64

text \<open>What the collection gathers beside the services: the readings, the keys seen and the usages.\<close>

record stats_state =
  ss_rates :: rates
  ss_live :: "string list"
  ss_out :: "pod_usage list"

definition Stats :: "(string \<Rightarrow> ('s, container_stats list) act) \<Rightarrow> string \<Rightarrow> ('s, container_stats list) act" where
  "Stats get i = with_err translate_err (get i)"

definition containerNameAt :: "pod \<Rightarrow> nat \<Rightarrow> container_stats \<Rightarrow> string" where
  "containerNameAt pod i s = (if i < length (pod_containers pod) then fst (pod_containers pod ! i) else zs_name s)"

definition stats_key :: "pod \<Rightarrow> string \<Rightarrow> string" where
  "stats_key pod name = pod_namespace pod @ ''/'' @ pod_name pod @ ''/'' @ name"

fun containerUsages :: "pod \<Rightarrow> time \<Rightarrow> nat \<Rightarrow> container_stats list \<Rightarrow> rates \<Rightarrow> container_usage list \<times> rates" where
  "containerUsages pod start i [] r = ([], r)"
| "containerUsages pod start i (s # rest) r =
     (let name = containerNameAt pod i s; (nano, r') = observe (stats_key pod name) s r;
          (us, r'') = containerUsages pod start (Suc i) rest r' in
      (\<lparr>cu_name = name, cu_start = start, cu_at = zs_timestamp s, cu_core = zs_cpu s, cu_nanoCores = nano,
        cu_workingSet = zs_workingSet s, cu_usage = zs_usage s\<rparr> # us, r''))"

text \<open>The sum of what is known; nothing is known of an empty sum.\<close>

fun sum_known :: "u64 option list \<Rightarrow> u64 option" where
  "sum_known [] = None"
| "sum_known (x # xs) = (case (x, sum_known xs) of (None, y) \<Rightarrow> y | (Some a, None) \<Rightarrow> Some a | (Some a, Some b) \<Rightarrow> Some (a + b))"

definition statPod ::
  "('s, 'api) source \<Rightarrow> ('api \<Rightarrow> string \<Rightarrow> ('s, container_stats list) act) \<Rightarrow> time \<Rightarrow> (string \<times> capsule) list \<Rightarrow> 'api \<Rightarrow> 's \<times> stats_state \<Rightarrow> pod
     \<Rightarrow> 's \<times> stats_state" where
  "statPod S stats now managed api sl pod =
     (case map_of managed (key_of pod) of
        None \<Rightarrow> sl
      | Some cap \<Rightarrow>
          if cap_uuid cap = [] \<or> PodUID cap \<noteq> pod_uid pod then sl
          else (case Stats (stats api) (cap_uuid cap) (fst sl) of
            (Inl _, s') \<Rightarrow> (s', snd sl)
          | (Inr [], s') \<Rightarrow> (s', snd sl)
          | (Inr (x # xs), s') \<Rightarrow>
              (let start = (case pod_start pod of None \<Rightarrow> now | Some t \<Rightarrow> t);
                   (us, r) = containerUsages pod start 0 (x # xs) (ss_rates (snd sl)) in
               (s', \<lparr>ss_rates = r, ss_live = map (stats_key pod) (map cu_name us) @ ss_live (snd sl),
                     ss_out = ss_out (snd sl) @
                       [\<lparr>pu_namespace = pod_namespace pod, pu_name = pod_name pod, pu_uid = pod_uid pod, pu_start = start, pu_containers = us,
                         pu_nanoCores = sum_known (map cu_nanoCores us), pu_workingSet = sum_list (map cu_workingSet us)\<rparr>]\<rparr>))))"

definition statTenant ::
  "('s, 'api) source \<Rightarrow> ('api \<Rightarrow> string \<Rightarrow> ('s, container_stats list) act) \<Rightarrow> time \<Rightarrow> pod list \<Rightarrow> string \<Rightarrow> 'api \<Rightarrow> ('s \<times> stats_state, unit) act" where
  "statTenant S stats now pods t api sl =
     (case so_list S api (fst sl) of
        (Inl _, s') \<Rightarrow> (Inr (), (s', snd sl))
      | (Inr managed, s') \<Rightarrow> (Inr (), foldl (statPod S stats now managed api) (s', snd sl) pods))"

definition podStats ::
  "('s, 'api) source \<Rightarrow> ('api \<Rightarrow> string \<Rightarrow> ('s, container_stats list) act) \<Rightarrow> ((string \<Rightarrow> 'api \<Rightarrow> ('s \<times> stats_state, unit) act) \<Rightarrow> ('s \<times> stats_state, unit) act)
     \<Rightarrow> time \<Rightarrow> provider \<Rightarrow> rates \<Rightarrow> 's \<Rightarrow> pod_usage list \<times> rates \<times> 's" where
  "podStats S stats each now p r s =
     (let pods = map snd (DAList.impl_of (pv_pods p));
          sl = snd (each (statTenant S stats now pods) (s, \<lparr>ss_rates = r, ss_live = [], ss_out = []\<rparr>)) in
      (ss_out (snd sl), forget_rates (ss_live (snd sl)) (ss_rates (snd sl)), fst sl))"

section \<open>The node\<close>

record node_usage =
  nu_name :: string
  nu_nanoCores :: "u64 option"
  nu_workingSet :: u64

definition GetStatsSummary :: "string \<Rightarrow> pod_usage list \<Rightarrow> node_usage \<times> pod_usage list" where
  "GetStatsSummary nodeName pods =
     (\<lparr>nu_name = nodeName, nu_nanoCores = sum_known (map pu_nanoCores pods), nu_workingSet = sum_list (map pu_workingSet pods)\<rparr>, pods)"

text \<open>A metric has its labels and its value; a family with no metrics is left out.\<close>

record metric =
  mc_labels :: labels
  mc_value :: int

definition usage_labels :: "pod_usage \<Rightarrow> container_usage \<Rightarrow> labels" where
  "usage_labels ps c = [(''container'', cu_name c), (''namespace'', pu_namespace ps), (''pod'', pu_name ps)]"

definition container_metrics :: "(container_usage \<Rightarrow> int) \<Rightarrow> pod_usage list \<Rightarrow> metric list" where
  "container_metrics f pods = concat (map (\<lambda>ps. map (\<lambda>c. \<lparr>mc_labels = usage_labels ps c, mc_value = f c\<rparr>) (pu_containers ps)) pods)"

definition GetMetricsResource :: "pod_usage list \<Rightarrow> (string \<times> metric list) list" where
  "GetMetricsResource pods =
     (let all = concat (map pu_containers pods) in
      [(''node_cpu_usage_seconds_total'', [\<lparr>mc_labels = [], mc_value = uint (sum_list (map cu_core all))\<rparr>]),
       (''node_memory_working_set_bytes'', [\<lparr>mc_labels = [], mc_value = uint (sum_list (map cu_workingSet all))\<rparr>])] @
      filter (\<lambda>f. snd f \<noteq> [])
       [(''container_cpu_usage_seconds_total'', container_metrics (\<lambda>c. uint (cu_core c)) pods),
        (''container_memory_working_set_bytes'', container_metrics (\<lambda>c. uint (cu_workingSet c)) pods),
        (''container_start_time_seconds'', container_metrics (\<lambda>c. unix_of (cu_start c)) pods)])"

section \<open>Lemmas\<close>

text \<open>The product does not wrap around when the core time between the readings is below \<open>2\<^sup>6\<^sup>4 / 10\<^sup>9\<close> nanoseconds.\<close>

lemma rate_value:
  fixes used elapsed :: u64
  assumes "unat used \<le> 18446744073"
  shows "unat (used * 1000000000 div elapsed) = unat used * 1000000000 div unat elapsed"
proof -
  have "unat (used * 1000000000) = unat used * 1000000000"
    using assms by (subst unat_mult_lem [THEN iffD1]) simp_all
  then show ?thesis by (simp add: unat_div)
qed

lemma observe_records: "snd (observe key s r) = r(key \<mapsto> \<lparr>rd_at = zs_timestamp s, rd_core = zs_cpu s, rd_generation = zs_id s\<rparr>)"
  by (simp add: observe_def Let_def split: option.split)

section \<open>Properties\<close>

text \<open>
  A rate is a rate: it is reported only against an earlier reading of the same container, from
  an earlier time and with no larger counter, and it is then the core time used since, in
  nanoseconds per second, rounded down, as long as that core time is at most 18.4 seconds; above, the
  product of the source wraps around.
\<close>

theorem rate_exact:
  assumes "r key = Some prev" and "unat (zs_cpu s) - unat (rd_core prev) \<le> 18446744073"
  shows "case fst (observe key s r) of
      None \<Rightarrow> rd_generation prev \<noteq> zs_id s \<or> sint (zs_timestamp s) \<le> sint (rd_at prev) \<or> unat (zs_cpu s) < unat (rd_core prev)
    | Some rate \<Rightarrow> rd_generation prev = zs_id s \<and> sint (rd_at prev) < sint (zs_timestamp s) \<and> unat (rd_core prev) \<le> unat (zs_cpu s) \<and>
        unat rate = (unat (zs_cpu s) - unat (rd_core prev)) * 1000000000 div unat (zs_timestamp s - rd_at prev)"
proof (cases "rd_generation prev \<noteq> zs_id s \<or> zs_timestamp s \<le>s rd_at prev \<or> zs_cpu s < rd_core prev")
  case True
  then show ?thesis using assms(1) by (auto simp: observe_def Let_def word_sle_eq word_less_nat_alt)
next
  case False
  then have le: "rd_core prev \<le> zs_cpu s" by auto
  then have used: "unat (zs_cpu s - rd_core prev) = unat (zs_cpu s) - unat (rd_core prev)" by (rule unat_sub)
  have "fst (observe key s r) = Some ((zs_cpu s - rd_core prev) * 1000000000 div (zs_timestamp s - rd_at prev))"
    using False assms(1) by (simp add: observe_def Let_def)
  with False le show ?thesis
    using rate_value [of "zs_cpu s - rd_core prev" "zs_timestamp s - rd_at prev"] assms(2) used
    by (auto simp: word_sle_eq word_le_nat_alt)
qed

definition sample_stats :: "u64 \<Rightarrow> u64 \<Rightarrow> container_stats" where
  "sample_stats t cpu = \<lparr>zs_id = ''c1'', zs_name = ''web'', zs_timestamp = t, zs_cpu = cpu, zs_workingSet = 0, zs_usage = 0\<rparr>"

definition sample_rates :: rates where
  "sample_rates = [''ns/web-0/web'' \<mapsto> \<lparr>rd_at = 0, rd_core = 0, rd_generation = ''c1''\<rparr>]"

theorem rate_exact_witness:
  "map_option unat (fst (observe ''ns/web-0/web'' (sample_stats 10000000000 5000000000) sample_rates)) = Some 500000000"
proof -
  have "case fst (observe ''ns/web-0/web'' (sample_stats 10000000000 5000000000) sample_rates) of
      None \<Rightarrow> False | Some rate \<Rightarrow> unat rate = 500000000"
    using rate_exact [of sample_rates "''ns/web-0/web''" "\<lparr>rd_at = 0, rd_core = 0, rd_generation = ''c1''\<rparr>" "sample_stats 10000000000 5000000000"]
    by (simp add: sample_rates_def sample_stats_def split: option.splits)
  then show ?thesis by (simp split: option.splits)
qed

text \<open>
  One core kept busy for the minute between two scrapes is reported as less than a tenth of a core:
  the product wraps around.
\<close>

theorem busy_rate_wraps:
  "map_option unat (fst (observe ''ns/web-0/web'' (sample_stats 60000000000 60000000000) sample_rates)) = Some 77662796"
  by (simp add: observe_def sample_stats_def sample_rates_def word_sle_eq unat_div)

end
