(* ===== verification/Zun_Template.thy ===== *)
theory Zun_Template
  imports Zun_Capsule "HOL-Library.Signed_Division"
begin

text \<open>
  \<^verbatim>\<open>pkg/zun/template.go\<close>, \<^verbatim>\<open>security.go\<close>, \<^verbatim>\<open>probe.go\<close> and \<^verbatim>\<open>files.go\<close>: a pod turned into the capsule template
  that Zun is sent. A nil pointer is \<open>None\<close>. A resource quantity is a whole number of billionths, the
  finest a \<^verbatim>\<open>resource.Quantity\<close> holds. A Go map is an association list whose order is the order of the
  iteration over it.
\<close>

section \<open>The pod as it is written\<close>

record http_get =
  hg_host :: string
  hg_port :: int_or_string
  hg_scheme :: string
  hg_path :: string

record probe =
  pb_exec :: "string list option"
  pb_http :: "http_get option"
  pb_tcp :: "(string \<times> int_or_string) option"
  pb_grpc :: "(int \<times> string option) option"
  pb_timeout :: int
  pb_initialDelay :: int
  pb_period :: int
  pb_success :: int
  pb_failure :: int

record container_context =
  cc_privileged :: "bool option"
  cc_runAsNonRoot :: "bool option"
  cc_runAsUser :: "int option"
  cc_runAsGroup :: "int option"
  cc_readOnlyRootFilesystem :: "bool option"
  cc_allowPrivilegeEscalation :: "bool option"
  cc_capabilities :: "(string list \<times> string list) option"
  cc_seccomp :: "(string \<times> string option) option"

record pod_context =
  pc_runAsNonRoot :: "bool option"
  pc_runAsUser :: "int option"
  pc_runAsGroup :: "int option"
  pc_fsGroup :: "int option"
  pc_seccomp :: "(string \<times> string option) option"

record env_var =
  ev_name :: string
  ev_value :: string
  ev_sourced :: bool

record container_port =
  cn_name :: string
  cn_port :: int
  cn_protocol :: string

record volume_mount =
  vm_name :: string
  vm_path :: string
  vm_subPath :: string
  vm_subPathExpr :: string

record kcontainer =
  kc_name :: string
  kc_image :: string
  kc_command :: "string list"
  kc_args :: "string list"
  kc_workDir :: string
  kc_env :: "env_var list"
  kc_ports :: "container_port list"
  kc_cpuLimit :: int
  kc_memoryLimit :: int
  kc_mounts :: "volume_mount list"
  kc_security :: "container_context option"
  kc_liveness :: "probe option"
  kc_readiness :: "probe option"
  kc_startup :: "probe option"

record file_source =
  fs_name :: string
  fs_items :: "(string \<times> string) list"
  fs_optional :: "bool option"

record kvolume =
  kv_name :: string
  kv_hostPath :: bool
  kv_configMap :: "file_source option"
  kv_secret :: "file_source option"
  kv_emptyDir :: "(string \<times> int option) option"
  kv_claim :: "string option"
  kv_projected :: bool

record dns_config =
  dn_searches :: "string list"
  dn_nameservers :: "string list"

record kpod =
  kp_namespace :: string
  kp_name :: string
  kp_uid :: string
  kp_controller :: "string option"
  kp_hostNetwork :: bool
  kp_hostPID :: bool
  kp_hostIPC :: bool
  kp_nodeName :: string
  kp_schedulerName :: string
  kp_runtimeClass :: "string option"
  kp_restartPolicy :: string
  kp_automount :: "bool option"
  kp_serviceAccount :: string
  kp_dnsPolicy :: string
  kp_dnsConfig :: "dns_config option"
  kp_security :: "pod_context option"
  kp_volumes :: "kvolume list"
  kp_initContainers :: "kcontainer list"
  kp_containers :: "kcontainer list"

section \<open>The template\<close>

record containerSecurity =
  se_runAsUser :: "int option"
  se_runAsGroup :: "int option"
  se_fsGroup :: "int option"
  se_readOnlyRootFilesystem :: "bool option"
  se_allowPrivilegeEscalation :: "bool option"
  se_capabilities :: "(string list \<times> string list) option"
  se_seccomp :: "(string \<times> string option) option"

text \<open>CPU is counted in thousandths, as the source divides them, and memory in MiB; a zero is not sent.\<close>

record resources =
  rs_milliCPU :: int
  rs_memory :: int

record container =
  ct_name :: string
  ct_image :: string
  ct_command :: "string list"
  ct_args :: "string list"
  ct_workDir :: string
  ct_env :: labels
  ct_resources :: "resources option"
  ct_ports :: "(int \<times> string) list"
  ct_mounts :: "(string \<times> string) list"
  ct_security :: "containerSecurity option"
  ct_liveness :: "probe option"
  ct_readiness :: "probe option"
  ct_startup :: "probe option"

record capsuleVolume =
  cv_name :: string
  cv_file :: "string option"
  cv_emptyDir :: "(string \<times> int) option"
  cv_cinder :: "(string \<times> int) option"
  cv_nfs :: "(string \<times> string \<times> int) option"

record net =
  nt_network :: string
  nt_port :: string

record template =
  tp_name :: string
  tp_labels :: labels
  tp_annotations :: "labels option"
  tp_containers :: "container list"
  tp_initContainers :: "container list"
  tp_restartPolicy :: string
  tp_volumes :: "capsuleVolume list"
  tp_nets :: "net list"
  tp_securityGroups :: "string list option"
  tp_availabilityZone :: string
  tp_architecture :: string
  tp_runtime :: string

record ClaimMount =
  cm_kind :: string
  cm_volumeID :: string
  cm_export :: string

type_synonym files = "(string \<times> (string \<times> string) list) list"

record templateOptions =
  to_networkID :: string
  to_portID :: string
  to_availabilityZone :: string
  to_nodeName :: string
  to_files :: files
  to_dnsSearches :: "string list"
  to_dnsNameservers :: "string list"
  to_securityGroups :: "string list option"
  to_claims :: "(string \<times> ClaimMount) list"
  to_architecture :: string

text \<open>\<^verbatim>\<open>omitempty\<close> leaves out a slice of length zero, nil or not.\<close>

definition sent_groups :: "template \<Rightarrow> string list option" where
  "sent_groups t = (case tp_securityGroups t of None \<Rightarrow> None | Some [] \<Rightarrow> None | Some (g # gs) \<Rightarrow> Some (g # gs))"

section \<open>Validation\<close>

definition unsupported :: "string \<Rightarrow> string \<Rightarrow> err" where
  "unsupported field why = ErrInvalidInput (''pod field '' @ field @ '' is not supported on a KNaaS virtual node: '' @ why)"

text \<open>The first error of a loop over a list.\<close>

fun first_err :: "('a \<Rightarrow> unit result) \<Rightarrow> 'a list \<Rightarrow> unit result" where
  "first_err f [] = Inr ()"
| "first_err f (x # xs) = (case f x of Inl e \<Rightarrow> Inl e | Inr _ \<Rightarrow> first_err f xs)"

definition not_privileged :: err where
  "not_privileged = unsupported ''securityContext.privileged'' ''the capsule API cannot express privileged containers''"
definition nonroot_unchecked :: err where
  "nonroot_unchecked = unsupported ''securityContext.runAsNonRoot without runAsUser''
     ''honouring it means inspecting the image's own user, which this cannot do; set runAsUser to the uid you want''"
definition nonroot_contradicted :: err where
  "nonroot_contradicted = unsupported ''securityContext.runAsUser: 0 with runAsNonRoot'' ''the two contradict each other''"

definition or_else :: "'a option \<Rightarrow> 'a option \<Rightarrow> 'a option" where
  "or_else a b = (case a of None \<Rightarrow> b | Some _ \<Rightarrow> a)"

text \<open>Whether a container is to run as another user than root, and as which, its own word before the pod's.\<close>

definition nonRootOf :: "kpod \<Rightarrow> kcontainer \<Rightarrow> bool" where
  "nonRootOf pod c =
     (let podNonRoot = (case kp_security pod of None \<Rightarrow> False | Some ps \<Rightarrow> pc_runAsNonRoot ps = Some True) in
      case kc_security c of None \<Rightarrow> podNonRoot
      | Some sc \<Rightarrow> (case cc_runAsNonRoot sc of None \<Rightarrow> podNonRoot | Some b \<Rightarrow> b))"

definition userOf :: "kpod \<Rightarrow> kcontainer \<Rightarrow> int option" where
  "userOf pod c =
     (let podUser = (case kp_security pod of None \<Rightarrow> None | Some ps \<Rightarrow> pc_runAsUser ps) in
      case kc_security c of None \<Rightarrow> podUser | Some sc \<Rightarrow> or_else (cc_runAsUser sc) podUser)"

definition validateContainer :: "kpod \<Rightarrow> kcontainer \<Rightarrow> unit result" where
  "validateContainer pod c =
     (if (case kc_security c of None \<Rightarrow> False | Some sc \<Rightarrow> cc_privileged sc = Some True) then Inl not_privileged
      else if nonRootOf pod c \<and> userOf pod c = None then Inl nonroot_unchecked
      else if userOf pod c = Some 0 \<and> nonRootOf pod c then Inl nonroot_contradicted
      else Inr ())"

definition validateSecurity :: "kpod \<Rightarrow> unit result" where
  "validateSecurity pod = first_err (validateContainer pod) (kp_containers pod @ kp_initContainers pod)"

definition probe_host :: "string \<Rightarrow> err" where
  "probe_host field = unsupported field ''a probe runs inside the container and can only reach the container itself; leave host empty''"

definition no_handler :: err where "no_handler = unsupported ''probe'' ''no handler is set on the probe''"

definition own_host :: "string \<Rightarrow> bool" where
  "own_host h \<longleftrightarrow> h = [] \<or> h = ''localhost'' \<or> h = ''127.0.0.1''"

definition validateProbe :: "probe option \<Rightarrow> unit result" where
  "validateProbe p =
     (case p of None \<Rightarrow> Inr ()
      | Some p \<Rightarrow>
          if pb_exec p \<noteq> None then Inr ()
          else (case pb_http p of
            Some h \<Rightarrow> if own_host (hg_host h) then Inr () else Inl (probe_host ''probe httpGet.host'')
          | None \<Rightarrow>
              (case pb_tcp p of
                 Some (h, _) \<Rightarrow> if own_host h then Inr () else Inl (probe_host ''probe tcpSocket.host'')
               | None \<Rightarrow> if pb_grpc p \<noteq> None then Inr () else Inl no_handler)))"

definition validateVolume :: "kvolume \<Rightarrow> unit result" where
  "validateVolume v =
     (if kv_hostPath v then Inl (unsupported ''spec.volumes[].hostPath'' ''there is no shared host filesystem behind a virtual node'')
      else if kv_configMap v \<noteq> None \<or> kv_secret v \<noteq> None then Inr ()
      else if kv_emptyDir v \<noteq> None then Inr ()
      else if kv_claim v \<noteq> None then Inr ()
      else if kv_projected v then
        (if has_prefix (kv_name v) ''kube-api-access-'' then Inr ()
         else Inl (unsupported ''spec.volumes[].projected'' ''projected volumes need a kubelet to refresh their contents''))
      else Inl (unsupported (''volume '' @ kv_name v) ''only configMap and secret volumes can be carried into a capsule''))"

definition validateProbes :: "kcontainer \<Rightarrow> unit result" where
  "validateProbes c = first_err validateProbe [kc_liveness c, kc_readiness c, kc_startup c]"

definition validateHost :: "kpod \<Rightarrow> unit result" where
  "validateHost pod =
     (if kp_hostNetwork pod then Inl (unsupported ''spec.hostNetwork'' ''each capsule owns a Neutron port and has no host network to share'')
      else if kp_hostPID pod \<or> kp_hostIPC pod then
        Inl (unsupported ''spec.hostPID/spec.hostIPC'' ''a capsule runs in its own microVM with no host namespaces to join'')
      else if kp_nodeName pod \<noteq> [] \<and> kp_schedulerName pod = [] then
        Inl (unsupported ''spec.nodeName'' ''pods must be scheduled onto this node, not bound to it directly'')
      else Inr ())"

definition Validate :: "kpod \<Rightarrow> unit result" where
  "Validate pod =
     bind_r (validateSecurity pod) (\<lambda>_.
     bind_r (validateHost pod) (\<lambda>_.
     bind_r (first_err validateVolume (kp_volumes pod)) (\<lambda>_.
     first_err validateProbes (kp_containers pod @ kp_initContainers pod))))"

section \<open>Security and probes\<close>

definition effectiveSecurity :: "kpod \<Rightarrow> kcontainer \<Rightarrow> containerSecurity" where
  "effectiveSecurity pod c =
     (let out = (case kp_security pod of
            None \<Rightarrow> \<lparr>se_runAsUser = None, se_runAsGroup = None, se_fsGroup = None, se_readOnlyRootFilesystem = None,
                     se_allowPrivilegeEscalation = None, se_capabilities = None, se_seccomp = None\<rparr>
          | Some ps \<Rightarrow> \<lparr>se_runAsUser = pc_runAsUser ps, se_runAsGroup = pc_runAsGroup ps, se_fsGroup = pc_fsGroup ps, se_readOnlyRootFilesystem = None,
                     se_allowPrivilegeEscalation = None, se_capabilities = None, se_seccomp = pc_seccomp ps\<rparr>) in
      case kc_security c of None \<Rightarrow> out
      | Some cs \<Rightarrow>
          out\<lparr>se_runAsUser := or_else (cc_runAsUser cs) (se_runAsUser out),
              se_runAsGroup := or_else (cc_runAsGroup cs) (se_runAsGroup out),
              se_seccomp := or_else (cc_seccomp cs) (se_seccomp out),
              se_readOnlyRootFilesystem := cc_readOnlyRootFilesystem cs,
              se_allowPrivilegeEscalation := cc_allowPrivilegeEscalation cs,
              se_capabilities := cc_capabilities cs\<rparr>)"

definition security_empty :: "containerSecurity \<Rightarrow> bool" where
  "security_empty s \<longleftrightarrow>
     se_runAsUser s = None \<and> se_runAsGroup s = None \<and> se_fsGroup s = None \<and> se_readOnlyRootFilesystem s = None \<and>
     se_allowPrivilegeEscalation s = None \<and> se_capabilities s = None \<and> se_seccomp s = None"

definition ProbeHelper :: string where "ProbeHelper = ''/.kubezun/probe''"

definition probeTimeout :: "probe \<Rightarrow> int" where
  "probeTimeout p = (if pb_timeout p > 0 then pb_timeout p else 1)"

definition resolveProbePort :: "int_or_string \<Rightarrow> kcontainer \<Rightarrow> int result" where
  "resolveProbePort port c =
     (case port of
        IntVal n \<Rightarrow> Inr n
      | StrVal s \<Rightarrow>
          (case find (\<lambda>cp. cn_name cp = s) (kc_ports c) of
             Some cp \<Rightarrow> Inr (cn_port cp)
           | None \<Rightarrow> Inl (unsupported ''probe port'' (''named port '' @ quote_str s @ '' is not declared in the container's ports''))))"

definition grpc_probe :: "int \<Rightarrow> string \<Rightarrow> string \<Rightarrow> string" where
  "grpc_probe port svc timeout =
     (let addr = '' -addr=127.0.0.1:'' @ show_int port @ svc @ '' -connect-timeout='' @ timeout @ ''s -rpc-timeout='' @ timeout @ ''s; '' in
      ''if command -v grpc_health_probe >/dev/null 2>&1; then exec grpc_health_probe'' @ addr @
      ''elif command -v grpc-health-probe >/dev/null 2>&1; then exec grpc-health-probe'' @ addr @
      ''elif command -v nc >/dev/null 2>&1; then exec nc -z -w '' @ timeout @ '' 127.0.0.1 '' @ show_int port @ ''; '' @
      ''else echo \"kubezun probe: image has no grpc_health_probe or nc\" >&2; exit 1; fi'')"

definition RewriteProbe :: "probe option \<Rightarrow> kcontainer \<Rightarrow> probe option result" where
  "RewriteProbe p c =
     (case p of None \<Rightarrow> Inr None
      | Some p \<Rightarrow>
          if pb_exec p \<noteq> None then Inr (Some p)
          else
            (let timeout = show_int (probeTimeout p) in
             case pb_http p of
               Some h \<Rightarrow>
                 bind_r (resolveProbePort (hg_port h) c) (\<lambda>port.
                   Inr (Some (p\<lparr>pb_http := None, pb_exec := Some [ProbeHelper, ''-http'',
                     (if hg_scheme h = ''HTTPS'' then ''https'' else ''http'') @ ''://127.0.0.1:'' @ show_int port @ (if hg_path h = [] then ''/'' else hg_path h),
                     ''-timeout'', timeout @ ''s'']\<rparr>)))
             | None \<Rightarrow>
                 (case pb_tcp p of
                    Some (_, tcpPort) \<Rightarrow>
                      bind_r (resolveProbePort tcpPort c) (\<lambda>port.
                        Inr (Some (p\<lparr>pb_tcp := None, pb_exec := Some [ProbeHelper, ''-tcp'', ''127.0.0.1:'' @ show_int port, ''-timeout'', timeout @ ''s'']\<rparr>)))
                  | None \<Rightarrow>
                      (case pb_grpc p of
                         Some (port, service) \<Rightarrow>
                           (let svc = (case service of None \<Rightarrow> [] | Some s \<Rightarrow> if s = [] then [] else '' -service='' @ quote_str s) in
                            Inr (Some (p\<lparr>pb_grpc := None, pb_exec := Some [''sh'', ''-c'', grpc_probe port svc timeout]\<rparr>)))
                       | None \<Rightarrow> Inl no_handler))))"

section \<open>Volumes\<close>

text \<open>\<^verbatim>\<open>path.Clean\<close> and \<^verbatim>\<open>path.Join\<close>: the elements kept so far, last first.\<close>

fun clean_elems :: "bool \<Rightarrow> string list \<Rightarrow> string list \<Rightarrow> string list" where
  "clean_elems rooted acc [] = rev acc"
| "clean_elems rooted acc (e # es) =
     (if e = [] \<or> e = ''.'' then clean_elems rooted acc es
      else if e = ''..'' then
        (case acc of
           a # as \<Rightarrow> if a = ''..'' then clean_elems rooted (e # acc) es else clean_elems rooted as es
         | [] \<Rightarrow> if rooted then clean_elems rooted [] es else clean_elems rooted [e] es)
      else clean_elems rooted (e # acc) es)"

definition path_clean :: "string \<Rightarrow> string" where
  "path_clean p =
     (let rooted = has_prefix p ''/''; out = (if rooted then ''/'' else []) @ join_str ''/'' (clean_elems rooted [] (split_at (CHR ''/'') p)) in
      if out = [] then ''.'' else out)"

definition path_join :: "string \<Rightarrow> string \<Rightarrow> string" where
  "path_join a b =
     (if a = [] \<and> b = [] then [] else if a = [] then path_clean b else if b = [] then path_clean a else path_clean (a @ ''/'' @ b))"

text \<open>\<^verbatim>\<open>base64.StdEncoding\<close>.\<close>

definition b64_char :: "nat \<Rightarrow> char" where
  "b64_char n = (''ABCDEFGHIJKLMNOPQRSTUVWXYZabcdefghijklmnopqrstuvwxyz0123456789+/'') ! (n mod 64)"

fun base64 :: "string \<Rightarrow> string" where
  "base64 [] = []"
| "base64 [a] = (let n = of_char a * 16 in [b64_char (n div 64), b64_char n, CHR ''='', CHR ''=''])"
| "base64 [a, b] = (let n = (of_char a * 256 + of_char b) * 4 in [b64_char (n div 4096), b64_char (n div 64), b64_char n, CHR ''=''])"
| "base64 (a # b # c # rest) =
     (let n = (of_char a * 256 + of_char b) * 256 + of_char c in
      [b64_char (n div 262144), b64_char (n div 4096), b64_char (n div 64), b64_char n] @ base64 rest)"

definition name_char :: "char \<Rightarrow> bool" where
  "name_char c \<longleftrightarrow>
     (CHR ''a'' \<le> c \<and> c \<le> CHR ''z'') \<or> (CHR ''A'' \<le> c \<and> c \<le> CHR ''Z'') \<or> (CHR ''0'' \<le> c \<and> c \<le> CHR ''9'') \<or>
     c = CHR ''_'' \<or> c = CHR ''.'' \<or> c = CHR ''-''"

definition zunVolumeName :: "string \<Rightarrow> string" where
  "zunVolumeName s = map (\<lambda>c. if name_char c then c else CHR ''-'') s"

definition volumeName :: "string \<Rightarrow> string \<Rightarrow> string result" where
  "volumeName volume key =
     (let name = dropWhile (\<lambda>c. c \<in> set ''-._'') (zunVolumeName (volume @ ''-'' @ key)) in
      if length name < 2 then Inl (ErrText (''volume '' @ quote_str volume @ '' key '' @ quote_str key @ '': no usable capsule volume name''))
      else if length name > 255 then
        Inl (ErrText (''volume '' @ quote_str volume @ '' key '' @ quote_str key @ '': name is longer than the 255 characters Zun accepts''))
      else Inr name)"

definition fsGroupOf :: "kpod \<Rightarrow> int" where
  "fsGroupOf pod = (case kp_security pod of None \<Rightarrow> 0 | Some sc \<Rightarrow> (case pc_fsGroup sc of None \<Rightarrow> 0 | Some g \<Rightarrow> g))"

definition quantity_value :: "int \<Rightarrow> int" where "quantity_value q = - ((- q) div 10 ^ 9)"
definition quantity_milli :: "int \<Rightarrow> int" where "quantity_milli q = - ((- q) div 10 ^ 6)"

definition emptyDirOf :: "string \<times> int option \<Rightarrow> string \<times> int" where
  "emptyDirOf src = (fst src, case snd src of None \<Rightarrow> 0 | Some q \<Rightarrow> quantity_value q)"

definition allContainers :: "kpod \<Rightarrow> kcontainer list" where
  "allContainers pod = kp_initContainers pod @ kp_containers pod"

definition bare_volume :: "string \<Rightarrow> capsuleVolume" where
  "bare_volume name = \<lparr>cv_name = name, cv_file = None, cv_emptyDir = None, cv_cinder = None, cv_nfs = None\<rparr>"

text \<open>
  The volumes built so far and the mounts of each container by its name. A name is emitted exactly
  when a volume of that name has been built.
\<close>

record built =
  bt_volumes :: "capsuleVolume list"
  bt_mounts :: "(string \<times> string \<times> string) list"

definition emit :: "capsuleVolume \<Rightarrow> built \<Rightarrow> built" where
  "emit v b = (if cv_name v \<in> cv_name ` set (bt_volumes b) then b else b\<lparr>bt_volumes := bt_volumes b @ [v]\<rparr>)"

definition add_mount :: "kcontainer \<Rightarrow> string \<Rightarrow> string \<Rightarrow> built \<Rightarrow> built" where
  "add_mount c name target b = b\<lparr>bt_mounts := bt_mounts b @ [(kc_name c, name, target)]\<rparr>"

definition claimVolume :: "kpod \<Rightarrow> string \<Rightarrow> string \<Rightarrow> ClaimMount \<Rightarrow> capsuleVolume result" where
  "claimVolume pod name claim resolved =
     (if cm_kind resolved = ''cinder'' then Inr ((bare_volume name)\<lparr>cv_cinder := Some (cm_volumeID resolved, fsGroupOf pod)\<rparr>)
      else if cm_kind resolved = ''nfs'' then Inr ((bare_volume name)\<lparr>cv_nfs := Some (cm_export resolved, cm_volumeID resolved, fsGroupOf pod)\<rparr>)
      else Inl (ErrText (''volume '' @ name @ '': claim '' @ claim @ '' resolves to unknown storage '' @ quote_str (cm_kind resolved))))"

definition mountClaim :: "kpod \<Rightarrow> (string \<times> ClaimMount) list \<Rightarrow> kcontainer \<Rightarrow> volume_mount \<Rightarrow> string \<Rightarrow> built \<Rightarrow> built result" where
  "mountClaim pod claims c m claim b =
     (case map_of claims (vm_name m) of
        None \<Rightarrow> Inl (ErrText (''volume '' @ vm_name m @ '': claim '' @ claim @ '' was not resolved''))
      | Some resolved \<Rightarrow>
          if vm_name m \<in> cv_name ` set (bt_volumes b) then Inr (add_mount c (vm_name m) (vm_path m) b)
          else bind_r (claimVolume pod (vm_name m) claim resolved) (\<lambda>v. Inr (add_mount c (vm_name m) (vm_path m) (emit v b))))"

definition fileTarget :: "volume_mount \<Rightarrow> string \<Rightarrow> string" where
  "fileTarget m name = (if vm_subPath m \<noteq> [] then vm_path m else path_join (vm_path m) name)"

fun mountFiles :: "kcontainer \<Rightarrow> volume_mount \<Rightarrow> (string \<times> string) list \<Rightarrow> built \<Rightarrow> built result" where
  "mountFiles c m [] b = Inr b"
| "mountFiles c m ((name, data) # rest) b =
     (if vm_subPath m \<noteq> [] \<and> vm_subPath m \<noteq> name then mountFiles c m rest b
      else bind_r (volumeName (vm_name m) name) (\<lambda>volName.
           mountFiles c m rest (add_mount c volName (fileTarget m name) (emit ((bare_volume volName)\<lparr>cv_file := Some (base64 data)\<rparr>) b))))"

definition claimOf :: "kpod \<Rightarrow> string \<Rightarrow> string option" where
  "claimOf pod name = map_of (rev (List.map_filter (\<lambda>v. map_option (Pair (kv_name v)) (kv_claim v)) (kp_volumes pod))) name"

definition dirOf :: "kpod \<Rightarrow> string \<Rightarrow> (string \<times> int option) option" where
  "dirOf pod name = map_of (rev (List.map_filter (\<lambda>v. map_option (Pair (kv_name v)) (kv_emptyDir v)) (kp_volumes pod))) name"

definition no_subpath_expr :: err where
  "no_subpath_expr = unsupported ''volumeMounts[].subPathExpr'' ''expanding a subPath needs the pod's environment resolved on the node''"

definition mountOne :: "kpod \<Rightarrow> files \<Rightarrow> (string \<times> ClaimMount) list \<Rightarrow> kcontainer \<Rightarrow> volume_mount \<Rightarrow> built \<Rightarrow> built result" where
  "mountOne pod files claims c m b =
     (case claimOf pod (vm_name m) of
        Some claim \<Rightarrow> mountClaim pod claims c m claim b
      | None \<Rightarrow>
          (case dirOf pod (vm_name m) of
             Some src \<Rightarrow> Inr (add_mount c (vm_name m) (vm_path m) (emit ((bare_volume (vm_name m))\<lparr>cv_emptyDir := Some (emptyDirOf src)\<rparr>) b))
           | None \<Rightarrow>
               (case map_of files (vm_name m) of
                  None \<Rightarrow> Inr b
                | Some content \<Rightarrow> if vm_subPathExpr m \<noteq> [] then Inl no_subpath_expr else mountFiles c m content b)))"

definition buildFileVolumes :: "kpod \<Rightarrow> files \<Rightarrow> (string \<times> ClaimMount) list \<Rightarrow> built result" where
  "buildFileVolumes pod files claims =
     fold_r (\<lambda>(c, m). mountOne pod files claims c m)
       (concat (map (\<lambda>c. map (Pair c) (kc_mounts c)) (allContainers pod))) \<lparr>bt_volumes = [], bt_mounts = []\<rparr>"

definition mountsOf :: "built \<Rightarrow> string \<Rightarrow> (string \<times> string) list" where
  "mountsOf b name = map snd (filter (\<lambda>x. fst x = name) (bt_mounts b))"

section \<open>The whole template\<close>

definition annotationsFor :: "templateOptions \<Rightarrow> labels option" where
  "annotationsFor opts =
     (let out = (if to_dnsSearches opts \<noteq> [] then [(''knaas.io/dns-searches'', join_str '','' (to_dnsSearches opts))] else []) @
                (if to_dnsNameservers opts \<noteq> [] then [(''knaas.io/dns-nameservers'', join_str '','' (to_dnsNameservers opts))] else []) in
      if out = [] then None else Some out)"

definition knownArchitectures :: "string list" where
  "knownArchitectures = [''amd64'', ''arm64'', ''ppc64le'', ''s390x'', ''riscv64'']"

definition ValidateArchitecture :: "string \<Rightarrow> unit result" where
  "ValidateArchitecture arch =
     (if arch = [] then Inr ()
      else if arch \<notin> set knownArchitectures
      then Inl (ErrText (''unknown architecture '' @ quote_str arch @ '': want one of amd64, arm64, ppc64le, s390x, riscv64''))
      else Inr ())"

definition runtimeClass :: "kpod \<Rightarrow> string" where
  "runtimeClass pod = (case kp_runtimeClass pod of None \<Rightarrow> [] | Some c \<Rightarrow> c)"

definition restartPolicy :: "kpod \<Rightarrow> string" where
  "restartPolicy pod = (if kp_restartPolicy pod = ''Never'' then ''Never'' else if kp_restartPolicy pod = ''OnFailure'' then ''OnFailure'' else ''Always'')"

definition LabelOwnerUID :: string where "LabelOwnerUID = ''knaas.io/owner-uid''"

definition ownedLabels :: "kpod \<Rightarrow> labels" where
  "ownedLabels pod =
     [(LabelManagedBy, ManagedByValue), (LabelNamespace, kp_namespace pod), (LabelPodName, kp_name pod), (LabelPodUID, kp_uid pod)] @
     (case kp_controller pod of None \<Rightarrow> [] | Some owner \<Rightarrow> [(LabelOwnerUID, owner)])"

definition buildResources :: "kcontainer \<Rightarrow> resources option" where
  "buildResources c =
     (let cpu = kc_cpuLimit c; mem = kc_memoryLimit c in
      if cpu = 0 \<and> mem = 0 then None
      else Some \<lparr>rs_milliCPU = (if cpu \<noteq> 0 then quantity_milli cpu else 0), rs_memory = (if mem \<noteq> 0 then quantity_value mem sdiv 1048576 else 0)\<rparr>)"

text \<open>A later entry of the same name replaces an earlier one, and a lookup takes the first.\<close>

definition buildContainer :: "kpod \<Rightarrow> kcontainer \<Rightarrow> container result" where
  "buildContainer pod c =
     (let sec = effectiveSecurity pod c in
      bind_r (RewriteProbe (kc_liveness c) c) (\<lambda>live.
      bind_r (RewriteProbe (kc_readiness c) c) (\<lambda>ready.
      bind_r (RewriteProbe (kc_startup c) c) (\<lambda>start.
      Inr \<lparr>ct_name = kc_name c, ct_image = kc_image c, ct_command = kc_command c, ct_args = kc_args c, ct_workDir = kc_workDir c,
           ct_env = rev (map (\<lambda>e. (ev_name e, ev_value e)) (filter (\<lambda>e. \<not> ev_sourced e) (kc_env c))),
           ct_resources = buildResources c, ct_ports = map (\<lambda>p. (cn_port p, cn_protocol p)) (kc_ports c), ct_mounts = [],
           ct_security = (if security_empty sec then None else Some sec),
           ct_liveness = live, ct_readiness = ready, ct_startup = start\<rparr>))))"

definition netsFor :: "templateOptions \<Rightarrow> net list" where
  "netsFor opts =
     (if to_portID opts \<noteq> [] then [\<lparr>nt_network = [], nt_port = to_portID opts\<rparr>]
      else if to_networkID opts \<noteq> [] then [\<lparr>nt_network = to_networkID opts, nt_port = []\<rparr>] else [])"

definition BuildTemplate :: "kpod \<Rightarrow> templateOptions \<Rightarrow> template result" where
  "BuildTemplate pod opts =
     bind_r (Validate pod) (\<lambda>_.
     bind_r (map_r (buildContainer pod) (kp_initContainers pod)) (\<lambda>inits.
     bind_r (map_r (buildContainer pod) (kp_containers pod)) (\<lambda>containers.
     if containers = [] then Inl (ErrInvalidInput ''pod has no containers'')
     else
       bind_r (buildFileVolumes pod (to_files opts) (to_claims opts)) (\<lambda>b.
       Inr \<lparr>tp_name = ''kubezun-'' @ kp_uid pod,
            tp_labels = ownedLabels pod @ (if to_nodeName opts \<noteq> [] then [(LabelNodeName, to_nodeName opts)] else []),
            tp_annotations = annotationsFor opts,
            tp_containers = map (\<lambda>c. c\<lparr>ct_mounts := mountsOf b (ct_name c)\<rparr>) containers,
            tp_initContainers = map (\<lambda>c. c\<lparr>ct_mounts := mountsOf b (ct_name c)\<rparr>) inits,
            tp_restartPolicy = restartPolicy pod, tp_volumes = bt_volumes b, tp_nets = netsFor opts,
            tp_securityGroups = to_securityGroups opts, tp_availabilityZone = to_availabilityZone opts,
            tp_architecture = to_architecture opts, tp_runtime = runtimeClass pod\<rparr>))))"

section \<open>Lemmas\<close>

lemmas bind_r_Inr [simp] = bind_r_Inr_iff

lemma all2_map: "list_all2 (\<lambda>x y. f x = g y) xs ys \<Longrightarrow> map g ys = map f xs"
  by (induction rule: list_all2_induct) auto

lemma first_err_ok: "first_err f xs = Inr () \<longleftrightarrow> (\<forall>x\<in>set xs. f x = Inr ())"
  by (induction xs) (auto split: sum.split)

text \<open>What a template that was built says of its parts.\<close>

lemma BuildTemplate_parts:
  assumes "BuildTemplate pod opts = Inr t"
  obtains inits containers b where
    "Validate pod = Inr ()" "map_r (buildContainer pod) (kp_initContainers pod) = Inr inits"
    "map_r (buildContainer pod) (kp_containers pod) = Inr containers" "containers \<noteq> []"
    "buildFileVolumes pod (to_files opts) (to_claims opts) = Inr b"
    "tp_initContainers t = map (\<lambda>c. c\<lparr>ct_mounts := mountsOf b (ct_name c)\<rparr>) inits"
    "tp_containers t = map (\<lambda>c. c\<lparr>ct_mounts := mountsOf b (ct_name c)\<rparr>) containers"
    "tp_volumes t = bt_volumes b"
    "tp_labels t = ownedLabels pod @ (if to_nodeName opts \<noteq> [] then [(LabelNodeName, to_nodeName opts)] else [])"
    "tp_name t = ''kubezun-'' @ kp_uid pod" "tp_securityGroups t = to_securityGroups opts" "tp_restartPolicy t = restartPolicy pod"
  using assms unfolding BuildTemplate_def by (auto split: if_splits)

lemma built_containers:
  assumes "BuildTemplate pod opts = Inr t"
  shows "list_all2 (\<lambda>c k. \<exists>k0. buildContainer pod c = Inr k0 \<and> k = k0\<lparr>ct_mounts := ct_mounts k\<rparr>) (allContainers pod) (tp_initContainers t @ tp_containers t)"
proof -
  from assms obtain inits containers b where i: "map_r (buildContainer pod) (kp_initContainers pod) = Inr inits"
    and c: "map_r (buildContainer pod) (kp_containers pod) = Inr containers"
    and t: "tp_initContainers t = map (\<lambda>c. c\<lparr>ct_mounts := mountsOf b (ct_name c)\<rparr>) inits"
      "tp_containers t = map (\<lambda>c. c\<lparr>ct_mounts := mountsOf b (ct_name c)\<rparr>) containers"
    by (elim BuildTemplate_parts)
  have "list_all2 (\<lambda>c k. buildContainer pod c = Inr k) (allContainers pod) (inits @ containers)"
    unfolding allContainers_def using map_r_all2 [OF i] map_r_all2 [OF c] by (rule list_all2_appendI)
  then show ?thesis
    unfolding t map_append [symmetric] list_all2_map2 by (rule list_all2_mono) auto
qed

lemma buildContainer_name: "buildContainer pod c = Inr k \<Longrightarrow> ct_name k = kc_name c"
  by (auto simp: buildContainer_def Let_def)

lemma template_names:
  assumes "BuildTemplate pod opts = Inr t"
  shows "map ct_name (tp_initContainers t @ tp_containers t) = map kc_name (allContainers pod)"
proof (rule all2_map)
  show "list_all2 (\<lambda>c k. kc_name c = ct_name k) (allContainers pod) (tp_initContainers t @ tp_containers t)"
    using built_containers [OF assms]
    by (rule list_all2_mono) (metis buildContainer_name container.select_convs(1) container.surjective container.update_convs(9))
qed

lemma Validate_containers: "Validate pod = Inr () \<Longrightarrow> c \<in> set (allContainers pod) \<Longrightarrow> validateContainer pod c = Inr ()"
  by (auto simp: Validate_def validateSecurity_def first_err_ok allContainers_def)

lemma effective_user: "se_runAsUser (effectiveSecurity pod c) = userOf pod c"
  by (simp add: effectiveSecurity_def userOf_def Let_def split: option.split)

section \<open>Properties\<close>

text \<open>
  C20. No pod runs with less isolation than it asked for: a template is built for no pod with a
  privileged container or a host namespace, and a container that is to run as another user than
  root, by its own word or its pod's, is sent with a user, and that user is not root.
\<close>

theorem isolation_honoured:
  assumes "BuildTemplate pod opts = Inr t"
  shows "\<not> kp_hostNetwork pod \<and> \<not> kp_hostPID pod \<and> \<not> kp_hostIPC pod \<and>
    list_all2 (\<lambda>c k. ct_name k = kc_name c \<and> (case kc_security c of None \<Rightarrow> True | Some sc \<Rightarrow> cc_privileged sc \<noteq> Some True) \<and>
        (if nonRootOf pod c then \<exists>s u. ct_security k = Some s \<and> se_runAsUser s = Some u \<and> u \<noteq> 0 else True))
      (allContainers pod) (tp_initContainers t @ tp_containers t)"
proof -
  from assms have ok: "Validate pod = Inr ()" by (elim BuildTemplate_parts)
  then have "\<not> kp_hostNetwork pod \<and> \<not> kp_hostPID pod \<and> \<not> kp_hostIPC pod"
    by (auto simp: Validate_def validateHost_def split: if_splits)
  moreover have "list_all2 (\<lambda>c k. ct_name k = kc_name c \<and> (case kc_security c of None \<Rightarrow> True | Some sc \<Rightarrow> cc_privileged sc \<noteq> Some True) \<and>
        (if nonRootOf pod c then \<exists>s u. ct_security k = Some s \<and> se_runAsUser s = Some u \<and> u \<noteq> 0 else True))
      (allContainers pod) (tp_initContainers t @ tp_containers t)"
    using built_containers [OF assms]
  proof (rule list.rel_mono_strong)
    fix c k assume "c \<in> set (allContainers pod)" and "\<exists>k0. buildContainer pod c = Inr k0 \<and> k = k0\<lparr>ct_mounts := ct_mounts k\<rparr>"
    then obtain k0 where v: "validateContainer pod c = Inr ()" and k0: "buildContainer pod c = Inr k0" "k = k0\<lparr>ct_mounts := ct_mounts k\<rparr>"
      using Validate_containers [OF ok] by auto
    have sec: "ct_security k = (if security_empty (effectiveSecurity pod c) then None else Some (effectiveSecurity pod c))"
      using k0(1) by (subst k0(2)) (auto simp: buildContainer_def Let_def)
    have "ct_name k = kc_name c" using buildContainer_name [OF k0(1)] by (subst k0(2)) simp
    with v sec show "ct_name k = kc_name c \<and> (case kc_security c of None \<Rightarrow> True | Some sc \<Rightarrow> cc_privileged sc \<noteq> Some True) \<and>
        (if nonRootOf pod c then \<exists>s u. ct_security k = Some s \<and> se_runAsUser s = Some u \<and> u \<noteq> 0 else True)"
      using effective_user [of pod c]
      by (auto simp: validateContainer_def security_empty_def split: if_splits option.splits)
  qed
  ultimately show ?thesis by blast
qed

text \<open>A pod with one container that mounts two secrets, and asks not to run as root.\<close>

definition sample_container_of :: "volume_mount list \<Rightarrow> kcontainer" where
  "sample_container_of ms =
     \<lparr>kc_name = ''web'', kc_image = ''nginx'', kc_command = [], kc_args = [], kc_workDir = [], kc_env = [], kc_ports = [\<lparr>cn_name = ''http'', cn_port = 80, cn_protocol = ''TCP''\<rparr>],
      kc_cpuLimit = 0, kc_memoryLimit = 0, kc_mounts = ms, kc_security = None, kc_liveness = None,
      kc_readiness = Some \<lparr>pb_exec = None, pb_http = Some \<lparr>hg_host = [], hg_port = StrVal ''http'', hg_scheme = ''HTTP'', hg_path = ''/up''\<rparr>, pb_tcp = None, pb_grpc = None,
        pb_timeout = 0, pb_initialDelay = 0, pb_period = 10, pb_success = 1, pb_failure = 3\<rparr>, kc_startup = None\<rparr>"

definition secret_volume :: "string \<Rightarrow> kvolume" where
  "secret_volume n = \<lparr>kv_name = n, kv_hostPath = False, kv_configMap = None, kv_secret = Some \<lparr>fs_name = n, fs_items = [], fs_optional = None\<rparr>, kv_emptyDir = None, kv_claim = None, kv_projected = False\<rparr>"

definition sample_mount :: "string \<Rightarrow> string \<Rightarrow> volume_mount" where
  "sample_mount n p = \<lparr>vm_name = n, vm_path = p, vm_subPath = [], vm_subPathExpr = []\<rparr>"

definition sample_kpod :: "kvolume list \<Rightarrow> volume_mount list \<Rightarrow> kpod" where
  "sample_kpod vs ms =
     \<lparr>kp_namespace = ''ns'', kp_name = ''web-0'', kp_uid = ''u1'', kp_controller = None, kp_hostNetwork = False, kp_hostPID = False, kp_hostIPC = False,
      kp_nodeName = ''n1'', kp_schedulerName = ''default-scheduler'', kp_runtimeClass = None, kp_restartPolicy = ''Always'', kp_automount = None, kp_serviceAccount = [],
      kp_dnsPolicy = ''ClusterFirst'', kp_dnsConfig = None,
      kp_security = Some \<lparr>pc_runAsNonRoot = Some True, pc_runAsUser = Some 1000, pc_runAsGroup = None, pc_fsGroup = None, pc_seccomp = None\<rparr>,
      kp_volumes = vs, kp_initContainers = [], kp_containers = [sample_container_of ms]\<rparr>"

definition sample_options :: "files \<Rightarrow> templateOptions" where
  "sample_options fs =
     \<lparr>to_networkID = ''net'', to_portID = [], to_availabilityZone = [], to_nodeName = ''n1'', to_files = fs, to_dnsSearches = [], to_dnsNameservers = [],
      to_securityGroups = None, to_claims = [], to_architecture = []\<rparr>"

definition sample_template :: template where
  "sample_template =
     (case BuildTemplate (sample_kpod [secret_volume ''app''] [sample_mount ''app'' ''/etc/app'']) (sample_options [(''app'', [(''key'', ''hunter2'')])]) of Inr t \<Rightarrow> t)"

lemma sample_built:
  "BuildTemplate (sample_kpod [secret_volume ''app''] [sample_mount ''app'' ''/etc/app'']) (sample_options [(''app'', [(''key'', ''hunter2'')])]) = Inr sample_template"
proof -
  have "\<exists>t. BuildTemplate (sample_kpod [secret_volume ''app''] [sample_mount ''app'' ''/etc/app'']) (sample_options [(''app'', [(''key'', ''hunter2'')])]) = Inr t"
    by (simp add: BuildTemplate_def Validate_def validateSecurity_def validateContainer_def nonRootOf_def userOf_def sample_kpod_def sample_container_of_def
      validateHost_def validateVolume_def secret_volume_def validateProbes_def validateProbe_def own_host_def buildContainer_def RewriteProbe_def resolveProbePort_def
      buildFileVolumes_def allContainers_def mountOne_def claimOf_def dirOf_def sample_mount_def sample_options_def volumeName_def zunVolumeName_def name_char_def Let_def map_filter_def)
  then show ?thesis unfolding sample_template_def by force
qed

theorem isolation_honoured_witness:
  "\<exists>k s u. tp_containers sample_template = [k] \<and> ct_security k = Some s \<and> se_runAsUser s = Some u \<and> u \<noteq> 0"
proof -
  have "list_all2 (\<lambda>c k. ct_name k = kc_name c \<and> (case kc_security c of None \<Rightarrow> True | Some sc \<Rightarrow> cc_privileged sc \<noteq> Some True) \<and>
        (if nonRootOf (sample_kpod [secret_volume ''app''] [sample_mount ''app'' ''/etc/app'']) c then \<exists>s u. ct_security k = Some s \<and> se_runAsUser s = Some u \<and> u \<noteq> 0 else True))
      [sample_container_of [sample_mount ''app'' ''/etc/app'']] (tp_initContainers sample_template @ tp_containers sample_template)"
    using isolation_honoured [OF sample_built] by (simp add: allContainers_def sample_kpod_def)
  moreover have "tp_initContainers sample_template = []" using sample_built by (elim BuildTemplate_parts) (simp add: sample_kpod_def)
  ultimately show ?thesis by (auto simp: list_all2_Cons1 nonRootOf_def sample_kpod_def sample_container_of_def)
qed

definition one_source :: "capsuleVolume \<Rightarrow> bool" where
  "one_source v \<longleftrightarrow> length (filter id [cv_file v \<noteq> None, cv_emptyDir v \<noteq> None, cv_cinder v \<noteq> None, cv_nfs v \<noteq> None]) = 1"

definition built_ok :: "built \<Rightarrow> bool" where
  "built_ok b \<longleftrightarrow> distinct (map cv_name (bt_volumes b)) \<and> list_all one_source (bt_volumes b) \<and>
     (\<forall>x\<in>set (bt_mounts b). fst (snd x) \<in> cv_name ` set (bt_volumes b))"

lemma emit_ok: "built_ok b \<Longrightarrow> one_source v \<Longrightarrow> built_ok (add_mount c (cv_name v) p (emit v b))"
  by (auto simp: built_ok_def emit_def add_mount_def)

lemma mountFiles_ok: "mountFiles c m content b = Inr b' \<Longrightarrow> built_ok b \<Longrightarrow> built_ok b'"
proof (induction c m content b rule: mountFiles.induct)
  case (2 c m name data rest b)
  then show ?case
    using emit_ok [of b "(bare_volume _)\<lparr>cv_file := Some (base64 data)\<rparr>"] by (auto simp: one_source_def bare_volume_def split: if_splits)
qed simp

lemma claimVolume_source: "claimVolume pod n claim x = Inr v \<Longrightarrow> one_source v \<and> cv_name v = n"
  by (auto simp: claimVolume_def one_source_def bare_volume_def split: if_splits)

lemma mountClaim_ok: "mountClaim pod claims c m claim b = Inr b' \<Longrightarrow> built_ok b \<Longrightarrow> built_ok b'"
  using emit_ok claimVolume_source
  by (fastforce simp: mountClaim_def built_ok_def add_mount_def split: option.splits if_splits)

lemma mountDir_ok: "built_ok b \<Longrightarrow> built_ok (add_mount c n p (emit ((bare_volume n)\<lparr>cv_emptyDir := Some d\<rparr>) b))"
  using emit_ok [of b "(bare_volume n)\<lparr>cv_emptyDir := Some d\<rparr>"] by (simp add: one_source_def bare_volume_def)

lemma mountOne_ok: "mountOne pod files claims c m b = Inr b' \<Longrightarrow> built_ok b \<Longrightarrow> built_ok b'"
  by (auto simp: mountOne_def split: option.splits if_splits intro: mountDir_ok dest: mountClaim_ok mountFiles_ok)

text \<open>
  C21. A template that is built is well formed: its volumes have different names and one source each,
  every mount of a container names one of them, the containers are those of the pod, by name and
  in order, at least one of them not an init container, and the restart policy is one of the three Zun accepts.
\<close>

theorem template_well_formed:
  assumes "BuildTemplate pod opts = Inr t"
  shows "distinct (map cv_name (tp_volumes t)) \<and> list_all one_source (tp_volumes t) \<and>
    list_all (\<lambda>k. set (map fst (ct_mounts k)) \<subseteq> set (map cv_name (tp_volumes t))) (tp_initContainers t @ tp_containers t) \<and>
    map ct_name (tp_initContainers t @ tp_containers t) = map kc_name (allContainers pod) \<and> tp_containers t \<noteq> [] \<and>
    tp_restartPolicy t \<in> {''Always'', ''OnFailure'', ''Never''}"
proof -
  obtain inits containers b where parts: "buildFileVolumes pod (to_files opts) (to_claims opts) = Inr b" "containers \<noteq> []"
    "tp_initContainers t = map (\<lambda>c. c\<lparr>ct_mounts := mountsOf b (ct_name c)\<rparr>) inits"
    "tp_containers t = map (\<lambda>c. c\<lparr>ct_mounts := mountsOf b (ct_name c)\<rparr>) containers"
    "tp_volumes t = bt_volumes b" "tp_restartPolicy t = restartPolicy pod"
    using assms by (elim BuildTemplate_parts)
  have ok: "built_ok b"
    using parts(1) unfolding buildFileVolumes_def
    by (rule fold_r_invariant) (auto dest: mountOne_ok, simp add: built_ok_def)
  then have "set (map fst (mountsOf b n)) \<subseteq> set (map cv_name (bt_volumes b))" for n
    by (force simp: built_ok_def mountsOf_def)
  moreover note template_names [OF assms]
  ultimately show ?thesis
    using ok parts(2) unfolding parts(3-6) by (simp add: built_ok_def restartPolicy_def list_all_iff ball_Un)
qed

theorem template_well_formed_witness:
  "distinct (map cv_name (tp_volumes sample_template)) \<and> map ct_name (tp_initContainers sample_template @ tp_containers sample_template) = [''web'']"
  using template_well_formed [OF sample_built] by (simp add: allContainers_def sample_kpod_def sample_container_of_def)

text \<open>
  A capsule is recognised as what it is: from the labels of a template the pod it was built for,
  its UID and the node that built it are read back.
\<close>

theorem labels_read_back:
  assumes "BuildTemplate pod opts = Inr t" and "kp_namespace pod \<noteq> []" and "kp_name pod \<noteq> []"
  shows "PodKeyFromLabels (tp_labels t) = Some (kp_namespace pod, kp_name pod) \<and> label_of (tp_labels t) LabelPodUID = kp_uid pod \<and>
    label_of (tp_labels t) LabelNodeName = to_nodeName opts"
proof -
  have "tp_labels t = ownedLabels pod @ (if to_nodeName opts \<noteq> [] then [(LabelNodeName, to_nodeName opts)] else [])"
    using assms(1) by (elim BuildTemplate_parts)
  with assms(2,3) show ?thesis
    by (auto simp: ownedLabels_def PodKeyFromLabels_def label_of_def Let_def LabelManagedBy_def ManagedByValue_def LabelNamespace_def LabelPodName_def
      LabelPodUID_def LabelOwnerUID_def LabelNodeName_def split: option.split)
qed

theorem labels_read_back_witness:
  "PodKeyFromLabels (tp_labels sample_template) = Some (''ns'', ''web-0'') \<and> label_of (tp_labels sample_template) LabelNodeName = ''n1''"
  using labels_read_back [OF sample_built] by (simp add: sample_kpod_def sample_options_def)

text \<open>
  Every probe of a capsule runs inside its container, when its author meant it to: each probe of a template is
  a command, absent exactly when the pod's is absent, the pod's own command where it has one, and
  its delay, period, thresholds and timeout are the pod's.
\<close>

definition runs_inside :: "probe option \<Rightarrow> probe option \<Rightarrow> bool" where
  "runs_inside p p' \<longleftrightarrow>
     (case (p, p') of
        (None, None) \<Rightarrow> True
      | (Some a, Some b) \<Rightarrow>
          pb_exec b \<noteq> None \<and> (if pb_exec a \<noteq> None then b = a else True) \<and> pb_timeout b = pb_timeout a \<and> pb_initialDelay b = pb_initialDelay a \<and>
          pb_period b = pb_period a \<and> pb_success b = pb_success a \<and> pb_failure b = pb_failure a
      | _ \<Rightarrow> False)"

lemma RewriteProbe_inside: "RewriteProbe p c = Inr p' \<Longrightarrow> runs_inside p p'"
  by (auto simp: RewriteProbe_def runs_inside_def Let_def split: option.splits if_splits)

theorem probes_run_inside:
  assumes "BuildTemplate pod opts = Inr t"
  shows "list_all2 (\<lambda>c k. runs_inside (kc_liveness c) (ct_liveness k) \<and> runs_inside (kc_readiness c) (ct_readiness k) \<and> runs_inside (kc_startup c) (ct_startup k))
    (allContainers pod) (tp_initContainers t @ tp_containers t)"
  using built_containers [OF assms]
proof (rule list_all2_mono)
  fix c k assume "\<exists>k0. buildContainer pod c = Inr k0 \<and> k = k0\<lparr>ct_mounts := ct_mounts k\<rparr>"
  then obtain k0 where k0: "buildContainer pod c = Inr k0" "k = k0\<lparr>ct_mounts := ct_mounts k\<rparr>" by blast
  have "RewriteProbe (kc_liveness c) c = Inr (ct_liveness k) \<and> RewriteProbe (kc_readiness c) c = Inr (ct_readiness k) \<and> RewriteProbe (kc_startup c) c = Inr (ct_startup k)"
    using k0(1) by (subst (1 2 3) k0(2)) (auto simp: buildContainer_def Let_def)
  then show "runs_inside (kc_liveness c) (ct_liveness k) \<and> runs_inside (kc_readiness c) (ct_readiness k) \<and> runs_inside (kc_startup c) (ct_startup k)"
    by (auto intro: RewriteProbe_inside)
qed

theorem probes_run_inside_witness:
  "\<exists>k p. tp_initContainers sample_template @ tp_containers sample_template = [k] \<and> ct_readiness k = Some p \<and> pb_exec p \<noteq> None \<and> pb_period p = 10"
proof -
  have "list_all2 (\<lambda>c k. runs_inside (kc_liveness c) (ct_liveness k) \<and> runs_inside (kc_readiness c) (ct_readiness k) \<and> runs_inside (kc_startup c) (ct_startup k))
    [sample_container_of [sample_mount ''app'' ''/etc/app'']] (tp_initContainers sample_template @ tp_containers sample_template)"
    using probes_run_inside [OF sample_built] by (simp add: allContainers_def sample_kpod_def)
  then show ?thesis
    by (auto simp: list_all2_Cons1 sample_container_of_def runs_inside_def split: option.splits)
qed

definition file_keys :: "files \<Rightarrow> (string \<times> string) list" where
  "file_keys fs = concat (map (\<lambda>(vol, content). map (\<lambda>(key, _). (vol, key)) content) fs)"

definition names_apart :: "kpod \<Rightarrow> files \<Rightarrow> bool" where
  "names_apart pod fs \<longleftrightarrow>
     list_all (\<lambda>(_, content). distinct (map fst content)) fs \<and> distinct (map (\<lambda>(vol, key). volumeName vol key) (file_keys fs)) \<and>
     list_all (\<lambda>(vol, key). case volumeName vol key of Inl _ \<Rightarrow> True | Inr n \<Rightarrow> claimOf pod n = None \<and> dirOf pod n = None) (file_keys fs)"

definition origin :: "kpod \<Rightarrow> files \<Rightarrow> capsuleVolume \<Rightarrow> bool" where
  "origin pod fs v \<longleftrightarrow> claimOf pod (cv_name v) \<noteq> None \<or> dirOf pod (cv_name v) \<noteq> None \<or>
     (\<exists>vol content key data. map_of fs vol = Some content \<and> (key, data) \<in> set content \<and> volumeName vol key = Inr (cv_name v) \<and> cv_file v = Some (base64 data))"

definition grows :: "built \<Rightarrow> built \<Rightarrow> bool" where
  "grows b b' \<longleftrightarrow> set (bt_mounts b) \<subseteq> set (bt_mounts b') \<and> set (bt_volumes b) \<subseteq> set (bt_volumes b')"

lemma grows_simps [simp]: "grows b b" "grows b (add_mount c n p b')  \<longleftrightarrow> grows b (b'\<lparr>bt_mounts := bt_mounts b' @ [(kc_name c, n, p)]\<rparr>)"
  by (auto simp: grows_def add_mount_def)

lemma grows_trans: "grows a b \<Longrightarrow> grows b c \<Longrightarrow> grows a c"
  by (auto simp: grows_def)

lemma grows_step: "grows b (add_mount c n p (emit v b))"
  by (auto simp: grows_def add_mount_def emit_def)

lemma mountFiles_grows: "mountFiles c m content b = Inr b' \<Longrightarrow> grows b b'"
proof (induction c m content b rule: mountFiles.induct)
  case (2 c m name data rest b)
  then show ?case by (auto split: if_splits intro: grows_trans [OF grows_step] simp del: grows_simps)
qed simp

lemma mountClaim_grows: "mountClaim pod claims c m claim b = Inr b' \<Longrightarrow> grows b b'"
  by (auto simp: mountClaim_def grows_step grows_def add_mount_def emit_def split: option.splits if_splits)

lemma mountOne_grows: "mountOne pod fs claims c m b = Inr b' \<Longrightarrow> grows b b'"
  by (auto simp: mountOne_def simp del: grows_simps split: option.splits if_splits intro: grows_step dest: mountClaim_grows mountFiles_grows)
    (simp add: grows_def)

lemma mountFiles_delivers:
  assumes "mountFiles c m content b = Inr b'" and "(name, data) \<in> set content" and "vm_subPath m = [] \<or> vm_subPath m = name"
  shows "\<exists>n. volumeName (vm_name m) name = Inr n \<and> (kc_name c, n, fileTarget m name) \<in> set (bt_mounts b') \<and> n \<in> cv_name ` set (bt_volumes b')"
  using assms
proof (induction c m content b rule: mountFiles.induct)
  case (2 c m name' data' rest b)
  show ?case
  proof (cases "(name', data') = (name, data)")
    case True
    with "2.prems" obtain n where n: "volumeName (vm_name m) name = Inr n"
      and rest: "mountFiles c m rest (add_mount c n (fileTarget m name) (emit ((bare_volume n)\<lparr>cv_file := Some (base64 data)\<rparr>) b)) = Inr b'" (is "mountFiles c m rest ?b = _")
      by (auto split: if_splits)
    have "(kc_name c, n, fileTarget m name) \<in> set (bt_mounts ?b) \<and> n \<in> cv_name ` set (bt_volumes ?b)"
      by (auto simp: add_mount_def emit_def bare_volume_def)
    with mountFiles_grows [OF rest] n show ?thesis unfolding grows_def by blast
  next
    case False
    with 2 show ?thesis by (auto split: if_splits)
  qed
qed simp

lemma origin_emit: "\<forall>v\<in>set (bt_volumes b). origin pod fs v \<Longrightarrow> origin pod fs v \<Longrightarrow> \<forall>v\<in>set (bt_volumes (add_mount c n p (emit v b))). origin pod fs v"
  by (auto simp: add_mount_def emit_def)

lemma mountFiles_origin:
  assumes "mountFiles c m content b = Inr b'" and "map_of fs (vm_name m) = Some all" and "set content \<subseteq> set all" and "\<forall>v\<in>set (bt_volumes b). origin pod fs v"
  shows "\<forall>v\<in>set (bt_volumes b'). origin pod fs v"
  using assms
proof (induction c m content b rule: mountFiles.induct)
  case (2 c m name data rest b)
  show ?case
  proof (cases "vm_subPath m \<noteq> [] \<and> vm_subPath m \<noteq> name")
    case True
    with 2 show ?thesis by auto
  next
    case False
    with "2.prems"(1) obtain n where n: "volumeName (vm_name m) name = Inr n"
      and rest: "mountFiles c m rest (add_mount c n (fileTarget m name) (emit ((bare_volume n)\<lparr>cv_file := Some (base64 data)\<rparr>) b)) = Inr b'"
      by (auto split: if_splits)
    have "origin pod fs ((bare_volume n)\<lparr>cv_file := Some (base64 data)\<rparr>)"
      unfolding origin_def using n "2.prems"(2,3) by (intro disjI2 exI [of _ "vm_name m"] exI [of _ all] exI [of _ name] exI [of _ data]) (simp add: bare_volume_def)
    from "2.IH"(2) [OF False rest "2.prems"(2) _ origin_emit [OF "2.prems"(4) this]] "2.prems"(3) show ?thesis by simp
  qed
qed simp

lemma mountOne_origin:
  assumes "mountOne pod fs claims c m b = Inr b'" and "\<forall>v\<in>set (bt_volumes b). origin pod fs v"
  shows "\<forall>v\<in>set (bt_volumes b'). origin pod fs v"
proof (cases "claimOf pod (vm_name m)")
  case (Some claim)
  with assms(1) obtain x where b': "b' = add_mount c (vm_name m) (vm_path m) b \<or> (\<exists>v. claimVolume pod (vm_name m) claim x = Inr v \<and> b' = add_mount c (vm_name m) (vm_path m) (emit v b))"
    by (auto simp: mountOne_def mountClaim_def split: option.splits if_splits)
  have "origin pod fs v" if "claimVolume pod (vm_name m) claim x = Inr v" for v
    using claimVolume_source [OF that] Some by (simp add: origin_def)
  with b' assms(2) show ?thesis
    using origin_emit [of b pod fs] by (auto simp: add_mount_def)
next
  case None
  show ?thesis
  proof (cases "dirOf pod (vm_name m)")
    case (Some src)
    then have "origin pod fs ((bare_volume (vm_name m))\<lparr>cv_emptyDir := Some (emptyDirOf src)\<rparr>)" by (simp add: origin_def bare_volume_def)
    from origin_emit [OF assms(2) this] None Some assms(1) show ?thesis by (auto simp: mountOne_def)
  next
    case no_dir: None
    with None assms show ?thesis
      using mountFiles_origin [of c m _ b b' fs _ pod] by (auto simp: mountOne_def split: option.splits if_splits)
  qed
qed

lemma buildFileVolumes_delivers:
  assumes run: "buildFileVolumes pod fs claims = Inr b" and c: "c \<in> set (allContainers pod)" and m: "m \<in> set (kc_mounts c)"
    and plain: "claimOf pod (vm_name m) = None" "dirOf pod (vm_name m) = None" and content: "map_of fs (vm_name m) = Some content"
    and f: "(name, data) \<in> set content" "vm_subPath m = [] \<or> vm_subPath m = name"
  shows "\<exists>n. volumeName (vm_name m) name = Inr n \<and> (kc_name c, n, fileTarget m name) \<in> set (bt_mounts b) \<and> n \<in> cv_name ` set (bt_volumes b)"
proof -
  let ?steps = "concat (map (\<lambda>c. map (Pair c) (kc_mounts c)) (allContainers pod))"
  have "(c, m) \<in> set ?steps" using c m by auto
  from split_list [OF this] obtain xs ys where "?steps = xs @ (c, m) # ys" by blast
  with run obtain b1 b2 where one: "mountOne pod fs claims c m b1 = Inr b2" and rest: "fold_r (\<lambda>(c, m). mountOne pod fs claims c m) ys b2 = Inr b"
    by (auto simp: buildFileVolumes_def fold_r_append)
  have "mountFiles c m content b1 = Inr b2" using one plain content by (auto simp: mountOne_def split: if_splits)
  from mountFiles_delivers [OF this f] obtain n where n: "volumeName (vm_name m) name = Inr n" "(kc_name c, n, fileTarget m name) \<in> set (bt_mounts b2)"
    "n \<in> cv_name ` set (bt_volumes b2)" by blast
  have "grows b2 b" using rest by (rule fold_r_invariant) (auto simp del: grows_simps dest: mountOne_grows intro: grows_trans, simp)
  with n show ?thesis unfolding grows_def by blast
qed

lemma names_apart_inj:
  assumes "names_apart pod fs" and "map_of fs vol = Some content" "(key, data) \<in> set content" and "map_of fs vol' = Some content'" "(key', data') \<in> set content'"
    and "volumeName vol key = Inr n" "volumeName vol' key' = Inr n"
  shows "data = data' \<and> claimOf pod n = None \<and> dirOf pod n = None"
proof -
  have keys: "(vol, key) \<in> set (file_keys fs)" "(vol', key') \<in> set (file_keys fs)"
    using map_of_SomeD [OF assms(2)] map_of_SomeD [OF assms(4)] assms(3,5) by (force simp: file_keys_def)+
  have "inj_on (\<lambda>(vol, key). volumeName vol key) (set (file_keys fs))"
    using assms(1) by (simp add: names_apart_def distinct_map)
  from inj_onD [OF this _ keys] assms(6,7) have same: "vol' = vol" "key' = key" by auto
  have "distinct (map fst content)" using assms(1) map_of_SomeD [OF assms(2)] by (auto simp: names_apart_def list_all_iff)
  moreover have "content' = content" using assms(2,4) same by simp
  ultimately have "data = data'" using assms(3,5) same by (metis map_of_is_SomeI option.inject)
  moreover have "case volumeName vol key of Inl _ \<Rightarrow> True | Inr n \<Rightarrow> claimOf pod n = None \<and> dirOf pod n = None"
    using assms(1) keys(1) by (auto simp: names_apart_def list_all_iff)
  ultimately show ?thesis using assms(6) by simp
qed

text \<open>
  C22. Every file arrives: where the files of the pod's volumes get different names in the capsule, and
  none the name of a directory, each file a container mounts is mounted at its path in the
  directory, or in its place for a \<^verbatim>\<open>subPath\<close>, from a volume that carries its content.
\<close>

theorem files_delivered:
  assumes built: "BuildTemplate pod opts = Inr t" and apart: "names_apart pod (to_files opts)"
    and "c \<in> set (allContainers pod)" and "m \<in> set (kc_mounts c)" and "claimOf pod (vm_name m) = None" and "dirOf pod (vm_name m) = None"
    and content: "map_of (to_files opts) (vm_name m) = Some content" and f: "(name, data) \<in> set content" and "vm_subPath m = [] \<or> vm_subPath m = name"
  shows "\<exists>n v k. k \<in> set (tp_initContainers t @ tp_containers t) \<and> ct_name k = kc_name c \<and> (n, fileTarget m name) \<in> set (ct_mounts k) \<and>
    v \<in> set (tp_volumes t) \<and> cv_name v = n \<and> cv_file v = Some (base64 data)"
proof -
  obtain inits containers b where b: "buildFileVolumes pod (to_files opts) (to_claims opts) = Inr b" and t:
    "tp_initContainers t = map (\<lambda>c. c\<lparr>ct_mounts := mountsOf b (ct_name c)\<rparr>) inits"
    "tp_containers t = map (\<lambda>c. c\<lparr>ct_mounts := mountsOf b (ct_name c)\<rparr>) containers" "tp_volumes t = bt_volumes b"
    using built by (elim BuildTemplate_parts)
  from buildFileVolumes_delivers [OF b assms(3-9)] obtain n v where n: "volumeName (vm_name m) name = Inr n" "(kc_name c, n, fileTarget m name) \<in> set (bt_mounts b)"
    and v: "v \<in> set (bt_volumes b)" "cv_name v = n" by auto
  have "\<forall>v\<in>set (bt_volumes b). origin pod (to_files opts) v"
    using b unfolding buildFileVolumes_def by (rule fold_r_invariant) (auto dest: mountOne_origin)
  with v have "origin pod (to_files opts) v" by blast
  moreover note inj = names_apart_inj [OF apart content f _ _ n(1)]
  from inj [OF content f n(1)] v(2) have "claimOf pod (cv_name v) = None" "dirOf pod (cv_name v) = None" by simp_all
  ultimately obtain vol' content' key' data' where o: "map_of (to_files opts) vol' = Some content'" "(key', data') \<in> set content'"
    "volumeName vol' key' = Inr n" "cv_file v = Some (base64 data')"
    unfolding origin_def v(2) by auto
  from inj [OF o(1-3)] o(4) have "cv_file v = Some (base64 data)" by simp
  moreover obtain k where k: "k \<in> set (tp_initContainers t @ tp_containers t)" "ct_name k = kc_name c"
    using template_names [OF built] assms(3) by (metis imageE image_eqI list.set_map)
  moreover have "(n, fileTarget m name) \<in> set (ct_mounts k)"
    using k n(2) unfolding t by (force simp: mountsOf_def)
  ultimately show ?thesis using v unfolding t(3) by blast
qed

theorem files_delivered_witness:
  "\<exists>n v k. k \<in> set (tp_initContainers sample_template @ tp_containers sample_template) \<and> ct_name k = ''web'' \<and> (n, ''/etc/app/key'') \<in> set (ct_mounts k) \<and>
    v \<in> set (tp_volumes sample_template) \<and> cv_name v = n \<and> cv_file v = Some (base64 ''hunter2'')"
proof -
  let ?pod = "sample_kpod [secret_volume ''app''] [sample_mount ''app'' ''/etc/app'']" and ?opts = "sample_options [(''app'', [(''key'', ''hunter2'')])]"
  have apart: "names_apart ?pod (to_files ?opts)"
    by (simp add: names_apart_def file_keys_def sample_options_def sample_kpod_def claimOf_def dirOf_def secret_volume_def map_filter_def split: sum.split)
  have none: "claimOf ?pod ''app'' = None" "dirOf ?pod ''app'' = None"
    by (simp_all add: sample_kpod_def claimOf_def dirOf_def secret_volume_def map_filter_def)
  have target: "fileTarget (sample_mount ''app'' ''/etc/app'') ''key'' = ''/etc/app/key''"
    by (simp add: fileTarget_def sample_mount_def path_join_def path_clean_def has_prefix_def Let_def)
  show ?thesis
    using files_delivered [OF sample_built apart, of "sample_container_of [sample_mount ''app'' ''/etc/app'']" "sample_mount ''app'' ''/etc/app''" "[(''key'', ''hunter2'')]" "''key''" "''hunter2''"]
      none target by (simp add: allContainers_def sample_kpod_def sample_container_of_def sample_mount_def sample_options_def)
qed

section \<open>Where the code does not do what it means to\<close>

text \<open>
  The name of a file's volume is joined with a hyphen, which both parts may contain: two files of two
  volumes get one name, and the content of the one is mounted where the other was asked for.
\<close>

theorem volume_names_collide: "volumeName a (b @ ''-'' @ c) = Inr n \<Longrightarrow> volumeName (a @ ''-'' @ b) c = Inr n"
  by (auto simp: volumeName_def Let_def split: if_splits)

theorem other_secret_mounted:
  "case buildFileVolumes (sample_kpod [secret_volume ''db'', secret_volume ''db-admin''] [sample_mount ''db'' ''/etc/db'', sample_mount ''db-admin'' ''/etc/admin''])
      [(''db'', [(''admin-password'', ''guest'')]), (''db-admin'', [(''password'', ''root'')])] [] of
     Inl _ \<Rightarrow> False
   | Inr b \<Rightarrow> (''db-admin-password'', ''/etc/admin/password'') \<in> set (mountsOf b ''web'') \<and>
       map (\<lambda>v. (cv_name v, cv_file v)) (bt_volumes b) = [(''db-admin-password'', Some (base64 ''guest''))]"
  by (simp add: buildFileVolumes_def allContainers_def sample_kpod_def sample_container_of_def secret_volume_def sample_mount_def mountOne_def claimOf_def dirOf_def
    volumeName_def zunVolumeName_def name_char_def mountsOf_def add_mount_def emit_def bare_volume_def fileTarget_def path_join_def path_clean_def has_prefix_def
    Let_def map_filter_def del: base64.simps)

text \<open>\<^verbatim>\<open>omitempty\<close> drops an empty list as it drops a nil one, so a port that is to carry no group is sent without any.\<close>

theorem empty_groups_not_sent: "tp_securityGroups t = Some [] \<Longrightarrow> sent_groups t = sent_groups (t\<lparr>tp_securityGroups := None\<rparr>)"
  by (simp add: sent_groups_def)

text \<open>A memory limit below one MiB becomes the zero that is not sent.\<close>

theorem small_memory_limit_lost:
  assumes "0 < q" and "q < 1048576"
  shows "map_option rs_memory (buildResources (c\<lparr>kc_cpuLimit := 0, kc_memoryLimit := q * 10 ^ 9\<rparr>)) = Some 0"
proof -
  have "quantity_value (q * 10 ^ 9) = q" by (simp add: quantity_value_def)
  with assms show ?thesis by (simp add: buildResources_def Let_def signed_divide_int_def)
qed

text \<open>The \<^verbatim>\<open>subPath\<close> of a mount of a claim is dropped: the whole volume is mounted there.\<close>

theorem claim_subpath_dropped:
  "claimOf pod (vm_name m) = Some claim \<Longrightarrow> mountOne pod files claims c (m\<lparr>vm_subPath := p\<rparr>) b = mountOne pod files claims c m b"
  by (simp add: mountOne_def mountClaim_def split: option.split)

end
