(* ===== verification/Zun_Exec.thy ===== *)
theory Zun_Exec
  imports Zun_Template
begin

text \<open>
  \<^verbatim>\<open>pkg/zun/logs.go\<close>, \<^verbatim>\<open>interactive.go\<close>, \<^verbatim>\<open>UpdateFile\<close> of \<^verbatim>\<open>stats.go\<close> and \<^verbatim>\<open>preflight.go\<close>: reading the output of a capsule's
  container, running a command in it, rewriting one of its files. A query is the list of its
  parameters; the request it is sent with is an argument.
\<close>

section \<open>Logs\<close>

text \<open>The zero time is \<open>None\<close>.\<close>

record log_options =
  lo_container :: string
  lo_tail :: int
  lo_since :: "time option"
  lo_timestamps :: bool

type_synonym query = "(string \<times> string) list"

definition log_query :: "log_options \<Rightarrow> query" where
  "log_query opts =
     (if lo_container opts \<noteq> [] then [(''container'', lo_container opts)] else []) @
     (if lo_tail opts > 0 then [(''tail'', show_int (lo_tail opts))] else []) @
     (case lo_since opts of None \<Rightarrow> [] | Some t \<Rightarrow> [(''since'', show_int (unix_of t))]) @
     (if lo_timestamps opts then [(''timestamps'', ''True'')] else [])"

definition Logs :: "(string \<Rightarrow> query \<Rightarrow> ('w, string) act) \<Rightarrow> string \<Rightarrow> log_options \<Rightarrow> ('w, string) act" where
  "Logs get i opts = with_err translate_err (get i (log_query opts))"

definition uid_required :: err where "uid_required = ErrText ''a pod UID is required to find its capsule''"
definition command_required :: err where "command_required = ErrText ''a command is required''"

definition no_position :: "capsule \<Rightarrow> int \<Rightarrow> err" where
  "no_position c index =
     ErrAsNotFound (ErrText (''the capsule has '' @ show_int (int (length (cap_containers c))) @ '' containers, so there is none at position '' @ show_int index))"

text \<open>The container of a capsule at a position of the pod's list.\<close>

definition containerAt :: "capsule \<Rightarrow> int \<Rightarrow> zun_container result" where
  "containerAt c index =
     (if index < 0 \<or> index \<ge> int (length (cap_containers c)) then Inl (no_position c index) else Inr (cap_containers c ! nat index))"

definition LogsForPod :: "'w zun_api \<Rightarrow> (string \<Rightarrow> query \<Rightarrow> ('w, string) act) \<Rightarrow> string \<Rightarrow> int \<Rightarrow> log_options \<Rightarrow> ('w, string) act" where
  "LogsForPod Z get podUID index opts =
     (if podUID = [] then fail uid_required
      else bind_a (CapsuleGet Z (''kubezun-'' @ podUID)) (\<lambda>c.
           bind_a (lift_r (containerAt c index)) (\<lambda>k.
           Logs get (''kubezun-'' @ podUID) (opts\<lparr>lo_container := zc_uuid k\<rparr>))))"

section \<open>Commands\<close>

definition quote_arg :: "string \<Rightarrow> string" where
  "quote_arg arg = [CHR 0x27] @ concat (map (\<lambda>c. if c = CHR 0x27 then [CHR 0x27, CHR 0x22, CHR 0x27, CHR 0x22, CHR 0x27] else [c]) arg) @ [CHR 0x27]"

definition shellQuote :: "string list \<Rightarrow> string" where
  "shellQuote cmd = join_str '' '' (map quote_arg cmd)"

record exec_result =
  er_output :: string
  er_exitCode :: int

definition run_query :: "zun_container \<Rightarrow> string list \<Rightarrow> query \<Rightarrow> query" where
  "run_query k cmd rest = [(''container'', zc_uuid k), (''command'', shellQuote cmd)] @ rest"

definition Exec :: "'w zun_api \<Rightarrow> (string \<Rightarrow> query \<Rightarrow> ('w, exec_result) act) \<Rightarrow> string \<Rightarrow> int \<Rightarrow> string list \<Rightarrow> ('w, exec_result) act" where
  "Exec Z post podUID index cmd =
     (if podUID = [] then fail uid_required
      else if cmd = [] then fail command_required
      else bind_a (CapsuleGet Z (''kubezun-'' @ podUID)) (\<lambda>c.
           bind_a (lift_r (containerAt c index)) (\<lambda>k.
           with_err translate_err (post (''kubezun-'' @ podUID) (run_query k cmd [(''run'', ''True'')])))))"

record interactive_session =
  is_proxyURL :: string
  is_execID :: string

definition no_session :: err where "no_session = ErrText ''no session was returned for an interactive exec''"

definition ExecInteractive ::
  "'w zun_api \<Rightarrow> (string \<Rightarrow> query \<Rightarrow> ('w, interactive_session) act) \<Rightarrow> string \<Rightarrow> int \<Rightarrow> string list \<Rightarrow> ('w, interactive_session) act" where
  "ExecInteractive Z post podUID index cmd =
     (if podUID = [] then fail uid_required
      else if cmd = [] then fail command_required
      else bind_a (CapsuleGet Z (''kubezun-'' @ podUID)) (\<lambda>c.
           bind_a (lift_r (containerAt c index)) (\<lambda>k.
           bind_a (with_err translate_err (post (''kubezun-'' @ podUID) (run_query k cmd [(''run'', ''false''), (''interactive'', ''true'')]))) (\<lambda>out.
           if is_proxyURL out = [] then fail no_session else ret out))))"

definition UpdateFile :: "(string \<Rightarrow> query \<Rightarrow> ('w, unit) act) \<Rightarrow> string \<Rightarrow> string \<Rightarrow> string \<Rightarrow> ('w, unit) act" where
  "UpdateFile post i containerPath contents = with_err translate_err (post i [(''path'', containerPath), (''contents'', base64 contents)])"

section \<open>Terminal frames\<close>

definition ChannelStdin :: char where "ChannelStdin = CHR 0x00"
definition ChannelStdout :: char where "ChannelStdout = CHR 0x01"
definition ChannelStderr :: char where "ChannelStderr = CHR 0x02"
definition ChannelError :: char where "ChannelError = CHR 0x03"
definition ChannelResize :: char where "ChannelResize = CHR 0x04"

definition EncodeResize :: "nat \<Rightarrow> nat \<Rightarrow> string" where
  "EncodeResize width height = ChannelResize # ''{\"Width\":'' @ show_nat width @ '',\"Height\":'' @ show_nat height @ ''}''"

text \<open>
  What the error channel carries, decoded; \<open>None\<close> for the causes is an absent \<^verbatim>\<open>details\<close>. A frame that is
  not JSON is \<open>Inl\<close> of the decoder's error.
\<close>

record exec_status =
  es_status :: string
  es_message :: string
  es_causes :: "(string \<times> string) list option"

text \<open>\<^verbatim>\<open>fmt.Sscanf(s, "%d", &code)\<close>: spaces, a sign and as many digits as there are, within 64 bits.\<close>

definition scan_int :: "string \<Rightarrow> int option" where
  "scan_int s =
     (let t = dropWhile is_space s;
          sign = (case t of c # _ \<Rightarrow> c = CHR ''-'' \<or> c = CHR ''+'' | [] \<Rightarrow> False);
          ds = takeWhile is_digit (if sign then tl t else t) in
      if ds = [] then None else parse_int 64 ((if sign then [hd t] else []) @ ds))"

fun exitCause :: "(string \<times> string) list \<Rightarrow> int option" where
  "exitCause [] = None"
| "exitCause ((reason, message) # rest) =
     (if reason = ''ExitCode'' then (case scan_int message of Some code \<Rightarrow> Some code | None \<Rightarrow> exitCause rest) else exitCause rest)"

definition ExitCodeOf :: "(string \<Rightarrow> exec_status result) \<Rightarrow> string \<Rightarrow> int \<times> err option" where
  "ExitCodeOf decode frame =
     (case decode frame of
        Inl e \<Rightarrow> (0, Some (ErrWrap (''unreadable exec status '' @ quote_str frame) e))
      | Inr st \<Rightarrow>
          if es_status st = ''Success'' then (0, None)
          else (case (case es_causes st of None \<Rightarrow> None | Some cs \<Rightarrow> exitCause cs) of
                  Some code \<Rightarrow> (code, None)
                | None \<Rightarrow> if es_message st \<noteq> [] then (1, Some (ErrText (es_message st))) else (1, None)))"

section \<open>Availability zones\<close>

definition refuseUnknownZone :: "string \<Rightarrow> string list \<Rightarrow> unit result" where
  "refuseUnknownZone zone zones =
     (if zone = [] \<or> zones = [] then Inr ()
      else if zone \<in> set zones then Inr ()
      else Inl (ErrText (''this deployment has no availability zone '' @ quote_str zone @ ''; it offers '' @ join_str '', '' (sort zones))))"

definition availabilityZones :: "('w, (string \<times> string) list) act \<Rightarrow> ('w, string list) act" where
  "availabilityZones get =
     bind_a get (\<lambda>body. ret (List.map_filter (\<lambda>(zone, name). if zone \<noteq> [] then Some zone else if name \<noteq> [] then Some name else None) body))"

definition CheckAvailabilityZone :: "('w, (string \<times> string) list) act result \<Rightarrow> string \<Rightarrow> ('w, unit) act" where
  "CheckAvailabilityZone client zone v =
     (if zone = [] then (Inr (), v)
      else (case client of
              Inl e \<Rightarrow> (Inl e, v)
            | Inr get \<Rightarrow>
                (case availabilityZones get v of
                   (Inl _, v') \<Rightarrow> (Inr (), v')
                 | (Inr zones, v') \<Rightarrow> (if zones = [] then Inr () else refuseUnknownZone zone zones, v'))))"

section \<open>How a shell reads a command\<close>

text \<open>
  The words of a line, as a POSIX shell splits it: unquoted spaces separate, a backslash quotes the
  next character, single quotes quote everything to the next single quote, double quotes
  everything to the next double quote but a backslash before a backslash or a double quote.
\<close>

datatype quoting = Unquoted | Single | Double

definition more :: "string option \<Rightarrow> string \<Rightarrow> string option" where
  "more cur s = Some ((case cur of None \<Rightarrow> [] | Some w \<Rightarrow> w) @ s)"

definition word_end :: "string option \<Rightarrow> string list" where
  "word_end cur = (case cur of None \<Rightarrow> [] | Some w \<Rightarrow> [w])"

fun shell_words :: "quoting \<Rightarrow> string option \<Rightarrow> string \<Rightarrow> string list option" where
  "shell_words Unquoted cur [] = Some (word_end cur)"
| "shell_words Unquoted cur (c # cs) =
     (if c = CHR 0x27 then shell_words Single (more cur []) cs
      else if c = CHR 0x22 then shell_words Double (more cur []) cs
      else if c = CHR 0x5C then (case cs of [] \<Rightarrow> None | d # ds \<Rightarrow> shell_words Unquoted (more cur [d]) ds)
      else if is_space c then map_option (\<lambda>ws. word_end cur @ ws) (shell_words Unquoted None cs)
      else shell_words Unquoted (more cur [c]) cs)"
| "shell_words Single cur [] = None"
| "shell_words Single cur (c # cs) = (if c = CHR 0x27 then shell_words Unquoted cur cs else shell_words Single (more cur [c]) cs)"
| "shell_words Double cur [] = None"
| "shell_words Double cur (c # cs) =
     (if c = CHR 0x22 then shell_words Unquoted cur cs
      else if c = CHR 0x5C then
        (case cs of [] \<Rightarrow> None
         | d # ds \<Rightarrow> if d = CHR 0x5C \<or> d = CHR 0x22 then shell_words Double (more cur [d]) ds else shell_words Double (more cur [c]) cs)
      else shell_words Double (more cur [c]) cs)"

lemma more_simps [simp]: "more (Some w) s = Some (w @ s)" "more None s = Some s"
  by (simp_all add: more_def)

lemma shell_quoted:
  "shell_words Single (Some w) (concat (map (\<lambda>c. if c = CHR 0x27 then [CHR 0x27, CHR 0x22, CHR 0x27, CHR 0x22, CHR 0x27] else [c]) arg) @ [CHR 0x27] @ rest)
     = shell_words Unquoted (Some (w @ arg)) rest"
  by (induction arg arbitrary: w) auto

lemma shell_arg: "shell_words Unquoted None (quote_arg arg @ rest) = shell_words Unquoted (Some arg) rest"
  using shell_quoted [of "[]" arg rest] by (simp add: quote_arg_def)

section \<open>Properties\<close>

text \<open>
  A command arrives as it was given: a shell reads the line it is sent as back into exactly its
  arguments, whatever characters they have, empty ones included.
\<close>

theorem command_read_back: "shell_words Unquoted None (shellQuote cmd) = Some cmd"
proof (induction cmd rule: induct_list012)
  case (2 x)
  then show ?case using shell_arg [of x "[]"] by (simp add: shellQuote_def word_end_def)
next
  case (3 x y ys)
  then show ?case using shell_arg [of x] by (simp add: shellQuote_def word_end_def is_space_def)
qed (simp add: shellQuote_def word_end_def)

end
