(* ===== verification/Provider_Access.thy ===== *)
theory Provider_Access
  imports Provider_State Zun_Exec "HOL-Library.Sublist"
begin

text \<open>
  \<^verbatim>\<open>pkg/provider/logfollow.go\<close>, \<^verbatim>\<open>interactive.go\<close> and the log, exec, attach and port-forward calls of
  \<^verbatim>\<open>provider.go\<close>: what a user reaches of a running pod. A stream of polls or of frames is the list of
  them.
\<close>

section \<open>Lines of a log\<close>

text \<open>\<^verbatim>\<open>time.Parse(time.RFC3339Nano, s)\<close> succeeds.\<close>

definition num_field :: "nat \<Rightarrow> string \<Rightarrow> (int \<times> string) option" where
  "num_field n s = (if n \<le> length s \<and> list_all is_digit (take n s) then Some (digits_val (take n s), drop n s) else None)"

fun lit :: "char \<Rightarrow> string \<Rightarrow> string option" where
  "lit c [] = None"
| "lit c (x # xs) = (if x = c then Some xs else None)"

definition days_in :: "int \<Rightarrow> int \<Rightarrow> int" where
  "days_in y m = (if m = 2 then (if y mod 4 = 0 \<and> (y mod 100 \<noteq> 0 \<or> y mod 400 = 0) then 29 else 28) else if m \<in> {4, 6, 9, 11} then 30 else 31)"

definition zone_ok :: "string \<Rightarrow> bool" where
  "zone_ok s =
     (s = ''Z'' \<or>
      (case s of [] \<Rightarrow> False
       | c # r \<Rightarrow> (c = CHR ''+'' \<or> c = CHR ''-'') \<and>
           (case num_field 2 r of None \<Rightarrow> False
            | Some (h, r1) \<Rightarrow>
                (case lit (CHR '':'') r1 of None \<Rightarrow> False
                 | Some r2 \<Rightarrow> (case num_field 2 r2 of None \<Rightarrow> False | Some (m, r3) \<Rightarrow> h \<le> 24 \<and> m \<le> 60 \<and> r3 = [])))))"

definition frac_zone_ok :: "string \<Rightarrow> bool" where
  "frac_zone_ok s =
     (case s of [] \<Rightarrow> False
      | c # r \<Rightarrow> if c = CHR ''.'' \<or> c = CHR '','' then takeWhile is_digit r \<noteq> [] \<and> zone_ok (dropWhile is_digit r) else zone_ok s)"

definition clock_ok :: "string \<Rightarrow> bool" where
  "clock_ok s =
     (case (case num_field 2 s of Some x \<Rightarrow> Some x | None \<Rightarrow> num_field 1 s) of None \<Rightarrow> False
      | Some (h, r1) \<Rightarrow>
          (case Option.bind (lit (CHR '':'') r1) (num_field 2) of None \<Rightarrow> False
           | Some (m, r2) \<Rightarrow>
               (case Option.bind (lit (CHR '':'') r2) (num_field 2) of None \<Rightarrow> False
                | Some (sec, r3) \<Rightarrow> h < 24 \<and> m < 60 \<and> sec < 60 \<and> frac_zone_ok r3)))"

definition is_rfc3339 :: "string \<Rightarrow> bool" where
  "is_rfc3339 s =
     (case num_field 4 s of None \<Rightarrow> False
      | Some (y, r1) \<Rightarrow>
          (case Option.bind (lit (CHR ''-'') r1) (num_field 2) of None \<Rightarrow> False
           | Some (m, r2) \<Rightarrow>
               (case Option.bind (lit (CHR ''-'') r2) (num_field 2) of None \<Rightarrow> False
                | Some (d, r3) \<Rightarrow>
                    (case lit (CHR ''T'') r3 of None \<Rightarrow> False
                     | Some r4 \<Rightarrow> 1 \<le> m \<and> m \<le> 12 \<and> 1 \<le> d \<and> d \<le> days_in y m \<and> clock_ok r4))))"

definition timestampOf :: "string \<Rightarrow> string" where
  "timestampOf line =
     (case cut_at (CHR '' '') line of
        None \<Rightarrow> []
      | Some (stamp, _) \<Rightarrow> if is_rfc3339 stamp then stamp else [])"

fun afterCursor :: "string \<Rightarrow> string \<Rightarrow> string list \<Rightarrow> string list \<times> string" where
  "afterCursor cursor newest [] = ([], newest)"
| "afterCursor cursor newest (line # rest) =
     (let stamp = timestampOf line in
      if line = [] \<or> stamp = [] \<or> (cursor \<noteq> [] \<and> stamp \<le> cursor) then afterCursor cursor newest rest
      else (let (lines, newest') = afterCursor cursor (if stamp > newest then stamp else newest) rest in (line # lines, newest')))"

definition linesAfter :: "string \<Rightarrow> string \<Rightarrow> string list \<times> string" where
  "linesAfter raw cursor = afterCursor cursor cursor (split_at (CHR 0x0A) raw)"

definition render :: "string list \<Rightarrow> bool \<Rightarrow> string" where
  "render lines keepTimestamps =
     concat (map (\<lambda>line. (if keepTimestamps then line
                           else (case cut_at (CHR '' '') line of None \<Rightarrow> line | Some (a, b) \<Rightarrow> if a = [] then line else b)) @ [CHR 0x0A]) lines)"

text \<open>
  The polls of a followed log, at most as many as the caller's context lets through: what each writes.
\<close>

fun followLoop :: "nat \<Rightarrow> (log_options \<Rightarrow> ('s, string) act) \<Rightarrow> bool \<Rightarrow> log_options \<Rightarrow> string \<Rightarrow> 's \<Rightarrow> string list \<times> 's" where
  "followLoop 0 read wanted poll cursor s = ([], s)"
| "followLoop (Suc n) read wanted poll cursor s =
     (case read poll s of
        (Inl _, s') \<Rightarrow> ([], s')
      | (Inr raw, s') \<Rightarrow>
          (let (fresh, newest) = linesAfter raw cursor;
               (rest, s'') = followLoop n read wanted (poll\<lparr>lo_tail := 0, lo_since := None\<rparr>) (if newest \<noteq> [] then newest else cursor) s' in
           ((if fresh \<noteq> [] then [render fresh wanted] else []) @ rest, s'')))"

definition followLogs :: "nat \<Rightarrow> (log_options \<Rightarrow> ('s, string) act) \<Rightarrow> log_options \<Rightarrow> 's \<Rightarrow> string list \<times> 's" where
  "followLogs n read opts = followLoop n read (lo_timestamps opts) (opts\<lparr>lo_timestamps := True\<rparr>) []"

section \<open>Reading a log\<close>

definition containerIndex :: "pod \<Rightarrow> string \<Rightarrow> int" where
  "containerIndex pod name =
     (case find (\<lambda>i. fst (pod_containers pod ! i) = name) [0..<length (pod_containers pod)] of Some i \<Rightarrow> int i | None \<Rightarrow> - 1)"

record log_request =
  lr_tail :: int
  lr_timestamps :: bool
  lr_sinceSeconds :: int
  lr_sinceTime :: "time option"
  lr_follow :: bool
  lr_limitBytes :: int

text \<open>Either the log, or a stream that reads it with these options.\<close>

datatype log_answer = LogBytes string | LogStream string int log_options

definition no_container :: "string \<Rightarrow> string \<Rightarrow> string \<Rightarrow> err" where
  "no_container namespace podName name = ErrAsNotFound (ErrText (''pod '' @ namespace @ ''/'' @ podName @ '' has no container named '' @ name))"

text \<open>The tracked pod and the position of one of its containers.\<close>

definition locate :: "'s config \<Rightarrow> provider \<Rightarrow> string \<Rightarrow> string \<Rightarrow> string \<Rightarrow> (pod \<times> int) result" where
  "locate cfg p namespace podName containerName =
     bind_r (authorize cfg namespace) (\<lambda>_.
       case DAList.lookup (pv_pods p) (PodKey namespace podName) of
         None \<Rightarrow> Inl (not_running namespace podName)
       | Some pod \<Rightarrow>
           (let index = containerIndex pod containerName in
            if index < 0 then Inl (no_container namespace podName containerName) else Inr (pod, index)))"

definition log_since :: "time \<Rightarrow> log_request \<Rightarrow> time option" where
  "log_since now req =
     (case lr_sinceTime req of
        Some t \<Rightarrow> Some t
      | None \<Rightarrow> if lr_sinceSeconds req > 0 then Some (now - lr_sinceSeconds req * second) else None)"

definition limited :: "int \<Rightarrow> string \<Rightarrow> string" where
  "limited n s = (if n > 0 \<and> int (length s) > n then drop (length s - nat n) s else s)"

definition GetContainerLogs ::
  "'s config \<Rightarrow> ('s, 'api) source \<Rightarrow> ('api \<Rightarrow> string \<Rightarrow> int \<Rightarrow> log_options \<Rightarrow> ('s, string) act) \<Rightarrow> time \<Rightarrow> provider \<Rightarrow> string \<Rightarrow> string \<Rightarrow> string \<Rightarrow> log_request
     \<Rightarrow> ('s, log_answer) act" where
  "GetContainerLogs cfg S logs now p namespace podName containerName req =
     bind_a (lift_r (locate cfg p namespace podName containerName)) (\<lambda>(pod, index).
     let opts = \<lparr>lo_container = [], lo_tail = lr_tail req, lo_since = log_since now req, lo_timestamps = lr_timestamps req\<rparr> in
     bind_a (so_For S (pod_namespace pod)) (\<lambda>api.
     if lr_follow req then ret (LogStream (pod_uid pod) index opts)
     else bind_a (logs api (pod_uid pod) index opts) (\<lambda>data. ret (LogBytes (limited (lr_limitBytes req) data)))))"

section \<open>Running a command\<close>

record 's attach =
  at_tty :: bool
  at_stdout :: "(string \<Rightarrow> ('s, unit) act) option"
  at_stderr :: "(string \<Rightarrow> ('s, unit) act) option"

datatype close = EOF | NormalClosure | GoingAway | AbnormalClosure | Broken err

fun isNormalClose :: "close \<Rightarrow> bool" where
  "isNormalClose (Broken _) = False"
| "isNormalClose _ = True"

definition put :: "(string \<Rightarrow> ('s, unit) act) option \<Rightarrow> string \<Rightarrow> ('s, unit) act" where
  "put out data = (case out of None \<Rightarrow> ret () | Some w \<Rightarrow> if data = [] then ret () else w data)"

definition exit_error :: "int \<Rightarrow> err" where
  "exit_error code = ErrText (''command terminated with exit code '' @ show_int code)"

definition close_result :: "bool \<Rightarrow> close \<Rightarrow> err option \<Rightarrow> unit result" where
  "close_result cancelled closing exitErr =
     (case exitErr of
        Some e \<Rightarrow> Inl e
      | None \<Rightarrow> if isNormalClose closing \<or> cancelled then Inr ()
                 else Inl (case closing of Broken e \<Rightarrow> ErrWrap ''the session ended unexpectedly'' e | _ \<Rightarrow> ErrText ''the session ended unexpectedly''))"

definition frameExit :: "(string \<Rightarrow> exec_status result) \<Rightarrow> string \<Rightarrow> err option \<Rightarrow> err option" where
  "frameExit decode data exitErr =
     (if data = [] then exitErr
      else (case ExitCodeOf decode data of
              (_, Some _) \<Rightarrow> exitErr
            | (code, None) \<Rightarrow> if code \<noteq> 0 then Some (exit_error code) else exitErr))"

text \<open>The frames of a session, and how it was closed.\<close>

fun pumpOutput :: "(string \<Rightarrow> exec_status result) \<Rightarrow> 's attach \<Rightarrow> bool \<Rightarrow> close \<Rightarrow> err option \<Rightarrow> string list \<Rightarrow> ('s, unit) act" where
  "pumpOutput decode io cancelled closing exitErr [] = lift_r (close_result cancelled closing exitErr)"
| "pumpOutput decode io cancelled closing exitErr ([] # frames) = pumpOutput decode io cancelled closing exitErr frames"
| "pumpOutput decode io cancelled closing exitErr ((channel # data) # frames) =
     (if channel = ChannelStdout then bind_a (put (at_stdout io) data) (\<lambda>_. pumpOutput decode io cancelled closing exitErr frames)
      else if channel = ChannelStderr then bind_a (put (at_stderr io) data) (\<lambda>_. pumpOutput decode io cancelled closing exitErr frames)
      else if channel = ChannelError then pumpOutput decode io cancelled closing (frameExit decode data exitErr) frames
      else pumpOutput decode io cancelled closing exitErr frames)"

text \<open>The frames that carry what is typed, and the changes of the window.\<close>

definition pumpStdin :: "string list \<Rightarrow> string list" where
  "pumpStdin reads = map (\<lambda>b. ChannelStdin # b) (filter (\<lambda>b. b \<noteq> []) reads)"

definition pumpResize :: "(nat \<times> nat) list \<Rightarrow> string list" where
  "pumpResize sizes = map (\<lambda>(w, h). EncodeResize w h) sizes"

definition runInteractive ::
  "('s, interactive_session) act \<Rightarrow> (string \<Rightarrow> ('s, string list \<times> close \<times> bool) act) \<Rightarrow> (string \<Rightarrow> exec_status result) \<Rightarrow> 's attach \<Rightarrow> ('s, unit) act" where
  "runInteractive open dial decode io =
     bind_a open (\<lambda>session.
     bind_a (wrap_err ''attaching to the session'' (dial (is_proxyURL session))) (\<lambda>(frames, closing, cancelled).
     pumpOutput decode io cancelled closing None frames))"

definition RunInContainer ::
  "'s config \<Rightarrow> ('s, 'api) source \<Rightarrow> ('api \<Rightarrow> string \<Rightarrow> int \<Rightarrow> string list \<Rightarrow> ('s, exec_result) act) \<Rightarrow> ('api \<Rightarrow> string \<Rightarrow> int \<Rightarrow> string list \<Rightarrow> ('s, interactive_session) act)
     \<Rightarrow> (string \<Rightarrow> ('s, string list \<times> close \<times> bool) act) \<Rightarrow> (string \<Rightarrow> exec_status result) \<Rightarrow> provider \<Rightarrow> string \<Rightarrow> string \<Rightarrow> string \<Rightarrow> string list \<Rightarrow> 's attach option
     \<Rightarrow> ('s, unit) act" where
  "RunInContainer cfg S exec interactive dial decode p namespace podName containerName cmd io =
     bind_a (lift_r (locate cfg p namespace podName containerName)) (\<lambda>(pod, index).
     bind_a (so_For S (pod_namespace pod)) (\<lambda>api.
     case io of
       Some a \<Rightarrow>
         if at_tty a then runInteractive (interactive api (pod_uid pod) index cmd) dial decode a
         else bind_a (exec api (pod_uid pod) index cmd) (\<lambda>result.
              bind_a (case at_stdout a of None \<Rightarrow> ret () | Some w \<Rightarrow> w (er_output result)) (\<lambda>_.
              if er_exitCode result \<noteq> 0 then fail (exit_error (er_exitCode result)) else ret ()))
     | None \<Rightarrow>
         bind_a (exec api (pod_uid pod) index cmd) (\<lambda>result.
         if er_exitCode result \<noteq> 0 then fail (exit_error (er_exitCode result)) else ret ())))"

definition not_implemented :: "string \<Rightarrow> err" where "not_implemented msg = ErrText (''not implemented: '' @ msg)"

definition AttachToContainer :: "'s config \<Rightarrow> string \<Rightarrow> unit result" where
  "AttachToContainer cfg namespace = bind_r (authorize cfg namespace) (\<lambda>_. Inl (not_implemented ''attach is not supported on a KNaaS virtual node''))"

definition PortForward :: "'s config \<Rightarrow> string \<Rightarrow> unit result" where
  "PortForward cfg namespace = bind_r (authorize cfg namespace) (\<lambda>_. Inl (not_implemented ''port-forward is not supported on a KNaaS virtual node''))"

section \<open>Lemmas\<close>

text \<open>A log with one line per timestamp, in order, as the string comparison has it.\<close>

definition stamped :: "string list \<Rightarrow> bool" where
  "stamped ls \<longleftrightarrow> list_all (\<lambda>l. timestampOf l \<noteq> [] \<and> CHR 0x0A \<notin> set l) ls \<and> sorted_wrt (<) (map timestampOf ls)"

definition stampOfLast :: "string list \<Rightarrow> string" where
  "stampOfLast ls = (if ls = [] then [] else timestampOf (last ls))"

lemma timestampOf_nonempty: "timestampOf l \<noteq> [] \<Longrightarrow> l \<noteq> []"
  by (auto simp: timestampOf_def)

lemma split_at_line: "c \<notin> set l \<Longrightarrow> split_at c (l @ c # s) = l # split_at c s"
  by (induction l) auto

lemma split_at_lines: "list_all (\<lambda>l. CHR 0x0A \<notin> set l) ls \<Longrightarrow> split_at (CHR 0x0A) (render ls True) = ls @ [[]]"
  by (induction ls) (auto simp: render_def split_at_line)

lemma afterCursor_end: "afterCursor c n (ls @ [[]]) = afterCursor c n ls"
  by (induction ls arbitrary: n) (auto simp: Let_def)

lemma afterCursor_sorted:
  assumes "stamped ls" and "\<forall>l\<in>set ls. c < timestampOf l \<longrightarrow> n < timestampOf l"
  shows "afterCursor c n ls = (filter (\<lambda>l. c < timestampOf l) ls, if filter (\<lambda>l. c < timestampOf l) ls = [] then n else stampOfLast (filter (\<lambda>l. c < timestampOf l) ls))"
  using assms
proof (induction ls arbitrary: n)
  case (Cons l ls)
  then have l: "timestampOf l \<noteq> []" "l \<noteq> []" and ls: "stamped ls" "\<forall>x\<in>set ls. timestampOf l < timestampOf x"
    by (auto simp: stamped_def timestampOf_nonempty)
  have skip: "c \<noteq> [] \<and> timestampOf l \<le> c \<longleftrightarrow> \<not> c < timestampOf l" using l(1) by (auto simp: not_less)
  show ?case
  proof (cases "c < timestampOf l")
    case True
    with Cons.prems have "n < timestampOf l" by simp
    with Cons.IH [OF ls(1), of "timestampOf l"] ls(2) True l skip show ?thesis by (auto simp: Let_def stampOfLast_def)
  next
    case False
    with Cons.IH [OF ls(1), of n] Cons.prems(2) l skip show ?thesis by (auto simp: Let_def)
  qed
qed simp

lemma linesAfter_grown:
  assumes "stamped (old @ new)"
  shows "linesAfter (render (old @ new) True) (stampOfLast old) = (new, stampOfLast (old @ new))"
proof -
  let ?c = "stampOfLast old"
  have old: "\<not> ?c < timestampOf l" if "l \<in> set old" for l
  proof -
    have "sorted_wrt (<) (map timestampOf old)" using assms by (simp add: stamped_def sorted_wrt_append)
    then have "timestampOf l \<le> timestampOf (last old)" using that
    proof (induction old)
      case (Cons x xs)
      then show ?case by (cases "xs = []") (auto simp: less_imp_le)
    qed simp
    with that show ?thesis by (auto simp: stampOfLast_def)
  qed
  have new: "?c < timestampOf l" if "l \<in> set new" for l
    using assms that by (auto simp: stamped_def stampOfLast_def sorted_wrt_append list_all_iff) (metis Nil_less_Cons list.exhaust)
  have fresh: "filter (\<lambda>l. ?c < timestampOf l) (old @ new) = new"
    using old new by (auto simp: filter_empty_conv filter_id_conv)
  have "linesAfter (render (old @ new) True) ?c = afterCursor ?c ?c (old @ new)"
    using assms afterCursor_end [of ?c ?c "old @ new"] by (simp add: linesAfter_def split_at_lines stamped_def list_all_iff)
  also have "\<dots> = (new, if new = [] then ?c else stampOfLast new)"
    using afterCursor_sorted [OF assms, of ?c ?c] unfolding fresh by simp
  finally show ?thesis by (simp add: stampOfLast_def)
qed

text \<open>The answers of the polls, one after the other.\<close>

fun scripted :: "log_options \<Rightarrow> (string list, string) act" where
  "scripted opts [] = (Inl ErrNotFound, [])"
| "scripted opts (raw # raws) = (Inr raw, raws)"

lemma render_append: "render (xs @ ys) k = render xs k @ render ys k"
  by (simp add: render_def)

lemma followLoop_exact:
  assumes "sorted_wrt prefix (old # Ls)" and "stamped (last (old # Ls))"
  shows "render old wanted @ concat (fst (followLoop (length Ls) scripted wanted poll (stampOfLast old) (map (\<lambda>ls. render ls True) Ls)))
    = render (last (old # Ls)) wanted"
  using assms
proof (induction Ls arbitrary: old poll)
  case (Cons l Ls)
  then obtain new where l: "l = old @ new" by (auto simp: prefix_def)
  have "prefix l (last (l # Ls))" using Cons.prems(1) by (cases "Ls = []") auto
  then obtain zs where "last (l # Ls) = l @ zs" by (auto simp: prefix_def)
  with Cons.prems(2) have "stamped (l @ zs)" by simp
  then have st: "stamped (old @ new)" unfolding l by (auto simp: stamped_def sorted_wrt_append)
  note step = linesAfter_grown [OF st]
  have cursor: "(if stampOfLast (old @ new) \<noteq> [] then stampOfLast (old @ new) else stampOfLast old) = stampOfLast l"
    using st last_in_set [of "old @ new"] unfolding l by (auto simp: stampOfLast_def stamped_def list_all_iff simp del: last_in_set)
  have "render l wanted @ concat (fst (followLoop (length Ls) scripted wanted (poll\<lparr>lo_tail := 0, lo_since := None\<rparr>) (stampOfLast l) (map (\<lambda>ls. render ls True) Ls)))
      = render (last (l # Ls)) wanted"
    using Cons.prems by (intro Cons.IH) auto
  moreover have "render l wanted = render old wanted @ render new wanted" by (simp add: l render_append)
  moreover have "render [] wanted = []" by (simp add: render_def)
  ultimately show ?case
    using step cursor by (auto simp: l case_prod_beta)
qed simp

section \<open>Properties\<close>


definition sample_log :: "string list" where
  "sample_log = [''2026-01-02T03:04:05.1Z one'', ''2026-01-02T03:04:06.2Z two'']"

definition sample_log_options :: log_options where
  "sample_log_options = \<lparr>lo_container = [], lo_tail = 0, lo_since = None, lo_timestamps = False\<rparr>"


lemma pumpOutput_held: "fst (pumpOutput decode io cancelled closing (Some e) frames s) \<noteq> Inr ()"
proof (induction decode io cancelled closing "Some e" frames arbitrary: e s rule: pumpOutput.induct)
  case (3 decode io cancelled closing channel data frames)
  have held: "\<exists>e'. frameExit decode data (Some e) = Some e'" by (auto simp: frameExit_def split: prod.split option.split)
  show ?case
  proof (cases "channel = ChannelStdout \<or> channel = ChannelStderr")
    case True
    then show ?thesis using 3 by (auto simp: bind_a_def split: prod.split sum.split)
  next
    case False
    with 3 held show ?thesis by (cases "channel = ChannelError") auto
  qed
qed (auto simp: close_result_def lift_r_def)

text \<open>
  C40. A command that failed is not reported as one that succeeded: once a frame of the error channel
  names a code other than zero, the session ends with an error, whatever follows and however it is closed.
\<close>

theorem exit_code_reported:
  assumes "(ChannelError # data) \<in> set frames" and "data \<noteq> []" and "ExitCodeOf decode data = (code, None)" and "code \<noteq> 0"
  shows "fst (pumpOutput decode io cancelled closing exitErr frames s) \<noteq> Inr ()"
  using assms(1)
proof (induction frames arbitrary: exitErr s)
  case (Cons f frames)
  show ?case
  proof (cases "f = ChannelError # data")
    case True
    moreover have "frameExit decode data exitErr = Some (exit_error code)" using assms(2-4) by (simp add: frameExit_def)
    ultimately show ?thesis using pumpOutput_held by (simp add: ChannelError_def ChannelStdout_def ChannelStderr_def)
  next
    case False
    with Cons have "fst (pumpOutput decode io cancelled closing e frames w) \<noteq> Inr ()" for e w by auto
    then show ?thesis by (cases f) (auto simp: bind_a_def split: prod.split sum.split)
  qed
qed simp

definition sample_decode :: "string \<Rightarrow> exec_status result" where
  "sample_decode frame =
     (if frame = ''2'' then Inr \<lparr>es_status = ''Failure'', es_message = ''exit'', es_causes = Some [(''ExitCode'', ''2'')]\<rparr>
      else if frame = ''gone'' then Inr \<lparr>es_status = ''Failure'', es_message = ''container not found'', es_causes = None\<rparr>
      else Inl (ErrText ''not JSON''))"

definition quiet :: "unit attach" where "quiet = \<lparr>at_tty = True, at_stdout = None, at_stderr = None\<rparr>"

theorem exit_code_reported_witness:
  "fst (pumpOutput sample_decode quiet False NormalClosure None [ChannelError # ''2'', ChannelStdout # ''bye''] ()) = Inl (exit_error 2)"
proof -
  have "ExitCodeOf sample_decode ''2'' = (2, None)" by code_simp
  with exit_code_reported [of "''2''" "[ChannelError # ''2'', ChannelStdout # ''bye'']" sample_decode 2 quiet False NormalClosure None "()"]
  have "fst (pumpOutput sample_decode quiet False NormalClosure None [ChannelError # ''2'', ChannelStdout # ''bye''] ()) \<noteq> Inr ()" by simp
  moreover have "fst (pumpOutput sample_decode quiet False NormalClosure None [ChannelError # ''2'', ChannelStdout # ''bye''] ()) = Inl (exit_error 2)" by code_simp
  ultimately show ?thesis by simp
qed

text \<open>
  A pod of a namespace that is not served cannot be reached: reading its log, running a command in
  it, attaching to it and forwarding a port to it all answer that there is nothing there, and call nothing.
\<close>

theorem unserved_unreachable:
  assumes "\<not> cf_serves cfg namespace"
  shows "GetContainerLogs cfg S logs now p namespace podName containerName req s = (Inl (not_served cfg namespace), s) \<and>
    RunInContainer cfg S exec interactive dial decode p namespace podName containerName cmd io s = (Inl (not_served cfg namespace), s) \<and>
    AttachToContainer cfg namespace = Inl (not_served cfg namespace) \<and> PortForward cfg namespace = Inl (not_served cfg namespace) \<and>
    isNotFound (not_served cfg namespace)"
  using assms
  by (simp add: GetContainerLogs_def RunInContainer_def AttachToContainer_def PortForward_def locate_def authorize_def bind_a_def lift_r_def not_served_def)

definition deaf_config :: "unit config" where
  "deaf_config = \<lparr>cf_serves = (\<lambda>_. False), cf_nodeName = ''n1'', cf_networkID = [], cf_networkIDFor = None\<rparr>"

theorem unserved_unreachable_witness:
  "AttachToContainer deaf_config ''other'' = Inl (not_served deaf_config ''other'')"
proof -
  have "\<not> cf_serves deaf_config ''other''" by (simp add: deaf_config_def)
  from unserved_unreachable [OF this] show ?thesis by blast
qed

section \<open>Where the code does not do what it means to\<close>

text \<open>
  A failure whose status has a message and no exit code is decoded with an error, which the session
  takes for a frame it could not read: the command is reported as one that succeeded.
\<close>

theorem failure_message_lost:
  "ExitCodeOf sample_decode ''gone'' = (1, Some (ErrText ''container not found'')) \<and>
   fst (pumpOutput sample_decode quiet False NormalClosure None [ChannelError # ''gone''] ()) = Inr ()"
  by (intro conjI) code_simp+

text \<open>A session that is cut off, which the close code of an abnormal closure says, is reported as one that ended.\<close>

theorem cut_session_succeeds: "pumpOutput decode io cancelled AbnormalClosure None [] s = (Inr (), s)"
  by (simp add: close_result_def lift_r_def)

text \<open>A line with the timestamp of the last one written is never written.\<close>

theorem same_instant_line_lost:
  "concat (fst (followLogs 2 scripted sample_log_options
     [render [''2026-01-02T03:04:05Z one''] True, render [''2026-01-02T03:04:05Z one'', ''2026-01-02T03:04:05Z two''] True])) = render [''2026-01-02T03:04:05Z one''] False"
  by code_simp

text \<open>
  The timestamps drop trailing zeros, so they do not sort as strings: a line half a second and a
  millisecond past the second is taken for one before the half second.
\<close>

theorem later_line_lost:
  "concat (fst (followLogs 2 scripted sample_log_options
     [render [''2026-01-02T03:04:05.5Z one''] True, render [''2026-01-02T03:04:05.5Z one'', ''2026-01-02T03:04:05.501Z two''] True])) = render [''2026-01-02T03:04:05.5Z one''] False"
  by code_simp

text \<open>The options of the polls after the first have no start time: where the first answers nothing, the second writes the log from its beginning.\<close>

fun sinceLog :: "log_options \<Rightarrow> (string list, string) act" where
  "sinceLog opts s = (Inr (case lo_since opts of None \<Rightarrow> render s True | Some _ \<Rightarrow> []), s)"

theorem since_forgotten:
  "concat (fst (followLogs 2 sinceLog (sample_log_options\<lparr>lo_since := Some 0\<rparr>) [''2026-01-02T03:04:05Z old''])) = render [''2026-01-02T03:04:05Z old''] False"
  by code_simp

end
