(* ===== verification/Provider_Run.thy ===== *)
theory Provider_Run
  imports Provider_Sync Provider_Orphans
begin

text \<open>
  The provider of a node while it runs (\<^verbatim>\<open>pkg/provider\<close>): the calls of the pod controller, and the loops \<^verbatim>\<open>NotifyPods\<close> starts, the one of \<^verbatim>\<open>sync.go\<close> and the one of
  \<^verbatim>\<open>orphans.go\<close>, on one world of capsules that others change too. The status loop takes its snapshot and its listing in one step and judges each pod in a step of its own, so calls and
  sweeps come between them. The loop that renews tokens writes files and neither makes nor removes a capsule; it is started here and not run.
\<close>

section \<open>The process\<close>

record pod_status =
  st_phase :: string
  st_reason :: string
  st_ip :: string
  st_ips :: "string list"
  st_hostIP :: string
  st_start :: "time option"
  st_conditions :: "pod_condition list"
  st_statuses :: "container_status list"

definition pod_Status :: "pod \<Rightarrow> pod_status" where
  "pod_Status pod = \<lparr>st_phase = pod_phase pod, st_reason = pod_reason pod, st_ip = pod_ip pod, st_ips = pod_ips pod, st_hostIP = pod_hostIP pod,
     st_start = pod_start pod, st_conditions = pod_conditions pod, st_statuses = pod_statuses pod\<rparr>"

definition GetPodStatus :: "'s config \<Rightarrow> provider \<Rightarrow> string \<Rightarrow> string \<Rightarrow> pod_status result" where
  "GetPodStatus cfg p namespace name = bind_r (GetPod cfg p namespace name) (\<lambda>pod. Inr (pod_Status pod))"

datatype loop = SyncLoop | TokenLoop | OrphanLoop

text \<open>The parts of a node that stay as they are; \<open>nd_tokens\<close> and \<open>nd_cached\<close> say whether it has a source of tokens and a cache of pods.\<close>

record ('w, 'f, 'd, 'c) node =
  nd_cfg :: "('w, 'w zun_api) rworld config"
  nd_resolver :: "'w resolver"
  nd_flip :: bool
  nd_mk :: "session \<Rightarrow> 'w zun_api result"
  nd_prep :: "(('w, 'w zun_api) rworld, 'f, 'd, 'c) preparation"
  nd_tokens :: bool
  nd_cached :: bool

definition nd_source :: "('w, 'f, 'd, 'c) node \<Rightarrow> (('w, 'w zun_api) rworld, 'w zun_api) source" where
  "nd_source N = resolved_source (nd_resolver N) (nd_flip N) (nd_mk N)"

text \<open>A pod of a snapshot that is still to be judged, with what was listed.\<close>

record pending =
  pe_now :: time
  pe_managed :: "string \<rightharpoonup> capsule"
  pe_covered :: "string list"
  pe_pod :: pod

record 'w process =
  ps_world :: "('w, 'w zun_api) rworld"
  ps_provider :: provider
  ps_loops :: "loop list"
  ps_pending :: "pending list"

definition NotifyPods :: "('w, 'f, 'd, 'c) node \<Rightarrow> 'w process \<Rightarrow> 'w process" where
  "NotifyPods N x = x\<lparr>ps_loops := ps_loops x @ [SyncLoop] @ (if nd_tokens N then [TokenLoop] else []) @ (if nd_cached N then [OrphanLoop] else [])\<rparr>"

text \<open>The first half of a cycle of the status loop: the snapshot and the listing.\<close>

definition syncTick :: "('w, 'f, 'd, 'c) node \<Rightarrow> time \<Rightarrow> (string \<Rightarrow> string option) \<Rightarrow> string list \<Rightarrow> 'w process \<Rightarrow> 'w process" where
  "syncTick N now nsOf ts x =
     (case ResolvedEach (nd_resolver N) (nd_flip N) (nd_mk N) nsOf ts (syncList (nd_source N)) (ps_world x, (Map.empty, [])) of
        (Inl _, (s, _)) \<Rightarrow> x\<lparr>ps_world := s\<rparr>
      | (Inr _, (s, (managed, covered))) \<Rightarrow>
          x\<lparr>ps_world := s,
            ps_pending := map (\<lambda>pod. \<lparr>pe_now = now, pe_managed = managed, pe_covered = covered, pe_pod = pod\<rparr>) (GetPods (ps_provider x))\<rparr>)"

definition judgeNext :: "('w, 'f, 'd, 'c) node \<Rightarrow> time \<Rightarrow> 'w process \<Rightarrow> 'w process" where
  "judgeNext N clk x =
     (case ps_pending x of
        [] \<Rightarrow> x
      | t # ts \<Rightarrow>
          (case syncTurn (nd_source N) (pe_now t) clk (pe_managed t) (pe_covered t) (pe_pod t) (ps_world x, ps_provider x) of
             (s, p) \<Rightarrow> x\<lparr>ps_world := s, ps_provider := p, ps_pending := ts\<rparr>))"

definition called :: "(('w, 'w zun_api) rworld \<times> provider, unit) act \<Rightarrow> 'w process \<Rightarrow> 'w process" where
  "called m x = (case m (ps_world x, ps_provider x) of (_, (s, p)) \<Rightarrow> x\<lparr>ps_world := s, ps_provider := p\<rparr>)"

definition orphanTick :: "('w, 'f, 'd, 'c) node \<Rightarrow> pod lister \<Rightarrow> bool option \<Rightarrow> time \<Rightarrow> (string \<Rightarrow> string option) \<Rightarrow> string list \<Rightarrow> 'w process \<Rightarrow> 'w process" where
  "orphanTick N L synced clk nsOf ts x =
     (case sweepOrphans (nd_cfg N) (nd_source N) (ResolvedEach (nd_resolver N) (nd_flip N) (nd_mk N) nsOf ts) (Some L) synced clk (ps_world x, ps_provider x) of
        (s, p) \<Rightarrow> x\<lparr>ps_world := s, ps_provider := p\<rparr>)"

text \<open>
  What can happen. A tick does something only where its loop was started, and a loop has one cycle at a time. The cache of pods is as it stands at the sweep.
\<close>

datatype 'w event =
    Creates time pod
  | Updates time pod
  | Deletes time pod
  | Registers
  | SyncTick time "string \<Rightarrow> string option" "string list"
  | SyncTurn time
  | OrphanTick "pod lister" "bool option" time "string \<Rightarrow> string option" "string list"
  | Elsewhere "'w \<Rightarrow> 'w"

fun step :: "('w, 'f, 'd, 'c) node \<Rightarrow> 'w event \<Rightarrow> 'w process \<Rightarrow> 'w process" where
  "step N (Creates now pod) x = called (CreatePod (nd_cfg N) (nd_source N) (nd_prep N) now pod) x"
| "step N (Updates now pod) x = called (UpdatePod (nd_cfg N) (nd_source N) (nd_prep N) now pod) x"
| "step N (Deletes now pod) x = called (DeletePod (nd_cfg N) (nd_source N) now pod) x"
| "step N Registers x = NotifyPods N x"
| "step N (SyncTick now nsOf ts) x = (if SyncLoop \<in> set (ps_loops x) \<and> ps_pending x = [] then syncTick N now nsOf ts x else x)"
| "step N (SyncTurn clk) x = judgeNext N clk x"
| "step N (OrphanTick L synced clk nsOf ts) x =
     (if OrphanLoop \<in> set (ps_loops x) then orphanTick N L synced clk nsOf ts x else x)"
| "step N (Elsewhere f) x = x\<lparr>ps_world := map_prod f id (ps_world x)\<rparr>"

definition run_events :: "('w, 'f, 'd, 'c) node \<Rightarrow> 'w event list \<Rightarrow> 'w process \<Rightarrow> 'w process" where
  "run_events N es x = foldl (\<lambda>x e. step N e x) x es"

lemma run_events_simps [simp]:
  "run_events N [] x = x" "run_events N (e # es) x = run_events N es (step N e x)"
  "run_events N (es @ fs) x = run_events N fs (run_events N es x)"
  by (simp_all add: run_events_def)

section \<open>A cycle in steps is the cycle\<close>

lemma turns_in_steps:
  assumes "ps_pending x = map (\<lambda>pod. \<lparr>pe_now = now, pe_managed = managed, pe_covered = covered, pe_pod = pod\<rparr>) pods"
  shows "run_events N (map (\<lambda>pod. SyncTurn (clk (key_of pod))) pods) x =
    (case foldl (\<lambda>sp pod. syncTurn (nd_source N) now (clk (key_of pod)) managed covered pod sp) (ps_world x, ps_provider x) pods of
       (s, p) \<Rightarrow> x\<lparr>ps_world := s, ps_provider := p, ps_pending := []\<rparr>)"
  using assms
proof (induction pods arbitrary: x)
  case (Cons pod pods)
  obtain s p where t: "syncTurn (nd_source N) now (clk (key_of pod)) managed covered pod (ps_world x, ps_provider x) = (s, p)" by fastforce
  from Cons show ?case by (simp add: judgeNext_def t Cons.IH split: prod.split)
qed simp

lemma no_turns [simp]: "ps_pending x = [] \<Longrightarrow> run_events N (map (\<lambda>pod. SyncTurn (f pod)) pods) x = x"
  by (induction pods) (simp_all add: judgeNext_def)

text \<open>A cycle of which no other step comes between is the one of \<^verbatim>\<open>syncOnce\<close>.\<close>

theorem cycle_in_steps:
  assumes "SyncLoop \<in> set (ps_loops x)" and "ps_pending x = []"
  shows "run_events N (SyncTick now nsOf ts # map (\<lambda>pod. SyncTurn (clk (key_of pod))) (GetPods (ps_provider x))) x =
    called (syncOnce (nd_source N) (ResolvedEach (nd_resolver N) (nd_flip N) (nd_mk N) nsOf ts) now clk) x"
proof -
  obtain r s managed covered where e: "ResolvedEach (nd_resolver N) (nd_flip N) (nd_mk N) nsOf ts (syncList (nd_source N)) (ps_world x, (Map.empty, [])) =
      (r, (s, (managed, covered)))" by (metis prod.collapse)
  show ?thesis
  proof (cases r)
    case (Inl a)
    with assms e show ?thesis by (simp add: syncTick_def called_def syncOnce_def)
  next
    case (Inr a)
    with assms e show ?thesis
      by (simp add: syncTick_def called_def syncOnce_def turns_in_steps [where now = now and managed = managed and covered = covered] split: prod.split)
  qed
qed

section \<open>What is relied on\<close>

text \<open>
  A call that leaves the capsules \<open>H\<close> as they are and builds no API but from a session. Preparing a capsule reads objects and mints tokens, and is such a call; making
  one removes none.
\<close>

definition leaves :: "('w, 'f, 'd, 'c) node \<Rightarrow> ('w \<Rightarrow> capsule set) \<Rightarrow> (('w, 'w zun_api) rworld, 'a) act \<Rightarrow> bool" where
  "leaves N H m \<longleftrightarrow> (\<forall>v. apis_ok (nd_mk N) (snd (snd v)) \<longrightarrow>
     H (fst (snd (m v))) = H (fst v) \<and> apis_ok (nd_mk N) (snd (snd (snd (m v)))))"

definition preparation_leaves :: "('w, 'f, 'd, 'c) node \<Rightarrow> ('w \<Rightarrow> capsule set) \<Rightarrow> bool" where
  "preparation_leaves N H \<longleftrightarrow>
     (\<forall>pod. leaves N H (pr_files (nd_prep N) pod) \<and> leaves N H (\<lambda>s. case pr_dns (nd_prep N) pod s of (d, s') \<Rightarrow> (Inr d, s')) \<and> leaves N H (pr_claims (nd_prep N) pod)) \<and>
     (case cf_networkIDFor (nd_cfg N) of None \<Rightarrow> True | Some f \<Rightarrow> \<forall>ns. leaves N H (f ns))"

definition creation_adds :: "('w, 'f, 'd, 'c) node \<Rightarrow> ('w \<Rightarrow> capsule set) \<Rightarrow> bool" where
  "creation_adds N H \<longleftrightarrow> (\<forall>ses api tpl w. nd_mk N ses = Inr api \<longrightarrow> H w \<subseteq> H (snd (CapsuleCreate api tpl w)))"

definition zun_laws :: "('w, 'f, 'd, 'c) node \<Rightarrow> ('w \<Rightarrow> capsule set) \<Rightarrow> bool" where
  "zun_laws N H \<longleftrightarrow>
     capsule_laws (nd_source N) {api. \<exists>ses. nd_mk N ses = Inr api} (\<lambda>v. H (fst v)) \<and> creation_adds N H \<and>
     resolver_leaves (nd_resolver N) H \<and> preparation_leaves N H"

text \<open>Capsules that are there, with the APIs built from sessions.\<close>

definition there :: "('w, 'f, 'd, 'c) node \<Rightarrow> ('w \<Rightarrow> capsule set) \<Rightarrow> capsule set \<Rightarrow> ('w, 'w zun_api) rworld \<Rightarrow> bool" where
  "there N H C v \<longleftrightarrow> C \<subseteq> H (fst v) \<and> apis_ok (nd_mk N) (snd (snd v))"

abbreviation "still N H C \<equiv> (\<lambda>vp. there N H C (fst vp))"

lemma leaves_keeps: "leaves N H m \<Longrightarrow> keeps (there N H C) m"
  by (simp add: leaves_def keeps_def there_def)

lemma keeps_bind_given:
  "keeps P m \<Longrightarrow> (\<And>w x w'. P w \<Longrightarrow> m w = (Inr x, w') \<Longrightarrow> keeps P (f x)) \<Longrightarrow> keeps P (bind_a m f)"
  unfolding keeps_def bind_a_def by (auto split: prod.splits sum.splits)

lemma keeps_modify: "keeps (\<lambda>ws. P (fst ws)) (modify f)"
  by (auto simp: keeps_def modify_def split: prod.splits)

lemma zun_lawsD:
  assumes "zun_laws N H"
  shows "capsule_laws (nd_source N) {api. \<exists>ses. nd_mk N ses = Inr api} (\<lambda>v. H (fst v))" "creation_adds N H"
    "resolver_leaves (nd_resolver N) H" "preparation_leaves N H"
  using assms by (simp_all add: zun_laws_def)

lemma source_simps:
  "so_For (nd_source N) = ResolvedFor (nd_resolver N) (nd_flip N) (nd_mk N)" "so_list (nd_source N) Z = lift_w (ListManaged Z)"
  "so_listAll (nd_source N) Z = lift_w (ListManagedAll Z)" "so_create (nd_source N) Z tpl = lift_w (CapsuleCreate Z tpl)"
  "so_delete (nd_source N) Z i = lift_w (CapsuleDelete Z i)"
  by (simp_all add: nd_source_def resolved_source_def)

lemma For_apis:
  assumes "so_For (nd_source N) ns v = (r, v')" and "apis_ok (nd_mk N) (snd (snd v))"
  shows "apis_ok (nd_mk N) (snd (snd v'))" "r = Inr api \<Longrightarrow> \<exists>ses. nd_mk N ses = Inr api"
  using assms ResolvedFor_apis_ok [of "nd_resolver N" "nd_flip N" "nd_mk N" ns "fst v" "fst (snd v)" "snd (snd v)" r "fst v'" "fst (snd v')" "snd (snd v')"]
  by (auto simp: source_simps)

lemma For_leaves:
  assumes "zun_laws N H"
  shows "leaves N H (so_For (nd_source N) ns)"
  unfolding leaves_def
proof (intro allI impI conjI)
  fix v :: "('a, 'a zun_api) rworld" assume "apis_ok (nd_mk N) (snd (snd v))"
  then show "apis_ok (nd_mk N) (snd (snd (snd (so_For (nd_source N) ns v))))" using For_apis(1) by (metis surjective_pairing)
  show "H (fst (snd (so_For (nd_source N) ns v))) = H (fst v)"
    using ResolvedFor_leaves [OF zun_lawsD(3) [OF assms]] by (simp add: source_simps)
qed

lemma lift_apis [simp]: "snd (snd (lift_w m v)) = snd v" "fst (snd (lift_w m v)) = snd (m (fst v))"
  by (simp_all add: lift_w_def split: prod.split)

lemma ListManaged_all: "snd (ListManaged Z w) = snd (ListManagedAll Z w)"
  by (simp add: ListManaged_def bind_a_def ret_def split: prod.split sum.split)

lemma list_leaves:
  assumes "zun_laws N H" and "nd_mk N ses = Inr api"
  shows "leaves N H (so_list (nd_source N) api)"
proof -
  have "H (snd (ListManagedAll api w)) = H w" for w
    using capsule_lawsD(4) [OF zun_lawsD(1) [OF assms(1)], of api "(w, undefined)"] assms(2) by (auto simp: source_simps)
  then show ?thesis by (simp add: leaves_def source_simps ListManaged_all)
qed

lemma listed_there:
  assumes "zun_laws N H" and "nd_mk N ses = Inr api" and "so_list (nd_source N) api v = (Inr part, v')" and "(key, c) \<in> set part"
  shows "c \<in> H (fst v) \<and> pod_of c = Some key"
proof -
  from assms(3) have "ListManaged api (fst v) = (Inr part, fst v')" by (cases v; cases v') (auto simp: source_simps lift_w_iff)
  then obtain cs where cs: "z_List api (fst v) = (Inr cs, fst v')" "part = map (\<lambda>(key, gs). (key, newestOf gs)) (groupCapsules cs)"
    by (rule ListManaged_result)
  with assms(4) obtain gs where gs: "(key, gs) \<in> set (groupCapsules cs)" "c = newestOf gs" by auto
  have "so_listAll (nd_source N) api v = (Inr (groupCapsules cs), (fst v', snd v))"
    using cs(1) by (cases v) (simp add: source_simps lift_w_def ListManagedAll_def with_err_def bind_a_def ret_def)
  from capsule_lawsD(5) [OF zun_lawsD(1) [OF assms(1)] _ this gs(1)] assms(2) have "set gs \<subseteq> {c \<in> H (fst v). pod_of c = Some key}" by blast
  moreover have "newestOf gs \<in> set gs" using groupCapsules_nonempty [OF gs(1)] by (rule newestOf_max)
  ultimately show ?thesis using gs(2) by auto
qed

lemma delete_keeps:
  assumes "zun_laws N H" and "nd_mk N ses = Inr api"
  shows "given_name i \<Longrightarrow> \<forall>c \<in> C. \<not> answers_to i c \<Longrightarrow> keeps (there N H C) (so_delete (nd_source N) api i)"
    and "d \<in> H w \<Longrightarrow> \<forall>c \<in> C. cap_uuid c \<noteq> cap_uuid d \<Longrightarrow> keeps (there N H C) (so_delete (nd_source N) api (cap_uuid d))"
proof -
  have api: "api \<in> {api. \<exists>ses. nd_mk N ses = Inr api}" using assms(2) by blast
  note laws = zun_lawsD(1) [OF assms(1)]
  show "keeps (there N H C) (so_delete (nd_source N) api i)" if "given_name i" "\<forall>c \<in> C. \<not> answers_to i c"
    using capsule_lawsD(6) [OF laws api that(1)] that(2) unfolding keeps_def there_def by (auto simp: source_simps)
  show "keeps (there N H C) (so_delete (nd_source N) api (cap_uuid d))" if "d \<in> H w" "\<forall>c \<in> C. cap_uuid c \<noteq> cap_uuid d"
    using capsule_lawsD(3) [OF laws api, of "cap_uuid d" "(w, undefined)"] that unfolding keeps_def there_def by (auto simp: source_simps)
qed

section \<open>What each operation spares\<close>

lemma still_lift: "keeps (there N H C) m \<Longrightarrow> keeps (still N H C) (lift_w m)"
  by (rule keeps_lift_w)

lemma still_For:
  assumes "zun_laws N H" and "\<And>ses api. nd_mk N ses = Inr api \<Longrightarrow> keeps (still N H C) (f api)"
  shows "keeps (still N H C) (bind_a (lift_w (so_For (nd_source N) ns)) f)"
proof (rule keeps_bind_given [OF still_lift [OF leaves_keeps [OF For_leaves [OF assms(1)]]]])
  fix vp api vp' assume "there N H C (fst vp)" "lift_w (so_For (nd_source N) ns) vp = (Inr api, vp')"
  then have "\<exists>ses. nd_mk N ses = Inr api"
    using For_apis(2) [of N ns "fst vp" "Inr api" "fst vp'" api] by (cases vp; cases vp') (auto simp: lift_w_iff there_def)
  with assms(2) show "keeps (still N H C) (f api)" by blast
qed

lemma buildFor_keeps:
  assumes "zun_laws N H"
  shows "keeps (there N H C) (buildFor (nd_cfg N) (nd_prep N) pod)"
proof -
  have prep: "preparation_leaves N H" by (rule zun_lawsD(4) [OF assms])
  then have parts: "keeps (there N H C) (pr_files (nd_prep N) pod)" "keeps (there N H C) (pr_claims (nd_prep N) pod)"
      "keeps (there N H C) (\<lambda>s. case pr_dns (nd_prep N) pod s of (d, s') \<Rightarrow> (Inr d, s'))"
    by (auto simp: preparation_leaves_def intro: leaves_keeps)
  have "keeps (there N H C) (networkFor (nd_cfg N) pod)"
    using prep by (auto simp: networkFor_def preparation_leaves_def intro!: keeps_bind_a intro: leaves_keeps split: option.split)
  with parts show ?thesis unfolding buildFor_def by (intro keeps_bind_a keeps_lift_r)
qed

lemma CreatePod_keeps:
  assumes "zun_laws N H"
  shows "keeps (still N H C) (CreatePod (nd_cfg N) (nd_source N) (nd_prep N) now pod)"
proof -
  have found: "keeps (there N H C) (\<lambda>s. case existing_capsule (nd_source N) api pod s of (b, s') \<Rightarrow> (Inr b, s'))"
    if "nd_mk N ses = Inr api" for ses api
    using leaves_keeps [OF list_leaves [OF assms that], of C]
    by (auto simp: keeps_def existing_capsule_def split: prod.splits sum.splits) (metis snd_conv)+
  have create: "keeps (there N H C) (so_create (nd_source N) api tpl)" if "nd_mk N ses = Inr api" for ses api tpl
  proof -
    have "H w \<subseteq> H (snd (CapsuleCreate api tpl w))" for w using zun_lawsD(2) [OF assms] that unfolding creation_adds_def by blast
    then show ?thesis unfolding keeps_def there_def by (auto simp: source_simps)
  qed
  show ?thesis
    unfolding CreatePod_def recoverAs_def
    by (intro keeps_with_err keeps_bind_a [OF keeps_lift_r] still_For [OF assms])
      (auto intro!: keeps_bind_a still_lift keeps_modify buildFor_keeps [OF assms] intro: found create)
qed

lemma UpdatePod_keeps:
  assumes "zun_laws N H"
  shows "keeps (still N H C) (UpdatePod (nd_cfg N) (nd_source N) (nd_prep N) now pod)"
  using CreatePod_keeps [OF assms, of C now pod] by (auto simp: keeps_def UpdatePod_def split: sum.split)

lemma CapsuleName_given: "given_name (CapsuleName pod)"
  by (simp add: given_name_def CapsuleName_def has_prefix_def)

lemma DeletePod_keeps:
  assumes "zun_laws N H" and "cf_serves (nd_cfg N) (pod_namespace pod) \<longrightarrow> (\<forall>c \<in> C. \<not> answers_to (CapsuleName pod) c)"
  shows "keeps (still N H C) (DeletePod (nd_cfg N) (nd_source N) now pod)"
proof (cases "cf_serves (nd_cfg N) (pod_namespace pod)")
  case True
  with assms(2) have "\<forall>c \<in> C. \<not> answers_to (CapsuleName pod) c" by blast
  from delete_keeps(1) [OF assms(1) _ CapsuleName_given this]
  show ?thesis
    unfolding DeletePod_def recoverAs_def
    by (intro keeps_with_err keeps_bind_a [OF keeps_lift_r] still_For [OF assms(1)])
      (auto intro!: keeps_bind_a still_lift keeps_modify keeps_ignore_if)
qed (auto simp: keeps_def DeletePod_def recoverAs_def with_err_def bind_a_def lift_r_def authorize_def)

lemma reclaim_there:
  assumes "zun_laws N H" and "there N H C v" and "d \<in> H w" and "\<forall>c \<in> C. cap_uuid c \<noteq> cap_uuid d"
  shows "there N H C (reclaimFinished (nd_source N) clk pod d v)"
proof -
  obtain r v' where f: "so_For (nd_source N) (pod_namespace pod) v = (r, v')" by (meson surj_pair)
  have v': "there N H C v'" using keepsD [OF leaves_keeps [OF For_leaves [OF assms(1)]] assms(2), of "pod_namespace pod"] f by simp
  show ?thesis
  proof (cases r)
    case (Inr api)
    with f assms(2) obtain ses where "nd_mk N ses = Inr api" using For_apis(2) [OF f] by (auto simp: there_def)
    from keepsD [OF delete_keeps(2) [OF assms(1) this assms(3,4)] v'] f Inr assms(2) show ?thesis by (simp add: reclaimFinished_def)
  qed (use f v' assms(2) in \<open>simp add: reclaimFinished_def\<close>)
qed

text \<open>Only a finished pod is judged by a call on the world, and then its own capsule is deleted.\<close>

definition released :: "time \<Rightarrow> pending \<Rightarrow> capsule \<Rightarrow> bool" where
  "released clk t c \<longleftrightarrow> isTerminal (pe_pod t) \<and> finishedAt (pe_pod t) \<noteq> 0 \<and> clk - finishedAt (pe_pod t) \<ge> terminalCapsuleGrace \<and>
     (\<exists>d. cap_uuid d = cap_uuid c \<and> pod_of d = Some (key_of (pe_pod t)) \<and> (PodUID d = [] \<or> PodUID d = pod_uid (pe_pod t)))"

lemma syncTurn_there:
  assumes "zun_laws N H" and "there N H C v" and "\<And>k d. pe_managed t k = Some d \<Longrightarrow> pod_of d = Some k \<and> (\<exists>w. d \<in> H w)" and "\<forall>c \<in> C. \<not> released clk t c"
  shows "there N H C (fst (syncTurn (nd_source N) (pe_now t) clk (pe_managed t) (pe_covered t) (pe_pod t) (v, p)))"
proof (cases "\<exists>d. ownCapsule (pe_managed t) (pe_pod t) = Some d \<and> isTerminal (pe_pod t)")
  case True
  then obtain d where d: "ownCapsule (pe_managed t) (pe_pod t) = Some d" "isTerminal (pe_pod t)" by blast
  then have own: "pe_managed t (key_of (pe_pod t)) = Some d" "PodUID d = [] \<or> PodUID d = pod_uid (pe_pod t)"
    by (auto simp: ownCapsule_def split: option.splits if_splits)
  with assms(3) obtain w where w: "d \<in> H w" "pod_of d = Some (key_of (pe_pod t))" by blast
  have "there N H C (reclaimFinished (nd_source N) clk (pe_pod t) d v)"
  proof (cases "finishedAt (pe_pod t) = 0 \<or> clk - finishedAt (pe_pod t) < terminalCapsuleGrace")
    case True
    with assms(2) show ?thesis by (simp add: reclaimFinished_def)
  next
    case False
    with assms(4) d own(2) w(2) have "\<forall>c \<in> C. cap_uuid c \<noteq> cap_uuid d" by (auto simp: released_def)
    from reclaim_there [OF assms(1,2) w(1) this] show ?thesis .
  qed
  with assms(2) d show ?thesis by (simp add: syncTurn_def)
next
  case False
  with assms(2) show ?thesis by (auto simp: syncTurn_def split: option.split)
qed

lemma sweep_there:
  assumes "zun_laws N H" and "there N H C v"
    and "\<forall>c \<in> C. synced = Some False \<or> (\<forall>key. pod_of c = Some key \<longrightarrow> \<not> condemned (nd_cfg N) L clk key {k \<in> H (fst v). pod_of k = Some key} c)"
  shows "there N H C (fst (sweepOrphans (nd_cfg N) (nd_source N) (ResolvedEach (nd_resolver N) (nd_flip N) (nd_mk N) nsOf ts) (Some L) synced clk (v, p)))"
proof (cases "synced = Some False")
  case False
  note laws = zun_lawsD(1,3) [OF assms(1), unfolded nd_source_def]
  let ?each = "ResolvedEach (nd_resolver N) (nd_flip N) (nd_mk N) nsOf ts (sweepTenant (nd_cfg N) (nd_source N) L clk)"
  let ?v = "fst (snd (?each (v, p)))"
  have "c \<in> H (fst ?v)" if "c \<in> C" for c
  proof -
    have "inj_on cap_uuid (H (fst v))" using capsule_lawsD(1) [OF laws(1), of v] by simp
    with assms(2,3) False that have "safe (nd_cfg N) L clk (\<lambda>v. H (fst v)) (H (fst v)) c (v, p) \<and> apis_ok (nd_mk N) (snd (snd (fst (v, p))))"
      by (auto simp: safe_def there_def)
    from keepsD [OF sweep_walk_keeps [OF laws] this, of nsOf ts] show ?thesis by (simp add: safe_def nd_source_def)
  qed
  moreover have "apis_ok (nd_mk N) (snd (snd ?v))"
  proof -
    let ?P = "\<lambda>vp :: ('a, 'a zun_api) rworld \<times> provider. apis_ok (nd_mk N) (snd (snd (fst vp)))"
    have "keeps ?P (lift_w (so_For (nd_source N) ns))" for ns
      using still_lift [OF leaves_keeps [OF For_leaves [OF assms(1)]], of "{}" ns] by (simp add: there_def)
    moreover have "keeps ?P (sweepTenant (nd_cfg N) (nd_source N) L clk t api)" for t api
      unfolding nd_source_def by (rule sweepTenant_cache)
    ultimately have "keeps ?P ?each"
      using resolved.each_keeps [where Q = ?P and R = "nd_resolver N" and flip = "nd_flip N" and mk = "nd_mk N"] by (simp add: source_simps)
    from keepsD [OF this, of "(v, p)"] assms(2) show ?thesis by (simp add: there_def)
  qed
  ultimately show ?thesis using False by (auto simp: sweepOrphans_def there_def)
qed (use assms(2) in \<open>simp add: sweepOrphans_def\<close>)

text \<open>What a listing of all tenants gathers is held, under the pods it is of, and stays held.\<close>

definition gathered :: "('w, 'f, 'd, 'c) node \<Rightarrow> ('w \<Rightarrow> capsule set) \<Rightarrow> capsule set \<Rightarrow> ('w, 'w zun_api) rworld \<times> listing \<Rightarrow> bool" where
  "gathered N H h vl \<longleftrightarrow> H (fst (fst vl)) = h \<and> apis_ok (nd_mk N) (snd (snd (fst vl))) \<and>
     (\<forall>k d. fst (snd vl) k = Some d \<longrightarrow> d \<in> h \<and> pod_of d = Some k)"

lemma syncList_gathers:
  assumes "zun_laws N H" and "nd_mk N ses = Inr api"
  shows "keeps (gathered N H h) (syncList (nd_source N) t api)"
proof (rule keepsI)
  fix vl :: "('a, 'a zun_api) rworld \<times> listing" assume g: "gathered N H h vl"
  obtain v managed covered where vl: "vl = (v, (managed, covered))" by (metis prod_cases3)
  obtain r v' where l: "so_list (nd_source N) api v = (r, v')" by (meson surj_pair)
  have "H (fst v') = H (fst v) \<and> apis_ok (nd_mk N) (snd (snd v'))"
    using list_leaves [OF assms] g unfolding leaves_def gathered_def by (metis vl fst_conv l snd_conv)
  moreover have "d \<in> h \<and> pod_of d = Some k" if "r = Inr part" "(managed ++ map_of part) k = Some d" for part k d
  proof -
    from that(2) consider "map_of part k = Some d" | "managed k = Some d" by (auto simp: map_add_Some_iff)
    then show ?thesis
    proof cases
      case 1
      from listed_there [OF assms l [unfolded that(1)] map_of_SomeD [OF 1]] g show ?thesis by (simp add: gathered_def vl)
    qed (use g in \<open>simp add: gathered_def vl\<close>)
  qed
  ultimately show "gathered N H h (snd (syncList (nd_source N) t api vl))"
    using g by (cases r) (auto simp: vl syncList_def bind_a_def lift_w_def l modify_def gathered_def)
qed

lemma listing_gathers:
  assumes "zun_laws N H" and "apis_ok (nd_mk N) (snd (snd v))"
  shows "gathered N H (H (fst v)) (snd (ResolvedEach (nd_resolver N) (nd_flip N) (nd_mk N) nsOf ts (syncList (nd_source N)) (v, (Map.empty, []))))"
proof -
  let ?Q = "gathered N H (H (fst v))"
  have for_keeps: "keeps ?Q (lift_w (so_For (nd_source N) ns))" for ns
    using For_leaves [OF assms(1), of ns] unfolding leaves_def keeps_def gathered_def by (auto simp: lift_w_def split: prod.split) (metis fst_conv snd_conv)+
  have handed: "\<exists>ses. nd_mk N ses = Inr api" if "?Q vl" "lift_w (so_For (nd_source N) ns) vl = (Inr api, vl')" for ns vl api vl'
    using that For_apis(2) [of N ns "fst vl" "Inr api" "fst vl'" api] by (cases vl; cases vl') (auto simp: gathered_def lift_w_iff)
  have "keeps ?Q (ResolvedEach (nd_resolver N) (nd_flip N) (nd_mk N) nsOf ts (syncList (nd_source N)))"
  proof (rule resolved.each_handed [where Q = ?Q and handed = "\<lambda>api. \<exists>ses. nd_mk N ses = Inr api"])
    show "\<forall>ns. keeps ?Q (lift_w (ResolvedFor (nd_resolver N) (nd_flip N) (nd_mk N) ns))" using for_keeps by (simp add: source_simps)
    show "\<exists>ses. nd_mk N ses = Inr api" if "?Q vl" "lift_w (ResolvedFor (nd_resolver N) (nd_flip N) (nd_mk N) ns) vl = (Inr api, vl')" for ns vl api vl'
      using handed that by (simp add: source_simps)
    show "keeps ?Q (syncList (nd_source N) t api)" if "\<exists>ses. nd_mk N ses = Inr api" for t api
      using syncList_gathers [OF assms(1)] that by blast
  qed
  from keepsD [OF this, of "(v, (Map.empty, []))"] assms(2) show ?thesis by (simp add: gathered_def)
qed

section \<open>Runs\<close>

text \<open>Between two steps: the APIs are those of sessions, and what is to be judged was listed.\<close>

definition running :: "('w, 'f, 'd, 'c) node \<Rightarrow> ('w \<Rightarrow> capsule set) \<Rightarrow> 'w process \<Rightarrow> bool" where
  "running N H x \<longleftrightarrow> apis_ok (nd_mk N) (snd (snd (ps_world x))) \<and>
     (\<forall>t \<in> set (ps_pending x). \<forall>k d. pe_managed t k = Some d \<longrightarrow> pod_of d = Some k \<and> (\<exists>w. d \<in> H w))"

text \<open>The grounds on which a step may take a capsule away.\<close>

fun ground :: "('w, 'f, 'd, 'c) node \<Rightarrow> ('w \<Rightarrow> capsule set) \<Rightarrow> 'w event \<Rightarrow> 'w process \<Rightarrow> capsule \<Rightarrow> bool" where
  "ground N H (Deletes now pod) x c \<longleftrightarrow> cf_serves (nd_cfg N) (pod_namespace pod) \<and> answers_to (CapsuleName pod) c"
| "ground N H (SyncTurn clk) x c \<longleftrightarrow> (\<exists>t ts. ps_pending x = t # ts \<and> released clk t c)"
| "ground N H (OrphanTick L synced clk nsOf ts) x c \<longleftrightarrow> OrphanLoop \<in> set (ps_loops x) \<and> synced \<noteq> Some False \<and>
     (\<exists>key. pod_of c = Some key \<and> condemned (nd_cfg N) L clk key {k \<in> H (fst (ps_world x)). pod_of k = Some key} c)"
| "ground N H (Elsewhere f) x c \<longleftrightarrow> c \<notin> H (f (fst (ps_world x)))"
| "ground N H _ x c \<longleftrightarrow> False"

lemma called_world [simp]: "ps_world (called m x) = fst (snd (m (ps_world x, ps_provider x)))" "ps_pending (called m x) = ps_pending x"
  by (simp_all add: called_def split: prod.split)

lemma syncTick_cases:
  assumes "zun_laws N H" and "apis_ok (nd_mk N) (snd (snd (ps_world x)))"
  shows "H (fst (ps_world (syncTick N now nsOf ts x))) = H (fst (ps_world x)) \<and> apis_ok (nd_mk N) (snd (snd (ps_world (syncTick N now nsOf ts x)))) \<and>
    (\<forall>t \<in> set (ps_pending (syncTick N now nsOf ts x)). t \<in> set (ps_pending x) \<or> pe_pod t \<in> set (GetPods (ps_provider x)) \<and>
       (\<forall>k d. pe_managed t k = Some d \<longrightarrow> pod_of d = Some k \<and> d \<in> H (fst (ps_world x))))"
  using listing_gathers [OF assms, of nsOf ts]
  by (auto simp: syncTick_def gathered_def split: prod.splits sum.splits)

lemma step_there:
  assumes "zun_laws N H" and "running N H x" and "C \<subseteq> H (fst (ps_world x))" and "\<forall>c \<in> C. \<not> ground N H e x c"
  shows "there N H C (ps_world (step N e x))"
proof -
  have before: "there N H C (ps_world x)" "there N H C (fst (ps_world x, ps_provider x))" using assms(2,3) by (simp_all add: running_def there_def)
  show ?thesis
  proof (cases e)
    case (Creates now pod)
    then show ?thesis using keepsD [OF CreatePod_keeps [OF assms(1)] before(2)] by simp
  next
    case (Updates now pod)
    then show ?thesis using keepsD [OF UpdatePod_keeps [OF assms(1)] before(2)] by simp
  next
    case (Deletes now pod)
    then show ?thesis using keepsD [OF DeletePod_keeps [OF assms(1)] before(2)] assms(4) by auto
  next
    case (SyncTick now nsOf ts)
    then show ?thesis using syncTick_cases [OF assms(1), of x now nsOf ts] assms(2) before(1) by (auto simp: running_def there_def)
  next
    case (SyncTurn clk)
    show ?thesis
    proof (cases "ps_pending x")
      case (Cons t ts)
      with syncTurn_there [OF assms(1) before(1), of t clk "ps_provider x"] assms(2,4) SyncTurn show ?thesis
        by (auto simp: judgeNext_def running_def split: prod.splits)
    qed (use before(1) SyncTurn in \<open>simp add: judgeNext_def\<close>)
  next
    case (OrphanTick L synced clk nsOf ts)
    then show ?thesis
      using sweep_there [OF assms(1) before(1), of synced L clk nsOf ts "ps_provider x"] assms(4) before(1) by (auto simp: orphanTick_def split: prod.splits)
  next
    case (Elsewhere f)
    then show ?thesis using assms(4) before(1) by (auto simp: there_def)
  qed (use before(1) in \<open>simp_all add: NotifyPods_def\<close>)
qed

lemma step_running:
  assumes "zun_laws N H" and "running N H x"
  shows "running N H (step N e x)"
proof -
  have "apis_ok (nd_mk N) (snd (snd (ps_world (step N e x))))"
    using step_there [OF assms, of "{}" e] by (simp add: there_def)
  moreover have "\<forall>t \<in> set (ps_pending (step N e x)). \<forall>k d. pe_managed t k = Some d \<longrightarrow> pod_of d = Some k \<and> (\<exists>w. d \<in> H w)"
  proof (cases e)
    case (SyncTick now nsOf ts)
    with syncTick_cases [OF assms(1), of x now nsOf ts] assms(2) show ?thesis by (auto simp: running_def)
  qed (use assms(2) in \<open>auto simp: running_def judgeNext_def NotifyPods_def orphanTick_def split: list.splits prod.splits\<close>)
  ultimately show ?thesis by (simp add: running_def)
qed

lemma run_running: "zun_laws N H \<Longrightarrow> running N H x \<Longrightarrow> running N H (run_events N es x)"
  by (induction es arbitrary: x) (simp_all add: step_running)

text \<open>What is judged was tracked at an earlier moment of the run.\<close>

lemma step_pending:
  assumes "zun_laws N H" and "running N H x" and "t \<in> set (ps_pending (step N e x))"
  shows "t \<in> set (ps_pending x) \<or> pe_pod t \<in> set (GetPods (ps_provider x))"
proof (cases e)
  case (SyncTick now nsOf ts)
  with syncTick_cases [OF assms(1), of x now nsOf ts] assms(2,3) show ?thesis by (auto simp: running_def split: if_splits)
qed (use assms(3) in \<open>auto simp: judgeNext_def NotifyPods_def orphanTick_def split: list.splits prod.splits if_splits\<close>)

lemma pending_tracked:
  assumes "zun_laws N H" and "running N H x" and "ps_pending x = []" and "t \<in> set (ps_pending (run_events N es x))"
  shows "\<exists>pre post. es = pre @ post \<and> pe_pod t \<in> set (GetPods (ps_provider (run_events N pre x)))"
  using assms(4)
proof (induction es rule: rev_induct)
  case (snoc e es)
  from snoc.prems step_pending [OF assms(1) run_running [OF assms(1,2)], of t e es]
  consider "t \<in> set (ps_pending (run_events N es x))" | "pe_pod t \<in> set (GetPods (ps_provider (run_events N es x)))" by auto
  then show ?case
  proof cases
    case 1
    with snoc.IH show ?thesis by (metis append.assoc)
  qed blast
qed (simp add: assms(3))

text \<open>
  C7. A node takes a workload away only on grounds. In every interleaving of the pod controller's calls, the two loops and whatever others do to the capsules: where a capsule that was there
  is gone, one step of the run took it, and that step was a deletion of the pod the capsule is named for, in a served namespace; or the judgement of a pod tracked earlier in the run that had finished at
  least an hour before, on a capsule listed under that pod's name and not of another UID; or a sweep that condemned it by the cache of pods as it stood; or somebody else's. A capsule is known by its identifier, since
  its state changes.
\<close>

theorem taken_on_grounds:
  assumes "zun_laws N H" and "running N H x" and "ps_pending x = []"
    and "u \<in> cap_uuid ` H (fst (ps_world x))" and "u \<notin> cap_uuid ` H (fst (ps_world (run_events N es x)))"
  shows "\<exists>pre e post c. es = pre @ e # post \<and> c \<in> H (fst (ps_world (run_events N pre x))) \<and> cap_uuid c = u \<and>
    u \<notin> cap_uuid ` H (fst (ps_world (run_events N (pre @ [e]) x))) \<and> ground N H e (run_events N pre x) c \<and>
    (\<forall>t \<in> set (ps_pending (run_events N pre x)). \<exists>before between. pre = before @ between \<and> pe_pod t \<in> set (GetPods (ps_provider (run_events N before x))))"
  using assms(5)
proof (induction es rule: rev_induct)
  case (snoc e es)
  show ?case
  proof (cases "u \<in> cap_uuid ` H (fst (ps_world (run_events N es x)))")
    case True
    then obtain c where c: "c \<in> H (fst (ps_world (run_events N es x)))" "cap_uuid c = u" by blast
    have "ground N H e (run_events N es x) c"
      using step_there [OF assms(1) run_running [OF assms(1,2)], of "{c}" es e] c snoc.prems by (auto simp: there_def)
    with c snoc.prems pending_tracked [OF assms(1-3)] show ?thesis by blast
  next
    case False
    from snoc.IH [OF this] obtain pre e' post c where found: "es = pre @ e' # post \<and> c \<in> H (fst (ps_world (run_events N pre x))) \<and> cap_uuid c = u \<and>
        u \<notin> cap_uuid ` H (fst (ps_world (run_events N (pre @ [e']) x))) \<and> ground N H e' (run_events N pre x) c \<and>
        (\<forall>t \<in> set (ps_pending (run_events N pre x)). \<exists>before between. pre = before @ between \<and> pe_pod t \<in> set (GetPods (ps_provider (run_events N before x))))"
      by blast
    then have "es @ [e] = pre @ e' # (post @ [e])" by simp
    with found show ?thesis by blast
  qed
qed (use assms(4) in simp)

text \<open>A node with a cache of pods that knows none sweeps the capsules it finds; one that is not told to register its loops sweeps nothing.\<close>

definition sample_run :: "(capsule list, unit, unit, unit) node" where
  "sample_run = \<lparr>nd_cfg = sample_node ''n1'', nd_resolver = sample_tenants, nd_flip = False, nd_mk = (\<lambda>_. Inr sample_service),
     nd_prep = \<lparr>pr_files = (\<lambda>_. ret ()), pr_dns = (\<lambda>_ v. ((), v)), pr_claims = (\<lambda>_. ret ()), pr_groups = (\<lambda>_. Inr None),
                pr_template = (\<lambda>_ _ _ _ _ _. Inr ''template'')\<rparr>, nd_tokens = False, nd_cached = True\<rparr>"

definition sample_process :: "(capsule list) process" where
  "sample_process = \<lparr>ps_world = (sample_capsules, res_init, Map.empty), ps_provider = New, ps_loops = [], ps_pending = []\<rparr>"

definition sample_events :: "(capsule list) event list" where
  "sample_events = [OrphanTick no_pods (Some True) hour (\<lambda>_. Some ''prod'') [''t1''], Registers, SyncTick hour (\<lambda>_. Some ''prod'') [''t1''],
     OrphanTick no_pods (Some True) hour (\<lambda>_. Some ''prod'') [''t1'']]"

lemma sample_run_laws: "zun_laws sample_run sample_held"
proof -
  have "capsule_laws (nd_source sample_run) {api. \<exists>ses. nd_mk sample_run ses = Inr api} (\<lambda>v. sample_held (fst v))"
    using sample_laws [of sample_tenants False] by (simp add: nd_source_def sample_run_def)
  moreover have "creation_adds sample_run sample_held"
    by (auto simp: creation_adds_def sample_run_def CapsuleCreate_def with_err_def sample_service_def sample_zun_def)
  moreover have "resolver_leaves (nd_resolver sample_run) sample_held" by (simp add: resolver_leaves_def sample_run_def sample_tenants_def)
  moreover have "preparation_leaves sample_run sample_held"
    by (simp add: preparation_leaves_def leaves_def sample_run_def sample_node_def ret_def)
  ultimately show ?thesis by (simp add: zun_laws_def)
qed

theorem taken_on_grounds_witness:
  "(\<exists>pre e post c. sample_events = pre @ e # post \<and> c \<in> sample_held (fst (ps_world (run_events sample_run pre sample_process))) \<and>
     cap_uuid c = ''u-2'' \<and> ground sample_run sample_held e (run_events sample_run pre sample_process) c) \<and>
   map cap_uuid (fst (ps_world (run_events sample_run (take 3 sample_events) sample_process))) = map cap_uuid sample_capsules \<and>
   map cap_uuid (fst (ps_world (run_events sample_run sample_events sample_process))) = [''u-3'']"
proof -
  have kept: "map cap_uuid (fst (ps_world (run_events sample_run (take 3 sample_events) sample_process))) = map cap_uuid sample_capsules" by code_simp
  have swept: "map cap_uuid (fst (ps_world (run_events sample_run sample_events sample_process))) = [''u-3'']" by code_simp
  have sub: "cap_uuid ` sample_held w \<subseteq> set (map cap_uuid w)" for w by (induction w) (auto simp: sample_held_def)
  have gone: "''u-2'' \<notin> cap_uuid ` sample_held (fst (ps_world (run_events sample_run sample_events sample_process)))"
    using sub [of "fst (ps_world (run_events sample_run sample_events sample_process))"] unfolding swept by auto
  have start: "running sample_run sample_held sample_process" "ps_pending sample_process = []"
    by (simp_all add: running_def sample_process_def apis_ok_def)
  have "cap_uuid (sample_capsules ! 1) = ''u-2''" "sample_capsules ! 1 \<in> sample_held (fst (ps_world sample_process))"
    by (simp_all add: sample_held_def sample_process_def sample_capsules_def sample_capsule_def)
  then have "''u-2'' \<in> cap_uuid ` sample_held (fst (ps_world sample_process))" by (metis imageI)
  from taken_on_grounds [OF sample_run_laws start this gone] kept swept show ?thesis by blast
qed

end
