(* ===== verification/Provider_Prepare.thy ===== *)
theory Provider_Prepare
  imports Provider_State Zun_Exec Service_Reconciler
begin

text \<open>
  \<^verbatim>\<open>pkg/provider/files.go\<close>, \<^verbatim>\<open>satoken.go\<close> and the rest of \<^verbatim>\<open>provider.go\<close>: what is read before a
  capsule is created (the files of its volumes, a token of its service account, its resolver, its
  claims), the renewal of tokens, and the preparation of a pod as a whole, which is the record
  \<open>CreatePod\<close> is run with. The API server is outside: the fields of \<open>object_reader\<close> and the minter of
  tokens. A pod of the node controller and the spec of it read here are one object; the function
  \<open>spec\<close> takes the one to the other.
\<close>

section \<open>What is read\<close>

record config_map =
  cmap_data :: labels
  cmap_binary :: labels

record 's object_reader =
  ob_ConfigMap :: "string \<Rightarrow> string \<Rightarrow> ('s, config_map) act"
  ob_Secret :: "string \<Rightarrow> string \<Rightarrow> ('s, secret) act"
  ob_Service :: "string \<Rightarrow> string \<Rightarrow> ('s, service_obj) act"

text \<open>
  A request for a token: its lifetime in seconds and the pod it is bound to. The answer is the token and
  when it expires; \<open>None\<close> is Go's zero time.
\<close>

record token_request =
  tr_seconds :: int
  tr_pod :: string
  tr_uid :: string

record tokenExpiry =
  te_pod :: string
  te_volume :: string
  te_at :: time

type_synonym token_map = "(string, tokenExpiry) alist"

record 's prep_options =
  pp_tenant :: string
  pp_clusterDomain :: string
  pp_clusterDNS :: "string list"
  pp_dnsService :: string
  pp_zone :: string
  pp_arch :: string
  pp_tokens :: "(string \<Rightarrow> string \<Rightarrow> token_request \<Rightarrow> ('s, string \<times> time option) act) option"
  pp_resolveClaim :: "(string \<Rightarrow> string \<Rightarrow> ('s, ClaimMount) act) option"
  pp_objects :: "'s object_reader option"

text \<open>The names of the limits and of the requests of each container.\<close>

definition declaresEphemeralStorage :: "(string list \<times> string list) list \<Rightarrow> bool" where
  "declaresEphemeralStorage containers =
     list_ex (\<lambda>(limits, requests). ''ephemeral-storage'' \<in> set limits \<or> ''ephemeral-storage'' \<in> set requests) containers"

section \<open>Names and resolvers\<close>

definition tenantNamespace :: "'s prep_options \<Rightarrow> string \<Rightarrow> string" where
  "tenantNamespace N namespace =
     (if pp_tenant N = [] then namespace else trim_prefix namespace (pp_tenant N @ ''-''))"

definition composeSearches :: "string \<Rightarrow> string \<Rightarrow> string list" where
  "composeSearches namespace clusterDomain =
     (let base0 = trim_suffix clusterDomain ''.'' in
      if base0 = [] then []
      else let base = trim_prefix base0 ''svc.'' in [namespace @ ''.svc.'' @ base, ''svc.'' @ base, base])"

definition clusterDNS :: "'s prep_options \<Rightarrow> 's \<Rightarrow> string list \<times> 's" where
  "clusterDNS N s =
     (if pp_clusterDNS N \<noteq> [] then (pp_clusterDNS N, s)
      else case pp_objects N of
        None \<Rightarrow> ([], s)
      | Some ob \<Rightarrow>
          if pp_dnsService N = [] then ([], s)
          else case cut_at (CHR ''/'') (pp_dnsService N) of
            None \<Rightarrow> ([], s)
          | Some (ns, name) \<Rightarrow>
              (case ob_Service ob (if pp_tenant N \<noteq> [] then pp_tenant N @ ''-'' @ ns else ns) name s of
                 (Inl _, s') \<Rightarrow> ([], s')
               | (Inr svc, s') \<Rightarrow> (let addr = annotation svc AddressAnnotation in ((if addr \<noteq> [] then [addr] else []), s'))))"

definition dnsConfigFor :: "'s prep_options \<Rightarrow> kpod \<Rightarrow> 's \<Rightarrow> (string list \<times> string list) \<times> 's" where
  "dnsConfigFor N pod s =
     (if kp_dnsPolicy pod = ''None'' then
        ((case kp_dnsConfig pod of None \<Rightarrow> ([], []) | Some cfg \<Rightarrow> (dn_searches cfg, dn_nameservers cfg)), s)
      else if kp_dnsPolicy pod = ''Default'' then (([], []), s)
      else
        (let searches = composeSearches (tenantNamespace N (kp_namespace pod)) (pp_clusterDomain N) in
         case clusterDNS N s of (nameservers, s') \<Rightarrow>
           ((case kp_dnsConfig pod of
               None \<Rightarrow> (searches, nameservers)
             | Some cfg \<Rightarrow> (searches @ dn_searches cfg, if dn_nameservers cfg \<noteq> [] then dn_nameservers cfg else nameservers)), s')))"

section \<open>Files\<close>

definition item_name :: "string \<times> string \<Rightarrow> string" where
  "item_name item = (if snd item = [] then fst item else snd item)"

definition pickKey :: "labels \<Rightarrow> string \<Rightarrow> string \<times> string \<Rightarrow> labels \<Rightarrow> labels result" where
  "pickKey all source item out =
     (case map_of all (fst item) of
        None \<Rightarrow> Inl (ErrText (source @ '' has no key '' @ quote_str (fst item)))
      | Some data \<Rightarrow> Inr (AList.update (item_name item) data out))"

definition selectKeys :: "labels \<Rightarrow> (string \<times> string) list \<Rightarrow> string \<Rightarrow> labels result" where
  "selectKeys all items source = (if items = [] then Inr all else fold_r (pickKey all source) items [])"

definition optional :: "bool option \<Rightarrow> bool" where
  "optional v = (v = Some True)"

text \<open>A read whose "no such object" counts as nothing to mount where the source is optional.\<close>

definition read_source :: "string \<Rightarrow> file_source \<Rightarrow> ('s, 'o) act \<Rightarrow> ('o \<Rightarrow> labels option result) \<Rightarrow> ('s, labels option) act" where
  "read_source wrapping src get use s =
     (case get s of
        (Inl e, s') \<Rightarrow> (if is_kube_not_found e \<and> optional (fs_optional src) then Inr None else Inl (ErrWrap wrapping e), s')
      | (Inr x, s') \<Rightarrow> (use x, s'))"

definition configMapFiles :: "'s prep_options \<Rightarrow> string \<Rightarrow> file_source \<Rightarrow> ('s, labels option) act" where
  "configMapFiles N namespace src =
     (case pp_objects N of
        None \<Rightarrow> fail (ErrText (''volume from ConfigMap '' @ fs_name src @ '': this node was started without a way to read objects''))
      | Some ob \<Rightarrow>
          read_source (''volume from ConfigMap '' @ namespace @ ''/'' @ fs_name src) src (ob_ConfigMap ob namespace (fs_name src))
            (\<lambda>cm. map_sum id Some (selectKeys (AList.updates (map fst (cmap_binary cm)) (map snd (cmap_binary cm)) (cmap_data cm)) (fs_items src)
               (''ConfigMap '' @ namespace @ ''/'' @ fs_name src))))"

text \<open>A Secret without data has a nil map, which without items is handed on and counts as nothing to mount.\<close>

definition secretFiles :: "'s prep_options \<Rightarrow> string \<Rightarrow> file_source \<Rightarrow> ('s, labels option) act" where
  "secretFiles N namespace src =
     (case pp_objects N of
        None \<Rightarrow> fail (ErrText (''volume from Secret '' @ fs_name src @ '': this node was started without a way to read objects''))
      | Some ob \<Rightarrow>
          read_source (''volume from Secret '' @ namespace @ ''/'' @ fs_name src) src (ob_Secret ob namespace (fs_name src))
            (\<lambda>sec. if sec_data sec = [] \<and> fs_items src = [] then Inr None
               else map_sum id Some (selectKeys (sec_data sec) (fs_items src) (''Secret '' @ namespace @ ''/'' @ fs_name src))))"

section \<open>Service account tokens\<close>

definition serviceAccountVolume :: "kvolume \<Rightarrow> bool" where
  "serviceAccountVolume v = (kv_projected v \<and> has_prefix (kv_name v) ''kube-api-access-'')"

definition wantsServiceAccountToken :: "kpod \<Rightarrow> bool" where
  "wantsServiceAccountToken pod = (kp_automount pod = None \<or> kp_automount pod = Some True)"

definition tokenLifetime :: time where "tokenLifetime = 24 * 60 * minute"

text \<open>The authority of the cluster, where it can be read.\<close>

definition rootCA :: "'s prep_options \<Rightarrow> string \<Rightarrow> 's \<Rightarrow> labels \<times> 's" where
  "rootCA N namespace s =
     (case pp_objects N of
        None \<Rightarrow> ([], s)
      | Some ob \<Rightarrow>
          (case ob_ConfigMap ob namespace ''kube-root-ca.crt'' s of
             (Inl _, s') \<Rightarrow> ([], s')
           | (Inr cm, s') \<Rightarrow> ((case map_of (cmap_data cm) ''ca.crt'' of None \<Rightarrow> [] | Some ca \<Rightarrow> [(''ca.crt'', ca)]), s')))"

definition accountOf :: "kpod \<Rightarrow> string" where
  "accountOf pod = (if kp_serviceAccount pod = [] then ''default'' else kp_serviceAccount pod)"

definition serviceAccountFiles :: "'s prep_options \<Rightarrow> kpod \<Rightarrow> ('s, labels \<times> time option) act" where
  "serviceAccountFiles N pod =
     (case pp_tokens N of
        None \<Rightarrow> fail (ErrText ''the pod wants a service account token but this node was started without permission to request one'')
      | Some mint \<Rightarrow>
          bind_a (wrap_err (''requesting a token for service account '' @ kp_namespace pod @ ''/'' @ accountOf pod)
            (mint (kp_namespace pod) (accountOf pod)
               \<lparr>tr_seconds = tokenLifetime div second, tr_pod = kp_name pod, tr_uid = kp_uid pod\<rparr>)) (\<lambda>(token, expiry) s.
          case rootCA N (kp_namespace pod) s of
            (ca, s') \<Rightarrow> (Inr ([(''token'', token), (''namespace'', tenantNamespace N (kp_namespace pod))] @ ca, expiry), s')))"

definition trackTokenExpiry :: "string \<Rightarrow> string \<Rightarrow> time option \<Rightarrow> token_map \<Rightarrow> token_map" where
  "trackTokenExpiry key volume at m =
     (case at of None \<Rightarrow> m | Some t \<Rightarrow> DAList.update key \<lparr>te_pod = key, te_volume = volume, te_at = t\<rparr> m)"

definition podKeyOf :: "kpod \<Rightarrow> string" where
  "podKeyOf pod = kp_namespace pod @ ''/'' @ kp_name pod"

section \<open>The files of a pod\<close>

text \<open>One turn of the loop of \<^verbatim>\<open>resolveFiles\<close>; \<open>None\<close> is a volume that contributes nothing.\<close>

definition volumeFiles :: "'s prep_options \<Rightarrow> kpod \<Rightarrow> kvolume \<Rightarrow> ('s \<times> token_map, labels option) act" where
  "volumeFiles N pod v =
     (case kv_configMap v of
        Some src \<Rightarrow> lift_w (configMapFiles N (kp_namespace pod) src)
      | None \<Rightarrow>
          (case kv_secret v of
             Some src \<Rightarrow> lift_w (secretFiles N (kp_namespace pod) src)
           | None \<Rightarrow>
               if serviceAccountVolume v \<and> wantsServiceAccountToken pod then
                 bind_a (lift_w (serviceAccountFiles N pod)) (\<lambda>(files, expiry).
                 bind_a (modify (trackTokenExpiry (podKeyOf pod) (kv_name v) expiry)) (\<lambda>_. ret (Some files)))
               else ret None))"

definition resolveFiles :: "'s prep_options \<Rightarrow> kpod \<Rightarrow> ('s \<times> token_map, files) act" where
  "resolveFiles N pod =
     fold_act (\<lambda>out v. bind_a (volumeFiles N pod v) (\<lambda>files.
        ret (case files of None \<Rightarrow> out | Some fs \<Rightarrow> AList.update (kv_name v) fs out))) [] (kp_volumes pod)"

section \<open>Claims and ports\<close>

definition claimOfVolume :: "'s prep_options \<Rightarrow> kpod \<Rightarrow> kvolume \<Rightarrow> ('s, ClaimMount option) act" where
  "claimOfVolume N pod v =
     (case kv_claim v of
        None \<Rightarrow> ret None
      | Some claim \<Rightarrow>
          (case pp_resolveClaim N of
             None \<Rightarrow> fail (ErrText (''volume '' @ kv_name v @ '': this node was started without persistent volume support''))
           | Some resolve \<Rightarrow> bind_a (wrap_err (''volume '' @ kv_name v) (resolve (kp_namespace pod) claim)) (\<lambda>m. ret (Some m))))"

definition resolveClaims :: "'s prep_options \<Rightarrow> kpod \<Rightarrow> ('s, (string \<times> ClaimMount) list) act" where
  "resolveClaims N pod =
     fold_act (\<lambda>out v. bind_a (claimOfVolume N pod v) (\<lambda>r.
        ret (case r of None \<Rightarrow> out | Some m \<Rightarrow> AList.update (kv_name v) m out))) [] (kp_volumes pod)"

definition portOf :: "('s, 'api) source \<Rightarrow> ('api \<Rightarrow> string \<Rightarrow> ('s, capsule) act) \<Rightarrow> 's \<Rightarrow> pod \<Rightarrow> string" where
  "portOf S get s pod =
     (case bind_a (so_For S (pod_namespace pod)) (\<lambda>api. get api (''kubezun-'' @ pod_uid pod)) s of
        (Inl _, _) \<Rightarrow> []
      | (Inr cap, _) \<Rightarrow>
          (case find (\<lambda>a. a_port a \<noteq> []) (concat (map snd (cap_addresses cap))) of None \<Rightarrow> [] | Some a \<Rightarrow> a_port a))"

definition UsePolicies :: "(pod \<Rightarrow> string) \<Rightarrow> ('w reconciler \<times> rec_state) option \<Rightarrow> ('w reconciler \<times> rec_state) option" where
  "UsePolicies port r = map_option (\<lambda>(R, st). (R\<lparr>r_portOf := Some port\<rparr>, st)) r"

section \<open>Renewal of tokens\<close>

text \<open>
  \<^verbatim>\<open>time.Until\<close> reads the clock and saturates at 64 bits; \<open>t\<close> is that reading and \<open>t'\<close> the one of \<^verbatim>\<open>time.Now\<close>
  after it.
\<close>

definition saturated :: "int \<Rightarrow> int" where
  "saturated d = max (- (2 ^ 63)) (min (2 ^ 63 - 1) d)"

definition refreshAt :: "time \<Rightarrow> time \<Rightarrow> time \<Rightarrow> time" where
  "refreshAt t t' expiry =
     (let life = saturated (expiry - t) in if life \<le> 0 then t' else expiry + (- life) sdiv 5)"

definition mountPathOf :: "kpod \<Rightarrow> string \<Rightarrow> string" where
  "mountPathOf pod volume =
     (case find (\<lambda>m. vm_name m = volume) (concat (map kc_mounts (kp_containers pod))) of None \<Rightarrow> [] | Some m \<Rightarrow> vm_path m)"

definition dueTokens :: "time \<Rightarrow> (string \<Rightarrow> time \<times> time) \<Rightarrow> token_map \<Rightarrow> tokenExpiry list" where
  "dueTokens now clk m =
     filter (\<lambda>e. now > refreshAt (fst (clk (te_pod e))) (snd (clk (te_pod e))) (te_at e)) (map snd (DAList.impl_of m))"

text \<open>The token of the rendered files is always there, so the check for it never fails.\<close>

definition refreshToken ::
  "'s prep_options \<Rightarrow> ('s, 'api) source \<Rightarrow> ('api \<Rightarrow> string \<Rightarrow> string \<Rightarrow> string \<Rightarrow> ('s, unit) act) \<Rightarrow> (pod \<Rightarrow> kpod) \<Rightarrow> provider \<Rightarrow>
   tokenExpiry \<Rightarrow> ('s \<times> token_map, unit) act" where
  "refreshToken N S update spec p e =
     (case DAList.lookup (pv_pods p) (te_pod e) of
        None \<Rightarrow> modify (DAList.delete (te_pod e))
      | Some pod \<Rightarrow>
          (let mount = mountPathOf (spec pod) (te_volume e) in
           if mount = [] then fail (ErrText (''volume '' @ te_volume e @ '' is mounted nowhere in this pod''))
           else
             bind_a (lift_w (serviceAccountFiles N (spec pod))) (\<lambda>(files, expiry).
             case map_of files ''token'' of
               None \<Rightarrow> fail (ErrText ''the new token was empty'')
             | Some token \<Rightarrow>
                 bind_a (lift_w (so_For S (pod_namespace pod))) (\<lambda>api.
                 bind_a (lift_w (so_list S api)) (\<lambda>capsules.
                 case map_of capsules (te_pod e) of
                   None \<Rightarrow> fail (ErrText ''no capsule is running for this pod'')
                 | Some cap \<Rightarrow>
                     if cap_uuid cap = [] then fail (ErrText ''no capsule is running for this pod'')
                     else
                       bind_a (lift_w (update api (cap_uuid cap) (path_join mount ''token'') token)) (\<lambda>_.
                       modify (trackTokenExpiry (podKeyOf (spec pod)) (te_volume e) expiry)))))))"

text \<open>A failed renewal is logged.\<close>

definition refreshDueTokens ::
  "'s prep_options \<Rightarrow> ('s, 'api) source \<Rightarrow> ('api \<Rightarrow> string \<Rightarrow> string \<Rightarrow> string \<Rightarrow> ('s, unit) act) \<Rightarrow> (pod \<Rightarrow> kpod) \<Rightarrow> provider \<Rightarrow>
   time \<Rightarrow> (string \<Rightarrow> time \<times> time) \<Rightarrow> ('s \<times> token_map, unit) act" where
  "refreshDueTokens N S update spec p now clk sm =
     for_each (\<lambda>e. ignore_if (\<lambda>_. True) (refreshToken N S update spec p e)) (dueTokens now clk (snd sm)) sm"

section \<open>The whole preparation\<close>

definition preparing ::
  "'s config \<Rightarrow> 's prep_options \<Rightarrow> ('w reconciler \<times> rec_state) option \<Rightarrow> (pod \<Rightarrow> kpod) \<Rightarrow> (template \<Rightarrow> string) \<Rightarrow>
   ('s \<times> token_map, files, string list \<times> string list, (string \<times> ClaimMount) list) preparation" where
  "preparing cfg N policies spec marshal =
     \<lparr>pr_files = (\<lambda>pod. resolveFiles N (spec pod)),
      pr_dns = (\<lambda>pod sm. case sm of (s, m) \<Rightarrow> (case dnsConfigFor N (spec pod) s of (d, s') \<Rightarrow> (d, (s', m)))),
      pr_claims = (\<lambda>pod. lift_w (resolveClaims N (spec pod))),
      pr_groups = securityGroupsFor policies,
      pr_template = (\<lambda>pod groups networkID files dns claims.
        map_sum id marshal (BuildTemplate (spec pod)
          \<lparr>to_networkID = networkID, to_portID = [], to_availabilityZone = pp_zone N, to_nodeName = cf_nodeName cfg, to_files = files,
           to_dnsSearches = fst dns, to_dnsNameservers = snd dns, to_securityGroups = groups, to_claims = claims,
           to_architecture = pp_arch N\<rparr>))\<rparr>"

text \<open>The configuration and the source, with the token expiries beside the world.\<close>

definition config_with :: "'s config \<Rightarrow> ('s \<times> 't) config" where
  "config_with cfg =
     \<lparr>cf_serves = cf_serves cfg, cf_nodeName = cf_nodeName cfg, cf_networkID = cf_networkID cfg,
      cf_networkIDFor = map_option (\<lambda>f ns. lift_w (f ns)) (cf_networkIDFor cfg)\<rparr>"

definition source_with :: "('s, 'api) source \<Rightarrow> ('s \<times> 't, 'api) source" where
  "source_with S =
     \<lparr>so_For = (\<lambda>ns. lift_w (so_For S ns)), so_TenantOf = so_TenantOf S, so_list = (\<lambda>api. lift_w (so_list S api)),
      so_listAll = (\<lambda>api. lift_w (so_listAll S api)), so_create = (\<lambda>api tpl. lift_w (so_create S api tpl)),
      so_delete = (\<lambda>api i. lift_w (so_delete S api i))\<rparr>"

section \<open>Lemmas\<close>

lemma fold_act_stepE:
  assumes "fold_act f b (x # xs) w = (Inr r, w')"
  obtains b' v where "f b x w = (Inr b', v)" "fold_act f b' xs v = (Inr r, w')"
  using assms by (auto simp: act_simps)

lemma lift_w_Inr_iff [act_simps]: "lift_w m (s, t) = (r, sm') \<longleftrightarrow> m s = (r, fst sm') \<and> snd sm' = t"
  by (cases "m s"; cases sm') (auto simp: lift_w_def)

lemma modify_Inr_iff [act_simps]: "modify f (s, t) = (r, sm') \<longleftrightarrow> r = Inr () \<and> sm' = (s, f t)"
  by (auto simp: modify_def)

text \<open>A fold over the volumes of a pod files each one's result under its name.\<close>

definition file_turn :: "(kvolume \<Rightarrow> ('s, 'x option) act) \<Rightarrow> (string \<times> 'x) list \<Rightarrow> kvolume \<Rightarrow> ('s, (string \<times> 'x) list) act" where
  "file_turn get out v = bind_a (get v) (\<lambda>r. ret (case r of None \<Rightarrow> out | Some fs \<Rightarrow> AList.update (kv_name v) fs out))"

lemma file_turns:
  assumes "fold_act (file_turn get) out vs s = (Inr files, s')" and "distinct (map kv_name vs)"
  shows "(\<forall>v \<in> set vs. \<exists>s1 s2 r. get v s1 = (Inr r, s2) \<and> (map_of out (kv_name v) = None \<longrightarrow> map_of files (kv_name v) = r)) \<and>
    (\<forall>n. n \<notin> kv_name ` set vs \<longrightarrow> map_of files n = map_of out n)"
  using assms
proof (induction vs arbitrary: out s)
  case (Cons v vs)
  from Cons.prems(1) obtain r s1 out' where get: "get v s = (Inr r, s1)"
    and out': "out' = (case r of None \<Rightarrow> out | Some fs \<Rightarrow> AList.update (kv_name v) fs out)"
    and rest: "fold_act (file_turn get) out' vs s1 = (Inr files, s')"
  proof (rule fold_act_stepE)
    fix b' v' assume "file_turn get out v s = (Inr b', v')" "fold_act (file_turn get) b' vs v' = (Inr files, s')"
    with that show thesis by (auto simp: file_turn_def act_simps)
  qed
  have other: "map_of out' n = map_of out n" if "n \<noteq> kv_name v" for n
    using that by (simp add: out' update_conv split: option.split)
  have own: "map_of out (kv_name v) = None \<Longrightarrow> map_of out' (kv_name v) = r"
    by (simp add: out' update_conv split: option.split)
  from Cons.IH [OF rest] Cons.prems(2)
  have ih: "\<forall>u \<in> set vs. \<exists>s1 s2 r. get u s1 = (Inr r, s2) \<and> (map_of out' (kv_name u) = None \<longrightarrow> map_of files (kv_name u) = r)"
    "\<forall>n. n \<notin> kv_name ` set vs \<longrightarrow> map_of files n = map_of out' n" by simp_all
  show ?case
  proof (intro conjI ballI allI impI)
    fix u assume "u \<in> set (v # vs)"
    then consider "u = v" | "u \<in> set vs" by auto
    then show "\<exists>s1 s2 r. get u s1 = (Inr r, s2) \<and> (map_of out (kv_name u) = None \<longrightarrow> map_of files (kv_name u) = r)"
    proof cases
      case 1
      with ih(2) Cons.prems(2) have "map_of files (kv_name v) = map_of out' (kv_name v)" by simp
      with 1 get own show ?thesis by metis
    next
      case 2
      with Cons.prems(2) have "kv_name u \<noteq> kv_name v" by (metis distinct.simps(2) image_eqI list.set_map list.simps(9))
      with 2 ih(1) other show ?thesis by metis
    qed
  next
    fix n assume "n \<notin> kv_name ` set (v # vs)"
    with ih(2) other show "map_of files n = map_of out n" by simp
  qed
qed (simp add: act_simps)

lemma resolveFiles_turns: "resolveFiles N pod = fold_act (file_turn (volumeFiles N pod)) [] (kp_volumes pod)"
  by (simp add: resolveFiles_def file_turn_def [abs_def])

lemma resolveFiles_each:
  assumes "resolveFiles N pod sm = (Inr files, sm')" and "distinct (map kv_name (kp_volumes pod))" and "v \<in> set (kp_volumes pod)"
  obtains sm1 sm2 r where "volumeFiles N pod v sm1 = (Inr r, sm2)" "map_of files (kv_name v) = r"
  using file_turns [OF assms(1) [unfolded resolveFiles_turns] assms(2)] assms(3) by fastforce

lemma resolveClaims_turns: "resolveClaims N pod = fold_act (file_turn (claimOfVolume N pod)) [] (kp_volumes pod)"
  by (simp add: resolveClaims_def file_turn_def [abs_def])

text \<open>Every claim of a pod has been resolved when the resolution succeeded, and each under its volume's name.\<close>

lemma claims_resolved:
  assumes "resolveClaims N pod s = (Inr claims, s')" and "distinct (map kv_name (kp_volumes pod))" and "v \<in> set (kp_volumes pod)" and "kv_claim v = Some claim"
  shows "\<exists>resolve s1 s2 m. pp_resolveClaim N = Some resolve \<and> resolve (kp_namespace pod) claim s1 = (Inr m, s2) \<and> map_of claims (kv_name v) = Some m"
proof -
  from file_turns [OF assms(1) [unfolded resolveClaims_turns] assms(2)] assms(3) obtain s1 s2 r
    where "claimOfVolume N pod v s1 = (Inr r, s2)" "map_of claims (kv_name v) = r" by fastforce
  with assms(4) show ?thesis by (fastforce simp: claimOfVolume_def act_simps split: option.splits)
qed

text \<open>The choice of keys of a volume, as one composition of maps.\<close>

lemma selectKeys_fold:
  assumes "fold_r (pickKey all source) items out0 = Inr out"
  shows "map_of out = map_of out0 ++ (map_of all \<circ>\<^sub>m map_of (rev (map (\<lambda>i. (item_name i, fst i)) items))) \<and> fst ` set items \<subseteq> dom (map_of all)"
  using assms
proof (induction items arbitrary: out0)
  case (Cons i items)
  from Cons.prems obtain out1 where step: "pickKey all source i out0 = Inr out1" and "fold_r (pickKey all source) items out1 = Inr out"
    by auto
  moreover from step obtain data where d: "map_of all (fst i) = Some data" and "out1 = AList.update (item_name i) data out0"
    by (auto simp: pickKey_def split: option.splits)
  ultimately have rest: "fold_r (pickKey all source) items (AList.update (item_name i) data out0) = Inr out" by simp
  note ih = Cons.IH [OF rest, THEN conjunct1] Cons.IH [OF rest, THEN conjunct2]
  have "map_of out n = (map_of out0 ++ (map_of all \<circ>\<^sub>m map_of (rev (map (\<lambda>i. (item_name i, fst i)) (i # items))))) n" for n
  proof (cases "map_of (rev (map (\<lambda>i. (item_name i, fst i)) items)) n")
    case None
    then show ?thesis by (auto simp: ih(1) map_add_def map_comp_def update_conv d split: option.splits)
  next
    case (Some k)
    then have "(n, k) \<in> set (map (\<lambda>i. (item_name i, fst i)) items)" by (metis map_of_SomeD set_rev)
    then have "k \<in> dom (map_of all)" using ih(2) by auto
    with Some show ?thesis by (auto simp: ih(1) map_add_def map_comp_def)
  qed
  with ih(2) d show ?case by auto
qed (simp add: map_comp_def map_add_def)

lemma selectKeys_map:
  assumes "selectKeys all items source = Inr out" and "items \<noteq> []"
  shows "map_of out = map_of all \<circ>\<^sub>m map_of (rev (map (\<lambda>i. (item_name i, fst i)) items)) \<and> fst ` set items \<subseteq> dom (map_of all)"
proof -
  from assms have "fold_r (pickKey all source) items [] = Inr out" by (simp add: selectKeys_def)
  from selectKeys_fold [OF this] show ?thesis by simp
qed

text \<open>What a volume shows of an object: all its keys, or those its items name, under the names the items give.\<close>

definition projected :: "labels \<Rightarrow> file_source \<Rightarrow> string \<rightharpoonup> string" where
  "projected all src =
     (if fs_items src = [] then map_of all
      else map_of all \<circ>\<^sub>m map_of (rev (map (\<lambda>i. (item_name i, fst i)) (fs_items src))))"

lemma selectKeys_projected: "selectKeys all (fs_items src) source = Inr out \<Longrightarrow> map_of out = projected all src"
  using selectKeys_map [of all "fs_items src" source out] by (auto simp: projected_def selectKeys_def)

lemma read_sourceE:
  assumes "read_source wrapping src get use s = (Inr r, s')" and "\<not> optional (fs_optional src)"
  obtains x where "get s = (Inr x, s')" "use x = Inr r"
  using assms by (auto simp: read_source_def split: prod.splits sum.splits if_splits)

lemma map_sum_Inr [simp]: "map_sum f g r = Inr y \<longleftrightarrow> (\<exists>x. r = Inr x \<and> y = g x)"
  by (cases r) auto

lemma sdiv_ge: "0 < life \<Longrightarrow> (- life) sdiv 5 \<ge> - life" for life :: int
  using div_le_dividend [of "nat life" 5] by (simp add: signed_divide_int_def sgn_if)

lemma refreshAt_later:
  assumes "now \<le> t" and "now \<le> t'"
  shows "now \<le> refreshAt t t' expiry"
proof (cases "saturated (expiry - t) \<le> 0")
  case False
  moreover have "saturated (expiry - t) \<le> expiry - t" using False by (simp add: saturated_def)
  ultimately show ?thesis using sdiv_ge [of "saturated (expiry - t)"] assms by (simp add: refreshAt_def Let_def)
qed (simp add: refreshAt_def Let_def assms)

section \<open>Properties\<close>

text \<open>
  C23. A pod starts with its files or not at all: when the files of a pod have been resolved, each volume
  from a ConfigMap or a Secret that is not optional was read, and what is handed on under its name is
  what the volume shows of the object, the chosen keys under their new names; binary keys win over text.
  A Secret with no data is the one source for which nothing is handed on.
\<close>

theorem files_read:
  assumes "resolveFiles N pod (s, m) = (Inr files, sm')" and "distinct (map kv_name (kp_volumes pod))" and "v \<in> set (kp_volumes pod)"
  shows "(case kv_configMap v of
       Some src \<Rightarrow> optional (fs_optional src) \<or>
         (\<exists>ob cm s1 s2 fs. pp_objects N = Some ob \<and> ob_ConfigMap ob (kp_namespace pod) (fs_name src) s1 = (Inr cm, s2) \<and>
            map_of files (kv_name v) = Some fs \<and>
            map_of fs = projected (AList.updates (map fst (cmap_binary cm)) (map snd (cmap_binary cm)) (cmap_data cm)) src)
     | None \<Rightarrow>
         (case kv_secret v of
            Some src \<Rightarrow> optional (fs_optional src) \<or>
              (\<exists>ob sec s1 s2. pp_objects N = Some ob \<and> ob_Secret ob (kp_namespace pod) (fs_name src) s1 = (Inr sec, s2) \<and>
                 (case map_of files (kv_name v) of None \<Rightarrow> sec_data sec = [] | Some fs \<Rightarrow> map_of fs = projected (sec_data sec) src))
          | None \<Rightarrow> True))"
proof -
  obtain s1 m1 sm2 r where vf: "volumeFiles N pod v (s1, m1) = (Inr r, sm2)" and r: "map_of files (kv_name v) = r"
    by (rule resolveFiles_each [OF assms]) (metis surj_pair)
  show ?thesis
  proof (cases "kv_configMap v")
    case (Some src)
    show ?thesis
    proof (cases "optional (fs_optional src)")
      case False
      from vf Some obtain ob where ob: "pp_objects N = Some ob"
        by (auto simp: volumeFiles_def configMapFiles_def act_simps split: option.splits)
      from vf Some ob False obtain cm fs where "ob_ConfigMap ob (kp_namespace pod) (fs_name src) s1 = (Inr cm, fst sm2)"
          "r = Some fs" "selectKeys (AList.updates (map fst (cmap_binary cm)) (map snd (cmap_binary cm)) (cmap_data cm)) (fs_items src)
               (''ConfigMap '' @ kp_namespace pod @ ''/'' @ fs_name src) = Inr fs"
        by (auto simp: volumeFiles_def configMapFiles_def act_simps elim!: read_sourceE)
      with Some ob r show ?thesis using selectKeys_projected by fastforce
    qed (simp add: Some)
  next
    case None
    show ?thesis
    proof (cases "kv_secret v")
      case (Some src)
      show ?thesis
      proof (cases "optional (fs_optional src)")
        case False
        from vf None Some obtain ob where ob: "pp_objects N = Some ob"
          by (auto simp: volumeFiles_def secretFiles_def act_simps split: option.splits)
        from vf None Some ob False obtain sec where "ob_Secret ob (kp_namespace pod) (fs_name src) s1 = (Inr sec, fst sm2)"
            "r = None \<and> sec_data sec = [] \<or>
             (\<exists>fs. r = Some fs \<and> selectKeys (sec_data sec) (fs_items src) (''Secret '' @ kp_namespace pod @ ''/'' @ fs_name src) = Inr fs)"
          by (auto simp: volumeFiles_def secretFiles_def act_simps elim!: read_sourceE split: if_splits)
        with None Some ob r show ?thesis using selectKeys_projected by fastforce
      qed (simp add: None Some)
    qed (simp add: None)
  qed
qed

text \<open>
  The renewal measures the life that is left, not the life the token was given, so the time it should be
  renewed at lies ahead whenever it is asked: where the clock does not run backwards during a
  pass, no token is ever due, and the pass does nothing.
\<close>

theorem tokens_never_renewed:
  assumes "\<forall>k. now \<le> fst (clk k) \<and> now \<le> snd (clk k)"
  shows "refreshDueTokens N S update spec p now clk (s, m) = (Inr (), (s, m))"
proof -
  have "dueTokens now clk m = []"
    using assms refreshAt_later by (fastforce simp: dueTokens_def filter_empty_conv not_less)
  then show ?thesis by (simp add: refreshDueTokens_def ret_def)
qed

text \<open>
  A renewal that does run replaces the token where the pod reads it: the new token is written into the
  capsule at the file \<^verbatim>\<open>token\<close> of the directory the volume is mounted at, and the new expiry is recorded. The
  entry of a pod that is gone is dropped.
\<close>

lemma refreshToken_writes:
  assumes "refreshToken N S update spec p e (s, m) = (Inr (), (s', m'))"
  shows "case DAList.lookup (pv_pods p) (te_pod e) of
      None \<Rightarrow> s' = s \<and> m' = DAList.delete (te_pod e) m
    | Some pod \<Rightarrow>
        (\<exists>files expiry token api (cap :: capsule) s1 s2. serviceAccountFiles N (spec pod) s = (Inr (files, expiry), s1) \<and> map_of files ''token'' = Some token \<and>
           update api (cap_uuid cap) (path_join (mountPathOf (spec pod) (te_volume e)) ''token'') token s2 = (Inr (), s') \<and>
           m' = trackTokenExpiry (podKeyOf (spec pod)) (te_volume e) expiry m)"
proof (cases "DAList.lookup (pv_pods p) (te_pod e)")
  case (Some pod)
  with assms obtain files expiry token api s1 s2 s3 capsules where
      "serviceAccountFiles N (spec pod) s = (Inr (files, expiry), s1)" "map_of files ''token'' = Some token"
      "so_For S (pod_namespace pod) s1 = (Inr api, s2)" "so_list S api s2 = (Inr capsules, s3)"
      and turn: "(case map_of capsules (te_pod e) of
                   None \<Rightarrow> fail (ErrText ''no capsule is running for this pod'')
                 | Some cap \<Rightarrow>
                     if cap_uuid cap = [] then fail (ErrText ''no capsule is running for this pod'')
                     else
                       bind_a (lift_w (update api (cap_uuid cap) (path_join (mountPathOf (spec pod) (te_volume e)) ''token'') token)) (\<lambda>_.
                       modify (trackTokenExpiry (podKeyOf (spec pod)) (te_volume e) expiry))) (s3, m) = (Inr (), (s', m'))"
    by (auto simp: refreshToken_def Let_def bind_a_Inr_iff lift_w_Inr_iff fail_def split: if_split_asm option.split_asm)
  moreover from turn obtain cap :: capsule where "update api (cap_uuid cap) (path_join (mountPathOf (spec pod) (te_volume e)) ''token'') token s3 = (Inr (), s')"
      "m' = trackTokenExpiry (podKeyOf (spec pod)) (te_volume e) expiry m"
    by (auto simp: act_simps split: if_split_asm option.split_asm)
  ultimately show ?thesis by (auto simp: Some)
qed (use assms in \<open>simp add: refreshToken_def modify_def\<close>)

text \<open>
  A capsule resolves names the way its tenant knows them: for a pod with the default DNS policy in a namespace
  stored under the prefix of the tenant, the searches are the three of the namespace without the prefix, then
  those of the pod; the servers are the pod's own if it names any, else the configured ones, else the reachable
  address the DNS Service of that tenant is annotated with, and never its cluster address.
\<close>

theorem resolver_of_tenant:
  assumes "kp_dnsPolicy pod \<noteq> ''None''" and "kp_dnsPolicy pod \<noteq> ''Default''"
    and "pp_tenant N \<noteq> []" and "kp_namespace pod = pp_tenant N @ ''-'' @ ns"
    and "pp_clusterDomain N = ''svc.'' @ base" and "\<not> has_suffix (''svc.'' @ base) ''.''"
    and "dnsConfigFor N pod s = ((searches, nameservers), s')"
  shows "searches = [ns @ ''.svc.'' @ base, ''svc.'' @ base, base] @ (case kp_dnsConfig pod of None \<Rightarrow> [] | Some cfg \<Rightarrow> dn_searches cfg) \<and>
    (let own = (case kp_dnsConfig pod of None \<Rightarrow> [] | Some cfg \<Rightarrow> dn_nameservers cfg) in
     if own \<noteq> [] then nameservers = own
     else nameservers = pp_clusterDNS N \<or> nameservers = [] \<or>
       (\<exists>ob sns name svc. pp_objects N = Some ob \<and> cut_at (CHR ''/'') (pp_dnsService N) = Some (sns, name) \<and>
          ob_Service ob (pp_tenant N @ ''-'' @ sns) name s = (Inr svc, s') \<and> nameservers = [annotation svc AddressAnnotation]))"
proof -
  have "tenantNamespace N (kp_namespace pod) = ns"
    using trim_prefix_append [of "pp_tenant N @ ''-''" ns] assms(3,4) by (simp add: tenantNamespace_def)
  moreover have "composeSearches ns (pp_clusterDomain N) = [ns @ ''.svc.'' @ base, ''svc.'' @ base, base]"
    using assms(5,6) trim_prefix_append [of "''svc.''" base] by (simp add: composeSearches_def trim_suffix_def Let_def)
  moreover obtain servers t where "clusterDNS N s = (servers, t)" by fastforce
  moreover from this have "servers = pp_clusterDNS N \<or> servers = [] \<or>
     (\<exists>ob sns name svc. pp_objects N = Some ob \<and> cut_at (CHR ''/'') (pp_dnsService N) = Some (sns, name) \<and>
        ob_Service ob (pp_tenant N @ ''-'' @ sns) name s = (Inr svc, t) \<and> servers = [annotation svc AddressAnnotation])"
    using assms(3) by (auto simp: clusterDNS_def Let_def split: if_splits option.splits prod.splits sum.splits)
  ultimately show ?thesis using assms(1,2,7) by (auto simp: dnsConfigFor_def Let_def split: option.splits if_splits)
qed

lemma GroupsFor_some: "GroupsFor R st pod = Inr gs \<Longrightarrow> gs \<noteq> []"
  by (elim GroupsFor_cases) (auto simp: sort_key_simps dest!: arg_cong [of _ _ length])

lemma bind_lift_r_Inr: "bind_a (lift_r q) f w = (Inr y, w') \<longleftrightarrow> (\<exists>x. q = Inr x \<and> f x w = (Inr y, w'))"
  by (auto simp: act_simps)

lemma CreatePod_built:
  assumes "CreatePod cfg S pr now pod (s, p) = (Inr (), (s', p'))" and "p' \<noteq> adoptPod now pod p"
  obtains api tpl s1 s2 c where "buildFor cfg pr pod s1 = (Inr tpl, s2)" "so_create S api tpl s2 = (Inr c, s')"
  using assms unfolding CreatePod_def by (auto elim!: call_elims split: if_splits)

lemma buildFor_parts:
  assumes "buildFor cfg' (preparing cfg N policies spec marshal) pod sm = (Inr tpl, sm')"
  obtains files sm1 dns s2 claims s3 networkID groups t where
    "resolveFiles N (spec pod) sm = (Inr files, sm1)" "resolveClaims N (spec pod) s2 = (Inr claims, s3)"
    "securityGroupsFor policies pod = Inr groups" "tpl = marshal t"
    "BuildTemplate (spec pod)
       \<lparr>to_networkID = networkID, to_portID = [], to_availabilityZone = pp_zone N, to_nodeName = cf_nodeName cfg, to_files = files,
        to_dnsSearches = fst dns, to_dnsNameservers = snd dns, to_securityGroups = groups, to_claims = claims,
        to_architecture = pp_arch N\<rparr> = Inr t"
  using assms unfolding buildFor_def preparing_def
  by (auto simp: act_simps)

text \<open>
  C6. A capsule is never created more open than its policies: when the creation of a pod made a capsule where policies
  are enforced, the template that was sent names the pod's own capsule and exactly the security groups decided for
  the pod, at least one of them; and it was built from files that were all read.
\<close>

theorem created_as_decided:
  assumes "CreatePod (config_with cfg) (source_with S) (preparing cfg N (Some (R, st)) spec marshal) now pod ((s, m), p) = (Inr (), (sm', p'))"
    and "p' \<noteq> adoptPod now pod p" and "kp_uid (spec pod) = pod_uid pod"
  shows "\<exists>api t s1 c gs. so_create S api (marshal t) s1 = (Inr c, fst sm') \<and> tp_name t = CapsuleName pod \<and>
    GroupsFor R st pod = Inr gs \<and> sent_groups t = Some gs \<and>
    (\<exists>files claims b sm1 sm2 s3 s4. resolveFiles N (spec pod) sm1 = (Inr files, sm2) \<and> resolveClaims N (spec pod) s3 = (Inr claims, s4) \<and>
       buildFileVolumes (spec pod) files claims = Inr b \<and> tp_volumes t = bt_volumes b)"
proof -
  from assms(1,2) obtain api tpl sm1 sm2 c where
      built: "buildFor (config_with cfg) (preparing cfg N (Some (R, st)) spec marshal) pod sm1 = (Inr tpl, sm2)"
      and created: "so_create (source_with S) api tpl sm2 = (Inr c, sm')"
    by (rule CreatePod_built)
  from built obtain files sm3 dns s3 claims s4 networkID groups t where t:
      "resolveFiles N (spec pod) sm1 = (Inr files, sm3)" "resolveClaims N (spec pod) s3 = (Inr claims, s4)"
      "securityGroupsFor (Some (R, st)) pod = Inr groups" "tpl = marshal t"
      "BuildTemplate (spec pod)
        \<lparr>to_networkID = networkID, to_portID = [], to_availabilityZone = pp_zone N, to_nodeName = cf_nodeName cfg, to_files = files,
         to_dnsSearches = fst dns, to_dnsNameservers = snd dns, to_securityGroups = groups, to_claims = claims,
         to_architecture = pp_arch N\<rparr> = Inr t"
    by (rule buildFor_parts)
  from t(3) obtain gs where gs: "GroupsFor R st pod = Inr gs" "groups = Some gs"
    by (auto simp: securityGroupsFor_def split: sum.splits)
  with GroupsFor_some obtain g gs' where "gs = g # gs'" by (metis list.exhaust)
  with t(5) gs(2) have "sent_groups t = Some gs" by (auto simp: sent_groups_def elim: BuildTemplate_parts)
  moreover from t(5) have "tp_name t = CapsuleName pod" by (auto simp: CapsuleName_def assms(3) elim: BuildTemplate_parts)
  moreover from t(5) obtain b where "buildFileVolumes (spec pod) files claims = Inr b" "tp_volumes t = bt_volumes b"
    by (auto elim: BuildTemplate_parts)
  moreover from created have "so_create S api (marshal t) (fst sm2) = (Inr c, fst sm')"
    by (cases sm2) (auto simp: source_with_def act_simps t(4))
  ultimately show ?thesis using gs(1) t(1,2) by blast
qed

text \<open>A node whose API server knows one Secret and one DNS Service, and whose capsules are the templates sent.\<close>

definition sample_secret :: secret where
  "sample_secret = \<lparr>sec_name = ''app'', sec_data = [(''key'', ''hunter2'')], sec_annotations = []\<rparr>"

definition sample_dns :: service_obj where
  "sample_dns =
     \<lparr>sv_namespace = ''t1-kube-system'', sv_name = ''kube-dns'', sv_version = 1, sv_annotations = [(AddressAnnotation, ''10.9.9.9'')],
      sv_clusterIP = ''254.1.1.1'', sv_type = [], sv_deleting = False, sv_ports = [], sv_ingress = []\<rparr>"

definition sample_objects :: "string list object_reader" where
  "sample_objects =
     \<lparr>ob_ConfigMap = (\<lambda>_ name. fail (ErrKubeNotFound name)), ob_Secret = (\<lambda>_ _. ret sample_secret), ob_Service = (\<lambda>_ _. ret sample_dns)\<rparr>"

definition sample_node :: "string list prep_options" where
  "sample_node =
     \<lparr>pp_tenant = ''t1'', pp_clusterDomain = ''svc.cluster.local'', pp_clusterDNS = [], pp_dnsService = ''kube-system/kube-dns'', pp_zone = [],
      pp_arch = [], pp_tokens = None, pp_resolveClaim = None, pp_objects = Some sample_objects\<rparr>"

definition log_source :: "(string list, unit) source" where
  "log_source =
     \<lparr>so_For = (\<lambda>_. ret ()), so_TenantOf = (\<lambda>_. None), so_list = (\<lambda>_. ret []), so_listAll = (\<lambda>_. ret []),
      so_create = (\<lambda>_ tpl w. (Inr sample_capsule, w @ [tpl])), so_delete = (\<lambda>_ _. ret ())\<rparr>"

definition log_config :: "string list config" where
  "log_config = \<lparr>cf_serves = (\<lambda>ns. ns = ''prod''), cf_nodeName = ''n1'', cf_networkID = ''net'', cf_networkIDFor = None\<rparr>"

abbreviation secret_pod :: kpod where
  "secret_pod \<equiv> sample_kpod [secret_volume ''app''] [sample_mount ''app'' ''/etc/app'']"

definition sample_creation :: "unit result \<times> ((string list \<times> token_map) \<times> provider)" where
  "sample_creation =
     CreatePod (config_with log_config) (source_with log_source) (preparing log_config sample_node (Some (Netpol_Reconciler.sample_rec, Netpol_Reconciler.sample_state)) (\<lambda>_. secret_pod) tp_name)
       7 sample_pod (([], DAList.empty), New)"

lemma sample_files: "resolveFiles sample_node secret_pod (w, m) = (Inr [(''app'', [(''key'', ''hunter2'')])], (w, m))"
  by (simp add: resolveFiles_def sample_kpod_def secret_volume_def volumeFiles_def secretFiles_def sample_node_def sample_objects_def sample_secret_def
      read_source_def selectKeys_def bind_a_def lift_w_def ret_def)

lemma built_for_options:
  assumes "BuildTemplate pod opts = Inr t" and "to_files opts' = to_files opts" and "to_claims opts' = to_claims opts"
  obtains t' where "BuildTemplate pod opts' = Inr t'"
  using assms by (auto simp: BuildTemplate_def split: if_splits)

theorem files_read_witness:
  "\<exists>fs. map_of [(''app'', [(''key'', ''hunter2'')])] ''app'' = Some fs \<and> map_of fs = projected (sec_data sample_secret) \<lparr>fs_name = ''app'', fs_items = [], fs_optional = None\<rparr>"
  using files_read [OF sample_files [of "[]" DAList.empty], of "secret_volume ''app''"]
  by (simp add: sample_kpod_def secret_volume_def optional_def sample_node_def sample_objects_def ret_def)

theorem resolver_of_tenant_witness:
  "fst (dnsConfigFor sample_node (secret_pod\<lparr>kp_namespace := ''t1-default''\<rparr>) []) =
     ([''default.svc.cluster.local'', ''svc.cluster.local'', ''cluster.local''], [''10.9.9.9''])"
proof -
  obtain s n s' where run: "dnsConfigFor sample_node (secret_pod\<lparr>kp_namespace := ''t1-default''\<rparr>) [] = ((s, n), s')" by (metis surj_pair)
  have side: "\<not> has_suffix (''svc.'' @ ''cluster.local'') ''.''" by (simp add: has_suffix_def has_prefix_def)
  have "n = [''10.9.9.9'']"
    using run by (simp add: dnsConfigFor_def sample_kpod_def clusterDNS_def sample_node_def sample_objects_def ret_def sample_dns_def annotation_def label_of_def Let_def)
  moreover from resolver_of_tenant [OF _ _ _ _ _ side run, of "''default''"] have "s = [''default.svc.cluster.local'', ''svc.cluster.local'', ''cluster.local'']"
    by (simp add: sample_kpod_def sample_node_def)
  ultimately show ?thesis by (simp add: run)
qed

lemma sample_creation_runs:
  "\<exists>sm p. sample_creation = (Inr (), (sm, p)) \<and> p \<noteq> adoptPod 7 sample_pod New"
proof -
  obtain d where dns: "dnsConfigFor sample_node secret_pod [] = (d, [])"
    by (simp add: dnsConfigFor_def clusterDNS_def sample_kpod_def sample_node_def sample_objects_def ret_def Let_def)
  have "\<exists>t. BuildTemplate secret_pod
      \<lparr>to_networkID = ''net'', to_portID = [], to_availabilityZone = pp_zone sample_node, to_nodeName = ''n1'',
       to_files = [(''app'', [(''key'', ''hunter2'')])], to_dnsSearches = fst d, to_dnsNameservers = snd d, to_securityGroups = Some [''d'', ''e'', ''g9''],
       to_claims = [], to_architecture = pp_arch sample_node\<rparr> = Inr t"
    by (rule built_for_options [OF sample_built]) (auto simp: sample_options_def)
  then obtain t where t: "BuildTemplate secret_pod
      \<lparr>to_networkID = ''net'', to_portID = [], to_availabilityZone = pp_zone sample_node, to_nodeName = ''n1'',
       to_files = [(''app'', [(''key'', ''hunter2'')])], to_dnsSearches = fst d, to_dnsNameservers = snd d, to_securityGroups = Some [''d'', ''e'', ''g9''],
       to_claims = [], to_architecture = pp_arch sample_node\<rparr> = Inr t" ..
  have claims: "resolveClaims sample_node secret_pod w = (Inr [], w)" for w
    by (simp add: resolveClaims_def claimOfVolume_def sample_kpod_def secret_volume_def bind_a_def ret_def)
  have groups: "securityGroupsFor (Some (Netpol_Reconciler.sample_rec, Netpol_Reconciler.sample_state)) sample_pod = Inr (Some [''d'', ''e'', ''g9''])"
    by (simp add: securityGroupsFor_def Netpol_Reconciler.sample_groups)
  have built: "buildFor (config_with log_config) (preparing log_config sample_node (Some (Netpol_Reconciler.sample_rec, Netpol_Reconciler.sample_state)) (\<lambda>_. secret_pod) tp_name)
      sample_pod ([], DAList.empty) = (Inr (tp_name t), ([], DAList.empty))"
    by (simp add: buildFor_def preparing_def bind_a_def sample_files dns lift_w_def claims groups lift_r_def networkFor_def config_with_def log_config_def ret_def t)
  have serves: "cf_serves (config_with log_config) (pod_namespace sample_pod)" by (simp add: config_with_def log_config_def sample_pod_def)
  have "sample_creation = (Inr (), (([tp_name t], DAList.empty), trackPod 7 ''Pending'' ''Creating'' sample_pod New))"
    unfolding sample_creation_def CreatePod_def
    by (simp add: recoverAs_def with_err_def bind_a_def lift_r_def lift_w_def authorize_def serves source_with_def log_source_def ret_def
      existing_capsule_def modify_def built)
  moreover have "trackPod 7 ''Pending'' ''Creating'' sample_pod New \<noteq> adoptPod 7 sample_pod New"
    by (auto simp: trackPod_def adoptPod_def New_def Let_def dest!: arg_cong [of _ _ pv_notified])
  ultimately show ?thesis by blast
qed

theorem created_as_decided_witness:
  "\<exists>t. fst (fst (snd sample_creation)) \<noteq> [] \<and> tp_name t = ''kubezun-u1'' \<and> sent_groups t = Some [''d'', ''e'', ''g9'']"
proof -
  obtain sm p where run: "sample_creation = (Inr (), (sm, p))" and new: "p \<noteq> adoptPod 7 sample_pod New"
    using sample_creation_runs by blast
  have uid: "kp_uid secret_pod = pod_uid sample_pod" by (simp add: sample_kpod_def sample_pod_def)
  from created_as_decided [OF run [unfolded sample_creation_def] new uid] obtain t s1 c gs where
      "so_create log_source () (tp_name t) s1 = (Inr c, fst sm)" "tp_name t = CapsuleName sample_pod"
      "GroupsFor Netpol_Reconciler.sample_rec Netpol_Reconciler.sample_state sample_pod = Inr gs" "sent_groups t = Some gs"
    by (metis old.unit.exhaust)
  moreover have "fst (fst (snd sample_creation)) = fst sm" by (simp add: run)
  ultimately show ?thesis
    by (auto simp: log_source_def CapsuleName_def sample_pod_def Netpol_Reconciler.sample_groups [unfolded sample_pod_def])
qed

theorem tokens_never_renewed_witness:
  "refreshDueTokens sample_node log_source (\<lambda>_ _ _ _. fail ErrNotFound) (\<lambda>_. secret_pod) New 100 (\<lambda>_. (101, 102))
     ([], trackTokenExpiry ''prod/web-1'' ''token'' (Some 10) DAList.empty)
   = (Inr (), ([], trackTokenExpiry ''prod/web-1'' ''token'' (Some 10) DAList.empty))"
  by (rule tokens_never_renewed) simp

end
