(* ===== verification/Vk_Tenants.thy ===== *)
theory Vk_Tenants
  imports Provider_Prepare Netpol_Controller Service_Controller Ingress_Controller Volume_Reconciler
begin

text \<open>
  \<^verbatim>\<open>cmd/virtual-kubelet/multitenant.go\<close>: one process that serves several tenants. Each reconciler of the
  process is a template; the one a namespace's work is done by is a copy of it with the clients, the name and
  the namespace check of the tenant, built on first use and kept. What a copy holds of the namespace watcher are
  calls on it, so a copy is a function of the watcher's state. The constructors of OpenStack clients
  are parameters.
\<close>

section \<open>State\<close>

record ('v, 'c) client_makers =
  mk_block :: "session \<Rightarrow> 'v block_api result"
  mk_shared :: "session \<Rightarrow> 'v share_api result"
  mk_octavia :: "session \<Rightarrow> 'v octavia_api result"
  mk_network :: "session \<Rightarrow> 'v fip_api result"
  mk_keys :: "session \<Rightarrow> 'v barbican_api result"
  mk_netpol :: "session \<Rightarrow> 'v neutron_api result"
  mk_capsules :: "session \<Rightarrow> 'c result"
  capsule_extend :: "'c \<Rightarrow> string \<Rightarrow> string \<Rightarrow> int \<Rightarrow> ('v, unit) act"
  capsule_subnets :: "'c \<Rightarrow> string \<Rightarrow> string \<Rightarrow> ('v, string) act"

record 'v multiTenant =
  mt_resolver :: "'v resolver"
  mt_volume :: "'v volume_rec option"
  mt_service :: "'v service_rec option"
  mt_ingress :: "'v ingress_rec option"
  mt_netpol :: "'v reconciler option"

definition newMultiTenant :: "'v secrets_api \<Rightarrow> (credentials \<Rightarrow> ('v, session) act) \<Rightarrow> 'v multiTenant" where
  "newMultiTenant secrets newSession =
     \<lparr>mt_resolver = \<lparr>rv_secrets = secrets, rv_tenantOf = (\<lambda>_. None), rv_secretName = None, rv_connect = newSession\<rparr>,
      mt_volume = None, mt_service = None, mt_ingress = None, mt_netpol = None\<rparr>"

text \<open>The resolver asks the watcher, as it is at the time of the call.\<close>

definition resolver_at :: "'v multiTenant \<Rightarrow> namespaces \<Rightarrow> 'v resolver" where
  "resolver_at m n = (mt_resolver m)\<lparr>rv_tenantOf := TenantOf n\<rparr>"

definition servesTenant :: "namespaces \<Rightarrow> string \<Rightarrow> string \<Rightarrow> bool" where
  "servesTenant n t namespace = (case TenantOf n namespace of None \<Rightarrow> False | Some got \<Rightarrow> got = t)"

definition names_no_tenant :: "string \<Rightarrow> err" where
  "names_no_tenant namespace = ErrText (''namespace '' @ quote_str namespace @ '' names no tenant'')"

definition mt_binding :: "'v multiTenant \<Rightarrow> bool \<Rightarrow> namespaces \<Rightarrow> string \<Rightarrow> ('v \<times> res_state, string \<times> binding) act" where
  "mt_binding m flip n namespace =
     (case TenantOf n namespace of
        None \<Rightarrow> fail (names_no_tenant namespace)
      | Some t \<Rightarrow>
          if t = [] then fail (names_no_tenant namespace)
          else bind_a (BindingFor (resolver_at m n) flip namespace) (\<lambda>b. ret (t, b)))"

definition networkIDFor :: "'v multiTenant \<Rightarrow> bool \<Rightarrow> namespaces \<Rightarrow> string \<Rightarrow> ('v \<times> res_state, string) act" where
  "networkIDFor m flip n namespace =
     bind_a (mt_binding m flip n namespace) (\<lambda>(_, b).
       if bd_networkID b = []
       then fail (ErrText (''namespace '' @ quote_str namespace @ '': its tenant's binding names no network (annotate the credential Secret with ''
                    @ NetworkIDAnnotation @ '')''))
       else ret (bd_networkID b))"

section \<open>The capsules of every tenant\<close>

definition firstNamespace :: "namespaces \<Rightarrow> string \<Rightarrow> string option" where
  "firstNamespace n t = (case NamespacesOfTenant n t of [] \<Rightarrow> None | ns # _ \<Rightarrow> Some ns)"

definition mt_capsules ::
  "'v multiTenant \<Rightarrow> bool \<Rightarrow> namespaces \<Rightarrow> (session \<Rightarrow> 'v zun_api result) \<Rightarrow> (('v, 'v zun_api) rworld, 'v zun_api) source" where
  "mt_capsules m flip n mk = resolved_source (resolver_at m n) flip mk"

definition mt_each ::
  "'v multiTenant \<Rightarrow> bool \<Rightarrow> namespaces \<Rightarrow> (session \<Rightarrow> 'v zun_api result) \<Rightarrow>
   (string \<Rightarrow> 'v zun_api \<Rightarrow> (('v, 'v zun_api) rworld \<times> 'l, unit) act) \<Rightarrow> (('v, 'v zun_api) rworld \<times> 'l, unit) act" where
  "mt_each m flip n mk = ResolvedEach (resolver_at m n) flip mk (firstNamespace n) (Tenants n)"

text \<open>With one tenant the source is the fixed API, which leaves the resolver's part of the world alone.\<close>

definition providerCapsules ::
  "'v multiTenant option \<Rightarrow> 'v zun_api \<Rightarrow> bool \<Rightarrow> namespaces \<Rightarrow> (session \<Rightarrow> 'v zun_api result) \<Rightarrow> (('v, 'v zun_api) rworld, 'v zun_api) source" where
  "providerCapsules mt api flip n mk = (case mt of None \<Rightarrow> source_with (static_source api) | Some m \<Rightarrow> mt_capsules m flip n mk)"

section \<open>The copies\<close>

text \<open>
  What the four factories have in common: the binding, the template, the copy kept for the tenant or a new one.
\<close>

definition not_running_here :: "string \<Rightarrow> err" where
  "not_running_here what = ErrText (''the '' @ what @ '' controller is not running in this process'')"

definition factory ::
  "('x \<Rightarrow> string \<rightharpoonup> (namespaces \<Rightarrow> 'r)) \<Rightarrow> (string \<Rightarrow> (namespaces \<Rightarrow> 'r) \<Rightarrow> 'x \<Rightarrow> 'x) \<Rightarrow> string \<Rightarrow> 't option \<Rightarrow>
   ('t \<Rightarrow> string \<Rightarrow> binding \<Rightarrow> (namespaces \<Rightarrow> 'r) result) \<Rightarrow> 'v multiTenant \<Rightarrow> bool \<Rightarrow> namespaces \<Rightarrow> string \<Rightarrow>
   (('v \<times> res_state) \<times> 'x, 'r) act" where
  "factory get put what template build m flip n namespace =
     bind_a (lift_w (mt_binding m flip n namespace)) (\<lambda>(t, b).
       case template of
         None \<Rightarrow> fail (not_running_here what)
       | Some tpl \<Rightarrow> (\<lambda>(v, x).
           case get x t of
             Some r \<Rightarrow> (Inr (r n), (v, x))
           | None \<Rightarrow> (case build tpl t b of Inl e \<Rightarrow> (Inl e, (v, x)) | Inr r \<Rightarrow> (Inr (r n), (v, put t r x)))))"

abbreviation map_put :: "string \<Rightarrow> 'r \<Rightarrow> (string \<rightharpoonup> 'r) \<Rightarrow> (string \<rightharpoonup> 'r)" where
  "map_put t r c \<equiv> c(t \<mapsto> r)"

fun some_ok :: "'a result \<Rightarrow> 'a option" where
  "some_ok (Inl _) = None"
| "some_ok (Inr x) = Some x"

definition buildVolume :: "('v, 'c) client_makers \<Rightarrow> 'v volume_rec \<Rightarrow> string \<Rightarrow> binding \<Rightarrow> (namespaces \<Rightarrow> 'v volume_rec) result" where
  "buildVolume K tpl t b =
     bind_r (mk_capsules K (bd_session b)) (\<lambda>capsules.
     Inr (\<lambda>n. tpl\<lparr>vr_backend := (vr_backend tpl)\<lparr>vb_block := some_ok (mk_block K (bd_session b)), vb_shared := some_ok (mk_shared K (bd_session b))\<rparr>,
       vr_extend := Some (capsule_extend K capsules), vr_tenant := t, vr_serves := servesTenant n t\<rparr>))"

definition no_vip_subnet :: "string \<Rightarrow> string \<Rightarrow> err" where
  "no_vip_subnet t rest =
     ErrText (''tenant '' @ t @ '' has no VIP subnet in its binding (annotate the credential Secret with '' @ VIPSubnetIDAnnotation @ '')'' @ rest)"

definition buildService :: "('v, 'c) client_makers \<Rightarrow> 'v service_rec \<Rightarrow> string \<Rightarrow> binding \<Rightarrow> (namespaces \<Rightarrow> 'v service_rec) result" where
  "buildService K tpl t b =
     bind_r (mk_octavia K (bd_session b)) (\<lambda>octavia.
     bind_r (mk_network K (bd_session b)) (\<lambda>neutron.
     bind_r (mk_capsules K (bd_session b)) (\<lambda>capsules.
     if bd_vipSubnetID b = [] then Inl (no_vip_subnet t ''; its Services get no load balancer until it does'')
     else Inr (\<lambda>n. tpl\<lparr>rc_octavia := octavia, rc_neutron := Some neutron, rc_subnetFor := capsule_subnets K capsules, rc_tenant := t,
            rc_serves := Some (servesTenant n t), rc_namespaces := Some (NamespacesOfTenant n t), rc_vipSubnet := bd_vipSubnetID b, rc_vipNetwork := bd_vipNetworkID b\<rparr>))))"

definition buildIngress :: "('v, 'c) client_makers \<Rightarrow> 'v ingress_rec \<Rightarrow> string \<Rightarrow> binding \<Rightarrow> (namespaces \<Rightarrow> 'v ingress_rec) result" where
  "buildIngress K tpl t b =
     bind_r (mk_octavia K (bd_session b)) (\<lambda>octavia.
     bind_r (mk_network K (bd_session b)) (\<lambda>neutron.
     bind_r (mk_capsules K (bd_session b)) (\<lambda>capsules.
     if bd_vipSubnetID b = [] then Inl (no_vip_subnet t [])
     else Inr (\<lambda>n. tpl\<lparr>ir_octavia := octavia, ir_neutron := Some neutron, ir_subnetFor := capsule_subnets K capsules,
            ir_keyManager := some_ok (mk_keys K (bd_session b)), ir_tenant := t, ir_serves := Some (servesTenant n t),
            ir_namespaces := Some (NamespacesOfTenant n t), ir_vipSubnet := bd_vipSubnetID b\<rparr>))))"

definition buildNetpol :: "('v, 'c) client_makers \<Rightarrow> 'v reconciler \<Rightarrow> string \<Rightarrow> binding \<Rightarrow> (namespaces \<Rightarrow> 'v reconciler) result" where
  "buildNetpol K tpl t b =
     bind_r (mk_netpol K (bd_session b)) (\<lambda>netC. Inr (\<lambda>n. tpl\<lparr>r_neutron := netC, r_serves := servesTenant n t\<rparr>))"

definition volumeFor :: "('v, 'c) client_makers \<Rightarrow> 'v multiTenant \<Rightarrow> bool \<Rightarrow> namespaces \<Rightarrow> string \<Rightarrow>
    (('v \<times> res_state) \<times> (string \<rightharpoonup> (namespaces \<Rightarrow> 'v volume_rec)), 'v volume_rec) act" where
  "volumeFor K m = factory (\<lambda>c. c) map_put ''volume'' (mt_volume m) (buildVolume K) m"

definition serviceFor :: "('v, 'c) client_makers \<Rightarrow> 'v multiTenant \<Rightarrow> bool \<Rightarrow> namespaces \<Rightarrow> string \<Rightarrow>
    (('v \<times> res_state) \<times> (string \<rightharpoonup> (namespaces \<Rightarrow> 'v service_rec)), 'v service_rec) act" where
  "serviceFor K m = factory (\<lambda>c. c) map_put ''service'' (mt_service m) (buildService K) m"

definition ingressFor :: "('v, 'c) client_makers \<Rightarrow> 'v multiTenant \<Rightarrow> bool \<Rightarrow> namespaces \<Rightarrow> string \<Rightarrow>
    (('v \<times> res_state) \<times> (string \<rightharpoonup> (namespaces \<Rightarrow> 'v ingress_rec)), 'v ingress_rec) act" where
  "ingressFor K m = factory (\<lambda>c. c) map_put ''ingress'' (mt_ingress m) (buildIngress K) m"

text \<open>
  A netpol reconciler has a state of its own, which a copy takes over from the template (\<open>None\<close>) when it is made.
\<close>

type_synonym 'v netpols = "(string \<rightharpoonup> (namespaces \<Rightarrow> 'v reconciler)) \<times> (string option \<Rightarrow> rec_state)"

definition put_netpol :: "string \<Rightarrow> (namespaces \<Rightarrow> 'v reconciler) \<Rightarrow> 'v netpols \<Rightarrow> 'v netpols" where
  "put_netpol t r x = ((fst x)(t \<mapsto> r), (snd x)(Some t := snd x None))"

definition netpolFor :: "('v, 'c) client_makers \<Rightarrow> 'v multiTenant \<Rightarrow> bool \<Rightarrow> namespaces \<Rightarrow> string \<Rightarrow>
    (('v \<times> res_state) \<times> 'v netpols, 'v reconciler) act" where
  "netpolFor K m = factory fst put_netpol ''netpol'' (mt_netpol m) (buildNetpol K) m"

section \<open>The walk over tenants\<close>

fun eachTenantLoop :: "(string \<Rightarrow> string list) \<Rightarrow> (string \<Rightarrow> ('s, 'r) act) \<Rightarrow> ('r \<Rightarrow> ('s, unit) act) \<Rightarrow> string list \<Rightarrow> ('s, unit) act" where
  "eachTenantLoop nssOf forNS fn [] = ret ()"
| "eachTenantLoop nssOf forNS fn (t # ts) =
     (case nssOf t of
        [] \<Rightarrow> eachTenantLoop nssOf forNS fn ts
      | ns # _ \<Rightarrow> (\<lambda>s.
          case forNS ns s of
            (Inl _, s') \<Rightarrow> eachTenantLoop nssOf forNS fn ts s'
          | (Inr r, s') \<Rightarrow> bind_a (fn r) (\<lambda>_. eachTenantLoop nssOf forNS fn ts) s'))"

definition eachTenant :: "namespaces \<Rightarrow> (string \<Rightarrow> ('s, 'r) act) \<Rightarrow> ('r \<Rightarrow> ('s, unit) act) \<Rightarrow> ('s, unit) act" where
  "eachTenant n forNS fn = eachTenantLoop (NamespacesOfTenant n) forNS fn (Tenants n)"

section \<open>Lemmas\<close>

lemma servesTenant_scoped: "servesTenant n t ns = nsw.scoped_to n t ns"
  by (simp add: servesTenant_def nsw.scoped_to_def)

lemma servesTenant_iff: "servesTenant n t ns \<longleftrightarrow> TenantOf n ns = Some t"
  by (simp add: servesTenant_scoped nsw.scoped_to_iff)

text \<open>A binding that was stored stays, and the one a call answers is the one stored.\<close>

lemma checkBinding_built: "checkBinding R flip t sec ses ws = (r, ws') \<Longrightarrow> built (snd ws') = built (snd ws)"
  by (auto simp: checkBinding_def reportRefusal_def split: prod.splits sum.splits if_splits)

lemma connect_built: "connect R flip t ws = (r, ws') \<Longrightarrow> built (snd ws') = built (snd ws)"
  unfolding connect_def
  by (cases ws) (auto elim!: bind_aE lift_wE simp: ret_def dest!: checkBinding_built)

lemma BindingFor_built:
  assumes "BindingFor R flip ns ws = (r, ws')"
  shows "built (snd ws) t = Some b \<Longrightarrow> built (snd ws') t = Some b"
    and "r = Inr b' \<Longrightarrow> rv_tenantOf R ns = Some t' \<Longrightarrow> built (snd ws') t' = Some b'"
  using assms
  by (auto simp: BindingFor_def fail_def ret_def storeBinding_def split: option.splits if_splits prod.splits elim!: bind_aE dest!: connect_built)

lemma mt_binding_built:
  assumes "mt_binding m flip n ns ws = (r, ws')"
  shows "built (snd ws) t = Some b \<Longrightarrow> built (snd ws') t = Some b"
    and "r = Inr (t', b') \<Longrightarrow> TenantOf n ns = Some t' \<and> t' \<noteq> [] \<and> built (snd ws') t' = Some b'"
  using assms
  by (auto simp: mt_binding_def fail_def ret_def resolver_at_def split: option.splits if_splits elim!: bind_aE dest: BindingFor_built)

section \<open>The contract of a cache of copies\<close>

text \<open>
  The states of a factory: what its calls reach from an empty cache, with other users of the resolver, who only
  add bindings, and the services themselves moving in between.
\<close>

inductive reached :: "(bool \<Rightarrow> namespaces \<Rightarrow> string \<Rightarrow> (('v \<times> res_state) \<times> 'x, 'r) act) \<Rightarrow> 'x \<Rightarrow> ('v \<times> res_state) \<times> 'x \<Rightarrow> bool"
  for call x0 where
  start: "reached call x0 (v, x0)"
| step: "reached call x0 s \<Longrightarrow> call flip n ns s = (r, s') \<Longrightarrow> reached call x0 s'"
| other: "reached call x0 (v, x) \<Longrightarrow> built (snd v) \<subseteq>\<^sub>m built (snd v') \<Longrightarrow> reached call x0 (v', x)"

text \<open>
  A cache is used through a lookup and a store. Whatever else its state holds, the copies kept are
  those the builder makes of a tenant's stored binding, and so is what a factory answers.
\<close>

locale tenant_cache =
  fixes get :: "'x \<Rightarrow> string \<rightharpoonup> (namespaces \<Rightarrow> 'r)"
    and put :: "string \<Rightarrow> (namespaces \<Rightarrow> 'r) \<Rightarrow> 'x \<Rightarrow> 'x"
  assumes get_put: "get (put t r x) = (get x)(t \<mapsto> r)"
begin

definition kept :: "(string \<Rightarrow> binding \<Rightarrow> (namespaces \<Rightarrow> 'r) result) \<Rightarrow> (string \<rightharpoonup> binding) \<Rightarrow> 'x \<Rightarrow> bool" where
  "kept build bs x \<longleftrightarrow> (\<forall>t c. get x t = Some c \<longrightarrow> (\<exists>b. bs t = Some b \<and> build t b = Inr c))"

lemma factory_keeps:
  assumes "kept (build tpl) (built (snd v)) x" and "factory get put what (Some tpl) build m flip n ns (v, x) = (r, (v', x'))"
  shows "kept (build tpl) (built (snd v')) x'"
    and "r = Inr q \<Longrightarrow> \<exists>t b c. TenantOf n ns = Some t \<and> t \<noteq> [] \<and> built (snd v') t = Some b \<and> build tpl t b = Inr c \<and> get x' t = Some c \<and> q = c n"
proof -
  obtain r0 v0 where bd: "mt_binding m flip n ns v = (r0, v0)" by (metis surj_pair)
  note stays = mt_binding_built(1) [OF bd]
  have still: "kept (build tpl) (built (snd v0)) x" using assms(1) stays by (meson kept_def)
  have "kept (build tpl) (built (snd v')) x' \<and>
      (r = Inr q \<longrightarrow> (\<exists>t b c. TenantOf n ns = Some t \<and> t \<noteq> [] \<and> built (snd v') t = Some b \<and> build tpl t b = Inr c \<and> get x' t = Some c \<and> q = c n))"
  proof (cases r0)
    case (Inl e)
    with assms(2) bd still show ?thesis by (auto simp: factory_def bind_a_def lift_w_def)
  next
    case (Inr tb)
    obtain t b where tb: "tb = (t, b)" by (metis surj_pair)
    note own = mt_binding_built(2) [OF bd, of t b] 
    show ?thesis
    proof (cases "get x t")
      case None
      with assms(2) bd still own Inr tb show ?thesis
        by (auto simp: factory_def bind_a_def lift_w_def kept_def get_put split: sum.splits if_splits)
    next
      case (Some c)
      with still obtain b' where "built (snd v0) t = Some b'" "build tpl t b' = Inr c" by (auto simp: kept_def)
      with Some assms(2) bd still own Inr tb show ?thesis by (auto simp: factory_def bind_a_def lift_w_def)
    qed
  qed
  then show "kept (build tpl) (built (snd v')) x'"
    and "r = Inr q \<Longrightarrow> \<exists>t b c. TenantOf n ns = Some t \<and> t \<noteq> [] \<and> built (snd v') t = Some b \<and> build tpl t b = Inr c \<and> get x' t = Some c \<and> q = c n"
    by blast+
qed

lemma reached_kept:
  assumes "reached (factory get put what (Some tpl) build m) x0 s" and "get x0 = Map.empty"
  shows "kept (build tpl) (built (snd (fst s))) (snd s)"
  using assms
proof (induction rule: reached.induct)
  case (start v)
  then show ?case by (simp add: kept_def)
next
  case (step s flip n ns r s')
  then show ?case using factory_keeps(1) [of build tpl "fst s" "snd s" what m flip n ns r "fst s'" "snd s'"] by simp
next
  case (other v x v')
  then show ?case by (fastforce simp: kept_def map_le_def dom_def)
qed

text \<open>Whatever a factory answers is the builder's copy for the tenant of the namespace, by that tenant's binding.\<close>

lemma answer_of_own:
  assumes "reached (factory get put what (Some tpl) build m) x0 s" and "get x0 = Map.empty"
    and "factory get put what (Some tpl) build m flip n ns s = (Inr q, s')"
  obtains t b c where "TenantOf n ns = Some t" "t \<noteq> []" "built (snd (fst s')) t = Some b" "build tpl t b = Inr c" "q = c n"
  using factory_keeps(2) [of build tpl "fst s" "snd s" what m flip n ns "Inr q" "fst s'" "snd s'" q] reached_kept [OF assms(1,2)] assms(3)
  by auto

end

interpretation copies: tenant_cache "\<lambda>c. c" map_put
  by unfold_locales simp

interpretation netpols: tenant_cache fst put_netpol
  by unfold_locales (simp add: put_netpol_def)

section \<open>Properties\<close>

text \<open>
  C14. Load balancers are built in the tenant's own project and on the tenant's own subnet: whatever calls came before, the
  Service reconciler answered for a namespace uses clients of the session stored for that namespace's
  tenant, the VIP subnet of that tenant's binding, which is not empty, and serves and sweeps exactly that tenant's namespaces.
\<close>

theorem services_of_own_tenant:
  assumes "mt_service m = Some tpl" and "reached (serviceFor K m) Map.empty s" and "serviceFor K m flip n ns s = (Inr r, s')"
  shows "\<exists>t b f nss. TenantOf n ns = Some t \<and> t \<noteq> [] \<and> built (snd (fst s')) t = Some b \<and> rc_tenant r = t \<and>
    mk_octavia K (bd_session b) = Inr (rc_octavia r) \<and> map_option Inr (rc_neutron r) = Some (mk_network K (bd_session b)) \<and>
    rc_vipSubnet r = bd_vipSubnetID b \<and> rc_vipSubnet r \<noteq> [] \<and>
    rc_serves r = Some f \<and> (\<forall>ns'. f ns' \<longleftrightarrow> TenantOf n ns' = Some t) \<and>
    rc_namespaces r = Some nss \<and> set nss = {ns'. TenantOf n ns' = Some t}"
proof -
  from assms obtain t b c where "TenantOf n ns = Some t" "t \<noteq> []" "built (snd (fst s')) t = Some b" "buildService K tpl t b = Inr c" "r = c n"
    unfolding serviceFor_def by (auto elim!: copies.answer_of_own)
  moreover from \<open>t \<noteq> []\<close> have "set (NamespacesOfTenant n t) = {ns'. TenantOf n ns' = Some t}"
    by (simp add: nsw.set_namespacesOf)
  ultimately show ?thesis by (auto simp: buildService_def bind_r_Inr_iff servesTenant_iff split: if_splits)
qed

text \<open>
  C5. No policy of one tenant admits another's pods: whatever calls came before, the NetworkPolicy reconciler answered for a
  namespace writes with a client of that tenant's session, and every namespace a peer selector of it resolves
  to, "all namespaces" included, belongs to the same tenant.
\<close>

theorem peers_of_own_tenant:
  assumes "mt_netpol m = Some tpl" and "reached (netpolFor K m) (Map.empty, ss) s" and "netpolFor K m flip n ns s = (Inr r, s')"
  shows "\<exists>t b. TenantOf n ns = Some t \<and> t \<noteq> [] \<and> built (snd (fst s')) t = Some b \<and> mk_netpol K (bd_session b) = Inr (r_neutron r) \<and>
    (\<forall>sel nss. namespacesMatching r sel = Inr nss \<longrightarrow> (\<forall>ns' \<in> set nss. TenantOf n ns' = Some t))"
proof -
  from assms obtain t b c where "TenantOf n ns = Some t" "t \<noteq> []" "built (snd (fst s')) t = Some b" "buildNetpol K tpl t b = Inr c" "r = c n"
    unfolding netpolFor_def by (auto elim!: netpols.answer_of_own)
  then show ?thesis
    by (auto simp: buildNetpol_def bind_r_Inr_iff namespacesMatching_def servesTenant_iff split: if_splits option.splits)
qed

text \<open>The same for claims and Ingresses.\<close>

lemma volumes_of_own_tenant:
  assumes "mt_volume m = Some tpl" and "reached (volumeFor K m) Map.empty s" and "volumeFor K m flip n ns s = (Inr r, s')"
  shows "\<exists>t b. TenantOf n ns = Some t \<and> t \<noteq> [] \<and> built (snd (fst s')) t = Some b \<and> vr_tenant r = t \<and>
    vb_block (vr_backend r) = some_ok (mk_block K (bd_session b)) \<and> vb_shared (vr_backend r) = some_ok (mk_shared K (bd_session b)) \<and>
    (\<forall>ns'. vr_serves r ns' \<longleftrightarrow> TenantOf n ns' = Some t)"
proof -
  from assms obtain t b c where "TenantOf n ns = Some t" "t \<noteq> []" "built (snd (fst s')) t = Some b" "buildVolume K tpl t b = Inr c" "r = c n"
    unfolding volumeFor_def by (auto elim!: copies.answer_of_own)
  then show ?thesis by (auto simp: buildVolume_def bind_r_Inr_iff servesTenant_iff)
qed

lemma ingresses_of_own_tenant:
  assumes "mt_ingress m = Some tpl" and "reached (ingressFor K m) Map.empty s" and "ingressFor K m flip n ns s = (Inr r, s')"
  shows "\<exists>t b f. TenantOf n ns = Some t \<and> t \<noteq> [] \<and> built (snd (fst s')) t = Some b \<and> ir_tenant r = t \<and>
    mk_octavia K (bd_session b) = Inr (ir_octavia r) \<and> ir_vipSubnet r = bd_vipSubnetID b \<and> ir_vipSubnet r \<noteq> [] \<and>
    ir_serves r = Some f \<and> (\<forall>ns'. f ns' \<longleftrightarrow> TenantOf n ns' = Some t)"
proof -
  from assms obtain t b c where "TenantOf n ns = Some t" "t \<noteq> []" "built (snd (fst s')) t = Some b" "buildIngress K tpl t b = Inr c" "r = c n"
    unfolding ingressFor_def by (auto elim!: copies.answer_of_own)
  then show ?thesis by (auto simp: buildIngress_def bind_r_Inr_iff servesTenant_iff split: if_splits)
qed

text \<open>The walk over tenants asks for each served tenant once, and skips those that do not resolve.\<close>

lemma eachTenantLoop_keeps:
  assumes "\<And>ns. keeps P (forNS ns)" and "\<And>r. keeps P (fn r)"
  shows "keeps P (eachTenantLoop nssOf forNS fn ts)"
proof (induction ts)
  case (Cons t ts)
  show ?case
  proof (cases "nssOf t")
    case (Cons ns nss)
    show ?thesis
    proof (rule keepsI)
      fix s assume "P s"
      obtain q s1 where q: "forNS ns s = (q, s1)" by (metis surj_pair)
      with keepsD [OF assms(1) \<open>P s\<close>, of ns] have s1: "P s1" by simp
      then show "P (snd (eachTenantLoop nssOf forNS fn (t # ts) s))"
        using keepsD [OF Cons.IH s1] keepsD [OF keeps_bind_a [OF assms(2) Cons.IH] s1]
        by (cases q) (simp_all add: Cons q)
    qed
  qed (simp add: Cons.IH)
qed simp

section \<open>What is fixed too early\<close>

text \<open>
  The binding of a tenant is read once. Where its Secret had no VIP subnet then, every later call for one of its
  Services is refused, whatever has been annotated since; and where it had no network, so is every pod.
\<close>

theorem late_annotation_unseen:
  assumes "TenantOf n ns = Some t" and "t \<noteq> []" and "built st t = Some b" and "mt_service m = Some tpl" and "cache t = None"
    and "bd_vipSubnetID b = []" and "bd_networkID b = []"
  shows "isl (fst (serviceFor K m flip n ns ((w, st), cache))) \<and> snd (serviceFor K m flip n ns ((w, st), cache)) = ((w, st), cache) \<and>
    isl (fst (networkIDFor m flip n ns (w, st))) \<and> snd (networkIDFor m flip n ns (w, st)) = (w, st)"
proof -
  have bd: "mt_binding m flip n ns (w, st) = (Inr (t, b), (w, st))"
    using assms by (simp add: mt_binding_def resolver_at_def BindingFor_def bind_a_def ret_def)
  have "\<exists>e. buildService K tpl t b = Inl e"
    using assms(6) by (cases "mk_octavia K (bd_session b)"; cases "mk_network K (bd_session b)"; cases "mk_capsules K (bd_session b)") (auto simp: buildService_def)
  with bd assms show ?thesis
    by (auto simp: serviceFor_def factory_def networkIDFor_def bind_a_def lift_w_def fail_def)
qed

text \<open>
  The groups every pod carries are looked up once per copy, when the controller starts. The template is not among the copies, yet
  it is what the provider asks (\<open>UsePolicies\<close>): it never learns them, so where policies are enforced for several tenants no
  pod can be created, unless a capsule of it is there to be adopted.
\<close>

lemma for_each_others:
  assumes "i \<notin> set is"
  shows "keeps (\<lambda>st. snd st i = x) (for_each (\<lambda>j. on_rec j (f j)) is)"
  using assms by (intro keeps_for_each) (auto simp: keeps_def on_rec_def split: prod.splits)

theorem template_never_prepared:
  assumes "c_each C = Some is" and "None \<notin> set is" and "ss None = rec_init" and "Run_prepare C True (w, ss) = (q, (w', ss'))"
    and "CreatePod cfg S (preparing cfg' N (UsePolicies port (Some (R, ss' None))) spec marshal) now pod (s, p) = (Inr (), (s', p'))"
  shows "ss' None = rec_init \<and> p' = adoptPod now pod p"
proof -
  have "Run_prepare C True = wrap_err ''preparing the baseline security groups'' (for_each (\<lambda>i. on_rec i (EnsureBaselineIDs (c_recs C i))) is)"
    using assms(1) by (simp add: Run_prepare_def eachReconciler_def)
  then have "keeps (\<lambda>st. snd st None = rec_init) (Run_prepare C True)"
    using keeps_wrap_err [OF for_each_others [OF assms(2)]] by simp
  from keepsD [OF this, of "(w, ss)"] assms(3,4) have init: "ss' None = rec_init" by simp
  moreover have "p' = adoptPod now pod p"
  proof (rule ccontr)
    assume "p' \<noteq> adoptPod now pod p"
    with assms(5) show False
    proof (rule CreatePod_built)
      fix s1 s2 tpl
      assume "buildFor cfg (preparing cfg' N (UsePolicies port (Some (R, ss' None))) spec marshal) pod s1 = (Inr tpl, s2)"
      then show False
        by (rule buildFor_parts) (auto simp: UsePolicies_def securityGroupsFor_def GroupsFor_def init rec_init_def)
    qed
  qed
  ultimately show ?thesis by simp
qed

text \<open>A tenant served only after the start gets a copy of that template, and its groups are never looked up either.\<close>

theorem late_tenant_unprepared:
  assumes "mt_netpol m = Some tpl" and "fst x t = None" and "TenantOf n ns = Some t" and "snd x None = rec_init"
    and "netpolFor K m flip n ns (v, x) = (Inr r, (v', x'))"
  shows "snd x' (Some t) = rec_init \<and> isl (GroupsFor r (snd x' (Some t)) pod)"
  using assms
  by (auto simp: netpolFor_def factory_def put_netpol_def GroupsFor_def rec_init_def mt_binding_def fail_def ret_def
      split: option.splits sum.splits if_splits elim!: bind_aE lift_wE)

section \<open>Samples\<close>

definition two_served :: namespaces where
  "two_served = \<lparr>n_tenantLabel = ''tenant'', n_current = DAList.update ''p1'' ''t1'' (DAList.update ''q1'' ''t2'' DAList.empty)\<rparr>"

definition sample_tenants :: "'v multiTenant" where
  "sample_tenants = newMultiTenant
     \<lparr>sec_Get = (\<lambda>name. ret \<lparr>sec_name = name, sec_data = [], sec_annotations = [(ProjectAnnotation, ''p''), (RegionAnnotation, ''r''), (VIPSubnetIDAnnotation, ''vip-'' @ name)]\<rparr>),
      sec_Patch = (\<lambda>_ _. ret ())\<rparr> (\<lambda>_. ret \<lparr>ses_project = ''p'', ses_region = ''r''\<rparr>)"

definition sample_makers :: "'v octavia_api result \<Rightarrow> 'v fip_api result \<Rightarrow> 'v neutron_api result \<Rightarrow> ('v, unit) client_makers" where
  "sample_makers oct fip net =
     \<lparr>mk_block = (\<lambda>_. Inl ErrNotFound), mk_shared = (\<lambda>_. Inl ErrNotFound), mk_octavia = (\<lambda>_. oct), mk_network = (\<lambda>_. fip), mk_keys = (\<lambda>_. Inl ErrNotFound),
      mk_netpol = (\<lambda>_. net), mk_capsules = (\<lambda>_. Inr ()), capsule_extend = (\<lambda>_ _ _ _. ret ()), capsule_subnets = (\<lambda>_ _ _. ret ''s1'')\<rparr>"

lemma sample_binding:
  "mt_binding (sample_tenants\<lparr>mt_service := a, mt_netpol := c\<rparr>) False two_served ''p1'' (w, res_init) =
     (Inr (''t1'', \<lparr>bd_session = \<lparr>ses_project = ''p'', ses_region = ''r''\<rparr>, bd_networkID = [], bd_vipSubnetID = ''vip-t1'', bd_vipNetworkID = []\<rparr>),
      (w, res_init\<lparr>built := [''t1'' \<mapsto> \<lparr>bd_session = \<lparr>ses_project = ''p'', ses_region = ''r''\<rparr>, bd_networkID = [], bd_vipSubnetID = ''vip-t1'', bd_vipNetworkID = []\<rparr>]\<rparr>))"
  by (simp add: mt_binding_def TenantOf_def two_served_def lookup_update resolver_at_def sample_tenants_def newMultiTenant_def BindingFor_def res_init_def
      connect_def getSecret_def secretName_def lift_w_def bind_a_def wrap_err_def ret_def checkBinding_def wantOf_def label_of_def bindingOf_def
      storeBinding_def ProjectAnnotation_def RegionAnnotation_def VIPSubnetIDAnnotation_def NetworkIDAnnotation_def VIPNetworkIDAnnotation_def Let_def)

definition sample_serving :: "(omem \<times> nat \<times> nat) service_rec result \<times> (((omem \<times> nat \<times> nat) \<times> res_state) \<times> (string \<rightharpoonup> (namespaces \<Rightarrow> (omem \<times> nat \<times> nat) service_rec)))" where
  "sample_serving =
     serviceFor (sample_makers (Inr sample_octavia2) (Inr (the (rc_neutron Service_Reconciler.sample_rec))) (Inl ErrNotFound))
       (sample_tenants\<lparr>mt_service := Some Service_Reconciler.sample_rec, mt_netpol := None\<rparr>) False two_served ''p1'' ((sample_world, res_init), Map.empty)"

theorem services_of_own_tenant_witness:
  "\<exists>r f. fst sample_serving = Inr r \<and> rc_tenant r = ''t1'' \<and> rc_vipSubnet r = ''vip-t1'' \<and> rc_serves r = Some f \<and> f ''p1'' \<and> \<not> f ''q1''"
proof -
  have two: "TenantOf two_served ''p1'' = Some ''t1''" "TenantOf two_served ''q1'' = Some ''t2''"
    by (simp_all add: TenantOf_def two_served_def lookup_update)
  obtain r s' where run: "sample_serving = (Inr r, s')" and vip: "rc_vipSubnet r = ''vip-t1''"
    by (simp add: sample_serving_def serviceFor_def factory_def bind_a_def lift_w_def sample_binding buildService_def sample_makers_def)
  from services_of_own_tenant [OF _ reached.start run [unfolded sample_serving_def]] two
  obtain f where "rc_tenant r = ''t1''" "rc_serves r = Some f" "\<forall>ns. f ns \<longleftrightarrow> TenantOf two_served ns = Some ''t1''" by auto
  with vip two have "rc_tenant r = ''t1'' \<and> rc_vipSubnet r = ''vip-t1'' \<and> rc_serves r = Some f \<and> f ''p1'' \<and> \<not> f ''q1''" by simp
  then show ?thesis unfolding run fst_conv by blast
qed

definition sample_policing :: "mem reconciler result \<times> ((mem \<times> res_state) \<times> mem netpols)" where
  "sample_policing =
     netpolFor (sample_makers (Inl ErrNotFound) (Inl ErrNotFound) (Inr (mem_api False)))
       (sample_tenants\<lparr>mt_service := None, mt_netpol := Some Netpol_Reconciler.sample_rec\<rparr>) False two_served ''p1''
       ((sample_ports, res_init), (Map.empty, \<lambda>_. rec_init))"

theorem peers_of_own_tenant_witness:
  "\<exists>r. fst sample_policing = Inr r \<and> namespacesMatching r \<lparr>psel_namespace = ''q1'', psel_namespaces = None, psel_pods = None\<rparr> = Inr []"
proof -
  obtain r s' where run: "sample_policing = (Inr r, s')"
    by (simp add: sample_policing_def netpolFor_def factory_def bind_a_def lift_w_def sample_binding buildNetpol_def sample_makers_def)
  have two: "TenantOf two_served ''p1'' = Some ''t1''" "TenantOf two_served ''q1'' = Some ''t2''"
    by (simp_all add: TenantOf_def two_served_def lookup_update)
  from peers_of_own_tenant [OF _ reached.start run [unfolded sample_policing_def]]
  have "\<forall>sel nss. namespacesMatching r sel = Inr nss \<longrightarrow> (\<forall>ns \<in> set nss. TenantOf two_served ns = Some ''t1'')"
    using two by auto
  then have "\<forall>nss. namespacesMatching r \<lparr>psel_namespace = ''q1'', psel_namespaces = None, psel_pods = None\<rparr> = Inr nss \<longrightarrow>
      (\<forall>ns \<in> set nss. TenantOf two_served ns = Some ''t1'')" by blast
  with two have "namespacesMatching r \<lparr>psel_namespace = ''q1'', psel_namespaces = None, psel_pods = None\<rparr> = Inr []"
    by (cases "r_serves r ''q1''") (simp_all add: namespacesMatching_def)
  then show ?thesis unfolding run fst_conv by blast
qed

end
