(* ===== verification/Vk_Set.thy ===== *)
theory Vk_Set
  imports Vk_Scoped Tenant_Resolver "HOL-Library.Sublist"
begin

text \<open>
  \<^verbatim>\<open>pkg/vknode/vknode.go\<close>, \<^verbatim>\<open>listers.go\<close>, \<^verbatim>\<open>objects.go\<close> and \<^verbatim>\<open>certs.go\<close>: the virtual nodes of a process. The set they
  share says which namespaces are served, a node is added once everything it needs is given, and
  runs as a machine that waits for its controllers one after the other. The controllers of virtual-kubelet, the
  informers and the listener are outside: what they report are the events of the machine. A serving certificate is
  read again and again, Secrets and ConfigMaps are read from the API server.
\<close>

section \<open>The set\<close>

text \<open>A node as it is registered: what its kubelet API needs, and the workers of its pod controller.\<close>

record set_node =
  sn_name :: string
  sn_tls :: bool
  sn_auth :: bool
  sn_listen :: string
  sn_workers :: int

text \<open>\<open>vs_podsByNode\<close> are the names pod informers were made for, in the order of the factories.\<close>

record vk_set =
  vs_watched :: bool
  vs_fixed :: "string list"
  vs_resync :: time
  vs_workers :: int
  vs_lease :: int
  vs_podsByNode :: "string list"
  vs_nodes :: "set_node list"

record set_options =
  op_client :: bool
  op_namespaces :: "string list"
  op_watched :: bool
  op_resync :: time
  op_workers :: int
  op_lease :: int

definition NewSet :: "set_options \<Rightarrow> vk_set result" where
  "NewSet opts =
     (if \<not> op_client opts then Inl (ErrText ''a Kubernetes client is required'')
      else if op_namespaces opts = [] \<and> \<not> op_watched opts then Inl (ErrText ''a namespace list or a namespace watcher is required'')
      else Inr \<lparr>vs_watched = op_watched opts, vs_fixed = op_namespaces opts,
                vs_resync = (if op_resync opts = 0 then minute else op_resync opts),
                vs_workers = (if op_workers opts \<le> 0 then 1 else op_workers opts), vs_lease = op_lease opts,
                vs_podsByNode = [], vs_nodes = []\<rparr>)"

text \<open>\<open>n\<close> is the watcher as it is at the time of the call.\<close>

definition servedNamespaces :: "vk_set \<Rightarrow> namespaces \<Rightarrow> string list" where
  "servedNamespaces s n = (if vs_watched s then ns_List n else vs_fixed s)"

definition set_Serves :: "vk_set \<Rightarrow> namespaces \<Rightarrow> string \<Rightarrow> bool" where
  "set_Serves s n namespace = (if \<not> vs_watched s then list_ex (\<lambda>x. x = namespace) (vs_fixed s) else Serves n namespace)"

definition PodsForNode :: "string \<Rightarrow> vk_set \<Rightarrow> vk_set" where
  "PodsForNode name s = (if name \<in> set (vs_podsByNode s) then s else s\<lparr>vs_podsByNode := vs_podsByNode s @ [name]\<rparr>)"

text \<open>The informer of a node asks the API server for the pods of that node, and the event filter asks again.\<close>

definition podEventFilter :: "string \<Rightarrow> string \<Rightarrow> bool" where
  "podEventFilter name podNodeName = (podNodeName = name)"

record set_node_options =
  sno_name :: "string option"
  sno_provider :: bool
  sno_nodeProvider :: bool
  sno_listen :: string
  sno_tls :: bool
  sno_auth :: bool

text \<open>The conversion to 32 bits keeps the low ones; \<open>dflt\<close> is virtual-kubelet's own duration.\<close>

definition to_int32 :: "int \<Rightarrow> int" where
  "to_int32 x = (x + 2 ^ 31) mod 2 ^ 32 - 2 ^ 31"

definition leaseSeconds :: "int \<Rightarrow> vk_set \<Rightarrow> int" where
  "leaseSeconds dflt s = (let secs = to_int32 (vs_lease s) in if secs \<le> 0 then dflt else secs)"

text \<open>The constructors of the two controllers, given the lease and the name, may refuse.\<close>

definition AddNode ::
  "int \<Rightarrow> (string \<Rightarrow> int \<Rightarrow> unit result) \<Rightarrow> (string \<Rightarrow> unit result) \<Rightarrow> set_node_options \<Rightarrow> vk_set \<Rightarrow> set_node result \<times> vk_set" where
  "AddNode dflt newNode newPods opts s =
     (case sno_name opts of
        None \<Rightarrow> (Inl (ErrText ''a node spec with a name is required''), s)
      | Some name \<Rightarrow>
          if name = [] then (Inl (ErrText ''a node spec with a name is required''), s)
          else if \<not> sno_provider opts then (Inl (ErrText (''node '' @ name @ '': a provider is required'')), s)
          else if \<not> sno_nodeProvider opts then (Inl (ErrText (''node '' @ name @ '': a node provider is required'')), s)
          else (case newNode name (leaseSeconds dflt s) of
            Inl e \<Rightarrow> (Inl (ErrWrap (''node '' @ name @ '': node controller'') e), s)
          | Inr _ \<Rightarrow>
              (let s1 = PodsForNode name s in
               case newPods name of
                 Inl e \<Rightarrow> (Inl (ErrWrap (''node '' @ name @ '': pod controller'') e), s1)
               | Inr _ \<Rightarrow>
                   (let nd = \<lparr>sn_name = name, sn_tls = sno_tls opts, sn_auth = sno_auth opts, sn_listen = sno_listen opts, sn_workers = vs_workers s\<rparr>
                    in (Inr nd, s1\<lparr>vs_nodes := vs_nodes s1 @ [nd]\<rparr>)))))"

section \<open>The kubelet API of a node\<close>

text \<open>\<open>Inr False\<close>: nothing is served. \<open>listen\<close> is the outcome of binding the address.\<close>

definition runHTTP :: "(string \<Rightarrow> unit result) \<Rightarrow> set_node \<Rightarrow> bool result" where
  "runHTTP listen nd =
     (if \<not> sn_tls nd then Inr False
      else if \<not> sn_auth nd
      then Inl (ErrText (''node '' @ sn_name nd @ '': TLS is configured but no authorizer; refusing to serve the kubelet API, which would expose logs and exec to any caller''))
      else case listen (sn_listen nd) of
        Inl e \<Rightarrow> Inl (ErrWrap (''node '' @ sn_name nd @ '': kubelet API listener'') e)
      | Inr _ \<Rightarrow> Inr True)"

section \<open>The life of a node\<close>

text \<open>
  What a node waits for: its context ending, a controller becoming ready, a controller ending. In each state only some of these
  are waited for, and the others have no effect; \<open>Stopped\<close> closes \<^verbatim>\<open>done\<close>, entering \<open>Running\<close> closes \<^verbatim>\<open>ready\<close>.
\<close>

datatype node_event = CtxDone err | PodsReady | PodsDone "err option" | NodeReady | NodeDone "err option"

datatype node_phase = AwaitPods | AwaitNode | Running | Stopped "err option"

fun node_step :: "node_phase \<Rightarrow> node_event \<Rightarrow> node_phase" where
  "node_step AwaitPods (CtxDone e) = Stopped (Some e)"
| "node_step AwaitPods PodsReady = AwaitNode"
| "node_step AwaitPods (PodsDone e) = Stopped e"
| "node_step AwaitNode (CtxDone e) = Stopped (Some e)"
| "node_step AwaitNode NodeReady = Running"
| "node_step AwaitNode (NodeDone e) = Stopped e"
| "node_step Running (NodeDone e) = Stopped e"
| "node_step Running (PodsDone e) = Stopped e"
| "node_step p _ = p"

definition node_start :: "(string \<Rightarrow> unit result) \<Rightarrow> set_node \<Rightarrow> node_phase" where
  "node_start listen nd = (case runHTTP listen nd of Inl e \<Rightarrow> Stopped (Some e) | Inr _ \<Rightarrow> AwaitPods)"

text \<open>A run with the phases it went through, the first one included.\<close>

fun node_trace :: "node_phase \<Rightarrow> node_event list \<Rightarrow> node_phase list" where
  "node_trace p [] = [p]"
| "node_trace p (ev # evs) = p # node_trace (node_step p ev) evs"

text \<open>\<^verbatim>\<open>WaitReady\<close> takes the nodes in turn; for each it learns that it is ready, that it ended, or that its own context did.\<close>

datatype readiness = IsReady | IsDone "err option" | IsCancelled err

definition show_err :: "err option \<Rightarrow> err" where
  "show_err e = (case e of None \<Rightarrow> ErrText ''%!w(<nil>)'' | Some x \<Rightarrow> x)"

fun WaitReady :: "(string \<Rightarrow> readiness) \<Rightarrow> string list \<Rightarrow> unit result" where
  "WaitReady obs [] = Inr ()"
| "WaitReady obs (name # names) =
     (case obs name of
        IsReady \<Rightarrow> WaitReady obs names
      | IsDone e \<Rightarrow> Inl (ErrWrap (''node '' @ name @ '' stopped before becoming ready'') (show_err e))
      | IsCancelled e \<Rightarrow> Inl e)"

text \<open>\<^verbatim>\<open>Set.Run\<close>: refused without nodes, else it ends with the first node that does or with its context.\<close>

datatype set_end = EndCtx err | EndNode string "err option"

definition set_Run :: "vk_set \<Rightarrow> set_end list \<Rightarrow> err option" where
  "set_Run s ends =
     (if vs_nodes s = [] then Some (ErrText ''no nodes were registered'')
      else case ends of
        [] \<Rightarrow> None
      | EndCtx e # _ \<Rightarrow> Some e
      | EndNode _ e # _ \<Rightarrow> e)"

section \<open>The serving certificate\<close>

definition cert_reload :: "string \<Rightarrow> 'c result \<Rightarrow> 'c option \<Rightarrow> unit result \<times> 'c option" where
  "cert_reload certPath loaded current =
     (case loaded of
        Inl e \<Rightarrow> (Inl (ErrWrap (''load serving certificate '' @ certPath) e), current)
      | Inr cert \<Rightarrow> (Inr (), Some cert))"

definition NewCertReloader :: "string \<Rightarrow> 'c result \<Rightarrow> 'c option result" where
  "NewCertReloader certPath loaded =
     (case cert_reload certPath loaded None of (Inl e, _) \<Rightarrow> Inl e | (Inr _, current) \<Rightarrow> Inr current)"

definition GetCertificate :: "'c option \<Rightarrow> 'c option" where
  "GetCertificate current = current"

text \<open>One tick after the other; a failed read changes nothing.\<close>

fun cert_Run :: "string \<Rightarrow> 'c result list \<Rightarrow> 'c option \<Rightarrow> 'c option" where
  "cert_Run certPath [] current = current"
| "cert_Run certPath (l # ls) current = cert_Run certPath ls (snd (cert_reload certPath l current))"

section \<open>Objects read on demand\<close>

text \<open>
  The API server: one object by namespace and name, or those of a namespace that a selector matches. The lister is what the pod controller is
  given for Secrets and for ConfigMaps.
\<close>

record ('w, 'o) object_api =
  oa_Get :: "string \<Rightarrow> string \<Rightarrow> ('w, 'o) act"
  oa_List :: "string \<Rightarrow> string \<Rightarrow> ('w, 'o list) act"

definition apiGet :: "('w, 'o) object_api \<Rightarrow> string \<Rightarrow> string \<Rightarrow> ('w, 'o) act" where
  "apiGet A namespace name = oa_Get A namespace name"

definition apiListIn :: "('w, 'o) object_api \<Rightarrow> string \<Rightarrow> selector \<Rightarrow> ('w, 'o list) act" where
  "apiListIn A namespace sel = oa_List A namespace (sel_string sel)"

definition listTurn :: "('w, 'o) object_api \<Rightarrow> selector \<Rightarrow> 'o list \<Rightarrow> string \<Rightarrow> ('w, 'o list) act" where
  "listTurn A sel out ns = bind_a (apiListIn A ns sel) (\<lambda>got. ret (out @ got))"

definition apiList :: "('w, 'o) object_api \<Rightarrow> string list \<Rightarrow> selector \<Rightarrow> ('w, 'o list) act" where
  "apiList A served sel = fold_act (listTurn A sel) [] served"

section \<open>Lemmas\<close>

lemma serves_iff_listed: "set_Serves s n ns \<longleftrightarrow> ns \<in> set (servedNamespaces s n)"
  by (auto simp: set_Serves_def servedNamespaces_def set_ns_List list_ex_iff)

text \<open>Every node of a set has a pod informer of its own, each name has one.\<close>

definition set_ok :: "vk_set \<Rightarrow> bool" where
  "set_ok s \<longleftrightarrow> distinct (vs_podsByNode s) \<and> sn_name ` set (vs_nodes s) \<subseteq> set (vs_podsByNode s) \<and>
     (\<forall>nd \<in> set (vs_nodes s). sn_name nd \<noteq> []) \<and> vs_workers s > 0 \<and> (vs_watched s \<or> vs_fixed s \<noteq> [])"

lemma NewSet_ok: "NewSet opts = Inr s \<Longrightarrow> set_ok s"
  by (auto simp: NewSet_def set_ok_def split: if_splits)

lemma PodsForNode_ok: "set_ok s \<Longrightarrow> set_ok (PodsForNode name s)"
  by (auto simp: PodsForNode_def set_ok_def)

lemma AddNode_ok: "set_ok s \<Longrightarrow> set_ok (snd (AddNode dflt newNode newPods opts s))"
  using PodsForNode_ok [of s]
  by (auto simp: AddNode_def set_ok_def PodsForNode_def Let_def split: option.splits sum.splits)

lemma node_step_Stopped [simp]: "node_step (Stopped e) ev = Stopped e"
  by (cases ev) simp_all

lemma node_trace_Stopped: "Running \<in> set (node_trace (Stopped e) evs) \<Longrightarrow> False"
  by (induction evs) auto

lemma node_trace_AwaitNode: "Running \<in> set (node_trace AwaitNode evs) \<Longrightarrow> subseq [NodeReady] evs"
proof (induction evs)
  case (Cons ev evs)
  then show ?case by (cases ev) (auto dest: node_trace_Stopped)
qed simp

lemma node_trace_AwaitPods: "Running \<in> set (node_trace AwaitPods evs) \<Longrightarrow> subseq [PodsReady, NodeReady] evs"
proof (induction evs)
  case (Cons ev evs)
  then show ?case by (cases ev) (auto dest: node_trace_Stopped node_trace_AwaitNode)
qed simp

lemma WaitReady_iff: "WaitReady obs names = Inr () \<longleftrightarrow> (\<forall>name \<in> set names. obs name = IsReady)"
  by (induction names) (auto split: readiness.splits)

lemma apiList_served:
  assumes "apiList A served sel w = (Inr out, w')"
  shows "\<exists>parts. out = concat parts \<and> list_all2 (\<lambda>ns got. \<exists>v v'. oa_List A ns (sel_string sel) v = (Inr got, v')) served parts"
proof -
  have "fold_act (listTurn A sel) out0 served w = (Inr out, w') \<Longrightarrow>
      \<exists>parts. out = out0 @ concat parts \<and> list_all2 (\<lambda>ns got. \<exists>v v'. oa_List A ns (sel_string sel) v = (Inr got, v')) served parts" for out0
  proof (induction served arbitrary: out0 w)
    case (Cons ns served)
    then obtain out1 w1 where "listTurn A sel out0 ns w = (Inr out1, w1)" and rest: "fold_act (listTurn A sel) out1 served w1 = (Inr out, w')"
      by (auto simp: bind_a_Inr_iff)
    then obtain got where got: "oa_List A ns (sel_string sel) w = (Inr got, w1)" "out1 = out0 @ got"
      by (auto simp: listTurn_def bind_a_Inr_iff apiListIn_def ret_def)
    from Cons.IH [OF rest] obtain parts where "out = out1 @ concat parts"
        "list_all2 (\<lambda>ns got. \<exists>v v'. oa_List A ns (sel_string sel) v = (Inr got, v')) served parts" by blast
    with got show ?case by (intro exI [of _ "got # parts"]) auto
  qed (simp add: ret_def)
  from this [of "[]"] assms show ?thesis by (simp add: apiList_def)
qed

section \<open>Properties\<close>

text \<open>
  C38. A node is announced only once it can do its work: whatever happens to it in whatever order, it becomes ready only after its pod
  controller and then its node controller reported ready, and its kubelet API is served only where callers are authenticated and
  the address was bound.
\<close>

theorem ready_after_controllers:
  assumes "Running \<in> set (node_trace (node_start listen nd) evs)"
  shows "subseq [PodsReady, NodeReady] evs \<and>
    (runHTTP listen nd = Inr False \<and> \<not> sn_tls nd \<or> runHTTP listen nd = Inr True \<and> sn_auth nd \<and> listen (sn_listen nd) = Inr ())"
proof -
  from assms have ok: "node_start listen nd = AwaitPods"
    using node_trace_Stopped by (fastforce simp: node_start_def split: sum.splits)
  with assms have "subseq [PodsReady, NodeReady] evs" using node_trace_AwaitPods by simp
  with ok show ?thesis by (auto simp: node_start_def runHTTP_def split: sum.splits if_splits)
qed

text \<open>
  A renewed certificate is served from the next handshake on and a broken file never takes the API down: after any
  sequence of reads the certificate handed out is that of the last read that succeeded, and there is one from the start.
\<close>

theorem last_good_certificate:
  assumes "NewCertReloader certPath first = Inr current"
  shows "\<exists>cert. GetCertificate (cert_Run certPath reads current) = Some cert \<and>
    (\<exists>before after. first # reads = before @ Inr cert # after \<and> (\<forall>l \<in> set after. isl l))"
proof (induction reads rule: rev_induct)
  case Nil
  from assms show ?case
    by (cases first) (auto simp: NewCertReloader_def cert_reload_def GetCertificate_def intro!: exI [of _ "[]"])
next
  case (snoc l reads)
  then obtain cert before after where ih: "cert_Run certPath reads current = Some cert" "first # reads = before @ Inr cert # after"
      "\<forall>l \<in> set after. isl l" by (auto simp: GetCertificate_def)
  have run: "cert_Run certPath (reads @ [l]) current = snd (cert_reload certPath l (cert_Run certPath reads current))"
    by (induction reads arbitrary: current) simp_all
  show ?case
  proof (cases l)
    case (Inl e)
    with ih run have "GetCertificate (cert_Run certPath (reads @ [l]) current) = Some cert" by (simp add: cert_reload_def GetCertificate_def)
    moreover from ih(2) have "first # reads @ [l] = before @ Inr cert # (after @ [l])" by (metis append.assoc append_Cons)
    moreover from ih(3) Inl have "\<forall>l \<in> set (after @ [l]). isl l" by simp
    ultimately show ?thesis by blast
  next
    case (Inr c)
    with run have "GetCertificate (cert_Run certPath (reads @ [l]) current) = Some c" by (simp add: cert_reload_def GetCertificate_def)
    moreover from Inr have "first # reads @ [l] = (first # reads) @ Inr c # []" by simp
    ultimately show ?thesis by (metis empty_iff list.set(1))
  qed
qed

definition sample_set_node :: set_node where
  "sample_set_node = \<lparr>sn_name = ''n1'', sn_tls = True, sn_auth = True, sn_listen = '':10250'', sn_workers = 4\<rparr>"

theorem ready_after_controllers_witness:
  "node_trace (node_start (\<lambda>_. Inr ()) sample_set_node) [NodeReady, PodsReady, NodeReady, PodsDone None] = [AwaitPods, AwaitPods, AwaitNode, Running, Stopped None] \<and>
   runHTTP (\<lambda>_. Inr ()) sample_set_node = Inr True"
proof -
  have trace: "node_trace (node_start (\<lambda>_. Inr ()) sample_set_node) [NodeReady, PodsReady, NodeReady, PodsDone None] = [AwaitPods, AwaitPods, AwaitNode, Running, Stopped None]"
    by (simp add: node_start_def runHTTP_def sample_set_node_def)
  then have "Running \<in> set (node_trace (node_start (\<lambda>_. Inr ()) sample_set_node) [NodeReady, PodsReady, NodeReady, PodsDone None])" by simp
  from ready_after_controllers [OF this] trace show ?thesis by (auto simp: sample_set_node_def)
qed

theorem last_good_certificate_witness:
  "GetCertificate (cert_Run ''tls.crt'' [Inr 2, Inl ErrNotFound] (Some (1 :: nat))) = Some 2"
proof -
  have "NewCertReloader ''tls.crt'' (Inr (1 :: nat)) = Inr (Some 1)" by (simp add: NewCertReloader_def cert_reload_def)
  from last_good_certificate [OF this, of "[Inr 2, Inl ErrNotFound]"] show ?thesis
    by (auto simp: Cons_eq_append_conv)
qed

end
