(* ===== verification/Tenant_Session.thy ===== *)
theory Tenant_Session
  imports Tenant_Resolver
begin

text \<open>
  \<^verbatim>\<open>pkg/tenant/session.go\<close>: the credential of a process and the session a credential turns into. Keystone is a parameter; what it
  answers is whether the token is of the identity version that names its project, and which.
\<close>

definition env_required :: "string \<Rightarrow> string \<Rightarrow> err" where
  "env_required what why = ErrText (what @ '' is required'' @ why)"

definition CredentialsFromEnv :: "(string \<Rightarrow> string) \<Rightarrow> credentials result" where
  "CredentialsFromEnv getenv =
     (let c = \<lparr>cr_authURL = getenv ''OS_AUTH_URL'', cr_appCredID = getenv ''OS_APPLICATION_CREDENTIAL_ID'',
               cr_appCredName = getenv ''OS_APPLICATION_CREDENTIAL_NAME'', cr_appCredSecret = getenv ''OS_APPLICATION_CREDENTIAL_SECRET'',
               cr_username = getenv ''OS_USERNAME'', cr_userDomain = getenv ''OS_USER_DOMAIN_NAME'', cr_region = getenv ''OS_REGION_NAME''\<rparr> in
      if cr_authURL c = [] then Inl (env_required ''OS_AUTH_URL'' [])
      else if cr_appCredSecret c = [] then
        Inl (env_required ''OS_APPLICATION_CREDENTIAL_SECRET'' '': this provider authenticates with an application credential, not a password'')
      else if cr_appCredID c = [] \<and> cr_appCredName c = [] then
        Inl (env_required ''either OS_APPLICATION_CREDENTIAL_ID or OS_APPLICATION_CREDENTIAL_NAME'' [])
      else Inr (if cr_region c = [] then c\<lparr>cr_region := ''RegionOne''\<rparr> else c))"

record auth_options =
  ao_endpoint :: string
  ao_credID :: string
  ao_credName :: string
  ao_credSecret :: string
  ao_username :: string
  ao_allowReauth :: bool
  ao_domainName :: string

text \<open>\<open>OtherAuth\<close> is an answer of another identity version; a token's project is read, and may be missing.\<close>

datatype auth_result = OtherAuth | TokenAuth "string option result"

fun projectOf :: "auth_result \<Rightarrow> string result" where
  "projectOf OtherAuth = Inr []"
| "projectOf (TokenAuth (Inl e)) = Inl (ErrWrap ''reading the project this credential authenticates as'' e)"
| "projectOf (TokenAuth (Inr None)) = Inl (ErrText ''this credential is not scoped to a project'')"
| "projectOf (TokenAuth (Inr (Some project))) = Inr project"

definition authOptions :: "credentials \<Rightarrow> auth_options" where
  "authOptions creds =
     \<lparr>ao_endpoint = cr_authURL creds, ao_credID = cr_appCredID creds, ao_credName = cr_appCredName creds, ao_credSecret = cr_appCredSecret creds,
      ao_username = cr_username creds, ao_allowReauth = True, ao_domainName = cr_userDomain creds\<rparr>"

definition NewSession :: "(auth_options \<Rightarrow> ('w, auth_result) act) \<Rightarrow> credentials \<Rightarrow> ('w, session) act" where
  "NewSession authenticate creds =
     bind_a (wrap_err (''authenticate against '' @ cr_authURL creds) (authenticate (authOptions creds))) (\<lambda>pc.
     bind_a (lift_r (projectOf pc)) (\<lambda>project. ret \<lparr>ses_project = project, ses_region = cr_region creds\<rparr>))"

section \<open>Properties\<close>

text \<open>A session knows its project from the token alone, and an unscoped token is refused.\<close>

lemma NewSession_project:
  assumes "NewSession authenticate creds w = (Inr ses, w')"
  shows "ses_region ses = cr_region creds \<and>
    (\<exists>pc. authenticate (authOptions creds) w = (Inr pc, w') \<and> (pc = OtherAuth \<and> ses_project ses = [] \<or> pc = TokenAuth (Inr (Some (ses_project ses)))))"
proof -
  from assms obtain pc project where pc: "authenticate (authOptions creds) w = (Inr pc, w')" "projectOf pc = Inr project"
      "ses = \<lparr>ses_project = project, ses_region = cr_region creds\<rparr>"
    by (auto simp: NewSession_def act_simps)
  from pc(2) have "pc = OtherAuth \<and> project = [] \<or> pc = TokenAuth (Inr (Some project))"
    by (cases pc rule: projectOf.cases) auto
  with pc show ?thesis by auto
qed

text \<open>
  The names of a credential are those of the environment, said to work in both places; yet what is left out is filled in only in the
  environment: a Secret without a region gives a session without one, against which no recorded region is compared.
\<close>

theorem region_default_differs:
  assumes "getenv = label_of (sec_data s)" and "getenv ''OS_REGION_NAME'' = []" and "CredentialsFromEnv getenv = Inr c"
  shows "cr_region c = ''RegionOne'' \<and> cr_region (credentialsFrom s) = [] \<and>
    (\<forall>project. checkLoop tenant s (wantOf flip \<lparr>ses_project = project, ses_region = []\<rparr>) =
       checkLoop tenant s ([(ProjectAnnotation, project)]) \<or> label_of (sec_annotations s) RegionAnnotation = [])"
  using assms by (auto simp: CredentialsFromEnv_def credentialsFrom_def wantOf_def Let_def split: if_splits)

end
