(* ===== verification/Vk_Main.thy ===== *)
theory Vk_Main
  imports Vk_Tenants Vk_Set Tenant_Session Node_Health
begin

text \<open>
  \<^verbatim>\<open>cmd/virtual-kubelet/nodespec.go\<close> and \<^verbatim>\<open>main.go\<close>: the flags of the process, the nodes they name, and what the process is put together
  from. Starting up is modelled as the decisions it takes: which flags are refused, in which order and with which
  error, and which controllers run; what the clients and files answer at startup are the fields of a record. Log lines are not.
\<close>

section \<open>Nodes on the command line\<close>

record nodeSpec =
  ns_node :: string
  ns_arch :: string
  ns_zone :: string
  ns_zunAZ :: string
  ns_listen :: string

definition bad_field :: "string \<Rightarrow> string \<Rightarrow> err" where
  "bad_field s field = ErrText (''node spec '' @ quote_str s @ '': field '' @ quote_str field @ '' is not key=value'')"

definition unknown_field :: "string \<Rightarrow> string \<Rightarrow> err" where
  "unknown_field s key =
     ErrText (''node spec '' @ quote_str s @ '': unknown field '' @ quote_str key @ ''; want name, arch, zone, zun-az or listen'')"

definition setField :: "string \<Rightarrow> string \<Rightarrow> string \<Rightarrow> nodeSpec \<Rightarrow> nodeSpec result" where
  "setField s key v out =
     (if key = ''name'' then Inr (out\<lparr>ns_node := v\<rparr>)
      else if key = ''arch'' then Inr (out\<lparr>ns_arch := v\<rparr>)
      else if key = ''zone'' then Inr (out\<lparr>ns_zone := v\<rparr>)
      else if key = ''zun-az'' then Inr (out\<lparr>ns_zunAZ := v\<rparr>)
      else if key = ''listen'' then Inr (out\<lparr>ns_listen := v\<rparr>)
      else Inl (unknown_field s key))"

definition parseField :: "string \<Rightarrow> string \<Rightarrow> nodeSpec \<Rightarrow> nodeSpec result" where
  "parseField s raw out =
     (let field = trim_space raw in
      if field = [] then Inr out
      else case cut_at (CHR ''='') field of
        None \<Rightarrow> Inl (bad_field s field)
      | Some (key, v) \<Rightarrow> setField s (trim_space key) (trim_space v) out)"

definition parseNodeSpec :: "string \<Rightarrow> nodeSpec \<Rightarrow> nodeSpec result" where
  "parseNodeSpec s defaults =
     bind_r (fold_r (parseField s) (split_at (CHR '','') s) (defaults\<lparr>ns_node := []\<rparr>)) (\<lambda>out.
       if ns_node out = [] then Inl (ErrText (''node spec '' @ quote_str s @ '': name is required'')) else Inr out)"

definition nodeSpecList_String :: "string list \<Rightarrow> string" where
  "nodeSpecList_String l = join_str '' '' l"

definition nodeSpecList_Set :: "string \<Rightarrow> string list \<Rightarrow> string list" where
  "nodeSpecList_Set v l = l @ [v]"

section \<open>Flags\<close>

record options =
  o_nodeName :: string
  o_tenant :: string
  o_namespaces :: string
  o_zone :: string
  o_zunAZ :: string
  o_arch :: string
  o_networkID :: string
  o_kubeconfig :: string
  o_listenAddr :: string
  o_internalIP :: string
  o_capacityCPU :: string
  o_capacityMem :: string
  o_capacityPod :: string
  o_capacityEphemeral :: string
  o_logLevel :: string
  o_nsSelector :: string
  o_ingressProvider :: string
  o_ingressClass :: string
  o_leaseSeconds :: int
  o_nodes :: "string list"
  o_tlsCert :: string
  o_tlsKey :: string
  o_clientCA :: string
  o_vipSubnet :: string
  o_vipNetwork :: string
  o_floatingNet :: string
  o_clusterDomain :: string
  o_clusterDNS :: string
  o_dnsService :: string
  o_storageClass :: string
  o_shareType :: string
  o_volumeType :: string
  o_storageAZ :: string
  o_platformNamespace :: string
  o_shard :: string
  o_tenantLabel :: string
  o_enforceNetworkPolicy :: bool
  o_convertNetworkPolicy :: string
  o_convertConfirm :: bool
  o_publicSvcs :: bool

definition envOr :: "(string \<Rightarrow> string) \<Rightarrow> string \<Rightarrow> string \<Rightarrow> string" where
  "envOr getenv key fallback = (if getenv key \<noteq> [] then getenv key else fallback)"

definition splitAndTrim :: "string \<Rightarrow> string list" where
  "splitAndTrim s = filter (\<lambda>p. p \<noteq> []) (map trim_space (split_at (CHR '','') s))"

definition splitList :: "string \<Rightarrow> string list" where
  "splitList v = filter (\<lambda>p. p \<noteq> []) (map trim_space (split_at (CHR '','') v))"

definition defaultSpec :: "options \<Rightarrow> nodeSpec" where
  "defaultSpec opts = \<lparr>ns_node = [], ns_arch = o_arch opts, ns_zone = o_zone opts, ns_zunAZ = o_zunAZ opts, ns_listen = o_listenAddr opts\<rparr>"

text \<open>The checks over all nodes: an architecture that exists, no name and no address twice.\<close>

fun checkSpecs :: "string list \<Rightarrow> string list \<Rightarrow> nodeSpec list \<Rightarrow> unit result" where
  "checkSpecs seenName seenAddr [] = Inr ()"
| "checkSpecs seenName seenAddr (sp # specs) =
     (case ValidateArchitecture (ns_arch sp) of
        Inl e \<Rightarrow> Inl (ErrWrap (''node '' @ ns_node sp) e)
      | Inr _ \<Rightarrow>
          if ns_node sp \<in> set seenName then Inl (ErrText (''node '' @ ns_node sp @ '' is named twice''))
          else if ns_listen sp \<noteq> [] \<and> ns_listen sp \<in> set seenAddr
          then Inl (ErrText (''node '' @ ns_node sp @ '' listens on '' @ ns_listen sp @
                  '', which another node already uses; give each node its own listen address''))
          else checkSpecs (ns_node sp # seenName) (ns_listen sp # seenAddr) specs)"

definition nodeSpecs :: "options \<Rightarrow> nodeSpec list result" where
  "nodeSpecs opts =
     (let defaults = (if o_nodeName opts \<noteq> [] then (defaultSpec opts)\<lparr>ns_node := o_nodeName opts\<rparr> else defaultSpec opts) in
      bind_r (map_r (\<lambda>raw. parseNodeSpec raw defaults) (o_nodes opts)) (\<lambda>more.
        let specs = (if o_nodeName opts \<noteq> [] then [defaults] else []) @ more in
        if specs = [] then Inl (ErrText ''no nodes: give --nodename or at least one --node'')
        else bind_r (checkSpecs [] [] specs) (\<lambda>_. Inr specs)))"

definition placementOf :: "nodeSpec list \<Rightarrow> string \<Rightarrow> string \<Rightarrow> placement option" where
  "placementOf specs region node =
     map_of (rev (map (\<lambda>sp. (ns_node sp, \<lparr>pl_zone = ns_zone sp, pl_az = ns_zunAZ sp, pl_region = region\<rparr>)) specs)) node"

text \<open>\<^verbatim>\<open>net.SplitHostPort\<close>: the last colon, brackets around a host that has colons itself.\<close>

definition split_host_port :: "string \<Rightarrow> (string \<times> string) option" where
  "split_host_port s =
     (case cut_at (CHR '':'') (rev s) of
        None \<Rightarrow> None
      | Some (rport, rhost) \<Rightarrow>
          (let host = rev rhost; port = rev rport in
           if s \<noteq> [] \<and> hd s = CHR 0x5B then
             (case cut_at (CHR 0x5D) s of
                None \<Rightarrow> None
              | Some (a, rest) \<Rightarrow>
                  if length host = length a + 1 \<and> CHR 0x5B \<notin> set (tl s) \<and> CHR 0x5D \<notin> set rest then Some (tl a, port) else None)
           else if CHR '':'' \<in> set host \<or> CHR 0x5B \<in> set s \<or> CHR 0x5D \<in> set s then None
           else Some (host, port)))"

definition kubeletPortOf :: "string \<Rightarrow> int" where
  "kubeletPortOf listen =
     (case split_host_port listen of
        None \<Rightarrow> 0
      | Some (_, port) \<Rightarrow> (case parse_int 32 port of None \<Rightarrow> 0 | Some n \<Rightarrow> n))"

section \<open>The conversion to policy groups\<close>

definition phase_of :: "string \<Rightarrow> phase option" where
  "phase_of s = (if s = ''attach'' then Some PhaseAttach else if s = ''detach'' then Some PhaseDetach else None)"

text \<open>The numbers are those it prints.\<close>

definition convertTenant :: "(session \<Rightarrow> 'w neutron_api result) \<Rightarrow> session \<Rightarrow> string \<Rightarrow> bool \<Rightarrow> ('w, nat \<times> nat) act" where
  "convertTenant newClient ses phase confirm =
     (case phase_of phase of
        None \<Rightarrow> fail (ErrText (''the conversion phase must be \"attach\" or \"detach\", not '' @ quote_str phase))
      | Some ph \<Rightarrow>
          bind_a (lift_r (newClient ses)) (\<lambda>n.
          bind_a (wrap_err ''preparing the baseline groups'' (EnsureBaseline n)) (\<lambda>(ingress, egress).
          bind_a (EnsureDenyAll n) (\<lambda>denyAll w.
          case Convert n ph [denyAll, ingress, egress] (\<not> confirm) w of
            ((changed, total', Some e), w') \<Rightarrow> (Inl e, w')
          | ((changed, total', None), w') \<Rightarrow> (Inr (changed, total'), w')))))"

section \<open>Starting up\<close>

text \<open>What the clients and files answer while the process starts.\<close>

record startup =
  su_logLevel :: "unit result"
  su_creds :: "unit result"
  su_session :: "session result"
  su_capsuleAPI :: "unit result"
  su_client :: "unit result"
  su_cert :: "unit result"
  su_clientCA :: "unit result"
  su_zone :: "string \<Rightarrow> unit result"
  su_netpolClient :: "unit result"
  su_octavia :: "unit result"
  su_network :: "unit result"
  su_auth :: "string \<Rightarrow> unit result"
  su_nodeController :: "string \<Rightarrow> int \<Rightarrow> unit result"
  su_podController :: "string \<Rightarrow> unit result"
  su_handlers :: "string \<Rightarrow> unit result"

definition serverTLS :: "options \<Rightarrow> startup \<Rightarrow> bool result" where
  "serverTLS opts env =
     (if o_tlsCert opts = [] \<and> o_tlsKey opts = [] then Inr False
      else if o_tlsCert opts = [] \<or> o_tlsKey opts = []
      then Inl (ErrText ''--tls-cert-file and --tls-private-key-file must be given together'')
      else if o_clientCA opts = []
      then Inl (ErrText ''--client-ca-file is required with a serving certificate: without it the kubelet API cannot verify who is calling'')
      else bind_r (su_cert env) (\<lambda>_.
           case su_clientCA env of Inl e \<Rightarrow> Inl (ErrWrap ''load client CA'' e) | Inr _ \<Rightarrow> Inr True))"

text \<open>The capacity of a shared node, where none was given.\<close>

definition sharedCapacity :: "options \<Rightarrow> options" where
  "sharedCapacity opts =
     opts\<lparr>o_capacityCPU := (if o_capacityCPU opts = ''0'' then ''1000'' else o_capacityCPU opts),
          o_capacityMem := (if o_capacityMem opts = ''0'' then ''4Ti'' else o_capacityMem opts),
          o_capacityPod := (if o_capacityPod opts = ''0'' then ''10000'' else o_capacityPod opts)\<rparr>"

text \<open>The first half of \<^verbatim>\<open>run\<close>, up to the shared set: the options as they stand then, and the nodes.\<close>

definition run_flags :: "options \<Rightarrow> startup \<Rightarrow> (options \<times> nodeSpec list \<times> string list) result" where
  "run_flags opts env =
     bind_r (nodeSpecs opts) (\<lambda>specs.
     let namespaces = splitAndTrim (o_namespaces opts) in
     if namespaces = [] \<and> o_nsSelector opts = [] then
       Inl (ErrText ''one of --namespace-selector or --namespaces is required: a node must state which namespaces it serves'')
     else
       bind_r (case su_logLevel env of Inl e \<Rightarrow> Inl (ErrWrap ''parse log level'' e) | Inr u \<Rightarrow> Inr u) (\<lambda>_.
       bind_r (case su_creds env of Inl e \<Rightarrow> Inl (ErrWrap ''read OpenStack credentials'' e) | Inr u \<Rightarrow> Inr u) (\<lambda>_.
       bind_r (su_session env) (\<lambda>_.
       bind_r (su_capsuleAPI env) (\<lambda>_.
       bind_r (case su_client env of Inl e \<Rightarrow> Inl (ErrWrap ''build Kubernetes client'' e) | Inr u \<Rightarrow> Inr u) (\<lambda>_.
       if o_platformNamespace opts = [] then Inr (opts, specs, namespaces)
       else if o_nsSelector opts = [] then
         Inl (ErrText ''--platform-namespace needs --namespace-selector: per-tenant credentials are resolved through the namespaces' tenant label'')
       else Inr (sharedCapacity opts, specs, namespaces)))))))"

record plan =
  pl_options :: options
  pl_specs :: "nodeSpec list"
  pl_set :: vk_set
  pl_multi :: bool
  pl_tls :: bool
  pl_volumes :: bool
  pl_policies :: bool
  pl_services :: bool
  pl_ingresses :: bool

definition checkZones :: "startup \<Rightarrow> nodeSpec list \<Rightarrow> unit result" where
  "checkZones env specs =
     first_err (\<lambda>sp. case su_zone env (ns_zunAZ sp) of Inl e \<Rightarrow> Inl (ErrWrap (''node '' @ quote_str (ns_node sp)) e) | Inr u \<Rightarrow> Inr u) specs"

text \<open>
  A controller registers its handlers with the informers of the set, which may refuse; with several tenants it is
  fed by the scoped factories, which do not.
\<close>

definition newController :: "options \<Rightarrow> startup \<Rightarrow> string \<Rightarrow> unit result" where
  "newController opts env name = (if o_platformNamespace opts \<noteq> [] then Inr () else su_handlers env name)"

text \<open>The load balancer controllers; the provider that cannot serve Ingress is refused only where Ingress is on.\<close>

definition lbClients :: "startup \<Rightarrow> unit result" where
  "lbClients env =
     bind_r (case su_octavia env of Inl e \<Rightarrow> Inl (ErrWrap ''build the load balancer client'' e) | Inr u \<Rightarrow> Inr u) (\<lambda>_.
     case su_network env of Inl e \<Rightarrow> Inl (ErrWrap ''build the network client'' e) | Inr u \<Rightarrow> Inr u)"

definition run_ingress :: "options \<Rightarrow> startup \<Rightarrow> bool result" where
  "run_ingress opts env =
     (if o_ingressProvider opts \<noteq> [] \<and> o_vipSubnet opts \<noteq> [] then
        (if o_ingressProvider opts = ''ovn''
         then Inl (ErrText ''--ingress-provider=ovn cannot work: the OVN provider is L4-only and refuses every L7 object; use amphora, or incus where its driver serves L7'')
         else bind_r (lbClients env) (\<lambda>_. bind_r (newController opts env ''ingress'') (\<lambda>_. Inr True)))
      else Inr False)"

definition nodeOptions :: "options \<Rightarrow> string \<Rightarrow> nodeSpec \<Rightarrow> string \<Rightarrow> node_options" where
  "nodeOptions opts version sp region =
     \<lparr>no_name = ns_node sp, no_tenant = o_tenant opts, no_zone = ns_zone sp, no_region = region, no_shard = o_shard opts, no_version = version,
      no_os = [], no_arch = ns_arch sp,
      no_capacity = \<lparr>cp_cpu = o_capacityCPU opts, cp_memory = o_capacityMem opts, cp_pods = o_capacityPod opts, cp_ephemeral = o_capacityEphemeral opts\<rparr>,
      no_internalIP = o_internalIP opts, no_kubeletPort = kubeletPortOf (ns_listen sp)\<rparr>"

text \<open>The node of each spec: its authorizer where there is TLS, then its place in the set.\<close>

definition addSpec :: "int \<Rightarrow> startup \<Rightarrow> bool \<Rightarrow> nodeSpec \<Rightarrow> vk_set \<Rightarrow> vk_set result" where
  "addSpec dflt env tls sp s =
     bind_r (if tls then (case su_auth env (ns_node sp) of Inl e \<Rightarrow> Inl (ErrWrap (''node '' @ ns_node sp @ '': kubelet API auth'') e) | Inr u \<Rightarrow> Inr u) else Inr ()) (\<lambda>_.
     case AddNode dflt (su_nodeController env) (su_podController env)
            \<lparr>sno_name = Some (ns_node sp), sno_provider = True, sno_nodeProvider = True, sno_listen = ns_listen sp, sno_tls = tls, sno_auth = tls\<rparr> s of
       (Inl e, _) \<Rightarrow> Inl e
     | (Inr _, s') \<Rightarrow> Inr s')"

definition run_plan :: "int \<Rightarrow> int \<Rightarrow> options \<Rightarrow> startup \<Rightarrow> plan result" where
  "run_plan dflt cpus opts0 env =
     bind_r (run_flags opts0 env) (\<lambda>(opts, specs, namespaces).
     bind_r (NewSet \<lparr>op_client = True, op_namespaces = namespaces, op_watched = (o_nsSelector opts \<noteq> []), op_resync = 0, op_workers = cpus, op_lease = o_leaseSeconds opts\<rparr>) (\<lambda>s.
     bind_r (serverTLS opts env) (\<lambda>tls.
     bind_r (checkZones env specs) (\<lambda>_.
     bind_r (if o_storageClass opts \<noteq> [] then newController opts env ''volume'' else Inr ()) (\<lambda>_.
     bind_r (if o_enforceNetworkPolicy opts
             then (case su_netpolClient env of
                     Inl e \<Rightarrow> Inl (ErrWrap ''no network endpoint, which NetworkPolicy needs'' e)
                   | Inr _ \<Rightarrow> newController opts env ''netpol'') else Inr ()) (\<lambda>_.
     bind_r (fold_r (addSpec dflt env tls) specs s) (\<lambda>s'.
     bind_r (if o_vipSubnet opts \<noteq> [] then bind_r (lbClients env) (\<lambda>_. newController opts env ''service'') else Inr ()) (\<lambda>_.
     bind_r (run_ingress opts env) (\<lambda>ing.
     Inr \<lparr>pl_options = opts, pl_specs = specs, pl_set = s', pl_multi = (o_platformNamespace opts \<noteq> []), pl_tls = tls,
          pl_volumes = (o_storageClass opts \<noteq> []), pl_policies = o_enforceNetworkPolicy opts, pl_services = (o_vipSubnet opts \<noteq> []),
          pl_ingresses = ing\<rparr>)))))))))"

text \<open>
  The whole command: with a phase of the conversion it does that and nothing else, whatever the other flags are; else it starts.
\<close>

definition run_convert :: "(session \<Rightarrow> 'w neutron_api result) \<Rightarrow> options \<Rightarrow> startup \<Rightarrow> ('w, nat \<times> nat) act" where
  "run_convert newClient opts env =
     bind_a (lift_r (case su_creds env of Inl e \<Rightarrow> Inl (ErrWrap ''read OpenStack credentials'' e) | Inr u \<Rightarrow> Inr u)) (\<lambda>_.
     bind_a (lift_r (su_session env)) (\<lambda>ses. convertTenant newClient ses (o_convertNetworkPolicy opts) (o_convertConfirm opts)))"

datatype outcome = Converted "nat \<times> nat" | Started plan

definition run :: "int \<Rightarrow> int \<Rightarrow> (session \<Rightarrow> 'w neutron_api result) \<Rightarrow> options \<Rightarrow> startup \<Rightarrow> ('w, outcome) act" where
  "run dflt cpus newClient opts env =
     (if o_convertNetworkPolicy opts \<noteq> [] then bind_a (run_convert newClient opts env) (\<lambda>n. ret (Converted n))
      else bind_a (lift_r (run_plan dflt cpus opts env)) (\<lambda>pl. ret (Started pl)))"

section \<open>What a node's provider is given\<close>

definition resolveClaim :: "'v volume_rec option \<Rightarrow> string \<Rightarrow> string \<Rightarrow> ('v, ClaimMount) act" where
  "resolveClaim volRec namespace claim =
     (case volRec of
        None \<Rightarrow> fail (ErrText ''persistent volumes are not enabled on this deployment'')
      | Some r \<Rightarrow>
          bind_a (MountFor r namespace claim) (\<lambda>m.
            ret \<lparr>cm_kind = (if mt_kind m = Block then ''cinder'' else if mt_kind m = Shared then ''nfs'' else []),
                 cm_volumeID = mt_id m, cm_export = mt_export m\<rparr>))"

definition providerOptions ::
  "options \<Rightarrow> nodeSpec \<Rightarrow> (string \<Rightarrow> string \<Rightarrow> token_request \<Rightarrow> ('v, string \<times> time option) act) \<Rightarrow> 'v volume_rec option \<Rightarrow> 'v object_reader \<Rightarrow> 'v prep_options" where
  "providerOptions opts sp tokens volRec objects =
     \<lparr>pp_tenant = o_tenant opts, pp_clusterDomain = o_clusterDomain opts, pp_clusterDNS = splitList (o_clusterDNS opts),
      pp_dnsService = o_dnsService opts, pp_zone = ns_zunAZ sp, pp_arch = ns_arch sp, pp_tokens = Some tokens,
      pp_resolveClaim = Some (resolveClaim volRec), pp_objects = Some objects\<rparr>"

definition providerConfig :: "options \<Rightarrow> (string \<Rightarrow> bool) \<Rightarrow> nodeSpec \<Rightarrow> (string \<Rightarrow> ('s, string) act) option \<Rightarrow> 's config" where
  "providerConfig opts serves sp netFor =
     \<lparr>cf_serves = serves, cf_nodeName = ns_node sp, cf_networkID = o_networkID opts, cf_networkIDFor = netFor\<rparr>"

text \<open>The template of each reconciler. \<open>base\<close> has what comes from libraries: the listers and clients of Kubernetes.\<close>

definition volumeTemplate ::
  "options \<Rightarrow> nodeSpec list \<Rightarrow> string \<Rightarrow> 'v block_api result \<Rightarrow> 'v share_api result \<Rightarrow> (string \<Rightarrow> string \<Rightarrow> int \<Rightarrow> ('v, unit) act) \<Rightarrow> (string \<Rightarrow> bool) \<Rightarrow>
   'v volume_rec \<Rightarrow> 'v volume_rec" where
  "volumeTemplate opts specs region blockC sharedC grow serves base =
     base\<lparr>vr_backend := (vr_backend base)\<lparr>vb_block := some_ok blockC, vb_shared := some_ok sharedC, vb_shareType := o_shareType opts, vb_shareProto := [],
            vb_volumeType := o_volumeType opts, vb_az := o_storageAZ opts\<rparr>,
          vr_extend := Some grow, vr_placementOf := Some (placementOf specs region), vr_tenant := o_tenant opts, vr_serves := serves\<rparr>"

definition serviceTemplate ::
  "options \<Rightarrow> 'v octavia_api \<Rightarrow> 'v fip_api \<Rightarrow> (string \<Rightarrow> string \<Rightarrow> ('v, string) act) \<Rightarrow> (string \<Rightarrow> bool) \<Rightarrow> string list \<Rightarrow> 'v service_rec \<Rightarrow> 'v service_rec" where
  "serviceTemplate opts octavia neutron subnets serves served base =
     base\<lparr>rc_octavia := octavia, rc_subnetFor := subnets, rc_serves := Some serves, rc_namespaces := Some served, rc_vipSubnet := o_vipSubnet opts, rc_vipNetwork := o_vipNetwork opts,
          rc_tenant := o_tenant opts, rc_neutron := Some neutron, rc_fipNetwork := o_floatingNet opts, rc_public := o_publicSvcs opts\<rparr>"

definition ingressTemplate ::
  "options \<Rightarrow> 'v octavia_api \<Rightarrow> 'v fip_api \<Rightarrow> 'v barbican_api result \<Rightarrow> (string \<Rightarrow> string \<Rightarrow> ('v, string) act) \<Rightarrow> (string \<Rightarrow> bool) \<Rightarrow> string list \<Rightarrow>
   'v ingress_rec \<Rightarrow> 'v ingress_rec" where
  "ingressTemplate opts octavia neutron keys subnets serves served base =
     base\<lparr>ir_octavia := octavia, ir_neutron := Some neutron, ir_keyManager := some_ok keys, ir_subnetFor := subnets, ir_vipSubnet := o_vipSubnet opts,
          ir_fipNetwork := o_floatingNet opts, ir_provider := o_ingressProvider opts, ir_className := o_ingressClass opts, ir_tenant := o_tenant opts,
          ir_serves := Some serves, ir_namespaces := Some served\<rparr>"

text \<open>The reconciler of policies: the lister of namespaces is the one field that is left unset.\<close>

definition netpolTemplate ::
  "'v neutron_api \<Rightarrow> labels_api \<Rightarrow> (string \<Rightarrow> string) \<Rightarrow> pod lister \<Rightarrow> network_policy lister \<Rightarrow> (string \<Rightarrow> bool) \<Rightarrow> 'v reconciler" where
  "netpolTemplate netC L sha pods policies serves =
     \<lparr>r_neutron = netC, r_labels = L, r_sha = sha, r_pods = pods, r_policies = Some policies, r_namespaces = None, r_serves = serves, r_portOf = None\<rparr>"

section \<open>Lemmas\<close>

lemma checkSpecs_ok:
  assumes "checkSpecs seenName seenAddr specs = Inr u"
  shows "distinct (map ns_node specs) \<and> set (map ns_node specs) \<inter> set seenName = {} \<and>
    distinct (filter (\<lambda>a. a \<noteq> []) (map ns_listen specs)) \<and> (set (map ns_listen specs) \<inter> set seenAddr) \<subseteq> {[]} \<and>
    (\<forall>sp \<in> set specs. ValidateArchitecture (ns_arch sp) = Inr ())"
  using assms by (induction seenName seenAddr specs rule: checkSpecs.induct) (auto split: sum.splits if_splits)

lemma parseNodeSpec_named: "parseNodeSpec raw defaults = Inr sp \<Longrightarrow> ns_node sp \<noteq> []"
  by (auto simp: parseNodeSpec_def split: if_splits)

lemma split_at_app: "c \<notin> set a \<Longrightarrow> split_at c (a @ c # b) = a # split_at c b"
  by (induction a) (auto split: list.splits)

lemma split_at_none: "c \<notin> set a \<Longrightarrow> split_at c a = [a]"
  by (induction a) (auto split: list.splits)

lemma split_at_join: "ps \<noteq> [] \<Longrightarrow> \<forall>p \<in> set ps. c \<notin> set p \<Longrightarrow> split_at c (join_str [c] ps) = ps"
  by (induction "[c]" ps rule: join_str.induct) (auto simp: split_at_none split_at_app)

text \<open>A text that trimming leaves alone.\<close>

definition trimmed :: "string \<Rightarrow> bool" where
  "trimmed s \<longleftrightarrow> s = [] \<or> \<not> is_space (hd s) \<and> \<not> is_space (last s)"

lemma dropWhile_hd: "s \<noteq> [] \<Longrightarrow> \<not> P (hd s) \<Longrightarrow> dropWhile P s = s"
  by (cases s) auto

lemma trim_space_trimmed: "trimmed s \<Longrightarrow> trim_space s = s"
  by (cases "s = []") (auto simp: trimmed_def trim_space_def dropWhile_hd hd_rev)

lemma trimmed_append: "trimmed a \<Longrightarrow> a \<noteq> [] \<Longrightarrow> trimmed b \<Longrightarrow> b \<noteq> [] \<Longrightarrow> trimmed (a @ b)"
  by (auto simp: trimmed_def)

lemma parseField_key:
  assumes "trimmed key" and "key \<noteq> []" and "CHR ''='' \<notin> set key" and "trimmed v"
  shows "parseField s (key @ ''='' @ v) out = setField s key v out"
proof -
  have eq: "trimmed (key @ ''='' @ v)"
    using assms by (cases v) (auto simp: trimmed_def is_space_def)
  then show ?thesis
    using assms by (simp add: parseField_def trim_space_trimmed)
qed

definition printSpec :: "nodeSpec \<Rightarrow> string" where
  "printSpec sp = join_str '','' [''name='' @ ns_node sp, ''arch='' @ ns_arch sp, ''zone='' @ ns_zone sp, ''zun-az='' @ ns_zunAZ sp, ''listen='' @ ns_listen sp]"

definition plain_spec :: "nodeSpec \<Rightarrow> bool" where
  "plain_spec sp \<longleftrightarrow> ns_node sp \<noteq> [] \<and>
     list_all (\<lambda>v. trimmed v \<and> CHR '','' \<notin> set v) [ns_node sp, ns_arch sp, ns_zone sp, ns_zunAZ sp, ns_listen sp]"

lemma key_trimmed: "trimmed ''name''" "trimmed ''arch''" "trimmed ''zone''" "trimmed ''zun-az''" "trimmed ''listen''"
  by (simp_all add: trimmed_def is_space_def)

definition registered :: "vk_set \<Rightarrow> bool \<Rightarrow> nodeSpec \<Rightarrow> set_node" where
  "registered s tls sp = \<lparr>sn_name = ns_node sp, sn_tls = tls, sn_auth = tls, sn_listen = ns_listen sp, sn_workers = vs_workers s\<rparr>"

lemma addSpec_adds:
  assumes "addSpec dflt env tls sp s = Inr s'" and "set_ok s"
  shows "set_ok s' \<and> vs_nodes s' = vs_nodes s @ [registered s tls sp] \<and> vs_watched s' = vs_watched s \<and> vs_workers s' = vs_workers s \<and>
    (tls \<longrightarrow> su_auth env (ns_node sp) = Inr ())"
proof -
  let ?opts = "\<lparr>sno_name = Some (ns_node sp), sno_provider = True, sno_nodeProvider = True, sno_listen = ns_listen sp, sno_tls = tls, sno_auth = tls\<rparr>"
  from assms(1) obtain nd where add: "AddNode dflt (su_nodeController env) (su_podController env) ?opts s = (Inr nd, s')"
      and auth: "tls \<longrightarrow> su_auth env (ns_node sp) = Inr ()"
    by (auto simp: addSpec_def split: prod.splits sum.splits if_splits)
  from AddNode_ok [OF assms(2), of dflt "su_nodeController env" "su_podController env" ?opts] add have "set_ok s'" by simp
  with add auth show ?thesis
    by (auto simp: AddNode_def PodsForNode_def registered_def Let_def split: if_splits sum.splits)
qed

lemma addSpecs_add:
  assumes "fold_r (addSpec dflt env tls) specs s = Inr s'" and "set_ok s"
  shows "set_ok s' \<and> vs_nodes s' = vs_nodes s @ map (registered s tls) specs \<and> vs_watched s' = vs_watched s \<and>
    (tls \<longrightarrow> (\<forall>sp \<in> set specs. su_auth env (ns_node sp) = Inr ()))"
  using assms
proof (induction specs arbitrary: s)
  case (Cons sp specs)
  then obtain s1 where s1: "addSpec dflt env tls sp s = Inr s1" "fold_r (addSpec dflt env tls) specs s1 = Inr s'" by auto
  from addSpec_adds [OF s1(1) Cons.prems(2)] Cons.IH [OF s1(2)] show ?case by (auto simp: registered_def)
qed simp

lemma nodeSpecs_ok:
  assumes "nodeSpecs opts = Inr specs"
  shows "specs \<noteq> [] \<and> distinct (map ns_node specs) \<and> distinct (filter (\<lambda>a. a \<noteq> []) (map ns_listen specs)) \<and>
    (\<forall>sp \<in> set specs. ns_node sp \<noteq> [] \<and> ValidateArchitecture (ns_arch sp) = Inr ())"
proof -
  let ?d = "if o_nodeName opts \<noteq> [] then (defaultSpec opts)\<lparr>ns_node := o_nodeName opts\<rparr> else defaultSpec opts"
  from assms obtain more where more: "map_r (\<lambda>raw. parseNodeSpec raw ?d) (o_nodes opts) = Inr more"
      and specs: "specs = (if o_nodeName opts \<noteq> [] then [?d] else []) @ more" "specs \<noteq> []" "checkSpecs [] [] specs = Inr ()"
    by (auto simp: nodeSpecs_def Let_def split: if_splits)
  have "\<forall>sp \<in> set more. ns_node sp \<noteq> []"
    using map_r_all2 [OF more] by (auto simp: list_all2_conv_all_nth in_set_conv_nth dest!: parseNodeSpec_named)
  with specs checkSpecs_ok [OF specs(3)] show ?thesis by auto
qed

section \<open>Properties\<close>

text \<open>
  A process never runs two nodes that would fight: the nodes it is started with have different, nonempty names and different listen
  addresses where they have one, and an architecture that exists; and there is at least one.
\<close>

theorem nodes_distinct:
  assumes "nodeSpecs opts = Inr specs"
  shows "specs \<noteq> [] \<and> distinct (map ns_node specs) \<and> distinct (filter (\<lambda>a. a \<noteq> []) (map ns_listen specs)) \<and>
    (\<forall>sp \<in> set specs. ns_node sp \<noteq> [] \<and> ValidateArchitecture (ns_arch sp) = Inr ())"
  using assms by (rule nodeSpecs_ok)

text \<open>
  What is written for a node is what it gets: the text of a node, each field by its key, is read back as that node whatever the defaults
  are, where the values have no comma in them and no space around them.
\<close>

theorem node_spec_read_back:
  assumes "plain_spec sp"
  shows "parseNodeSpec (printSpec sp) defaults = Inr sp"
proof -
  have parts: "split_at (CHR '','') (printSpec sp) =
      [''name='' @ ns_node sp, ''arch='' @ ns_arch sp, ''zone='' @ ns_zone sp, ''zun-az='' @ ns_zunAZ sp, ''listen='' @ ns_listen sp]"
    unfolding printSpec_def using assms by (intro split_at_join) (auto simp: plain_spec_def)
  note fields = parseField_key [OF key_trimmed(1), simplified] parseField_key [OF key_trimmed(2), simplified] parseField_key [OF key_trimmed(3), simplified]
    parseField_key [OF key_trimmed(4), simplified] parseField_key [OF key_trimmed(5), simplified]
  from assms show ?thesis
    unfolding parseNodeSpec_def parts by (simp add: fields plain_spec_def setField_def)
qed

text \<open>
  The port a node advertises is the one it listens on: from a host without colons or brackets and a port below \<^verbatim>\<open>2^31\<close>, the port is read back.
\<close>

theorem listen_port_read_back:
  assumes "set host \<inter> {CHR '':'', CHR 0x5B, CHR 0x5D} = {}" and "port < 2 ^ 31"
  shows "kubeletPortOf (host @ '':'' @ show_nat port) = int port"
proof -
  have free: "c \<notin> set (show_nat port)" if "\<not> is_digit c" for c
    using show_nat_is_digits [of port] that by (auto simp: list_all_iff)
  have "cut_at (CHR '':'') (rev (host @ '':'' @ show_nat port)) = Some (rev (show_nat port), rev host)"
    using free [of "CHR '':''"] by (simp add: is_digit_def less_eq_char_def)
  moreover have "CHR 0x5B \<notin> set (host @ '':'' @ show_nat port)" "CHR 0x5D \<notin> set (host @ '':'' @ show_nat port)"
    using assms(1) free [of "CHR 0x5B"] free [of "CHR 0x5D"] by (auto simp: is_digit_def less_eq_char_def)
  moreover from this have "hd (host @ '':'' @ show_nat port) \<noteq> CHR 0x5B" by (cases host) auto
  ultimately have "split_host_port (host @ '':'' @ show_nat port) = Some (host, show_nat port)"
    using assms(1) by (simp add: split_host_port_def)
  moreover have "parse_int 32 (show_nat port) = Some (int port)"
    using parse_int_show_int [of 32 "int port"] assms(2) by (simp add: show_int_def)
  ultimately show ?thesis by (simp add: kubeletPortOf_def)
qed


section \<open>What the pieces do together\<close>

text \<open>
  On a node that several tenants share there is no tenant in the flags, so nothing is taken off a namespace: a capsule searches the name the cluster stores, under which
  its tenant's resolver serves nothing, and asks the DNS Service of no tenant.
\<close>

theorem shared_node_searches_stored:
  assumes "o_tenant opts = []" and "kp_dnsPolicy pod = ''ClusterFirst''" and "kp_dnsConfig pod = None" and "o_clusterDomain opts = ''svc.cluster.local''"
    and "splitList (o_clusterDNS opts) = []" and "o_dnsService opts = sns @ ''/'' @ name" and "CHR ''/'' \<notin> set sns"
  shows "fst (fst (dnsConfigFor (providerOptions opts sp tokens volRec ob) pod s)) = [kp_namespace pod @ ''.svc.cluster.local'', ''svc.cluster.local'', ''cluster.local''] \<and>
    snd (dnsConfigFor (providerOptions opts sp tokens volRec ob) pod s) = snd (ob_Service ob sns name s)"
proof -
  have "composeSearches ns ''svc.cluster.local'' = [ns @ ''.svc.cluster.local'', ''svc.cluster.local'', ''cluster.local'']" for ns
    by (simp add: composeSearches_def trim_suffix_def has_suffix_def has_prefix_def trim_prefix_def Let_def)
  moreover have "sns @ ''/'' @ name \<noteq> []" by simp
  moreover have "cut_at (CHR ''/'') (sns @ ''/'' @ name) = Some (sns, name)" using assms(7) by simp
  ultimately show ?thesis
    using assms by (cases "ob_Service ob sns name s" rule: prod.exhaust; cases "fst (ob_Service ob sns name s)")
      (auto simp: dnsConfigFor_def clusterDNS_def providerOptions_def tenantNamespace_def Let_def)
qed

text \<open>
  Without the lister a peer given by a selector of namespaces stands for no namespace at all, in the template and in every copy of it: such a
  policy admits nobody where Kubernetes admits the pods of the namespaces selected.
\<close>

theorem namespace_selector_admits_nobody:
  assumes "psel_namespace sel = []" and "buildNetpol K (netpolTemplate netC L sha pods policies serves) t b = Inr copy"
  shows "namespacesMatching (netpolTemplate netC L sha pods policies serves) sel = Inr [] \<and> namespacesMatching (copy n) sel = Inr []"
  using assms by (auto simp: netpolTemplate_def namespacesMatching_def buildNetpol_def)

text \<open>
  The claims of a pod are resolved by the template too, which looks up a share that was recorded without its export with the credential of the
  process: where that has no shared filesystem endpoint the pod is refused, whatever its tenant's own has.
\<close>

theorem export_asked_of_template:
  assumes "l_Get (vr_claims tpl) ns claim = Inr c" and "cl_volumeName c \<noteq> []" and "vr_volume tpl (cl_volumeName c) = Inr pv"
    and "label_of (pv_annotations pv) KindAnnotation = Shared" and "label_of (pv_annotations pv) ExportAnnotation = []" and "vb_shared (vr_backend tpl) = None"
  shows "isl (fst (resolveClaim (Some tpl) ns claim v))"
proof -
  have "\<exists>e. ExportOf (vr_backend tpl) i v = (Inl e, v)" for i
    using assms(6) by (simp add: ExportOf_def on_client_def bind_a_def fail_def)
  then obtain e where "ExportOf (vr_backend tpl) i v = (Inl (e i), v)" for i by metis
  with assms(1-5) show ?thesis by (simp add: resolveClaim_def MountFor_def bind_a_def Let_def)
qed

text \<open>
  A conversion that is not confirmed reports that nothing was written; but the groups it would attach have been created by then, with their rules.
\<close>

theorem dry_run_writes_groups:
  "let w = snd (convertTenant (\<lambda>_. Inr (mem_api False)) ses ''attach'' False mem_empty) in
   fst (convertTenant (\<lambda>_. Inr (mem_api False)) ses ''attach'' False mem_empty) = Inr (0, 0) \<and> mem_groups mem_empty = [] \<and> length (mem_groups w) = 3"
proof -
  have same: "convertTenant (\<lambda>_. Inr (mem_api False)) ses = convertTenant (\<lambda>_. Inr (mem_api False)) \<lparr>ses_project = [], ses_region = []\<rparr>"
    by (simp add: convertTenant_def fun_eq_iff cong: option.case_cong)
  show ?thesis unfolding same by code_simp
qed

text \<open>A claim is placed where the node it was scheduled to puts its capsules, and a node of another process decides nothing.\<close>

theorem placement_of_node:
  assumes "nodeSpecs opts = Inr specs"
  shows "(\<forall>sp \<in> set specs. placementOf specs region (ns_node sp) = Some \<lparr>pl_zone = ns_zone sp, pl_az = ns_zunAZ sp, pl_region = region\<rparr>) \<and>
    (\<forall>node. node \<notin> ns_node ` set specs \<longrightarrow> placementOf specs region node = None)"
proof -
  have "distinct (map fst (rev (map (\<lambda>sp. (ns_node sp, \<lparr>pl_zone = ns_zone sp, pl_az = ns_zunAZ sp, pl_region = region\<rparr>)) specs)))"
    using nodeSpecs_ok [OF assms] by (simp add: rev_map [symmetric] comp_def)
  then show ?thesis
    unfolding placementOf_def by (auto simp: map_of_eq_None_iff image_image intro!: map_of_is_SomeI)
qed

section \<open>Samples\<close>

definition sample_flags :: options where
  "sample_flags =
     \<lparr>o_nodeName = ''n1'', o_tenant = [], o_namespaces = [], o_zone = ''az1'', o_zunAZ = [], o_arch = ''amd64'', o_networkID = [], o_kubeconfig = [], o_listenAddr = '':10250'', o_internalIP = [],
      o_capacityCPU = ''0'', o_capacityMem = ''0'', o_capacityPod = ''0'', o_capacityEphemeral = [], o_logLevel = ''info'', o_nsSelector = ''kubezoo.io/tenant'', o_ingressProvider = ''amphora'', o_ingressClass = ''knaas'', o_leaseSeconds = 40,
      o_nodes = [''name=n2, arch=arm64 ,listen=:10251''], o_tlsCert = ''c'', o_tlsKey = ''k'', o_clientCA = ''ca'', o_vipSubnet = ''vip'', o_vipNetwork = [], o_floatingNet = [], o_clusterDomain = [], o_clusterDNS = [],
      o_dnsService = [], o_storageClass = ''on'', o_shareType = [], o_volumeType = [], o_storageAZ = [], o_platformNamespace = ''platform'', o_shard = ''s1'', o_tenantLabel = ''kubezoo.io/tenant'', o_enforceNetworkPolicy = True,
      o_convertNetworkPolicy = [], o_convertConfirm = False, o_publicSvcs = False\<rparr>"

definition all_well :: startup where
  "all_well =
     \<lparr>su_logLevel = Inr (), su_creds = Inr (), su_session = Inr \<lparr>ses_project = ''p'', ses_region = ''r''\<rparr>, su_capsuleAPI = Inr (), su_client = Inr (), su_cert = Inr (), su_clientCA = Inr (),
      su_zone = (\<lambda>_. Inr ()), su_netpolClient = Inr (), su_octavia = Inr (), su_network = Inr (), su_auth = (\<lambda>_. Inr ()),
      su_nodeController = (\<lambda>_ _. Inr ()), su_podController = (\<lambda>_. Inr ()), su_handlers = (\<lambda>_. Inr ())\<rparr>"

definition sample_specs :: "nodeSpec list" where
  "sample_specs = [\<lparr>ns_node = ''n1'', ns_arch = ''amd64'', ns_zone = ''az1'', ns_zunAZ = [], ns_listen = '':10250''\<rparr>,
     \<lparr>ns_node = ''n2'', ns_arch = ''arm64'', ns_zone = ''az1'', ns_zunAZ = [], ns_listen = '':10251''\<rparr>]"

lemma sample_nodeSpecs: "nodeSpecs sample_flags = Inr sample_specs"
  by (simp add: nodeSpecs_def sample_flags_def sample_specs_def defaultSpec_def parseNodeSpec_def parseField_def trim_space_def is_space_def setField_def
      ValidateArchitecture_def knownArchitectures_def)

theorem nodes_distinct_witness: "distinct (map ns_node sample_specs) \<and> map ns_node sample_specs = [''n1'', ''n2'']"
  using nodes_distinct [OF sample_nodeSpecs] by (simp add: sample_specs_def)

theorem node_spec_read_back_witness:
  "parseNodeSpec ''name=n1,arch=amd64,zone=az1,zun-az=,listen=:10250'' \<lparr>ns_node = [], ns_arch = [], ns_zone = [], ns_zunAZ = ''x'', ns_listen = []\<rparr> = Inr (hd sample_specs)"
proof -
  have "plain_spec (hd sample_specs)" by (simp add: plain_spec_def sample_specs_def trimmed_def is_space_def)
  from node_spec_read_back [OF this, of "\<lparr>ns_node = [], ns_arch = [], ns_zone = [], ns_zunAZ = ''x'', ns_listen = []\<rparr>"] show ?thesis
    by (simp add: printSpec_def sample_specs_def)
qed

theorem listen_port_read_back_witness: "kubeletPortOf (''10.0.0.1'' @ '':'' @ show_nat 10250) = 10250"
  using listen_port_read_back [of "''10.0.0.1''" 10250] by simp


end
