(* ===== verification/Go_Flags.thy ===== *)
theory Go_Flags
  imports Kube
begin

text \<open>
  Go's \<^verbatim>\<open>flag\<close> package as the two commands use it: a table of flags, each with a value or a switch, and the reading of a
  command line into the record the flags write. An error ends the process with 2 and a request for help with 0.
\<close>

section \<open>Flags\<close>

datatype 'o flag_kind = Valued "string \<Rightarrow> 'o \<Rightarrow> 'o option" | Switch "bool \<Rightarrow> 'o \<Rightarrow> 'o"

type_synonym 'o flag_table = "(string \<times> 'o flag_kind) list"

text \<open>\<^verbatim>\<open>strconv.ParseBool\<close>.\<close>

definition parse_bool :: "string \<Rightarrow> bool option" where
  "parse_bool s =
     (if s \<in> {''1'', ''t'', ''T'', ''TRUE'', ''true'', ''True''} then Some True
      else if s \<in> {''0'', ''f'', ''F'', ''FALSE'', ''false'', ''False''} then Some False
      else None)"

text \<open>The setting of a flag; \<open>None\<close> is a value that is refused.\<close>

fun set_flag :: "'o flag_kind \<Rightarrow> string \<Rightarrow> 'o \<Rightarrow> 'o option" where
  "set_flag (Valued f) v o0 = f v o0"
| "set_flag (Switch f) v o0 = map_option (\<lambda>b. f b o0) (parse_bool v)"

text \<open>What stands behind the dashes of an argument; \<open>None\<close> is an argument that is no flag.\<close>

definition flag_body :: "string \<Rightarrow> string option" where
  "flag_body s =
     (if length s < 2 \<or> hd s \<noteq> CHR ''-'' then None
      else Some (if s ! 1 = CHR ''-'' then drop 2 s else drop 1 s))"

definition flag_parts :: "string \<Rightarrow> string \<times> string option" where
  "flag_parts body = (case cut_at (CHR ''='') body of None \<Rightarrow> (body, None) | Some (name, v) \<Rightarrow> (name, Some v))"

text \<open>
  One dash or two, the value behind \<^verbatim>\<open>=\<close> or, except for a switch, in the next argument, up to the first argument that is no flag or to \<^verbatim>\<open>--\<close>.
\<close>

fun parse_args :: "'o flag_table \<Rightarrow> string list \<Rightarrow> 'o \<Rightarrow> nat + 'o" where
  "parse_args tbl [] o0 = Inr o0"
| "parse_args tbl (s # args) o0 =
     (case flag_body s of
        None \<Rightarrow> Inr o0
      | Some body \<Rightarrow>
          if s = ''--'' then Inr o0
          else if body = [] \<or> hd body \<in> {CHR ''-'', CHR ''=''} then Inl 2
          else
            (case flag_parts body of (name, given) \<Rightarrow>
               (case map_of tbl name of
                  None \<Rightarrow> Inl (if name \<in> {''help'', ''h''} then 0 else 2)
                | Some kind \<Rightarrow>
                    (case (given, kind) of
                       (Some v, _) \<Rightarrow> (case set_flag kind v o0 of None \<Rightarrow> Inl 2 | Some o1 \<Rightarrow> parse_args tbl args o1)
                     | (None, Switch f) \<Rightarrow> parse_args tbl args (f True o0)
                     | (None, Valued f) \<Rightarrow>
                         (case args of
                            [] \<Rightarrow> Inl 2
                          | v # rest \<Rightarrow> (case f v o0 of None \<Rightarrow> Inl 2 | Some o1 \<Rightarrow> parse_args tbl rest o1))))))"

section \<open>Reading what was written\<close>

definition plain_name :: "string \<Rightarrow> bool" where
  "plain_name n \<longleftrightarrow> n \<noteq> [] \<and> hd n \<noteq> CHR ''-'' \<and> CHR ''='' \<notin> set n"

lemma plain_body:
  assumes "plain_name n"
  shows "flag_body (''-'' @ n @ x) = Some (n @ x)" "flag_body (''--'' @ n @ x) = Some (n @ x)" "hd (n @ x) \<notin> {CHR ''-'', CHR ''=''}" "n @ x \<noteq> []"
    "''-'' @ n @ x \<noteq> ''--''" "''--'' @ n @ x \<noteq> ''--''"
  using assms by (cases n; auto simp: plain_name_def flag_body_def)+

lemma plain_parts: "plain_name n \<Longrightarrow> flag_parts n = (n, None)"
  using cut_at_None_iff [of "CHR ''=''" n] by (simp add: flag_parts_def plain_name_def)

lemma parse_next:
  assumes "plain_name n" and "map_of tbl n = Some (Valued f)"
  shows "parse_args tbl ((''-'' @ n) # v # args) o0 = (case f v o0 of None \<Rightarrow> Inl 2 | Some o1 \<Rightarrow> parse_args tbl args o1)"
  using assms(2) plain_parts [OF assms(1)] plain_body [OF assms(1), of "[]"] by simp

lemma parse_switch:
  assumes "plain_name n" and "map_of tbl n = Some (Switch f)"
  shows "parse_args tbl ((''-'' @ n) # args) o0 = parse_args tbl args (f True o0)"
  using assms(2) plain_parts [OF assms(1)] plain_body [OF assms(1), of "[]"] by simp

lemma parse_given:
  assumes "plain_name n" and "map_of tbl n = Some kind"
  shows "parse_args tbl ((''--'' @ n @ ''='' @ v) # args) o0 = (case set_flag kind v o0 of None \<Rightarrow> Inl 2 | Some o1 \<Rightarrow> parse_args tbl args o1)"
proof -
  have "flag_parts (n @ ''='' @ v) = (n, Some v)" using assms(1) by (simp add: flag_parts_def plain_name_def)
  with assms(2) plain_body [OF assms(1), of "''='' @ v"] show ?thesis by simp
qed

text \<open>A command line that names each flag with its value comes down to setting them one after the other.\<close>

definition given_args :: "(string \<times> string) list \<Rightarrow> string list" where
  "given_args = map (\<lambda>(n, v). ''--'' @ n @ ''='' @ v)"

fun set_flags :: "'o flag_table \<Rightarrow> (string \<times> string) list \<Rightarrow> 'o \<Rightarrow> 'o option" where
  "set_flags tbl [] o0 = Some o0"
| "set_flags tbl ((n, v) # nvs) o0 =
     (case map_of tbl n of None \<Rightarrow> None | Some kind \<Rightarrow> (case set_flag kind v o0 of None \<Rightarrow> None | Some o1 \<Rightarrow> set_flags tbl nvs o1))"

lemma set_flags_append: "set_flags tbl (xs @ ys) o0 = (case set_flags tbl xs o0 of None \<Rightarrow> None | Some o1 \<Rightarrow> set_flags tbl ys o1)"
  by (induction tbl xs o0 rule: set_flags.induct) (auto split: option.splits)

theorem parse_given_args:
  assumes "set_flags tbl nvs o0 = Some o1" and "list_all (\<lambda>(n, _). plain_name n) nvs"
  shows "parse_args tbl (given_args nvs @ args) o0 = parse_args tbl args o1"
  using assms
proof (induction tbl nvs o0 rule: set_flags.induct)
  case (2 tbl n v nvs o0)
  from 2(2) obtain kind o2 where o2: "map_of tbl n = Some kind" "set_flag kind v o0 = Some o2" "set_flags tbl nvs o2 = Some o1" by (auto split: option.splits)
  have "parse_args tbl (given_args ((n, v) # nvs) @ args) o0 = parse_args tbl ((''--'' @ n @ ''='' @ v) # given_args nvs @ args) o0"
    by (simp add: given_args_def)
  also have "\<dots> = parse_args tbl (given_args nvs @ args) o2"
    unfolding parse_given [OF _ o2(1), of v, OF 2(3) [simplified, THEN conjunct1]] using o2(2) by simp
  finally show ?case using 2 o2 by simp
qed (simp add: given_args_def)

end
