(* ===== verification/Vk_Flags.thy ===== *)
theory Vk_Flags
  imports Vk_Main Go_Flags
begin

text \<open>
  \<^verbatim>\<open>main\<close> of \<^verbatim>\<open>cmd/virtual-kubelet/main.go\<close>: the flags with what each defaults to, and the command from its arguments to its exit code. \<open>int0\<close> is
  \<^verbatim>\<open>strconv.ParseInt\<close> with base 0, which reads other notations than the decimal one too.
\<close>

section \<open>The flags\<close>

definition text_flag :: "((string \<Rightarrow> string) \<Rightarrow> options \<Rightarrow> options) \<Rightarrow> options flag_kind" where
  "text_flag upd = Valued (\<lambda>v o0. Some (upd (\<lambda>_. v) o0))"

definition vk_table :: "(string \<Rightarrow> int option) \<Rightarrow> options flag_table" where
  "vk_table int0 =
     [(''nodename'', text_flag o_nodeName_update),
      (''tenant'', text_flag o_tenant_update),
      (''namespaces'', text_flag o_namespaces_update),
      (''namespace-selector'', text_flag o_nsSelector_update),
      (''zone'', text_flag o_zone_update),
      (''zun-availability-zone'', text_flag o_zunAZ_update),
      (''arch'', text_flag o_arch_update),
      (''network-id'', text_flag o_networkID_update),
      (''kubeconfig'', text_flag o_kubeconfig_update),
      (''listen'', text_flag o_listenAddr_update),
      (''internal-ip'', text_flag o_internalIP_update),
      (''capacity-cpu'', text_flag o_capacityCPU_update),
      (''capacity-memory'', text_flag o_capacityMem_update),
      (''capacity-pods'', text_flag o_capacityPod_update),
      (''capacity-ephemeral-storage'', text_flag o_capacityEphemeral_update),
      (''vip-network-id'', text_flag o_vipNetwork_update),
      (''vip-subnet-id'', text_flag o_vipSubnet_update),
      (''cluster-domain'', text_flag o_clusterDomain_update),
      (''cluster-dns'', text_flag o_clusterDNS_update),
      (''storage-class'', text_flag o_storageClass_update),
      (''share-type'', text_flag o_shareType_update),
      (''volume-type'', text_flag o_volumeType_update),
      (''convert-network-policy'', text_flag o_convertNetworkPolicy_update),
      (''convert-confirm'', Switch (\<lambda>b. o_convertConfirm_update (\<lambda>_. b))),
      (''platform-namespace'', text_flag o_platformNamespace_update),
      (''shard'', text_flag o_shard_update),
      (''tenant-label'', text_flag o_tenantLabel_update),
      (''enforce-network-policy'', Switch (\<lambda>b. o_enforceNetworkPolicy_update (\<lambda>_. b))),
      (''storage-availability-zone'', text_flag o_storageAZ_update),
      (''dns-service'', text_flag o_dnsService_update),
      (''floating-network-id'', text_flag o_floatingNet_update),
      (''public-services-by-default'', Switch (\<lambda>b. o_publicSvcs_update (\<lambda>_. b))),
      (''tls-cert-file'', text_flag o_tlsCert_update),
      (''tls-private-key-file'', text_flag o_tlsKey_update),
      (''client-ca-file'', text_flag o_clientCA_update),
      (''node'', Valued (\<lambda>v o0. Some (o0\<lparr>o_nodes := nodeSpecList_Set v (o_nodes o0)\<rparr>))),
      (''lease-duration'', Valued (\<lambda>v o0. map_option (\<lambda>n. o0\<lparr>o_leaseSeconds := n\<rparr>) (int0 v))),
      (''ingress-provider'', text_flag o_ingressProvider_update),
      (''ingress-class'', text_flag o_ingressClass_update),
      (''log-level'', text_flag o_logLevel_update)]"

definition main_defaults :: "(string \<Rightarrow> string) \<Rightarrow> options" where
  "main_defaults getenv =
     \<lparr>o_nodeName = getenv ''KUBEZUN_NODE_NAME'',
      o_tenant = getenv ''KUBEZUN_TENANT'',
      o_namespaces = getenv ''KUBEZUN_NAMESPACES'',
      o_zone = getenv ''KUBEZUN_ZONE'',
      o_zunAZ = getenv ''KUBEZUN_ZUN_AZ'',
      o_arch = envOr getenv ''KUBEZUN_ARCH'' ''amd64'',
      o_networkID = getenv ''KUBEZUN_NETWORK_ID'',
      o_kubeconfig = getenv ''KUBECONFIG'',
      o_listenAddr = envOr getenv ''KUBEZUN_LISTEN'' '':10250'',
      o_internalIP = getenv ''KUBEZUN_INTERNAL_IP'',
      o_capacityCPU = envOr getenv ''KUBEZUN_CAPACITY_CPU'' ''0'',
      o_capacityMem = envOr getenv ''KUBEZUN_CAPACITY_MEMORY'' ''0'',
      o_capacityPod = envOr getenv ''KUBEZUN_CAPACITY_PODS'' ''0'',
      o_capacityEphemeral = envOr getenv ''KUBEZUN_CAPACITY_EPHEMERAL'' ''200Gi'',
      o_logLevel = envOr getenv ''KUBEZUN_LOG_LEVEL'' ''info'',
      o_nsSelector = getenv ''KUBEZUN_NAMESPACE_SELECTOR'',
      o_ingressProvider = getenv ''KUBEZUN_INGRESS_PROVIDER'',
      o_ingressClass = envOr getenv ''KUBEZUN_INGRESS_CLASS'' ''knaas'',
      o_leaseSeconds = 40,
      o_nodes = [],
      o_tlsCert = getenv ''KUBEZUN_TLS_CERT_FILE'',
      o_tlsKey = getenv ''KUBEZUN_TLS_KEY_FILE'',
      o_clientCA = getenv ''KUBEZUN_CLIENT_CA_FILE'',
      o_vipSubnet = getenv ''KUBEZUN_VIP_SUBNET_ID'',
      o_vipNetwork = getenv ''KUBEZUN_VIP_NETWORK_ID'',
      o_floatingNet = getenv ''KUBEZUN_FLOATING_NETWORK_ID'',
      o_clusterDomain = envOr getenv ''KUBEZUN_CLUSTER_DOMAIN'' ''svc.cluster.local'',
      o_clusterDNS = getenv ''KUBEZUN_CLUSTER_DNS'',
      o_dnsService = envOr getenv ''KUBEZUN_DNS_SERVICE'' ''kube-system/kube-dns'',
      o_storageClass = envOr getenv ''KUBEZUN_STORAGE_CLASS'' ''on'',
      o_shareType = getenv ''KUBEZUN_SHARE_TYPE'',
      o_volumeType = getenv ''KUBEZUN_VOLUME_TYPE'',
      o_storageAZ = getenv ''KUBEZUN_STORAGE_AZ'',
      o_platformNamespace = getenv ''KUBEZUN_PLATFORM_NAMESPACE'',
      o_shard = getenv ''KUBEZUN_SHARD'',
      o_tenantLabel = envOr getenv ''KUBEZUN_TENANT_LABEL'' ''kubezoo.io/tenant'',
      o_enforceNetworkPolicy = (getenv ''KUBEZUN_ENFORCE_NETWORK_POLICY'' = ''true''),
      o_convertNetworkPolicy = [],
      o_convertConfirm = False,
      o_publicSvcs = False\<rparr>"

text \<open>The exit code and what is written to the standard error; \<^verbatim>\<open>run\<close> returns when it is told to stop.\<close>

definition vk_main ::
  "(string \<Rightarrow> int option) \<Rightarrow> (string \<Rightarrow> string) \<Rightarrow> string list \<Rightarrow> (options \<Rightarrow> ('w, 'a) act) \<Rightarrow> 'w \<Rightarrow> (nat \<times> string option) \<times> 'w" where
  "vk_main int0 getenv args runs w =
     (case parse_args (vk_table int0) args (main_defaults getenv) of
        Inl code \<Rightarrow> ((code, None), w)
      | Inr opts \<Rightarrow>
          (case runs opts w of
             (Inl e, w') \<Rightarrow> ((1, Some (''error: '' @ err_text e)), w')
           | (Inr _, w') \<Rightarrow> ((0, None), w')))"

section \<open>Every flag and its field\<close>

definition show_bool :: "bool \<Rightarrow> string" where
  "show_bool b = (if b then ''true'' else ''false'')"

definition flag_values :: "options \<Rightarrow> (string \<times> string) list" where
  "flag_values o1 =
     [(''nodename'', o_nodeName o1),
      (''tenant'', o_tenant o1),
      (''namespaces'', o_namespaces o1),
      (''namespace-selector'', o_nsSelector o1),
      (''zone'', o_zone o1),
      (''zun-availability-zone'', o_zunAZ o1),
      (''arch'', o_arch o1),
      (''network-id'', o_networkID o1),
      (''kubeconfig'', o_kubeconfig o1),
      (''listen'', o_listenAddr o1),
      (''internal-ip'', o_internalIP o1),
      (''capacity-cpu'', o_capacityCPU o1),
      (''capacity-memory'', o_capacityMem o1),
      (''capacity-pods'', o_capacityPod o1),
      (''capacity-ephemeral-storage'', o_capacityEphemeral o1),
      (''vip-network-id'', o_vipNetwork o1),
      (''vip-subnet-id'', o_vipSubnet o1),
      (''cluster-domain'', o_clusterDomain o1),
      (''cluster-dns'', o_clusterDNS o1),
      (''storage-class'', o_storageClass o1),
      (''share-type'', o_shareType o1),
      (''volume-type'', o_volumeType o1),
      (''convert-network-policy'', o_convertNetworkPolicy o1),
      (''convert-confirm'', show_bool (o_convertConfirm o1)),
      (''platform-namespace'', o_platformNamespace o1),
      (''shard'', o_shard o1),
      (''tenant-label'', o_tenantLabel o1),
      (''enforce-network-policy'', show_bool (o_enforceNetworkPolicy o1)),
      (''storage-availability-zone'', o_storageAZ o1),
      (''dns-service'', o_dnsService o1),
      (''floating-network-id'', o_floatingNet o1),
      (''public-services-by-default'', show_bool (o_publicSvcs o1)),
      (''tls-cert-file'', o_tlsCert o1),
      (''tls-private-key-file'', o_tlsKey o1),
      (''client-ca-file'', o_clientCA o1),
      (''lease-duration'', show_int (o_leaseSeconds o1)),
      (''ingress-provider'', o_ingressProvider o1),
      (''ingress-class'', o_ingressClass o1),
      (''log-level'', o_logLevel o1)]"

lemma parse_show_bool [simp]: "parse_bool (show_bool b) = Some b"
  by (simp add: show_bool_def parse_bool_def)

lemma set_nodes: "set_flags (vk_table int0) (map (Pair ''node'') ns) o0 = Some (o0\<lparr>o_nodes := o_nodes o0 @ ns\<rparr>)"
  by (induction ns arbitrary: o0) (simp_all add: vk_table_def text_flag_def nodeSpecList_Set_def)

lemma flag_names_plain: "list_all (\<lambda>(n, _). plain_name n) (flag_values o1 @ map (Pair ''node'') ns)"
  by (simp add: flag_values_def plain_name_def list_all_iff)

lemma set_flag_values:
  assumes "int0 (show_int (o_leaseSeconds o1)) = Some (o_leaseSeconds o1)"
  shows "set_flags (vk_table int0) (flag_values o1) o0 = Some (o1\<lparr>o_nodes := o_nodes o0\<rparr>)"
  using assms by (cases o1; cases o0) (simp add: flag_values_def vk_table_def text_flag_def)

section \<open>Properties\<close>

text \<open>
  C36. Every setting has its own flag, and what the command line says wins: whatever the environment gave the options, the command line that names each
  flag with the value it has in some other options, and \<^verbatim>\<open>--node\<close> once for each of their nodes, is read as exactly those other options.
\<close>

theorem command_line_read_back:
  assumes "int0 (show_int (o_leaseSeconds o1)) = Some (o_leaseSeconds o1)"
  shows "parse_args (vk_table int0) (given_args (flag_values o1 @ map (Pair ''node'') (o_nodes o1))) (main_defaults getenv) = Inr o1"
proof -
  have "set_flags (vk_table int0) (flag_values o1 @ map (Pair ''node'') (o_nodes o1)) (main_defaults getenv) = Some o1"
    by (simp add: set_flags_append set_flag_values [of int0 o1, OF assms] set_nodes main_defaults_def)
  from parse_given_args [OF this flag_names_plain, of "[]"] show ?thesis by simp
qed

theorem command_line_read_back_witness:
  "parse_args (vk_table (parse_int 64)) (given_args (flag_values sample_flags @ [(''node'', ''name=n2, arch=arm64 ,listen=:10251'')])) (main_defaults (\<lambda>_. ''x'')) = Inr sample_flags"
proof -
  have nodes: "map (Pair ''node'') (o_nodes sample_flags) = [(''node'', ''name=n2, arch=arm64 ,listen=:10251'')]" by (simp add: sample_flags_def)
  have "parse_int 64 (show_int (o_leaseSeconds sample_flags)) = Some (o_leaseSeconds sample_flags)"
    by (rule parse_int_show_int) (simp_all add: sample_flags_def)
  from command_line_read_back [of "parse_int 64" sample_flags "\<lambda>_. ''x''", OF this]
  show ?thesis unfolding nodes .
qed

end
