(* ===== verification/Os_Clients.thy ===== *)
theory Os_Clients
  imports Tenant_Session Netpol_Neutron
begin

text \<open>
  The constructors of the OpenStack clients, \<^verbatim>\<open>client.go\<close> of \<^verbatim>\<open>pkg/service\<close>, \<^verbatim>\<open>pkg/volume\<close>, \<^verbatim>\<open>pkg/netpol\<close> and \<^verbatim>\<open>pkg/zun\<close>: which endpoint a
  client speaks to and with which version. What the catalog of the cloud answers for a service and a region is a parameter. Also \<^verbatim>\<open>cmd/nptest\<close>, which tries
  one of them.
\<close>

section \<open>Clients\<close>

record service_client =
  sc_endpoint :: string
  sc_base :: string
  sc_kind :: string
  sc_microversion :: string

type_synonym catalog = "string \<Rightarrow> string \<Rightarrow> service_client result"

text \<open>A session as a caller holds it: none, or one with or without the client it authenticated.\<close>

definition authenticated :: "(session \<times> bool) option \<Rightarrow> session result" where
  "authenticated client =
     (case client of
        Some (ses, True) \<Rightarrow> Inr ses
      | _ \<Rightarrow> Inl (ErrText ''an authenticated OpenStack session is required''))"

definition in_catalog :: "catalog \<Rightarrow> string \<Rightarrow> (session \<times> bool) option \<Rightarrow> service_client result" where
  "in_catalog cat kind client = bind_r (authenticated client) (\<lambda>ses. cat kind (ses_region ses))"

text \<open>\<^verbatim>\<open>strings.ReplaceAll\<close> with nothing in the place of a text that is not empty.\<close>

function remove_all :: "string \<Rightarrow> string \<Rightarrow> string" where
  "remove_all pat s =
     (if pat = [] \<or> s = [] then s
      else if has_prefix s pat then remove_all pat (drop (length pat) s)
      else hd s # remove_all pat (tl s))"
  by pat_completeness auto
termination
  by (relation "measure (\<lambda>(pat, s). length s)") (auto simp: neq_Nil_conv)

definition with_slash :: "string \<Rightarrow> string" where
  "with_slash ep = (if has_suffix ep ''/'' then ep else ep @ ''/'')"

definition NewOctaviaClient :: "catalog \<Rightarrow> (string \<Rightarrow> string) \<Rightarrow> (session \<times> bool) option \<Rightarrow> service_client result" where
  "NewOctaviaClient cat getenv client =
     bind_r (authenticated client) (\<lambda>ses.
     let ep = trim_space (getenv ''OS_LOADBALANCER_ENDPOINT_OVERRIDE'') in
     if ep \<noteq> [] then
       (let ep' = remove_all ''v2.0/'' (with_slash ep)
        in Inr \<lparr>sc_endpoint = ep', sc_base = ep' @ ''v2.0/'', sc_kind = ''load-balancer'', sc_microversion = []\<rparr>)
     else cat ''load-balancer'' (ses_region ses))"

definition NewNetworkClient :: "catalog \<Rightarrow> (string \<Rightarrow> string) \<Rightarrow> (session \<times> bool) option \<Rightarrow> service_client result" where
  "NewNetworkClient cat getenv client =
     bind_r (authenticated client) (\<lambda>ses.
     let ep = trim_space (getenv ''OS_NETWORK_ENDPOINT_OVERRIDE'') in
     if ep \<noteq> [] then
       Inr \<lparr>sc_endpoint = with_slash ep, sc_base = with_slash ep @ ''v2.0/'', sc_kind = ''network'', sc_microversion = []\<rparr>
     else cat ''network'' (ses_region ses))"

definition NewKeyManagerClient :: "catalog \<Rightarrow> (session \<times> bool) option \<Rightarrow> service_client result" where
  "NewKeyManagerClient cat client = in_catalog cat ''key-manager'' client"

definition NewBlockStorageClient :: "catalog \<Rightarrow> (session \<times> bool) option \<Rightarrow> service_client result" where
  "NewBlockStorageClient cat client = in_catalog cat ''block-storage'' client"

definition NewSharedFSClient :: "catalog \<Rightarrow> (session \<times> bool) option \<Rightarrow> service_client result" where
  "NewSharedFSClient cat client = bind_r (in_catalog cat ''shared-file-system'' client) (\<lambda>sc. Inr (sc\<lparr>sc_microversion := ''2.14''\<rparr>))"

definition netpol_NewClient :: "catalog \<Rightarrow> (session \<times> bool) option \<Rightarrow> service_client result" where
  "netpol_NewClient cat client = in_catalog cat ''network'' client"

text \<open>The capsule service takes its session on trust: none is a panic.\<close>

definition Microversion :: string where "Microversion = ''1.40''"

definition NewServiceClient :: "catalog \<Rightarrow> (session \<times> bool) option \<Rightarrow> service_client result" where
  "NewServiceClient cat client =
     (case client of
        None \<Rightarrow> Inl (ErrPanic ''nil session'')
      | Some (ses, _) \<Rightarrow>
          (case cat ''application-container'' (ses_region ses) of
             Inl e \<Rightarrow> Inl (ErrWrap ''find the container (zun) endpoint'' e)
           | Inr sc \<Rightarrow> Inr (sc\<lparr>sc_kind := ''container'', sc_microversion := Microversion\<rparr>)))"

definition NewCapsuleAPI :: "catalog \<Rightarrow> (session \<times> bool) option \<Rightarrow> service_client result" where
  "NewCapsuleAPI cat client = NewServiceClient cat client"

text \<open>\<^verbatim>\<open>ServiceURL\<close> of the client, which joins the parts with slashes behind its base, or its endpoint where it has none.\<close>

definition capsule_url :: "service_client \<Rightarrow> string list \<Rightarrow> string" where
  "capsule_url sc parts = (if sc_base sc \<noteq> [] then sc_base sc else sc_endpoint sc) @ join_str ''/'' (''capsules'' # parts)"

section \<open>Times\<close>

text \<open>
  \<^verbatim>\<open>Time.UnmarshalJSON\<close> of \<^verbatim>\<open>pkg/zun/capsule.go\<close>: the first layout that reads the text decides, and a text none of them reads is the zero time. \<open>parse\<close> is
  \<^verbatim>\<open>time.Parse\<close>.
\<close>

definition zunTimeLayouts :: "string list" where
  "zunTimeLayouts = [''2006-01-02T15:04:05Z07:00'', ''2006-01-02T15:04:05.999999'', ''2006-01-02 15:04:05.999999'', ''2006-01-02 15:04:05'']"

definition UnmarshalTime :: "(string \<Rightarrow> string \<Rightarrow> time option) \<Rightarrow> string \<Rightarrow> time" where
  "UnmarshalTime parse b =
     (let s = rev (dropWhile (\<lambda>c. c = CHR 0x22) (rev (dropWhile (\<lambda>c. c = CHR 0x22) b))) in
      if s = [] \<or> s = ''null'' then 0
      else case find (\<lambda>l. parse l s \<noteq> None) zunTimeLayouts of None \<Rightarrow> 0 | Some l \<Rightarrow> the (parse l s))"

section \<open>The tool\<close>

text \<open>A client that cannot be built is a panic; what is printed is the outcome of \<open>EnsureBaseline\<close>.\<close>

definition nptest_main :: "unit result \<Rightarrow> 'w neutron_api result \<Rightarrow> 'w \<Rightarrow> string result \<times> 'w" where
  "nptest_main session network w =
     (case session of
        Inl e \<Rightarrow> (Inl (ErrPanic (err_text e)), w)
      | Inr _ \<Rightarrow>
          (case network of
             Inl e \<Rightarrow> (Inl (ErrPanic (err_text e)), w)
           | Inr n \<Rightarrow>
               (case EnsureBaseline n w of
                  (Inl e, w') \<Rightarrow> (Inr (''FAILED '' @ err_text e), w')
                | (Inr (ingress, egress), w') \<Rightarrow> (Inr (''baseline: '' @ ingress @ '' '' @ egress), w'))))"

section \<open>Lemmas\<close>

declare remove_all.simps [simp del]

lemma remove_all_Nil [simp]: "remove_all pat [] = []"
  by (simp add: remove_all.simps)

lemma remove_all_shorter: "length (remove_all pat s) \<le> length s"
proof (induction pat s rule: remove_all.induct)
  case (1 pat s)
  then show ?case by (subst remove_all.simps) (auto simp: Suc_le_eq neq_Nil_conv)
qed

text \<open>A text without the version, and the version behind it.\<close>

lemma version_not_split: "s \<noteq> [] \<Longrightarrow> has_prefix (s @ ''v2.0/'') ''v2.0/'' \<Longrightarrow> has_prefix s ''v2.0/''"
  by (cases s; cases "tl s"; cases "tl (tl s)"; cases "tl (tl (tl s))"; cases "tl (tl (tl (tl s)))") (auto simp: has_prefix_def)

lemma remove_version:
  assumes "remove_all ''v2.0/'' s = s"
  shows "remove_all ''v2.0/'' (s @ ''v2.0/'') = s"
  using assms
proof (induction s)
  case Nil
  show ?case by (subst remove_all.simps) (simp add: has_prefix_def)
next
  case (Cons c s)
  have not_here: "\<not> has_prefix (c # s) ''v2.0/''"
  proof
    assume here: "has_prefix (c # s) ''v2.0/''"
    then have "remove_all ''v2.0/'' (drop (length ''v2.0/'') (c # s)) = c # s" using Cons.prems by (subst (asm) remove_all.simps) simp
    then have "length (c # s) \<le> length (drop (length ''v2.0/'') (c # s))" using remove_all_shorter by metis
    then show False by simp
  qed
  with Cons.prems have "remove_all ''v2.0/'' s = s" by (subst (asm) remove_all.simps) simp
  moreover have "\<not> has_prefix ((c # s) @ ''v2.0/'') ''v2.0/''" using version_not_split [of "c # s"] not_here by blast
  ultimately show ?case using Cons.IH by (subst remove_all.simps) simp
qed

lemma strip_id: "s \<noteq> [] \<Longrightarrow> \<not> P (hd s) \<Longrightarrow> \<not> P (last s) \<Longrightarrow> rev (dropWhile P (rev (dropWhile P s))) = s"
  using dropWhile_eq_self_iff [of P s] dropWhile_eq_self_iff [of P "rev s"] by (simp add: hd_rev)

lemma trim_space_id: "s \<noteq> [] \<Longrightarrow> \<not> is_space (hd s) \<Longrightarrow> \<not> is_space (last s) \<Longrightarrow> trim_space s = s"
  by (simp add: trim_space_def strip_id)

section \<open>Properties\<close>

text \<open>
  C37. The address of the load balancers may be given as one likes: with or without the slash at its end, with or without the version behind it, the client speaks to the
  same endpoint, with the version in its paths exactly once.
\<close>

theorem override_normalised:
  assumes "remove_all ''v2.0/'' (b @ ''/'') = b @ ''/''" and "b \<noteq> []" and "\<not> is_space (hd b)" and "\<not> is_space (last b)" and "last b \<noteq> CHR ''/''"
    and "getenv ''OS_LOADBALANCER_ENDPOINT_OVERRIDE'' \<in> {b, b @ ''/'', b @ ''/v2.0'', b @ ''/v2.0/''}"
  shows "NewOctaviaClient cat getenv (Some (ses, True)) = Inr \<lparr>sc_endpoint = b @ ''/'', sc_base = b @ ''/v2.0/'', sc_kind = ''load-balancer'', sc_microversion = []\<rparr>"
proof -
  let ?ep = "getenv ''OS_LOADBALANCER_ENDPOINT_OVERRIDE''"
  have trim: "trim_space ?ep = ?ep" "?ep \<noteq> []"
    using assms(2-4,6) by (auto intro!: trim_space_id simp: is_space_def)
  have "with_slash ?ep \<in> {b @ ''/'', b @ ''/v2.0/''}"
    using assms(2,5,6) by (cases b rule: rev_cases) (auto simp: with_slash_def has_suffix_def has_prefix_def)
  then have "remove_all ''v2.0/'' (with_slash ?ep) = b @ ''/''"
    using assms(1) remove_version [OF assms(1)] by auto
  with trim show ?thesis by (simp add: NewOctaviaClient_def authenticated_def Let_def)
qed

text \<open>
  The address of the network service is not looked after in the same way: given with its version, the version is in the paths twice; and the client that writes
  policies does not look at it at all, so policies and public addresses may be sent to different clouds.
\<close>

theorem network_override_doubled:
  assumes "b \<noteq> []" and "\<not> is_space (hd b)" and "getenv ''OS_NETWORK_ENDPOINT_OVERRIDE'' = b @ ''/v2.0''"
  shows "NewNetworkClient cat getenv (Some (ses, True)) = Inr \<lparr>sc_endpoint = b @ ''/v2.0/'', sc_base = b @ ''/v2.0/v2.0/'', sc_kind = ''network'', sc_microversion = []\<rparr>"
proof -
  have "trim_space (b @ ''/v2.0'') = b @ ''/v2.0''" using assms by (auto intro!: trim_space_id simp: is_space_def)
  with assms show ?thesis by (simp add: NewNetworkClient_def authenticated_def with_slash_def has_suffix_def has_prefix_def Let_def)
qed

theorem network_clients_disagree:
  assumes "trim_space (getenv ''OS_NETWORK_ENDPOINT_OVERRIDE'') \<noteq> []" and "cat ''network'' (ses_region ses) = Inr sc"
    and "sc_endpoint sc \<noteq> with_slash (trim_space (getenv ''OS_NETWORK_ENDPOINT_OVERRIDE''))"
  shows "netpol_NewClient cat (Some (ses, True)) = Inr sc \<and> NewNetworkClient cat getenv (Some (ses, True)) \<noteq> Inr sc"
  using assms by (auto simp: netpol_NewClient_def in_catalog_def NewNetworkClient_def authenticated_def Let_def)

text \<open>A timestamp never fails a capsule: it is what the first layout that reads it says, and the zero time where none does.\<close>

theorem timestamps_decoded:
  assumes "CHR 0x22 \<notin> set s" and "s \<noteq> []" and "s \<noteq> ''null''"
  shows "UnmarshalTime parse (CHR 0x22 # s @ [CHR 0x22]) = 0 \<and> (\<forall>l \<in> set zunTimeLayouts. parse l s = None) \<or>
    (\<exists>ls l ls'. zunTimeLayouts = ls @ l # ls' \<and> (\<forall>m \<in> set ls. parse m s = None) \<and> parse l s = Some (UnmarshalTime parse (CHR 0x22 # s @ [CHR 0x22])))"
proof -
  have inner: "rev (dropWhile (\<lambda>c. c = CHR 0x22) (rev (dropWhile (\<lambda>c. c = CHR 0x22) (CHR 0x22 # s @ [CHR 0x22])))) = s"
  proof -
    have "hd s \<noteq> CHR 0x22" "last s \<noteq> CHR 0x22" using assms(1,2) by (metis list.set_sel(1), metis last_in_set)
    with assms(2) show ?thesis
      using dropWhile_eq_self_iff [of "\<lambda>c. c = CHR 0x22" "s @ [CHR 0x22]"] dropWhile_eq_self_iff [of "\<lambda>c. c = CHR 0x22" "rev s"] by (simp add: hd_rev)
  qed
  show ?thesis
  proof (cases "find (\<lambda>l. parse l s \<noteq> None) zunTimeLayouts")
    case None
    then have "UnmarshalTime parse (CHR 0x22 # s @ [CHR 0x22]) = 0" unfolding UnmarshalTime_def Let_def inner by simp
    moreover from None have "\<forall>l \<in> set zunTimeLayouts. parse l s = None" by (auto simp: find_None_iff)
    ultimately show ?thesis by blast
  next
    case (Some l)
    then obtain i where i: "i < length zunTimeLayouts" "parse (zunTimeLayouts ! i) s \<noteq> None" "l = zunTimeLayouts ! i" "\<forall>j < i. parse (zunTimeLayouts ! j) s = None"
      by (auto simp: find_Some_iff)
    have "UnmarshalTime parse (CHR 0x22 # s @ [CHR 0x22]) = the (parse l s)"
      unfolding UnmarshalTime_def Let_def inner using assms(2,3) Some by simp
    with i show ?thesis
      by (intro disjI2 exI [of _ "take i zunTimeLayouts"] exI [of _ l] exI [of _ "drop (Suc i) zunTimeLayouts"]) (auto simp: id_take_nth_drop [symmetric] in_set_conv_nth)
  qed
qed

theorem override_normalised_witness:
  "NewOctaviaClient (\<lambda>_ _. Inl ErrNotFound) (\<lambda>_. ''http://octavia:9876/v2.0'') (Some (\<lparr>ses_project = ''p'', ses_region = ''r''\<rparr>, True)) =
    Inr \<lparr>sc_endpoint = ''http://octavia:9876/'', sc_base = ''http://octavia:9876/v2.0/'', sc_kind = ''load-balancer'', sc_microversion = []\<rparr>"
proof -
  have "remove_all ''v2.0/'' (''http://octavia:9876'' @ ''/'') = ''http://octavia:9876'' @ ''/''" by code_simp
  from override_normalised [OF this, of "\<lambda>_. ''http://octavia:9876/v2.0''"] show ?thesis by (simp add: is_space_def)
qed

end
