(* ===== verification/Ingress_Bundle.thy ===== *)
theory Ingress_Bundle
  imports Ingress_Reconciler
begin

text \<open>
  \<^verbatim>\<open>toPKCS12\<close> and \<^verbatim>\<open>parsePrivateKey\<close> of \<^verbatim>\<open>pkg/ingress/barbican.go\<close>: the bundle a TLS Ingress stores. The decoding of PEM and of certificates and keys, and the encoding of
  the bundle, are libraries and parameters; \<open>pem_law\<close> says what is relied on of the first, that a block that is found takes up some of the text.
\<close>

section \<open>The bundle\<close>

record pem_block =
  pm_kind :: string
  pm_bytes :: string

record ('c, 'k) crypto =
  pem_Decode :: "string \<Rightarrow> (pem_block \<times> string) option"
  x_cert :: "string \<Rightarrow> 'c result"
  x_pkcs8 :: "string \<Rightarrow> 'k result"
  x_pkcs1 :: "string \<Rightarrow> 'k result"
  x_ec :: "string \<Rightarrow> 'k result"
  x_encode :: "'k \<Rightarrow> 'c \<Rightarrow> 'c list \<Rightarrow> string result"

definition parsePrivateKey :: "('c, 'k) crypto \<Rightarrow> string \<Rightarrow> 'k result" where
  "parsePrivateKey A der =
     (case x_pkcs8 A der of Inr k \<Rightarrow> Inr k
      | Inl _ \<Rightarrow> (case x_pkcs1 A der of Inr k \<Rightarrow> Inr k
      | Inl _ \<Rightarrow> (case x_ec A der of Inr k \<Rightarrow> Inr k
      | Inl _ \<Rightarrow> Inl (ErrText ''tls.key is not PKCS8/PKCS1/EC''))))"

text \<open>The loop over the blocks of the certificate file. A block takes at least one character, so one turn more than the text is long is enough.\<close>

definition no_turns_left :: err where "no_turns_left = ErrText ''out of fuel''"

fun chainLoop :: "('c, 'k) crypto \<Rightarrow> nat \<Rightarrow> string \<Rightarrow> 'c list \<Rightarrow> 'c list result" where
  "chainLoop A 0 rest chain = Inl no_turns_left"
| "chainLoop A (Suc n) rest chain =
     (case pem_Decode A rest of
        None \<Rightarrow> Inr chain
      | Some (block, rest') \<Rightarrow>
          if pm_kind block \<noteq> ''CERTIFICATE'' then chainLoop A n rest' chain
          else (case x_cert A (pm_bytes block) of
                  Inl e \<Rightarrow> Inl (ErrWrap ''parsing certificate'' e)
                | Inr c \<Rightarrow> chainLoop A n rest' (chain @ [c])))"

definition toPKCS12 :: "('c, 'k) crypto \<Rightarrow> string \<Rightarrow> string \<Rightarrow> string result" where
  "toPKCS12 A crtPEM keyPEM =
     bind_r (chainLoop A (Suc (length crtPEM)) crtPEM []) (\<lambda>chain.
     if chain = [] then Inl (ErrText ''no CERTIFICATE block in tls.crt'')
     else case pem_Decode A keyPEM of
       None \<Rightarrow> Inl (ErrText ''no PEM block in tls.key'')
     | Some (block, _) \<Rightarrow> bind_r (parsePrivateKey A (pm_bytes block)) (\<lambda>key. x_encode A key (hd chain) (tl chain)))"

section \<open>What it reads\<close>

definition pem_law :: "('c, 'k) crypto \<Rightarrow> bool" where
  "pem_law A \<longleftrightarrow> (\<forall>s b r. pem_Decode A s = Some (b, r) \<longrightarrow> length r < length s)"

text \<open>The blocks of a text, in order.\<close>

inductive pem_reads :: "('c, 'k) crypto \<Rightarrow> string \<Rightarrow> pem_block list \<Rightarrow> bool" for A where
  pem_end: "pem_Decode A s = None \<Longrightarrow> pem_reads A s []"
| pem_block: "pem_Decode A s = Some (b, r) \<Longrightarrow> pem_reads A r bs \<Longrightarrow> pem_reads A s (b # bs)"

lemma pem_reads_exists:
  assumes "pem_law A"
  shows "\<exists>bs. pem_reads A s bs"
proof (induction "length s" arbitrary: s rule: less_induct)
  case less
  show ?case
  proof (cases "pem_Decode A s")
    case (Some br)
    then obtain b r where br: "pem_Decode A s = Some (b, r)" by (cases br) auto
    with assms less obtain bs where "pem_reads A r bs" unfolding pem_law_def by blast
    with br show ?thesis by (blast intro: pem_block)
  qed (blast intro: pem_end)
qed

definition certs_of :: "('c, 'k) crypto \<Rightarrow> pem_block list \<Rightarrow> 'c list result" where
  "certs_of A bs =
     map_r (\<lambda>b. case x_cert A (pm_bytes b) of Inl e \<Rightarrow> Inl (ErrWrap ''parsing certificate'' e) | Inr c \<Rightarrow> Inr c)
       (filter (\<lambda>b. pm_kind b = ''CERTIFICATE'') bs)"

lemma bind_r_bind_r: "bind_r (bind_r r f) g = bind_r r (\<lambda>x. bind_r (f x) g)"
  by (cases r) simp_all

lemma chainLoop_reads:
  assumes "pem_reads A s bs" and "pem_law A" and "length s < n"
  shows "chainLoop A n s chain = bind_r (certs_of A bs) (\<lambda>cs. Inr (chain @ cs))"
  using assms(1,3)
proof (induction arbitrary: n chain rule: pem_reads.induct)
  case (pem_end s)
  then show ?case by (cases n) (simp_all add: certs_of_def)
next
  case (pem_block s b r bs)
  have "length r < length s" using assms(2) pem_block.hyps(1) unfolding pem_law_def by blast
  with pem_block.prems obtain m where m: "n = Suc m" "length r < m" by (cases n) auto
  show ?case
    unfolding m(1) chainLoop.simps pem_block.hyps(1)
    using pem_block.IH [OF m(2)] by (auto simp: certs_of_def bind_r_bind_r split: sum.splits)
qed

lemma wrapped_Inr_iff: "(case r of Inl e \<Rightarrow> Inl (ErrWrap m e) | Inr c \<Rightarrow> Inr c) = Inr y \<longleftrightarrow> r = Inr y"
  by (cases r) simp_all

lemma certs_of_Inr_iff:
  "certs_of A bs = Inr cs \<longleftrightarrow>
   list_all2 (\<lambda>b c. x_cert A (pm_bytes b) = Inr c) (filter (\<lambda>b. pm_kind b = ''CERTIFICATE'') bs) cs"
  by (simp add: certs_of_def map_r_Inr_iff wrapped_Inr_iff)

lemma toPKCS12_reads:
  assumes "pem_reads A crt bs" and "pem_law A"
  shows "toPKCS12 A crt key = Inr pfx \<longleftrightarrow>
    (\<exists>c cs b rest k. certs_of A bs = Inr (c # cs) \<and> pem_Decode A key = Some (b, rest) \<and>
       parsePrivateKey A (pm_bytes b) = Inr k \<and> x_encode A k c cs = Inr pfx)"
proof -
  have loop: "chainLoop A (Suc (length crt)) crt [] = certs_of A bs"
    using chainLoop_reads [OF assms, of "Suc (length crt)" "[]"] by (cases "certs_of A bs") simp_all
  show ?thesis
  proof (cases "certs_of A bs")
    case (Inr chain)
    then show ?thesis unfolding toPKCS12_def loop by (cases chain) (auto simp: bind_r_Inr_iff split: option.splits)
  qed (unfold toPKCS12_def loop, simp)
qed

text \<open>
  C24. A bundle is complete. The blocks of the certificate file are always read to their end, and a bundle is made exactly when every certificate among them can be read and there is
  one, the key file has a block and that block is a key the three formats know: the bundle then has the first certificate as its own, all the others in their order behind it, and that key.
\<close>

theorem bundle_complete:
  assumes "pem_law A"
  shows "\<exists>bs. pem_reads A crt bs \<and> (\<forall>pfx. toPKCS12 A crt key = Inr pfx \<longleftrightarrow>
    (\<exists>c cs b rest k.
       list_all2 (\<lambda>b c. x_cert A (pm_bytes b) = Inr c) (filter (\<lambda>b. pm_kind b = ''CERTIFICATE'') bs) (c # cs) \<and>
       pem_Decode A key = Some (b, rest) \<and> parsePrivateKey A (pm_bytes b) = Inr k \<and> x_encode A k c cs = Inr pfx))"
proof -
  obtain bs where bs: "pem_reads A crt bs" using pem_reads_exists [OF assms] by blast
  show ?thesis
    using bs toPKCS12_reads [OF bs assms] unfolding certs_of_Inr_iff by blast
qed

text \<open>A small format: each character is a block, the letters certificates, \<open>!\<close> the parameters of a curve and the other marks keys.\<close>

definition plain_crypto :: "(string, string) crypto" where
  "plain_crypto = \<lparr>
     pem_Decode = (\<lambda>s. case s of [] \<Rightarrow> None | c # r \<Rightarrow>
       Some (\<lparr>pm_kind = (if c \<in> set ''abc'' then ''CERTIFICATE'' else if c = CHR ''!'' then ''EC PARAMETERS'' else ''PRIVATE KEY''), pm_bytes = [c]\<rparr>, r)),
     x_cert = Inr,
     x_pkcs8 = (\<lambda>d. if d = ''#'' then Inr d else Inl (ErrText ''not PKCS8'')),
     x_pkcs1 = (\<lambda>d. Inl (ErrText ''not PKCS1'')),
     x_ec = (\<lambda>d. if d = ''$'' then Inr d else Inl (ErrText ''not EC'')),
     x_encode = (\<lambda>k c cs. Inr (k @ c @ concat cs))\<rparr>"

lemma plain_crypto_law: "pem_law plain_crypto"
  by (simp add: pem_law_def plain_crypto_def split: list.splits)

theorem bundle_complete_witness:
  "pem_law plain_crypto \<and> toPKCS12 plain_crypto ''a#b'' ''$'' = Inr ''$ab'' \<and>
   (\<exists>bs. pem_reads plain_crypto ''a#b'' bs \<and>
     (\<exists>c cs. list_all2 (\<lambda>b c. x_cert plain_crypto (pm_bytes b) = Inr c) (filter (\<lambda>b. pm_kind b = ''CERTIFICATE'') bs) (c # cs)))"
proof -
  have made: "toPKCS12 plain_crypto ''a#b'' ''$'' = Inr ''$ab''" by code_simp
  show ?thesis
    using bundle_complete [OF plain_crypto_law, of "''a#b''" "''$''"] made plain_crypto_law by blast
qed

text \<open>
  Only the first block of the key file is tried. \<^verbatim>\<open>openssl ecparam -genkey\<close> writes the parameters of the curve before the key, so such a file is refused whatever key follows,
  where another block of the certificate file would be passed over.
\<close>

lemma first_block_is_no_key:
  assumes "pem_Decode A key = Some (b, rest)" and "parsePrivateKey A (pm_bytes b) = Inl e"
  shows "toPKCS12 A crt key \<noteq> Inr pfx"
  using assms by (auto simp: toPKCS12_def bind_r_Inr_iff)

theorem curve_parameters_refused:
  "toPKCS12 plain_crypto ''a'' ''$'' = Inr ''$a'' \<and>
   toPKCS12 plain_crypto ''a'' ''!$'' = Inl (ErrText ''tls.key is not PKCS8/PKCS1/EC'')"
  by code_simp

end
