(* ===== verification/Work_Queue.thy ===== *)
theory Work_Queue
  imports Netpol_Controller Service_Controller Ingress_Controller Volume_Reconciler
begin

text \<open>
  The four controllers as they run: \<^verbatim>\<open>NewController\<close> with its event handlers, and the loop \<^verbatim>\<open>processNext\<close> of
  \<^verbatim>\<open>pkg/service/controller.go\<close>, \<^verbatim>\<open>pkg/ingress/controller.go\<close>, \<^verbatim>\<open>pkg/volume/controller.go\<close> and \<^verbatim>\<open>pkg/netpol/controller.go\<close>. Events and workers
  interleave in any order; the theorems say that no change is lost.
\<close>

section \<open>Runs of a queue\<close>

text \<open>
  A run is the list of what happened, the latest first. A controller is taken as it stands at each step, since its caches change; a turn is recorded with the
  world it started from. The queue is the documented one of client-go without order and delay: which keys wait (\<open>p\<close>), and which are being worked on (\<open>b\<close>). A key
  waits once however often it is added, it is never given to two workers, and when it is added while it is being worked on it waits again. \<open>turn\<close> answers the keys
  a turn adds, and whether it came to its end, which a panic keeps it from.
\<close>

datatype ('c, 'e, 'k, 'v) qlabel = Event 'c 'e | Got 'k | Turned 'c 'k 'v

inductive queue_run :: "('c \<Rightarrow> 'e \<Rightarrow> 'k set) \<Rightarrow> ('c \<Rightarrow> 'k \<Rightarrow> 'v \<Rightarrow> 'k set \<times> bool) \<Rightarrow> ('c, 'e, 'k, 'v) qlabel list \<Rightarrow> 'k set \<Rightarrow> 'k set \<Rightarrow> bool"
  for handler :: "'c \<Rightarrow> 'e \<Rightarrow> 'k set" and turn :: "'c \<Rightarrow> 'k \<Rightarrow> 'v \<Rightarrow> 'k set \<times> bool" where
  idle: "queue_run handler turn [] {} {}"
| event: "queue_run handler turn tr p b \<Longrightarrow> queue_run handler turn (Event c e # tr) (p \<union> handler c e) b"
| take: "queue_run handler turn tr p b \<Longrightarrow> k \<in> p \<Longrightarrow> k \<notin> b \<Longrightarrow> queue_run handler turn (Got k # tr) (p - {k}) (insert k b)"
| work: "queue_run handler turn tr p b \<Longrightarrow> k \<in> b \<Longrightarrow> turn c k v = (again, True) \<Longrightarrow> queue_run handler turn (Turned c k v # tr) (p \<union> again) (b - {k})"

inductive_cases queue_run_NilE: "queue_run handler turn [] p b"
inductive_cases queue_run_EventE: "queue_run handler turn (Event c e # tr) p b"
inductive_cases queue_run_GotE: "queue_run handler turn (Got k # tr) p b"
inductive_cases queue_run_TurnedE: "queue_run handler turn (Turned c k v # tr) p b"

lemma queue_run_unique:
  assumes "queue_run handler turn tr p b" and "queue_run handler turn tr p' b'"
  shows "p' = p \<and> b' = b"
  using assms
proof (induction arbitrary: p' b' rule: queue_run.induct)
  case idle
  then show ?case by (auto elim: queue_run_NilE)
next
  case (event tr p b c e)
  from event.prems obtain q where "queue_run handler turn tr q b'" "p' = q \<union> handler c e" by (rule queue_run_EventE)
  with event.IH show ?case by blast
next
  case (take tr p b k)
  from take.prems obtain q d where "queue_run handler turn tr q d" "p' = q - {k}" "b' = insert k d" by (rule queue_run_GotE)
  with take.IH show ?case by blast
next
  case (work tr p b k c v again)
  from work.prems obtain q d more where "queue_run handler turn tr q d" "p' = q \<union> more" "b' = d - {k}" "turn c k v = (more, True)" by (rule queue_run_TurnedE)
  with work.IH work.hyps show ?case by auto
qed

text \<open>
  What is left to do falls with every step of the workers: where no event comes in and no turn puts its key back, each waiting key takes two more steps, each key being worked on
  one.
\<close>

lemma queue_run_measure:
  assumes "queue_run handler turn (tr' @ tr) p' b'" and "queue_run handler turn tr p b" and "finite p" and "finite b"
    and "\<forall>l \<in> set tr'. case l of Event c e \<Rightarrow> False | Got k \<Rightarrow> True | Turned c k v \<Rightarrow> fst (turn c k v) = {}"
  shows "finite p' \<and> finite b' \<and> 2 * card p' + card b' + length tr' = 2 * card p + card b"
  using assms
proof (induction tr' arbitrary: p' b')
  case Nil
  then show ?case using queue_run_unique by fastforce
next
  case (Cons l tr')
  from Cons.prems(1) show ?case
  proof (cases rule: queue_run.cases)
    case (take trx px bx k)
    then have ih: "finite px \<and> finite bx \<and> 2 * card px + card bx + length tr' = 2 * card p + card b"
      using Cons.IH [of px bx] Cons.prems by auto
    moreover from ih take have "card px > 0" "card (px - {k}) = card px - 1" "card (insert k bx) = card bx + 1" by (auto simp: card_gt_0_iff)
    ultimately show ?thesis using take by (simp add: algebra_simps) linarith
  next
    case (work trx px bx k c v again)
    then have ih: "finite px \<and> finite bx \<and> 2 * card px + card bx + length tr' = 2 * card p + card b"
      using Cons.IH [of px bx] Cons.prems by auto
    moreover from ih work have "card bx > 0" "card (bx - {k}) = card bx - 1" by (auto simp: card_gt_0_iff)
    moreover have "again = {}" using Cons.prems(5) work by auto
    ultimately show ?thesis using work by (simp add: algebra_simps) linarith
  qed (use Cons.prems(5) in auto)
qed

text \<open>A key was taken up and dealt with in the given stretch of a run.\<close>

definition dealt_with :: "('c \<Rightarrow> 'k \<Rightarrow> 'v \<Rightarrow> bool) \<Rightarrow> 'k \<Rightarrow> ('c, 'e, 'k, 'v) qlabel list \<Rightarrow> bool" where
  "dealt_with ok k tr \<longleftrightarrow> (\<exists>l1 c v l2. tr = l1 @ Turned c k v # l2 \<and> Got k \<in> set l2 \<and> ok c k v)"

lemma dealt_with_Cons: "dealt_with ok k tr \<Longrightarrow> dealt_with ok k (l # tr)"
  unfolding dealt_with_def by (metis append_Cons)

lemma dealt_with_now: "Got k \<in> set tr \<Longrightarrow> ok c k v \<Longrightarrow> dealt_with ok k (Turned c k v # tr)"
  unfolding dealt_with_def by (metis append_Nil)

text \<open>What a controller promises of its turns: a turn that ends has settled its key or puts it back.\<close>

locale level_triggered =
  fixes handler :: "'c \<Rightarrow> 'e \<Rightarrow> 'k set" and turn :: "'c \<Rightarrow> 'k \<Rightarrow> 'v \<Rightarrow> 'k set \<times> bool" and ok :: "'c \<Rightarrow> 'k \<Rightarrow> 'v \<Rightarrow> bool"
  assumes retried: "turn c k v = (again, True) \<Longrightarrow> ok c k v \<or> k \<in> again"
begin

lemma no_change_lost:
  assumes "queue_run handler turn tr p b" and "tr = later @ Event c e # earlier" and "k \<in> handler c e"
  shows "k \<in> p \<or> (k \<in> b \<and> Got k \<in> set later) \<or> dealt_with ok k later"
  using assms
proof (induction arbitrary: later rule: queue_run.induct)
  case (event tr p b c' e')
  then show ?case by (cases later) (auto simp: dealt_with_Cons)
next
  case (take tr p b k')
  then obtain later' where "later = Got k' # later'" "tr = later' @ Event c e # earlier" by (cases later) auto
  with take show ?case by (auto simp: dealt_with_Cons)
next
  case (work tr p b k' c' v again)
  then obtain later' where later: "later = Turned c' k' v # later'" "tr = later' @ Event c e # earlier" by (cases later) auto
  with work have "k \<in> p \<or> (k \<in> b \<and> Got k \<in> set later') \<or> dealt_with ok k later'" by blast
  then show ?case using later retried [OF work.hyps(3)] by (auto simp: dealt_with_Cons dealt_with_now)
qed simp

end

section \<open>The keys of operations\<close>

fun adds :: "queue_op \<Rightarrow> string option" where
  "adds (Add k) = Some k"
| "adds (AddAfter k _) = Some k"
| "adds (AddRateLimited k) = Some k"
| "adds _ = None"

definition added :: "queue_op list \<Rightarrow> string set" where
  "added ops = set (List.map_filter adds ops)"

lemma added_simps [simp]: "added [] = {}" "added (op # ops) = (case adds op of None \<Rightarrow> added ops | Some k \<Rightarrow> insert k (added ops))"
  by (auto simp: added_def List.map_filter_def split: option.splits)

fun current :: "'o event \<Rightarrow> 'o event_obj" where
  "current (Added obj) = obj"
| "current (Updated _ obj) = obj"
| "current (Deleted obj) = obj"

section \<open>Services\<close>

text \<open>What the registrations with the two informers answer may be an error; a scoped source takes every handler.\<close>

definition svc_NewController :: "'v service_rec option \<Rightarrow> bool \<Rightarrow> unit result \<Rightarrow> unit result \<Rightarrow> 'v svc_controller result" where
  "svc_NewController r events onServices onSlices =
     (case r of
        None \<Rightarrow> Inl (ErrText ''a reconciler is required'')
      | Some r \<Rightarrow> bind_r onServices (\<lambda>_. bind_r onSlices (\<lambda>_. Inr \<lparr>sw_main = r, sw_for = None, sw_each = None, sw_events = events\<rparr>)))"

definition svc_NewControllerFromSource :: "'v service_rec option \<Rightarrow> bool \<Rightarrow> 'v svc_controller result" where
  "svc_NewControllerFromSource r events = svc_NewController r events (Inr ()) (Inr ())"

datatype svc_event = ServiceEvent "service_obj event" | SliceEvent "slice event"

fun svc_handler :: "svc_event \<Rightarrow> queue_op list" where
  "svc_handler (ServiceEvent ev) = enqueueService (current ev)"
| "svc_handler (SliceEvent ev) = enqueueSlice (current ev)"

definition svc_queued :: "'v svc_controller \<Rightarrow> svc_event \<Rightarrow> string set" where
  "svc_queued C ev = added (svc_handler ev)"

definition svc_processNext :: "'v svc_controller \<Rightarrow> string \<Rightarrow> 'v \<Rightarrow> string set \<times> bool" where
  "svc_processNext C key v = (case svc_turn C key v of (ops, _) \<Rightarrow> (added ops, Done key \<in> set ops))"

text \<open>The Service of a key has been reconciled, or is none of this process.\<close>

definition svc_ok :: "'v svc_controller \<Rightarrow> string \<Rightarrow> 'v \<Rightarrow> bool" where
  "svc_ok C key v \<longleftrightarrow>
     (\<forall>ns n. split_key key = Inr (ns, n) \<longrightarrow> svc_serves C ns \<longrightarrow>
       (\<exists>r v1 v2. svc_reconcilerOf C ns v = (Inr r, v1) \<and> Reconcile r ns n v1 = (Inr (), v2)))"

interpretation svcq: level_triggered svc_queued svc_processNext svc_ok
  by unfold_locales (auto simp: svc_processNext_def svc_turn_def svc_ok_def split: prod.splits sum.splits if_splits)

section \<open>Ingresses\<close>

definition ing_NewController :: "'v ingress_rec option \<Rightarrow> unit result \<Rightarrow> unit result \<Rightarrow> 'v ing_controller result" where
  "ing_NewController r onIngresses onSlices =
     (case r of
        None \<Rightarrow> Inl (ErrText ''a reconciler is required'')
      | Some r \<Rightarrow> bind_r onIngresses (\<lambda>_. bind_r onSlices (\<lambda>_. Inr \<lparr>iw_main = r, iw_for = None, iw_each = None\<rparr>)))"

definition ing_NewControllerFromSource :: "'v ingress_rec option \<Rightarrow> 'v ing_controller result" where
  "ing_NewControllerFromSource r = ing_NewController r (Inr ()) (Inr ())"

datatype ing_event = IngressEvent "ingress_obj event" | IngressSlice "slice event"

fun ing_handler :: "'v ing_controller \<Rightarrow> ing_event \<Rightarrow> queue_op list" where
  "ing_handler C (IngressEvent ev) = enqueueIngress (current ev)"
| "ing_handler C (IngressSlice ev) = ing_enqueueSlice C (current ev)"

definition ing_queued :: "'v ing_controller \<Rightarrow> ing_event \<Rightarrow> string set" where
  "ing_queued C ev = added (ing_handler C ev)"

definition ing_processNext :: "'v ing_controller \<Rightarrow> string \<Rightarrow> 'v \<Rightarrow> string set \<times> bool" where
  "ing_processNext C key v = (case ing_turn C key v of (ops, _) \<Rightarrow> (added ops, Done key \<in> set ops))"

definition ing_ok :: "'v ing_controller \<Rightarrow> string \<Rightarrow> 'v \<Rightarrow> bool" where
  "ing_ok C key v \<longleftrightarrow>
     (\<forall>ns n. split_key key = Inr (ns, n) \<longrightarrow> ing_serves C ns \<longrightarrow>
       (\<exists>r v1 v2. ing_reconcilerOf C ns v = (Inr r, v1) \<and> ing_Reconcile r ns n v1 = (Inr (), v2)))"

interpretation ingq: level_triggered ing_queued ing_processNext ing_ok
  by unfold_locales (auto simp: ing_processNext_def ing_turn_def ing_ok_def split: prod.splits sum.splits if_splits)

section \<open>Claims\<close>

definition vol_NewController :: "'v volume_rec option \<Rightarrow> unit result \<Rightarrow> 'v vol_controller result" where
  "vol_NewController r onClaims =
     (case r of
        None \<Rightarrow> Inl (ErrText ''a reconciler is required'')
      | Some r \<Rightarrow> bind_r onClaims (\<lambda>_. Inr \<lparr>vw_main = r, vw_for = None, vw_each = None\<rparr>))"

definition vol_NewControllerFromSource :: "'v volume_rec option \<Rightarrow> 'v vol_controller result" where
  "vol_NewControllerFromSource r = vol_NewController r (Inr ())"

text \<open>A claim that is deleted leaves a volume to the sweep, and queues nothing.\<close>

fun vol_handler :: "claim event \<Rightarrow> queue_op list" where
  "vol_handler (Added obj) = vol_enqueue obj"
| "vol_handler (Updated _ obj) = vol_enqueue obj"
| "vol_handler (Deleted _) = []"

definition vol_queued :: "'v vol_controller \<Rightarrow> claim event \<Rightarrow> string set" where
  "vol_queued C ev = added (vol_handler ev)"

definition vol_processNext :: "'v vol_controller \<Rightarrow> string \<Rightarrow> 'v \<Rightarrow> string set \<times> bool" where
  "vol_processNext C key v = (case vol_turn C key v of (ops, _) \<Rightarrow> (added ops, Done key \<in> set ops))"

definition vol_ok :: "'v vol_controller \<Rightarrow> string \<Rightarrow> 'v \<Rightarrow> bool" where
  "vol_ok C key v \<longleftrightarrow>
     (\<forall>ns n. split_key key = Inr (ns, n) \<longrightarrow>
       (\<exists>r v1 v2. vol_reconcilerOf C ns v = (Inr r, v1) \<and> vol_Reconcile r ns n v1 = (Inr (), v2)))"

interpretation volq: level_triggered vol_queued vol_processNext vol_ok
  by unfold_locales (auto simp: vol_processNext_def vol_turn_def vol_ok_def bind_a_def split: prod.splits sum.splits if_splits)

section \<open>Policies\<close>

text \<open>Two queues, whose keys are told apart; a turn on a pod may queue a policy. Where a handler panics the process is gone and nothing is queued.\<close>

definition net_NewController :: "('r \<Rightarrow> 'w reconciler) \<Rightarrow> 'r option \<Rightarrow> unit result \<Rightarrow> unit result \<Rightarrow> ('w, 'r) controller result" where
  "net_NewController recs r onPods onPolicies = bind_r (newController recs r) (\<lambda>C. bind_r onPods (\<lambda>_. bind_r onPolicies (\<lambda>_. Inr C)))"

datatype net_event = PodEvent "pod event" | PolicyEvent "network_policy event"

definition net_handler :: "('w, 'r) controller \<Rightarrow> net_event \<Rightarrow> command list" where
  "net_handler C ev =
     (case ev of
        PodEvent pe \<Rightarrow> (case podHandler C pe of Inl _ \<Rightarrow> [] | Inr cs \<Rightarrow> cs)
      | PolicyEvent pe \<Rightarrow> policyHandler C pe)"

definition added_cmds :: "command list \<Rightarrow> (queue \<times> string) set" where
  "added_cmds cs = set (List.map_filter (\<lambda>(q, op). map_option (Pair q) (adds op)) cs)"

lemma added_cmds_simps [simp]:
  "added_cmds [] = {}" "added_cmds ((q, op) # cs) = (case adds op of None \<Rightarrow> added_cmds cs | Some k \<Rightarrow> insert (q, k) (added_cmds cs))"
  "added_cmds (cs @ cs') = added_cmds cs \<union> added_cmds cs'"
  by (auto simp: added_cmds_def List.map_filter_def split: option.splits)

definition net_queued :: "('w, 'r) controller \<Rightarrow> net_event \<Rightarrow> (queue \<times> string) set" where
  "net_queued C ev = added_cmds (net_handler C ev)"

definition net_processNext :: "('w, 'r) controller \<Rightarrow> queue \<times> string \<Rightarrow> ('w, 'r) cstate \<Rightarrow> (queue \<times> string) set \<times> bool" where
  "net_processNext C k st =
     (case k of (q, key) \<Rightarrow>
        (case (if q = PodQ then work_turn C key st else workPolicies_turn C key st) of
           (cs, _) \<Rightarrow> (added_cmds cs, (q, Done key) \<in> set cs)))"

definition net_ok :: "('w, 'r) controller \<Rightarrow> queue \<times> string \<Rightarrow> ('w, 'r) cstate \<Rightarrow> bool" where
  "net_ok C k st \<longleftrightarrow>
     (case k of
        (PodQ, key) \<Rightarrow> \<exists>i st'. reconcilerForKey C key = Inr i \<and> reconcilePodOf C i key st = (Inr (), st')
      | (PolicyQ, key) \<Rightarrow> \<exists>st'. syncPolicy C key st = (Inr (), st'))"

lemma net_retried: "net_processNext C k st = (again, True) \<Longrightarrow> net_ok C k st \<or> k \<in> again"
  by (cases k; cases "fst k") (auto simp: net_processNext_def net_ok_def work_turn_def workPolicies_turn_def split: prod.splits sum.splits if_splits option.splits)

interpretation netq: level_triggered net_queued net_processNext net_ok
  by unfold_locales (rule net_retried)

section \<open>Properties\<close>

text \<open>The Service an event is about: the object itself, or the one an endpoint slice is labelled with.\<close>

fun concerns :: "svc_event \<Rightarrow> string \<Rightarrow> string \<Rightarrow> bool" where
  "concerns (ServiceEvent ev) ns n = (case untombed (current ev) of None \<Rightarrow> False | Some svc \<Rightarrow> sv_namespace svc = ns \<and> sv_name svc = n)"
| "concerns (SliceEvent ev) ns n =
     (case untombed (current ev) of None \<Rightarrow> False
      | Some sl \<Rightarrow> sl_namespace sl = ns \<and> label_of (sl_labels sl) ''kubernetes.io/service-name'' = n \<and> n \<noteq> [])"

lemma concerns_queued: "concerns e ns n \<Longrightarrow> obj_key ns n \<in> svc_queued C e"
  by (cases "(e, ns, n)" rule: concerns.cases) (auto simp: svc_queued_def enqueueService_def enqueueSlice_def Let_def split: option.splits)

text \<open>
  No change to a Service or its endpoints is lost, in whatever order events, workers and failures come: after an event that concerns a Service it is
  waiting in the queue, or a worker took it up since, or a turn begun since reconciled it without an error, unless its namespace was no longer served then.
\<close>

theorem service_changes_kept:
  assumes "queue_run svc_queued svc_processNext tr p b" and "tr = later @ Event C e # earlier" and "concerns e ns n"
    and "CHR ''/'' \<notin> set ns" and "CHR ''/'' \<notin> set n"
  shows "obj_key ns n \<in> p \<or> (obj_key ns n \<in> b \<and> Got (obj_key ns n) \<in> set later) \<or>
    (\<exists>l1 C' v l2. later = l1 @ Turned C' (obj_key ns n) v # l2 \<and> Got (obj_key ns n) \<in> set l2 \<and>
       (svc_serves C' ns \<longrightarrow> (\<exists>r v1 v2. svc_reconcilerOf C' ns v = (Inr r, v1) \<and> Reconcile r ns n v1 = (Inr (), v2))))"
  using svcq.no_change_lost [OF assms(1,2) concerns_queued [OF assms(3)]] assms(4,5)
  unfolding dealt_with_def svc_ok_def by fastforce

text \<open>
  C11. A change to a policy reaches the pods: after a policy of a served namespace was made, changed or removed, every pod its namespace had in the cache is
  waiting for a worker, or was taken up since, or was reconciled since without an error; and after it was made or changed the same holds of the policy itself.
\<close>

theorem policy_changes_kept:
  assumes "queue_run net_queued net_processNext tr p b" and "tr = later @ Event C (PolicyEvent ev) # earlier" and "untombed (current ev) = Some pol"
    and "r_serves (main_rec C) (np_namespace pol)" and "l_In (r_pods (main_rec C)) (np_namespace pol) (everything (r_labels (main_rec C))) = Inr pods"
  shows "(\<forall>pd \<in> set pods. let k = obj_key (pod_namespace pd) (pod_name pd) in
      (PodQ, k) \<in> p \<or> ((PodQ, k) \<in> b \<and> Got (PodQ, k) \<in> set later) \<or>
      dealt_with (\<lambda>C' _ st. \<exists>i st'. reconcilerForKey C' k = Inr i \<and> reconcilePodOf C' i k st = (Inr (), st')) (PodQ, k) later) \<and>
    (let k = obj_key (np_namespace pol) (np_name pol) in
      (\<exists>obj. ev = Deleted obj) \<or> (PolicyQ, k) \<in> p \<or> ((PolicyQ, k) \<in> b \<and> Got (PolicyQ, k) \<in> set later) \<or>
      dealt_with (\<lambda>C' _ st. \<exists>st'. syncPolicy C' k st = (Inr (), st')) (PolicyQ, k) later)"
proof -
  have lost: "(q, k) \<in> net_queued C (PolicyEvent ev) \<Longrightarrow> (q, k) \<in> p \<or> ((q, k) \<in> b \<and> Got (q, k) \<in> set later) \<or> dealt_with net_ok (q, k) later" for q k
    by (rule netq.no_change_lost [OF assms(1,2)])
  have pods: "(PodQ, obj_key (pod_namespace pd) (pod_name pd)) \<in> net_queued C (PolicyEvent ev)" if "pd \<in> set pods" for pd
    using assms(3-5) that by (cases ev) (auto simp: net_queued_def net_handler_def enqueueNamespaceOf_def added_cmds_def List.map_filter_def)
  have pol: "(PolicyQ, obj_key (np_namespace pol) (np_name pol)) \<in> net_queued C (PolicyEvent ev)" if "\<nexists>obj. ev = Deleted obj"
    using assms(3,4) that by (cases ev) (auto simp: net_queued_def net_handler_def enqueuePolicy_def enqueuePolicyKey_def)
  from lost pods pol show ?thesis by (fastforce simp: Let_def dealt_with_def net_ok_def)
qed

lemma queue_run_finite:
  assumes "queue_run handler turn tr p b" and "\<And>c e. finite (handler c e)" and "\<And>c k v. finite (fst (turn c k v))"
  shows "finite p \<and> finite b"
  using assms(1)
proof (induction rule: queue_run.induct)
  case (work tr p b k c v again)
  with assms(3) [of c k v] show ?case by simp
qed (simp_all add: assms(2))

lemma finite_added [simp]: "finite (added ops)" by (simp add: added_def)


text \<open>The same of Ingresses and of claims; only the removal of a claim is left to the sweep.\<close>

theorem ingress_changes_kept:
  assumes "queue_run ing_queued ing_processNext tr p b" and "tr = later @ Event C (IngressEvent ev) # earlier" and "untombed (current ev) = Some ing"
    and "CHR ''/'' \<notin> set (in_namespace ing)" and "CHR ''/'' \<notin> set (in_name ing)"
  shows "let k = obj_key (in_namespace ing) (in_name ing) in k \<in> p \<or> (k \<in> b \<and> Got k \<in> set later) \<or>
    dealt_with (\<lambda>C' _ v. ing_serves C' (in_namespace ing) \<longrightarrow>
      (\<exists>r v1 v2. ing_reconcilerOf C' (in_namespace ing) v = (Inr r, v1) \<and> ing_Reconcile r (in_namespace ing) (in_name ing) v1 = (Inr (), v2))) k later"
proof -
  have "obj_key (in_namespace ing) (in_name ing) \<in> ing_queued C (IngressEvent ev)"
    using assms(3) by (simp add: ing_queued_def enqueueIngress_def)
  from ingq.no_change_lost [OF assms(1,2) this] assms(4,5) show ?thesis
    by (fastforce simp: dealt_with_def ing_ok_def Let_def)
qed

theorem claim_changes_kept:
  assumes "queue_run vol_queued vol_processNext tr p b" and "tr = later @ Event C ev # earlier" and "\<nexists>obj. ev = Deleted obj" and "untombed (current ev) = Some c"
    and "CHR ''/'' \<notin> set (cl_namespace c)" and "CHR ''/'' \<notin> set (cl_name c)"
  shows "let k = obj_key (cl_namespace c) (cl_name c) in k \<in> p \<or> (k \<in> b \<and> Got k \<in> set later) \<or>
    dealt_with (\<lambda>C' _ v. \<exists>r v1 v2. vol_reconcilerOf C' (cl_namespace c) v = (Inr r, v1) \<and> vol_Reconcile r (cl_namespace c) (cl_name c) v1 = (Inr (), v2)) k later"
proof -
  have "obj_key (cl_namespace c) (cl_name c) \<in> vol_queued C ev"
    using assms(3,4) by (cases ev) (simp_all add: vol_queued_def vol_enqueue_def)
  from volq.no_change_lost [OF assms(1,2) this] assms(5,6) show ?thesis
    by (fastforce simp: dealt_with_def vol_ok_def Let_def)
qed

section \<open>Samples\<close>

text \<open>A Service without an address is made; the first turn cannot read it and is repeated, the second can.\<close>

definition headless :: service_obj where
  "headless = sample_svc\<lparr>sv_clusterIP := ''None''\<rparr>"

definition reading :: "service_obj result \<Rightarrow> lb list svc_controller" where
  "reading answer =
     sample_svc_controller\<lparr>sw_main := sample_sweeper\<lparr>rc_services := \<lparr>l_List = (\<lambda>_. Inr []), l_In = (\<lambda>_ _. Inr []), l_Get = (\<lambda>_ _. answer)\<rparr>\<rparr>\<rparr>"

abbreviation made :: svc_event where "made \<equiv> ServiceEvent (Added (Plain headless))"

abbreviation sample_run :: "(lb list svc_controller, svc_event, string, lb list) qlabel list" where
  "sample_run \<equiv> [Turned (reading (Inr headless)) ''prod/web'' [], Got ''prod/web'', Turned (reading (Inl ErrNotFound)) ''prod/web'' [], Got ''prod/web'']"

lemma sample_keys: "concerns made ''prod'' ''web''" "obj_key ''prod'' ''web'' = ''prod/web''" "svc_queued C made = {''prod/web''}"
  by (simp_all add: headless_def sample_svc_def obj_key_def svc_queued_def enqueueService_def)

lemma sample_turns:
  "svc_processNext (reading (Inl ErrNotFound)) ''prod/web'' [] = ({''prod/web''}, True)" "svc_processNext (reading (Inr headless)) ''prod/web'' [] = ({}, True)"
proof -
  have "fst (svc_turn (reading (Inl ErrNotFound)) ''prod/web'' []) = [AddRateLimited ''prod/web'', Done ''prod/web'']"
    "fst (svc_turn (reading (Inr headless)) ''prod/web'' []) = [Forget ''prod/web'', Done ''prod/web'']"
    by code_simp+
  then show "svc_processNext (reading (Inl ErrNotFound)) ''prod/web'' [] = ({''prod/web''}, True)" "svc_processNext (reading (Inr headless)) ''prod/web'' [] = ({}, True)"
    by (simp_all add: svc_processNext_def case_prod_unfold)
qed

lemma queue_run_once:
  assumes "queue_run handler turn tr {k} {}" and "turn c k v = (again, True)"
  shows "queue_run handler turn (Turned c k v # Got k # tr) again {}"
proof -
  have "queue_run handler turn (Got k # tr) {} {k}" using queue_run.take [OF assms(1), of k] by simp
  from queue_run.work [OF this _ assms(2)] show ?thesis by simp
qed

lemma queue_run_first: "handler c e = {k} \<Longrightarrow> queue_run handler turn [Event c e] {k} {}"
  using queue_run.event [OF queue_run.idle, of handler turn c e] by simp

lemma retried_run:
  assumes "handler c e = {k}" and "turn c k v = ({k}, True)" and "turn c' k v' = ({}, True)"
  shows "queue_run handler turn [Turned c' k v', Got k, Turned c k v, Got k, Event c e] {} {}"
  by (intro queue_run_once [OF queue_run_once] queue_run_first assms)

lemma sample_run_runs: "queue_run svc_queued svc_processNext (sample_run @ [Event (reading (Inl ErrNotFound)) made]) {} {}"
  unfolding append_Cons append_Nil by (rule retried_run) (rule sample_keys(3) sample_turns)+

theorem service_changes_kept_witness:
  "\<exists>l1 C' v l2. sample_run = l1 @ Turned C' ''prod/web'' v # l2 \<and> Got ''prod/web'' \<in> set l2 \<and>
     (svc_serves C' ''prod'' \<longrightarrow> (\<exists>r v1 v2. svc_reconcilerOf C' ''prod'' v = (Inr r, v1) \<and> Reconcile r ''prod'' ''web'' v1 = (Inr (), v2)))"
proof -
  have "CHR ''/'' \<notin> set ''prod''" "CHR ''/'' \<notin> set ''web''" by simp_all
  from service_changes_kept [OF sample_run_runs refl sample_keys(1) this] show ?thesis
    unfolding sample_keys(2) by blast
qed

theorem policy_changes_kept_witness:
  "\<exists>p. queue_run net_queued net_processNext [Event sample_controller (PolicyEvent (Added (Plain sample_policy)))] p {} \<and>
     (PolicyQ, ''prod/web'') \<in> p \<and> (PodQ, ''prod/web-1'') \<in> p"
proof -
  let ?e = "PolicyEvent (Added (Plain sample_policy))"
  let ?pods = "l_In (r_pods (main_rec sample_controller)) (np_namespace sample_policy) (everything (r_labels (main_rec sample_controller)))"
  have run: "queue_run net_queued net_processNext [Event sample_controller ?e] ({} \<union> net_queued sample_controller ?e) {}"
    by (rule queue_run.event [OF queue_run.idle])
  have served: "r_serves (main_rec sample_controller) (np_namespace sample_policy)" by code_simp
  have "case ?pods of Inl _ \<Rightarrow> False | Inr pods \<Rightarrow> map (\<lambda>pd. obj_key (pod_namespace pd) (pod_name pd)) pods = [''prod/web-1'', ''prod/web-2'']"
    by code_simp
  then obtain pods where pods: "?pods = Inr pods" "map (\<lambda>pd. obj_key (pod_namespace pd) (pod_name pd)) pods = [''prod/web-1'', ''prod/web-2'']"
    by (cases ?pods) auto
  have "''prod/web-1'' \<in> set (map (\<lambda>pd. obj_key (pod_namespace pd) (pod_name pd)) pods)" unfolding pods(2) by simp
  then obtain pd where pd: "pd \<in> set pods" "''prod/web-1'' = obj_key (pod_namespace pd) (pod_name pd)" unfolding set_map by blast
  have key: "obj_key (np_namespace sample_policy) (np_name sample_policy) = ''prod/web''" by code_simp
  have "[Event sample_controller ?e] = [] @ Event sample_controller ?e # []" "untombed (current (Added (Plain sample_policy))) = Some sample_policy" by simp_all
  from policy_changes_kept [OF run this served pods(1)] pd(1)
  have "(PolicyQ, obj_key (np_namespace sample_policy) (np_name sample_policy)) \<in> {} \<union> net_queued sample_controller ?e"
    "(PodQ, obj_key (pod_namespace pd) (pod_name pd)) \<in> {} \<union> net_queued sample_controller ?e"
    by (auto simp: Let_def dealt_with_def)
  with run show ?thesis unfolding key pd(2) [symmetric] by blast
qed


end
