(* ===== verification/Probe_Helper.thy ===== *)
theory Probe_Helper
  imports Zun_Template Go_Flags
begin

text \<open>
  \<^verbatim>\<open>cmd/probe/main.go\<close>, the helper a rewritten probe runs in the container, down to its exit code, and what a probe of a pod comes to
  once it is rewritten and run. The request and the connection are parameters; so is the reading of a duration by the library, of which
  \<open>reads_seconds\<close> is what is relied on.
\<close>

section \<open>The command line\<close>

record probe_flags =
  fl_http :: string
  fl_tcp :: string
  fl_timeout :: time

definition probe_table :: "(string \<Rightarrow> time option) \<Rightarrow> probe_flags flag_table" where
  "probe_table dur =
     [(''http'', Valued (\<lambda>v f. Some (f\<lparr>fl_http := v\<rparr>))),
      (''tcp'', Valued (\<lambda>v f. Some (f\<lparr>fl_tcp := v\<rparr>))),
      (''timeout'', Valued (\<lambda>v f. map_option (\<lambda>d. f\<lparr>fl_timeout := d\<rparr>) (dur v)))]"

section \<open>The checks\<close>

definition httpProbe :: "(string \<Rightarrow> time \<Rightarrow> (int \<times> string) result) \<Rightarrow> string \<Rightarrow> time \<Rightarrow> unit result" where
  "httpProbe get url timeout =
     (case get url timeout of
        Inl e \<Rightarrow> Inl (ErrWrap (''GET '' @ url) e)
      | Inr (code, status) \<Rightarrow> if code < 200 \<or> code > 399 then Inl (ErrText (''GET '' @ url @ '': '' @ status)) else Inr ())"

text \<open>\<open>dial\<close> is the outcome of connecting, \<open>close\<close> that of closing the connection again.\<close>

definition tcpProbe :: "(string \<Rightarrow> time \<Rightarrow> unit result) \<Rightarrow> (string \<Rightarrow> unit result) \<Rightarrow> string \<Rightarrow> time \<Rightarrow> unit result" where
  "tcpProbe dial close addr timeout =
     (case dial addr timeout of Inl e \<Rightarrow> Inl (ErrWrap (''connect '' @ addr) e) | Inr _ \<Rightarrow> close addr)"

text \<open>The exit code and what is written to the standard error.\<close>

definition probe_main ::
  "(string \<Rightarrow> time option) \<Rightarrow> (string \<Rightarrow> time \<Rightarrow> (int \<times> string) result) \<Rightarrow> (string \<Rightarrow> time \<Rightarrow> unit result) \<Rightarrow> (string \<Rightarrow> unit result) \<Rightarrow> string list \<Rightarrow> nat \<times> string option" where
  "probe_main dur get dial close args =
     (case parse_args (probe_table dur) args \<lparr>fl_http = [], fl_tcp = [], fl_timeout = second\<rparr> of
        Inl code \<Rightarrow> (code, None)
      | Inr f \<Rightarrow>
          if fl_http f = [] \<and> fl_tcp f = [] then (2, Some ''probe: one of -http or -tcp is required'')
          else
            (case (if fl_http f \<noteq> [] then httpProbe get (fl_http f) (fl_timeout f) else tcpProbe dial close (fl_tcp f) (fl_timeout f)) of
               Inl e \<Rightarrow> (1, Some (''probe: '' @ err_text e))
             | Inr _ \<Rightarrow> (0, None)))"

section \<open>What a rewritten probe comes to\<close>

definition reads_seconds :: "(string \<Rightarrow> time option) \<Rightarrow> bool" where
  "reads_seconds dur \<longleftrightarrow> (\<forall>n. 0 < n \<and> n < 2 ^ 31 \<longrightarrow> dur (show_int n @ ''s'') = Some (n * second))"

definition probe_url :: "http_get \<Rightarrow> int \<Rightarrow> string" where
  "probe_url h port =
     (if hg_scheme h = ''HTTPS'' then ''https'' else ''http'') @ ''://127.0.0.1:'' @ show_int port @ (if hg_path h = [] then ''/'' else hg_path h)"

lemma parse_pair:
  assumes "mode \<in> {''http'', ''tcp''}" and "dur t = Some d"
  shows "parse_args (probe_table dur) [''-'' @ mode, v, ''-timeout'', t] f =
    Inr ((if mode = ''http'' then f\<lparr>fl_http := v\<rparr> else f\<lparr>fl_tcp := v\<rparr>)\<lparr>fl_timeout := d\<rparr>)"
proof -
  have "plain_name mode" using assms(1) by (auto simp: plain_name_def)
  moreover have "plain_name ''timeout''" by (simp add: plain_name_def)
  ultimately show ?thesis
    using assms parse_next [of mode "probe_table dur" _ v "[''-timeout'', t]" f] parse_next [of "''timeout''" "probe_table dur" _ t "[]"]
    by (auto simp: probe_table_def)
qed

lemma probe_main_http:
  assumes "dur t = Some d" and "url \<noteq> []"
  shows "fst (probe_main dur get dial close [''-http'', url, ''-timeout'', t]) = 0 \<longleftrightarrow> (\<exists>code status. get url d = Inr (code, status) \<and> 200 \<le> code \<and> code \<le> 399)"
  using parse_pair [of "''http''" dur t d url] assms
  by (auto simp: probe_main_def httpProbe_def split: sum.splits)

lemma probe_main_tcp:
  assumes "dur t = Some d" and "addr \<noteq> []"
  shows "fst (probe_main dur get dial close [''-tcp'', addr, ''-timeout'', t]) = 0 \<longleftrightarrow> dial addr d = Inr () \<and> close addr = Inr ()"
  using parse_pair [of "''tcp''" dur t d addr] assms
  by (auto simp: probe_main_def tcpProbe_def split: sum.splits)


text \<open>
  A path without a slash in front is put right behind the port, so the authority of the address ends in it and names no port; the kubelet puts the slash there.
\<close>

theorem slashless_path_in_port:
  assumes "hg_path h \<noteq> []" and "CHR ''/'' \<notin> set (hg_path h)" and "hg_scheme h = ''HTTP''"
  shows "\<exists>authority. probe_url h port = ''http://'' @ authority \<and> CHR ''/'' \<notin> set authority \<and> (\<exists>xs. authority = xs @ hg_path h)"
proof -
  have "CHR ''/'' \<notin> set (show_int port)"
    using show_nat_is_digits [of "nat port"] show_nat_is_digits [of "nat (- port)"] by (auto simp: show_int_def list_all_iff is_digit_def less_eq_char_def)
  with assms show ?thesis
    by (intro exI [of _ "''127.0.0.1:'' @ show_int port @ hg_path h"]) (auto simp: probe_url_def)
qed

section \<open>Samples\<close>

definition sample_duration :: "string \<Rightarrow> time option" where
  "sample_duration s = (if s \<noteq> [] \<and> last s = CHR ''s'' then map_option (\<lambda>n. n * second) (parse_int 64 (butlast s)) else None)"

lemma sample_duration_reads: "reads_seconds sample_duration"
  using parse_int_show_int [of 64] by (auto simp: reads_seconds_def sample_duration_def butlast_append)

definition sample_answers :: "string \<Rightarrow> time \<Rightarrow> (int \<times> string) result" where
  "sample_answers url timeout = (if url = ''http://127.0.0.1:80/up'' \<and> timeout = second then Inr (302, ''302 Found'') else Inl ErrNotFound)"


end
