(* ===== verification/Spec2Isabelle.thy ===== *)
theory Spec2Isabelle
  imports Neutron_Memory Netpol_Controller Vk_Scoped Provider_Sync Provider_Orphans Node_Health Service_Controller Ingress_Controller Volume_Reconciler
    Provider_Stats Provider_Access Provider_Run Vk_Flags Os_Clients Ingress_Bundle Work_Queue Probe_Helper
begin

text \<open>
  Verification of kubezun, a virtual kubelet that runs the pods of tenants as Zun capsules.

  \<^bold>\<open>The program.\<close> One process registers virtual nodes and serves the namespaces of one tenant or of several. The pod controller of
  virtual-kubelet hands it pods; its provider turns each into a capsule of OpenStack Zun, reports the capsule's state back as the pod's status, and removes
  capsules nobody owns. Beside it run four controllers, each a queue, a reconciler and a sweep: NetworkPolicies become Neutron
  security groups, Services become Octavia load balancers, Ingresses become L7 load balancers with certificates in Barbican, and claims become Cinder volumes or
  Manila shares. With several tenants each namespace's work is done with its tenant's own credential: the watcher of namespaces says which tenant
  a namespace is of, the resolver turns a tenant into a session, and each reconciler is copied per tenant. All of it is below \<^verbatim>\<open>src/\<close>.

  \<^bold>\<open>How it is modelled.\<close> A struct is a record, an enumeration a datatype, an error a value of \<^typ>\<open>err\<close>. A call on a service is a
  function on the world that may fail (\<open>act\<close> in \<^verbatim>\<open>Prelude\<close>); the clients of Kubernetes, OpenStack and the file system are records of such functions, and
  what the code relies on of them are named laws, each shown to be met by a memory that implements them. A method is a function that returns the
  changed state; an early return is the first error of a sequence of calls. A map that is iterated over is an association list in the order of the iteration.
  Integers are \<^typ>\<open>int\<close> or \<^typ>\<open>nat\<close>, and words or explicit wrap-around where the width shows (\<^verbatim>\<open>Provider_Stats\<close>, \<^verbatim>\<open>Volume_Backend\<close>, \<open>to_int32\<close> in \<^verbatim>\<open>Vk_Set\<close>).

  \<^bold>\<open>The theories.\<close>
  \<^item> \<^verbatim>\<open>Prelude\<close>, \<^verbatim>\<open>Kube\<close>, \<^verbatim>\<open>Go_Parse\<close>, \<^verbatim>\<open>Go_Flags\<close>: results, calls and their invariants; Kubernetes objects, listers, queue keys; the parsers of the Go library that are used, and its
    command lines: what is given is read back.
  \<^item> \<^verbatim>\<open>Netpol_Translate\<close>, \<^verbatim>\<open>Netpol_Ruleset\<close> (\<^verbatim>\<open>pkg/netpol/translate.go\<close>, \<^verbatim>\<open>ruleset.go\<close>): a policy as rules. Against a semantics of packets: the rules never
    admit more than Kubernetes documents for the policy, and exactly that where nothing was refused.
  \<^item> \<^verbatim>\<open>Netpol_Neutron\<close>, \<^verbatim>\<open>Neutron_Memory\<close> (\<^verbatim>\<open>neutron.go\<close>, \<^verbatim>\<open>migrate.go\<close>): groups, rules, address groups, the sweep and the two-phase conversion; the
    sweep removes no group that is in use. \<^verbatim>\<open>Neutron_Memory\<close> is an instance of the laws.
  \<^item> \<^verbatim>\<open>Netpol_Reconciler\<close>, \<^verbatim>\<open>Netpol_Controller\<close>: the groups of a pod's port, alignment, peers, queues. What a port admits is exactly what
    the policies of the pod's namespace say.
  \<^item> \<^verbatim>\<open>Vk_Namespaces\<close>, \<^verbatim>\<open>Vk_Scoped\<close>, \<^verbatim>\<open>Vk_Set\<close> (\<^verbatim>\<open>pkg/vknode\<close>): the served namespaces, the factories that follow them, the nodes of a process as a machine, the
    serving certificate, objects read on demand.
  \<^item> \<^verbatim>\<open>Tenant_Resolver\<close>, \<^verbatim>\<open>Tenant_Session\<close> (\<^verbatim>\<open>pkg/tenant\<close>), \<^verbatim>\<open>Capsule_Source\<close> (\<^verbatim>\<open>zun/resolved.go\<close>, \<^verbatim>\<open>provider/capsules.go\<close>): a namespace's credential. A session is handed out only
    when its project and region agree with what is recorded, and a record is never overwritten.
  \<^item> \<^verbatim>\<open>Zun_Capsule\<close>, \<^verbatim>\<open>Zun_Template\<close>, \<^verbatim>\<open>Zun_Exec\<close> (\<^verbatim>\<open>pkg/zun\<close>): capsules and their phases; a pod as a template, with validation, security context, probes
    and files; logs, commands, sessions, zones. \<^verbatim>\<open>Probe_Helper\<close> (\<^verbatim>\<open>cmd/probe\<close>): the helper a rewritten probe runs, which passes exactly when the probe of the pod would.
  \<^item> \<^verbatim>\<open>Provider_State\<close>, \<^verbatim>\<open>Provider_Prepare\<close>, \<^verbatim>\<open>Provider_Sync\<close>, \<^verbatim>\<open>Provider_Orphans\<close>, \<^verbatim>\<open>Provider_Access\<close>, \<^verbatim>\<open>Provider_Stats\<close>, \<^verbatim>\<open>Node_Health\<close> (\<^verbatim>\<open>pkg/provider\<close>, \<^verbatim>\<open>pkg/node\<close>): pods
    as the node tracks them; what is read before a capsule is made; the status loop, which fails or readies a pod only on evidence; the orphan sweep, which spares
    what it cannot judge; logs, exec and attach; usage; the node object and its health. \<^verbatim>\<open>Provider_Run\<close> puts the calls and the loops together: however they interleave, a capsule is taken away only on
    grounds, and a cycle in steps is the cycle of \<^verbatim>\<open>syncOnce\<close>.
  \<^item> \<^verbatim>\<open>Service_Octavia\<close>, \<^verbatim>\<open>Service_Reconciler\<close>, \<^verbatim>\<open>Service_Controller\<close> (\<^verbatim>\<open>pkg/service\<close>), \<^verbatim>\<open>Ingress_L7\<close>, \<^verbatim>\<open>Ingress_Reconciler\<close>, \<^verbatim>\<open>Ingress_Controller\<close> (\<^verbatim>\<open>pkg/ingress\<close>), \<^verbatim>\<open>Volume_Backend\<close>,
    \<^verbatim>\<open>Volume_Reconciler\<close> (\<^verbatim>\<open>pkg/volume\<close>): load balancers, routing and storage: members, L7 policies that route as the Ingress asks, sweeps that keep what is needed,
    provisioning that leaks nothing. \<^verbatim>\<open>Ingress_Bundle\<close> (\<^verbatim>\<open>barbican.go\<close>): the bundle of a certificate and its key, which is complete or not made.
  \<^item> \<^verbatim>\<open>Work_Queue\<close> (the \<^verbatim>\<open>controller.go\<close> of each package): the handlers and workers of the four controllers as runs in which events, turns and failures interleave; no change is lost.
  \<^item> \<^verbatim>\<open>Vk_Tenants\<close>, \<^verbatim>\<open>Vk_Main\<close> (\<^verbatim>\<open>cmd/virtual-kubelet\<close>): the copies of the reconcilers per tenant, which never reach another tenant; the flags, the nodes and what is put together from them. \<^verbatim>\<open>Vk_Flags\<close>: the command line, of which every flag writes its own setting.
  \<^item> \<^verbatim>\<open>Os_Clients\<close> (the \<^verbatim>\<open>client.go\<close> of each package, the addresses and times of \<^verbatim>\<open>zun/capsule.go\<close>, \<^verbatim>\<open>cmd/nptest\<close>): which endpoint and version a client speaks.
  \<^item> This theory: what spans them, the boundary of the served namespaces and the division of the load balancers between the two sweeps.

  \<^bold>\<open>Interfaces.\<close> A contract several components rely on is a locale: \<open>lister_contract\<close> for the caches of Kubernetes objects, \<open>served_set\<close> for the watcher, \<open>scoped_reads\<close> for the listers that follow it,
  \<open>capsule_source\<close> for where a pod's API comes from, \<open>subnet_resolver\<close> for where a member's subnet does, \<open>tenant_cache\<close> for the copies per tenant, \<open>level_triggered\<close> for a worker that settles a key or puts it back. Each is interpreted on the definitions of the component that provides it.

  \<^bold>\<open>Fuel.\<close> Waiting for a load balancer takes 152 turns, as five minutes of polls two seconds apart do; waiting for storage to grow takes 41, two minutes
  of polls three seconds apart; both are shown to be enough, as more fuel changes nothing. Following a log takes as many polls as the caller's context lasts. Reading the blocks of a
  certificate takes one turn more than the text is long, since a block takes up some of it; no run of it is cut short. Every other loop is structural, or has a measure.

  \<^bold>\<open>Where the code does not do what it means to.\<close> Where a definition faithful to the code has a behaviour a comment rules out, the theorem says what happens instead, such as
  \<open>tokens_never_renewed\<close>, \<open>template_never_prepared\<close>, \<open>late_annotation_unseen\<close> or \<open>namespace_selector_admits_nobody\<close>; the text before it says why.

  \<^bold>\<open>Not modelled.\<close> Goroutines, tickers, locks and contexts: an operation is one step, and what may happen between two steps is a hypothesis or an event. Transport: HTTP, JSON, TLS
  and websockets. The cryptography of certificates, keys and bundles and the catalog of the cloud are parameters. The machinery of informers, the order and delays of work queues, and virtual-kubelet's own controllers
  are libraries. Logging, events beyond their text, and metrics formatting of floating-point numbers are left out; so are accessors of one field and the generated wrappers of listers.
\<close>

section \<open>Across the components\<close>

text \<open>
  C1. The served namespaces are the boundary: whatever the flags and the sources of capsules are, a pod in a namespace the watcher does not know is neither created, updated nor
  deleted by a node of the process, nothing is called for it, and no lookup tells it from a pod that does not exist.
\<close>

theorem boundary_holds:
  assumes "vs_watched S" and "TenantOf n (pod_namespace pod) = None"
  shows "let cfg = providerConfig opts (set_Serves S n) sp netFor; refusal = Inl (not_served cfg (pod_namespace pod)) in
    CreatePod cfg src pr now pod w = (refusal, w) \<and> UpdatePod cfg src pr now pod w = (refusal, w) \<and> DeletePod cfg src now pod w = (refusal, w) \<and>
    GetPod cfg (snd w) (pod_namespace pod) (pod_name pod) = Inl (not_served cfg (pod_namespace pod)) \<and> isNotFound (not_served cfg (pod_namespace pod))"
proof -
  let ?cfg = "providerConfig opts (set_Serves S n) sp netFor"
  have "\<not> Serves n (pod_namespace pod)" using assms(2) by (simp add: nsw.serves_iff)
  then have refused: "authorize ?cfg (pod_namespace pod) = Inl (not_served ?cfg (pod_namespace pod))"
    using assms(1) by (simp add: authorize_def providerConfig_def set_Serves_def)
  have kept: "recovered op (not_served ?cfg ns) = not_served ?cfg ns" "isNotFound (not_served ?cfg ns)" for op ns
    by (simp_all add: not_served_def)
  show ?thesis
    by (simp add: CreatePod_def UpdatePod_def DeletePod_def GetPod_def recoverAs_def with_err_def bind_a_def lift_r_def refused kept Let_def del: authorize_iff)
qed

definition sample_shared :: vk_set where
  "sample_shared = \<lparr>vs_watched = True, vs_fixed = [], vs_resync = 1, vs_workers = 1, vs_lease = 40, vs_podsByNode = [], vs_nodes = []\<rparr>"

definition sample_boundary :: "(capsule list) config" where
  "sample_boundary = providerConfig sample_flags (set_Serves sample_shared two_served) (hd sample_specs) None"

theorem boundary_holds_witness:
  "CreatePod sample_boundary sample_source sample_prep 3 sample_pod (sample_capsules, New) = (Inl (not_served sample_boundary ''prod''), (sample_capsules, New)) \<and>
   isNotFound (not_served sample_boundary ''prod'')"
proof -
  have "vs_watched sample_shared" "TenantOf two_served (pod_namespace sample_pod) = None"
    by (simp_all add: sample_shared_def sample_pod_def TenantOf_def two_served_def lookup_update)
  from boundary_holds [OF this, of sample_flags "hd sample_specs" None sample_source sample_prep 3 "(sample_capsules, New)"]
  have "CreatePod sample_boundary sample_source sample_prep 3 sample_pod (sample_capsules, New) = (Inl (not_served sample_boundary (pod_namespace sample_pod)), (sample_capsules, New)) \<and>
    isNotFound (not_served sample_boundary (pod_namespace sample_pod))"
    unfolding sample_boundary_def Let_def by blast
  moreover have "pod_namespace sample_pod = ''prod''" by (simp add: sample_pod_def)
  ultimately show ?thesis by simp
qed

text \<open>
  The Service sweep and the Ingress sweep of a tenant divide the load balancers between them: no
  name is read as a Service's by the one and as an Ingress's by the other.
\<close>

theorem sweeps_divide: "parseLBName r name = None \<or> ParseLBName (rc_tenant r) name = None"
proof -
  let ?p = "''kubezun_'' @ rc_tenant r @ ''_''"
  have "parseLBName r name = None" if "has_prefix name (?p @ ''ing_'')"
  proof -
    from that obtain rest where "name = ?p @ (''ing_'' @ rest)" by (auto simp: has_prefix_iff)
    then have "has_prefix name ?p" "trim_prefix name ?p = ''ing_'' @ rest" by (simp_all only: has_prefix_append trim_prefix_append)
    then show ?thesis unfolding parseLBName_def Let_def by (simp add: has_prefix_def)
  qed
  then show ?thesis by (auto simp: ParseLBName_def Let_def)
qed

end
